(* ===== verification/Prelude.thy ===== *)
theory Prelude
  imports Main "HOL-Library.Word" "HOL-Library.List_Lexorder" "HOL-Library.Char_ord"
begin

text \<open>
  Shared vocabulary of the development: the machine types of the source, \<open>Result\<close> and
  panicking runs, and the part of Rust's standard library the modelled functions call on
  strings and integers (\<open>split_once\<close>, \<open>split\<close>, \<open>strip_prefix\<close>, \<open>join\<close>, decimal parsing and
  zero-padded printing, saturating \<open>u64\<close> arithmetic).  A Rust \<open>str\<close>, \<open>OsStr\<close> or byte slice
  is its sequence of bytes, and a byte is a \<^typ>\<open>char\<close>; comparison of strings is the
  bytewise lexicographic order, as in Rust.
\<close>

named_theorems str_simps \<open>rewrite rules for the string functions of the standard library\<close>
named_theorems res_simps \<open>rewrite rules for results and panicking runs\<close>

type_synonym u8 = "8 word"
type_synonym u32 = "32 word"
type_synonym u64 = "64 word"
type_synonym bytes = string

section \<open>Results, panics\<close>

text \<open>\<open>Result<T, E>\<close>: \<open>Inl\<close> is \<open>Err\<close>, \<open>Inr\<close> is \<open>Ok\<close>.\<close>

abbreviation Err :: "'e \<Rightarrow> 'e + 'a" where "Err \<equiv> Inl"
abbreviation Ok :: "'a \<Rightarrow> 'e + 'a" where "Ok \<equiv> Inr"

text \<open>A call that may panic (\<open>assert!\<close>, \<open>unwrap\<close>, \<open>expect\<close>).\<close>

datatype 'a run = Panic | Ret (the_ret: 'a)

text \<open>
  \<open>anyhow::Error\<close> is a chain of messages, the outermost context first; interpolated values
  are left out of the messages.
\<close>

type_synonym anyhow = "string list"

definition context_msg :: "string \<Rightarrow> anyhow \<Rightarrow> anyhow" where
  "context_msg m e = m # e"

text \<open>The \<open>?\<close> operator and \<open>map_err\<close>.\<close>

definition try_bind :: "'e + 'a \<Rightarrow> ('a \<Rightarrow> 'e + 'b) \<Rightarrow> 'e + 'b" where
  "try_bind r f = (case r of Inl e \<Rightarrow> Inl e | Inr a \<Rightarrow> f a)"

definition map_err :: "('e \<Rightarrow> 'f) \<Rightarrow> 'e + 'a \<Rightarrow> 'f + 'a" where
  "map_err f r = (case r of Inl e \<Rightarrow> Inl (f e) | Inr a \<Rightarrow> Inr a)"

definition is_ok :: "'e + 'a \<Rightarrow> bool" where
  "is_ok r = (case r of Inl _ \<Rightarrow> False | Inr _ \<Rightarrow> True)"

lemma try_bind_simps [simp, res_simps]:
  "try_bind (Inl e) f = Inl e" "try_bind (Inr a) f = f a"
  by (simp_all add: try_bind_def)

lemma map_err_simps [simp, res_simps]:
  "map_err f (Inl e) = Inl (f e)" "map_err f (Inr a) = Inr a"
  by (simp_all add: map_err_def)

lemma is_ok_simps [simp, res_simps]: "\<not> is_ok (Inl e)" "is_ok (Inr a)"
  by (simp_all add: is_ok_def)

lemma find_in_set: "find P xs = Some x \<Longrightarrow> x \<in> set xs \<and> P x"
  by (auto simp: find_Some_iff)

lemma try_bind_eq_Ok: "try_bind r f = Inr b \<longleftrightarrow> (\<exists>a. r = Inr a \<and> f a = Inr b)"
  by (cases r) auto

lemma map_err_eq_Ok [simp]: "map_err f r = Inr a \<longleftrightarrow> r = Inr a"
  by (cases r) auto

section \<open>Strings\<close>

fun strip_prefix :: "string \<Rightarrow> string \<Rightarrow> string option" where
  "strip_prefix [] s = Some s"
| "strip_prefix (p # ps) [] = None"
| "strip_prefix (p # ps) (c # cs) = (if p = c then strip_prefix ps cs else None)"

definition starts_with :: "string \<Rightarrow> string \<Rightarrow> bool" where
  "starts_with s p = (strip_prefix p s \<noteq> None)"

definition ends_with :: "string \<Rightarrow> string \<Rightarrow> bool" where
  "ends_with s p = starts_with (rev s) (rev p)"

fun split_once :: "char \<Rightarrow> string \<Rightarrow> (string \<times> string) option" where
  "split_once c [] = None"
| "split_once c (x # xs) =
     (if x = c then Some ([], xs)
      else (case split_once c xs of None \<Rightarrow> None | Some (a, b) \<Rightarrow> Some (x # a, b)))"

fun split_on :: "char \<Rightarrow> string \<Rightarrow> string list" where
  "split_on c [] = [[]]"
| "split_on c (x # xs) =
     (if x = c then [] # split_on c xs
      else (case split_on c xs of [] \<Rightarrow> [[x]] | p # ps \<Rightarrow> (x # p) # ps))"

fun join :: "string \<Rightarrow> string list \<Rightarrow> string" where
  "join sep [] = []"
| "join sep [x] = x"
| "join sep (x # y # zs) = x @ sep @ join sep (y # zs)"

text \<open>\<open>str::replace\<close> with a one-character pattern.\<close>

definition replace_char :: "char \<Rightarrow> string \<Rightarrow> string \<Rightarrow> string" where
  "replace_char c r s = concat (map (\<lambda>x. if x = c then r else [x]) s)"

lemma strip_prefix_eq_Some [str_simps]: "strip_prefix p s = Some t \<longleftrightarrow> s = p @ t"
  by (induction p s rule: strip_prefix.induct) auto

lemma strip_prefix_append [simp]: "strip_prefix p (p @ s) = Some s"
  by (simp add: strip_prefix_eq_Some)

lemma starts_with_iff [str_simps]: "starts_with s p \<longleftrightarrow> (\<exists>t. s = p @ t)"
  by (auto simp: starts_with_def strip_prefix_eq_Some)

lemma ends_with_iff [str_simps]: "ends_with s p \<longleftrightarrow> (\<exists>t. s = t @ p)"
proof
  assume "ends_with s p"
  then obtain t where "rev s = rev p @ t" by (auto simp: ends_with_def starts_with_iff)
  then have "s = rev t @ p" by (metis rev_append rev_rev_ident)
  then show "\<exists>t. s = t @ p" by blast
qed (auto simp: ends_with_def starts_with_iff)

lemma split_once_append [simp]: "c \<notin> set a \<Longrightarrow> split_once c (a @ c # b) = Some (a, b)"
  by (induction a) auto

lemma split_once_eq_Some:
  "split_once c s = Some (a, b) \<longleftrightarrow> s = a @ c # b \<and> c \<notin> set a"
proof
  show "split_once c s = Some (a, b) \<Longrightarrow> s = a @ c # b \<and> c \<notin> set a"
    by (induction s arbitrary: a) (auto split: option.splits if_splits)
qed auto

lemma split_on_not_Nil [simp]: "split_on c s \<noteq> []"
  by (cases s) (auto split: list.splits)

lemma split_on_no_sep: "c \<notin> set s \<Longrightarrow> split_on c s = [s]"
  by (induction s) auto

lemma split_on_append_sep: "c \<notin> set a \<Longrightarrow> split_on c (a @ c # b) = a # split_on c b"
  by (induction a) auto

lemma split_on_join:
  "xs \<noteq> [] \<Longrightarrow> \<forall>x \<in> set xs. c \<notin> set x \<Longrightarrow> split_on c (join [c] xs) = xs"
  by (induction "[c]" xs rule: join.induct) (auto simp: split_on_no_sep split_on_append_sep)

lemma join_split_on: "join [c] (split_on c s) = s"
proof (induction s)
  case (Cons x xs)
  obtain p ps where "split_on c xs = p # ps"
    by (cases "split_on c xs") auto
  then show ?case using Cons by (cases ps) auto
qed simp

lemma replace_char_simps [simp]:
  "replace_char c r [] = []"
  "replace_char c r (x # xs) = (if x = c then r else [x]) @ replace_char c r xs"
  by (simp_all add: replace_char_def)

lemma replace_char_append [simp]:
  "replace_char c r (a @ b) = replace_char c r a @ replace_char c r b"
  by (simp add: replace_char_def)

lemma replace_char_removes: "c \<notin> set r \<Longrightarrow> c \<notin> set (replace_char c r s)"
  by (induction s) auto

lemma set_replace_char: "set (replace_char c r s) \<subseteq> set s \<union> set r"
  by (induction s) auto

lemma replace_char_Nil_iff: "r \<noteq> [] \<Longrightarrow> replace_char c r s = [] \<longleftrightarrow> s = []"
  by (cases s) auto

section \<open>The bytewise order on strings\<close>

lemma append_less_eq_length [str_simps]:
  fixes a b :: string
  assumes "length a = length b"
  shows "a @ x < b @ y \<longleftrightarrow> a < b \<or> a = b \<and> x < y"
  using assms by (induction a b rule: list_induct2) auto

lemma append_less_same [simp]: "(a::string) @ x < a @ y \<longleftrightarrow> x < y"
  by (induction a) auto

lemma less_append_nonempty [simp]: "x \<noteq> [] \<Longrightarrow> (a::string) < a @ x"
  by (induction a) (auto simp: neq_Nil_conv)

lemma Nil_less_iff [simp]: "[] < (s::string) \<longleftrightarrow> s \<noteq> []"
  by (cases s) simp_all

lemma map_insort_key: "map f (insort_key f x xs) = insort (f x) (map f xs)"
  by (induction xs) auto

lemma map_sort_key: "map f (sort_key f xs) = sort (map f xs)"
  by (induction xs) (auto simp: map_insort_key)

section \<open>Decimal numbers\<close>

definition digit_char :: "nat \<Rightarrow> char" where
  "digit_char d = char_of (48 + d)"

definition is_ascii_digit :: "char \<Rightarrow> bool" where
  "is_ascii_digit c = (48 \<le> (of_char c :: nat) \<and> (of_char c :: nat) \<le> 57)"

definition digit_val :: "char \<Rightarrow> nat" where
  "digit_val c = of_char c - 48"

fun dec :: "nat \<Rightarrow> string" where
  "dec n = (if n < 10 then [digit_char n] else dec (n div 10) @ [digit_char (n mod 10)])"

declare dec.simps [simp del]

definition dec_val :: "string \<Rightarrow> nat" where
  "dec_val s = foldl (\<lambda>v c. 10 * v + digit_val c) 0 s"

text \<open>The digits of an unsigned integer literal: at least one, nothing else.\<close>

definition parse_digits :: "string \<Rightarrow> nat option" where
  "parse_digits s = (if s \<noteq> [] \<and> list_all is_ascii_digit s then Some (dec_val s) else None)"

text \<open>A hexadecimal digit.\<close>

lemma less_16_cases:
  fixes n :: nat
  assumes "n < 16"
  shows "n \<in> {0, 1, 2, 3, 4, 5, 6, 7, 8, 9, 10, 11, 12, 13, 14, 15}"
  using assms by (simp, arith)

text \<open>\<open>str::parse::<u64>\<close>: an optional \<open>+\<close>, then digits; an error on overflow.\<close>

definition parse_u64 :: "string \<Rightarrow> u64 option" where
  "parse_u64 s =
     (case parse_digits (case strip_prefix ''+'' s of Some t \<Rightarrow> t | None \<Rightarrow> s) of
        None \<Rightarrow> None
      | Some n \<Rightarrow> if n < 2 ^ 64 then Some (of_nat n) else None)"

text \<open>\<open>str::parse::<i64>\<close>: an optional sign, then digits; an error on overflow.\<close>

definition parse_i64 :: "string \<Rightarrow> int option" where
  "parse_i64 s =
     (case strip_prefix ''-'' s of
        Some t \<Rightarrow>
          (case parse_digits t of
             None \<Rightarrow> None
           | Some n \<Rightarrow> if n \<le> 2 ^ 63 then Some (- int n) else None)
      | None \<Rightarrow>
          (case parse_digits (case strip_prefix ''+'' s of Some t \<Rightarrow> t | None \<Rightarrow> s) of
             None \<Rightarrow> None
           | Some n \<Rightarrow> if n < 2 ^ 63 then Some (int n) else None))"

text \<open>The format \<open>{n:0w}\<close> of a signed integer: the sign counts for the width.\<close>

definition pad_zeros :: "nat \<Rightarrow> string \<Rightarrow> string" where
  "pad_zeros w s = replicate (w - length s) CHR ''0'' @ s"

definition fmt_padded :: "nat \<Rightarrow> int \<Rightarrow> string" where
  "fmt_padded w n =
     (if n < 0 then CHR ''-'' # pad_zeros (w - 1) (dec (nat (- n))) else pad_zeros w (dec (nat n)))"

lemma of_char_digit_char: "d < 10 \<Longrightarrow> (of_char (digit_char d) :: nat) = 48 + d"
  by (simp add: digit_char_def)

lemma digit_char_ok [simp]: "d < 10 \<Longrightarrow> is_ascii_digit (digit_char d)"
  "d < 10 \<Longrightarrow> digit_val (digit_char d) = d"
  by (simp_all add: is_ascii_digit_def digit_val_def of_char_digit_char)

lemma digit_char_less: "d < 10 \<Longrightarrow> e < 10 \<Longrightarrow> digit_char d < digit_char e \<longleftrightarrow> d < e"
  by (simp add: less_char_def of_char_digit_char)

lemma digit_char_0: "digit_char 0 = CHR ''0''"
  unfolding digit_char_def by code_simp

lemma dec_not_Nil [simp]: "dec n \<noteq> []"
  by (subst dec.simps) simp

lemma dec_digits: "list_all is_ascii_digit (dec n)"
proof (induction n rule: dec.induct)
  case (1 n)
  then show ?case by (subst dec.simps) simp
qed

lemma dec_val_snoc [simp]: "dec_val (s @ [c]) = 10 * dec_val s + digit_val c"
  by (simp add: dec_val_def)

lemma dec_val_Nil [simp]: "dec_val [] = 0"
  by (simp add: dec_val_def)

lemma dec_val_dec [simp]: "dec_val (dec n) = n"
proof (induction n rule: dec.induct)
  case (1 n)
  show ?case
  proof (cases "n < 10")
    case True
    then show ?thesis by (subst dec.simps) (simp add: dec_val_def)
  next
    case False
    with 1 show ?thesis by (subst dec.simps) simp
  qed
qed

lemma parse_digits_dec [simp]: "parse_digits (dec n) = Some n"
  by (simp add: parse_digits_def dec_digits)

lemma ascii_digit_not_sign: "is_ascii_digit c \<Longrightarrow> c \<noteq> CHR ''-'' \<and> c \<noteq> CHR ''+'' \<and> c \<noteq> CHR ''.''"
  by (auto simp: is_ascii_digit_def)

subsection \<open>Fixed-width decimals\<close>

text \<open>The low \<open>k\<close> decimal digits of a number, most significant first.\<close>

fun fixed_dec :: "nat \<Rightarrow> nat \<Rightarrow> string" where
  "fixed_dec 0 n = []"
| "fixed_dec (Suc k) n = fixed_dec k (n div 10) @ [digit_char (n mod 10)]"

lemma length_fixed_dec [simp]: "length (fixed_dec k n) = k"
  by (induction k arbitrary: n) auto

lemma fixed_dec_digits: "list_all is_ascii_digit (fixed_dec k n)"
  by (induction k arbitrary: n) auto

lemma fixed_dec_zero: "fixed_dec k 0 = replicate k CHR ''0''"
  by (induction k) (auto simp: digit_char_0 replicate_append_same)

lemma pad_zeros_dec:
  assumes "n < 10 ^ Suc k"
  shows "pad_zeros (Suc k) (dec n) = fixed_dec (Suc k) n"
  using assms
proof (induction k arbitrary: n)
  case 0
  then show ?case by (subst dec.simps) (simp add: pad_zeros_def)
next
  case (Suc k)
  show ?case
  proof (cases "n < 10")
    case True
    then show ?thesis
      by (subst dec.simps) (simp add: pad_zeros_def fixed_dec_zero digit_char_0)
  next
    case False
    have "n div 10 < 10 ^ Suc k" using Suc.prems by (simp add: div_less_iff_less_mult)
    from Suc.IH [OF this] have "pad_zeros (Suc k) (dec (n div 10)) = fixed_dec (Suc k) (n div 10)" .
    with False show ?thesis by (subst dec.simps) (simp add: pad_zeros_def)
  qed
qed

lemma dec_val_fixed_dec: "n < 10 ^ k \<Longrightarrow> dec_val (fixed_dec k n) = n"
  by (induction k arbitrary: n) (auto simp: div_less_iff_less_mult)

lemma fixed_dec_less:
  "a < 10 ^ k \<Longrightarrow> b < 10 ^ k \<Longrightarrow> fixed_dec k a < fixed_dec k b \<longleftrightarrow> a < b"
proof (induction k arbitrary: a b)
  case (Suc k)
  let ?x = "a div 10" and ?y = "b div 10"
  have x: "?x < 10 ^ k" and y: "?y < 10 ^ k"
    using Suc.prems by (simp_all add: div_less_iff_less_mult)
  have eq: "fixed_dec k ?x = fixed_dec k ?y \<longleftrightarrow> ?x = ?y"
    using dec_val_fixed_dec [OF x] dec_val_fixed_dec [OF y] by metis
  have "fixed_dec (Suc k) a < fixed_dec (Suc k) b \<longleftrightarrow>
      ?x < ?y \<or> ?x = ?y \<and> a mod 10 < b mod 10"
    by (simp add: append_less_eq_length eq Suc.IH [OF x y] digit_char_less)
  also have "\<dots> \<longleftrightarrow> a < b"
    using div_mult_mod_eq [of a 10] div_mult_mod_eq [of b 10]
      mod_less_divisor [of 10 a] mod_less_divisor [of 10 b] by linarith
  finally show ?case .
qed simp

lemma fmt_padded_nonneg:
  "0 \<le> n \<Longrightarrow> n < 10 ^ Suc k \<Longrightarrow> fmt_padded (Suc k) n = fixed_dec (Suc k) (nat n)"
  unfolding fmt_padded_def by (simp add: pad_zeros_dec nat_less_iff del: fixed_dec.simps)

lemma parse_i64_unsigned:
  assumes "s \<noteq> []" "list_all is_ascii_digit s" "dec_val s < 2 ^ 63"
  shows "parse_i64 s = Some (int (dec_val s))"
proof -
  obtain c t where s: "s = c # t" using assms(1) by (cases s) auto
  then have "c \<noteq> CHR ''-''" "c \<noteq> CHR ''+''"
    using assms(2) ascii_digit_not_sign by auto
  moreover have "parse_digits (c # t) = Some (dec_val s)"
    using assms(2) s by (simp add: parse_digits_def)
  ultimately show ?thesis
    using assms(3) s by (simp add: parse_i64_def)
qed

section \<open>Unsigned 64-bit arithmetic\<close>

text \<open>\<open>u64::saturating_sub\<close> and \<open>u64::saturating_add\<close>; plain \<open>+\<close> and \<open>*\<close> wrap (release profile).\<close>

definition saturating_sub :: "u64 \<Rightarrow> u64 \<Rightarrow> u64" where
  "saturating_sub a b = (if a < b then 0 else a - b)"

definition saturating_add :: "u64 \<Rightarrow> u64 \<Rightarrow> u64" where
  "saturating_add a b = (if unat a + unat b < 2 ^ 64 then a + b else - 1)"

lemma unat_u64_less [simp]: "unat (n :: u64) < 18446744073709551616"
  using unsigned_less [of n, where ?'a = nat] by simp

lemma unat_exp_u32: "k < 32 \<Longrightarrow> unat (2 ^ k :: u32) = 2 ^ k"
  using unsigned_push_bit_eq [of k "1 :: u32", where ?'a = nat]
    power_strict_increasing [of k 32 "2 :: nat"] by (simp add: take_bit_eq_mod)

lemma unat_saturating_sub: "unat (saturating_sub a b) = unat a - unat b"
  by (auto simp: saturating_sub_def unat_sub word_less_nat_alt not_less word_le_nat_alt)

lemma unat_saturating_add: "unat (saturating_add a b) = min (unat a + unat b) (2 ^ 64 - 1)"
proof -
  have "unat (- 1 :: u64) = 2 ^ 64 - 1" by (simp add: unsigned_minus_1_eq_mask mask_eq_exp_minus_1)
  then show ?thesis by (auto simp: saturating_add_def unat_word_ariths min_def)
qed

lemma unat_add_u64: "unat a + unat b < 2 ^ 64 \<Longrightarrow> unat (a + b :: u64) = unat a + unat b"
  by (simp add: unat_word_ariths)

lemma unat_mult_u64: "unat a * unat b < 2 ^ 64 \<Longrightarrow> unat (a * b :: u64) = unat a * unat b"
  by (simp add: unat_word_ariths)

end
