(* ===== verification/Measurements.thy ===== *)
theory Measurements
  imports Prelude
begin

text \<open>
  \<^verbatim>\<open>api/crates/backup/src/util/measurements.rs\<close> and \<^verbatim>\<open>util/octal.rs\<close>: amounts of bytes with a
  unit (the configuration's \<open>max_backup_cache_size\<close>) and file modes written as octal numbers.
\<close>

section \<open>BytesAmount\<close>

datatype bytes_amount =
    Bytes u64
  | KiloBytes u64
  | KibiBytes u64
  | MegaBytes u64
  | MebiBytes u64
  | GigaBytes u64
  | GibiBytes u64

datatype parse_measurement_error = InvalidQuantity | InvalidUnit

fun as_bytes :: "bytes_amount \<Rightarrow> u64" where
  "as_bytes (Bytes n) = n"
| "as_bytes (KiloBytes n) = n * 1000"
| "as_bytes (KibiBytes n) = n * 1024"
| "as_bytes (MegaBytes n) = n * 1000 * 1000"
| "as_bytes (MebiBytes n) = n * 1024 * 1024"
| "as_bytes (GigaBytes n) = n * 1000 * 1000 * 1000"
| "as_bytes (GibiBytes n) = n * 1024 * 1024 * 1024"

definition split_leading_digits :: "string \<Rightarrow> string \<times> string" where
  "split_leading_digits s = (takeWhile is_ascii_digit s, dropWhile is_ascii_digit s)"

definition bytes_amount_from_str :: "string \<Rightarrow> parse_measurement_error + bytes_amount" where
  "bytes_amount_from_str s =
     (let (n, unit) = split_leading_digits s in
      case parse_u64 n of
        None \<Rightarrow> Err InvalidQuantity
      | Some n \<Rightarrow>
          if unit = ''B'' then Ok (Bytes n)
          else if unit = ''kB'' then Ok (KiloBytes n)
          else if unit = ''KiB'' then Ok (KibiBytes n)
          else if unit = ''MB'' then Ok (MegaBytes n)
          else if unit = ''MiB'' then Ok (MebiBytes n)
          else if unit = ''GB'' then Ok (GigaBytes n)
          else if unit = ''GiB'' then Ok (GibiBytes n)
          else Err InvalidUnit)"

fun bytes_amount_fmt :: "bytes_amount \<Rightarrow> string" where
  "bytes_amount_fmt (Bytes n) = dec (unat n) @ ''B''"
| "bytes_amount_fmt (KiloBytes n) = dec (unat n) @ ''kB''"
| "bytes_amount_fmt (KibiBytes n) = dec (unat n) @ ''KiB''"
| "bytes_amount_fmt (MegaBytes n) = dec (unat n) @ ''MB''"
| "bytes_amount_fmt (MebiBytes n) = dec (unat n) @ ''MiB''"
| "bytes_amount_fmt (GigaBytes n) = dec (unat n) @ ''GB''"
| "bytes_amount_fmt (GibiBytes n) = dec (unat n) @ ''GiB''"

text \<open>The unit's multiplier, as a mathematical integer, and the quantity.\<close>

fun unit_factor :: "bytes_amount \<Rightarrow> nat" where
  "unit_factor (Bytes n) = 1"
| "unit_factor (KiloBytes n) = 10 ^ 3"
| "unit_factor (KibiBytes n) = 2 ^ 10"
| "unit_factor (MegaBytes n) = 10 ^ 6"
| "unit_factor (MebiBytes n) = 2 ^ 20"
| "unit_factor (GigaBytes n) = 10 ^ 9"
| "unit_factor (GibiBytes n) = 2 ^ 30"

fun quantity :: "bytes_amount \<Rightarrow> u64" where
  "quantity (Bytes n) = n"
| "quantity (KiloBytes n) = n"
| "quantity (KibiBytes n) = n"
| "quantity (MegaBytes n) = n"
| "quantity (MebiBytes n) = n"
| "quantity (GigaBytes n) = n"
| "quantity (GibiBytes n) = n"

section \<open>Octal\<close>

text \<open>\<open>Octal<N_DIGITS>::deserialize\<close>: the shift is done in \<open>i32\<close>, so \<open>3 * N_DIGITS\<close> is below 31.\<close>

definition octal_deserialize :: "nat \<Rightarrow> u32 \<Rightarrow> anyhow + u32" where
  "octal_deserialize n_digits n =
     (let max = push_bit (3 * n_digits) 1 - 1 in
      if n > max then Err [''Value must be at most max''] else Ok n)"

section \<open>Properties\<close>

lemma split_leading_digits_dec:
  assumes "u \<noteq> []" "\<not> is_ascii_digit (hd u)"
  shows "split_leading_digits (dec n @ u) = (dec n, u)"
  using assms dec_digits [of n]
  by (cases u) (auto simp: split_leading_digits_def list_all_iff takeWhile_append dropWhile_append)

lemma parse_u64_dec [simp]: "parse_u64 (dec (unat n)) = Some n"
proof -
  obtain c t where s: "dec (unat n) = c # t" by (cases "dec (unat n)") auto
  then have "c \<noteq> CHR ''+''"
    using dec_digits [of "unat n"] ascii_digit_not_sign by auto
  then have "strip_prefix ''+'' (dec (unat n)) = None" by (simp add: s)
  then show ?thesis by (simp add: parse_u64_def)
qed

text \<open>Printing an amount and parsing it back gives the same amount, unit included.\<close>

theorem bytes_amount_roundtrip: "bytes_amount_from_str (bytes_amount_fmt a) = Ok a"
  by (cases a) (simp_all add: bytes_amount_from_str_def split_leading_digits_dec is_ascii_digit_def)

text \<open>The product is exact as long as it fits in 64 bits.\<close>

lemma as_bytes_nat: "unat (as_bytes a) = (unat (quantity a) * unit_factor a) mod 2 ^ 64"
proof (cases a)
  case (Bytes n)
  then show ?thesis by simp
qed (simp_all add: unat_word_ariths mod_mult_left_eq mult.assoc)

text \<open>
  \<open>as_bytes\<close> is the exact product of the quantity and the unit whenever that product
  fits in a \<open>u64\<close>, and then the result is at least the quantity.
\<close>

theorem as_bytes_exact:
  assumes "unat (quantity a) * unit_factor a < 2 ^ 64"
  shows "unat (as_bytes a) = unat (quantity a) * unit_factor a \<and> quantity a \<le> as_bytes a"
proof -
  have eq: "unat (as_bytes a) = unat (quantity a) * unit_factor a"
    using assms by (simp add: as_bytes_nat)
  have "1 \<le> unit_factor a" by (cases a) simp_all
  then show ?thesis using eq by (simp add: word_le_nat_alt)
qed

theorem as_bytes_exact_witness:
  "unat (as_bytes (GibiBytes 2)) = 2 * 2 ^ 30"
  using as_bytes_exact [of "GibiBytes 2"] by simp

lemma octal_deserialize_Ok:
  assumes "3 * n_digits < 32"
  shows "octal_deserialize n_digits n = Ok m \<longleftrightarrow> m = n \<and> unat n < 8 ^ n_digits"
proof -
  have p: "(2::nat) ^ (3 * n_digits) = 8 ^ n_digits" by (simp add: power_mult)
  have "unat (push_bit (3 * n_digits) 1 :: u32) = 8 ^ n_digits"
    using assms p by (simp add: push_bit_eq_mult unat_exp_u32)
  then have "unat (push_bit (3 * n_digits) 1 - 1 :: u32) = 8 ^ n_digits - 1"
    by (subst unat_minus_one) (use assms in auto)
  moreover obtain q where "(8::nat) ^ n_digits = Suc q" by (cases "(8::nat) ^ n_digits") auto
  ultimately show ?thesis
    by (auto simp: octal_deserialize_def Let_def word_less_nat_alt simp del: push_bit_of_1)
qed

end
