(* ===== verification/Tar_Size.thy ===== *)
theory Tar_Size
  imports Prelude
begin

text \<open>
  \<^verbatim>\<open>api/crates/backup/src/util/tar.rs\<close>: the size a \<open>tar\<close> archive will have, computed before
  it is built from the file system tree it will contain.  The file system is a tree of
  \<open>node\<close>s; sizes are \<open>u64\<close>.  A queued path of \<open>walk\<close> carries the node its metadata is read
  from, since the tree does not change during the walk.
\<close>

unbundle bit_operations_syntax

section \<open>Files and paths\<close>

datatype node = File bytes | Dir "(string \<times> node) list"

text \<open>\<open>Path::join\<close> on the bytes of the paths.\<close>

definition path_join :: "string \<Rightarrow> string \<Rightarrow> string" where
  "path_join a b =
     (if starts_with b ''/'' then b
      else if a = [] \<or> ends_with a ''/'' then a @ b
      else a @ ''/'' @ b)"

section \<open>TarSizeCalculator\<close>

definition BLOCK_SIZE :: u64 where "BLOCK_SIZE = 512"
definition ARCHIVE_HEADER_SIZE :: u64 where "ARCHIVE_HEADER_SIZE = 0"
definition ENTRY_HEADER_SIZE :: u64 where "ENTRY_HEADER_SIZE = BLOCK_SIZE"
definition END_OF_ARCHIVE_MARKER_SIZE :: u64 where "END_OF_ARCHIVE_MARKER_SIZE = 2 * BLOCK_SIZE"
definition LONG_LINK_HEADER_SIZE :: u64 where "LONG_LINK_HEADER_SIZE = BLOCK_SIZE"

definition round_up_blocks :: "u64 \<Rightarrow> u64" where
  "round_up_blocks n = (n + (BLOCK_SIZE - 1)) AND (NOT (BLOCK_SIZE - 1))"

definition entry_header_size :: "string \<Rightarrow> u64" where
  "entry_header_size path_in_archive =
     (let path_bytes = length path_in_archive in
      if path_bytes > 100
      then ENTRY_HEADER_SIZE + (LONG_LINK_HEADER_SIZE + round_up_blocks (of_nat path_bytes + 1))
      else ENTRY_HEADER_SIZE)"

definition file_entry_size :: "string \<Rightarrow> u64 \<Rightarrow> u64" where
  "file_entry_size path_in_archive expected_len =
     entry_header_size path_in_archive + round_up_blocks expected_len"

fun entry_size_at_path :: "string \<Rightarrow> node \<Rightarrow> u64" where
  "entry_size_at_path path_in_archive (File c) =
     entry_header_size path_in_archive + round_up_blocks (of_nat (length c))"
| "entry_size_at_path path_in_archive (Dir es) = entry_header_size path_in_archive"

text \<open>
  \<open>walk\<close>: a queue of paths below \<open>reference\<close>, popped at the front; a directory's children
  are pushed at the back.  A queue element is the path relative to \<open>reference\<close> and its node.
\<close>

definition children :: "string \<times> node \<Rightarrow> (string \<times> node) list" where
  "children pn =
     (case snd pn of File _ \<Rightarrow> [] | Dir es \<Rightarrow> map (\<lambda>(name, n). (path_join (fst pn) name, n)) es)"

lemma size_list_children:
  "size_list (\<lambda>(p, n). size n) (children (p, n)) \<le> size n"
proof (cases n)
  case (Dir es)
  have "size_list (\<lambda>(p, n). size n) (map (\<lambda>(name, n). (path_join p name, n)) es)
      \<le> size_list (\<lambda>p. size (snd p)) es"
    by (induction es) auto
  also have "\<dots> \<le> size_list (size_prod (\<lambda>_. 0) size) es"
    by (induction es) auto
  finally show ?thesis using Dir by (simp add: children_def)
qed (simp add: children_def)

lemma size_list_append_node:
  "size_list f (xs @ ys) = size_list f xs + size_list f ys"
  by (induction xs) auto

function walk_queue :: "string \<Rightarrow> (string \<times> node) list \<Rightarrow> u64 \<Rightarrow> u64" where
  "walk_queue dst [] tot = tot"
| "walk_queue dst ((p, n) # paths) tot =
     walk_queue dst (paths @ children (p, n)) (tot + entry_size_at_path (path_join dst p) n)"
  by pat_completeness auto

termination
proof (relation "measure (\<lambda>(dst, q, tot). size_list (\<lambda>(p, n). size n) q)")
  fix dst :: string and p n paths and tot :: u64
  show "((dst, paths @ children (p, n), tot + entry_size_at_path (path_join dst p) n),
         dst, (p, n) # paths, tot)
        \<in> measure (\<lambda>(dst, q, tot). size_list (\<lambda>(p, n). size n) q)"
    using size_list_children [of p n] by (simp add: size_list_append_node le_imp_less_Suc)
qed simp

definition walk :: "node \<Rightarrow> string \<Rightarrow> u64" where
  "walk reference dst = walk_queue dst [([], reference)] 0"

text \<open>
  \<open>estimate_tar_size\<close>: \<open>look\<close> is the metadata of a local path, \<open>None\<close> when reading it fails.
\<close>

fun estimate_paths :: "(string \<Rightarrow> node option) \<Rightarrow> (string \<times> string) list \<Rightarrow> u64 \<Rightarrow> anyhow + u64" where
  "estimate_paths look [] tot = Ok tot"
| "estimate_paths look ((key, path) # ps) tot =
     (case look path of
        None \<Rightarrow> Err [''Path'']
      | Some (Dir es) \<Rightarrow> estimate_paths look ps (tot + walk (Dir es) key)
      | Some (File c) \<Rightarrow> estimate_paths look ps (tot + entry_size_at_path key (File c)))"

definition estimate_tar_size :: "(string \<Rightarrow> node option) \<Rightarrow> (string \<times> string) list \<Rightarrow> anyhow + u64" where
  "estimate_tar_size look paths =
     try_bind (estimate_paths look paths ARCHIVE_HEADER_SIZE)
       (\<lambda>tot. Ok (tot + END_OF_ARCHIVE_MARKER_SIZE))"

definition archive_contents_size :: "u64 \<Rightarrow> u64" where
  "archive_contents_size archive_len =
     (let overhead = ARCHIVE_HEADER_SIZE + END_OF_ARCHIVE_MARKER_SIZE in
      saturating_sub archive_len overhead)"

lemmas tar_consts = BLOCK_SIZE_def ARCHIVE_HEADER_SIZE_def ENTRY_HEADER_SIZE_def
  END_OF_ARCHIVE_MARKER_SIZE_def LONG_LINK_HEADER_SIZE_def

section \<open>Rounding\<close>

lemma and_minus_512: "(x :: u64) AND - 512 = push_bit 9 (drop_bit 9 x)"
proof -
  have m: "(- 512 :: u64) = NOT (mask 9)" using minus_exp_eq_not_mask [of 9] by simp
  show ?thesis unfolding m by (rule bit_word_eqI) (auto simp: bit_simps)
qed

lemma unat_and_minus_512: "unat ((x :: u64) AND - 512) = 512 * (unat x div 512)"
proof -
  have lt: "unat x div 512 * 512 < 18446744073709551616"
    by (rule order_le_less_trans [OF _ unat_u64_less [of x]]) simp
  then have "unat (push_bit 9 (drop_bit 9 x)) = unat x div 512 * 512"
    by (simp add: push_bit_eq_mult drop_bit_eq_div unat_word_ariths unat_div)
  then show ?thesis by (simp add: and_minus_512)
qed

lemma unat_round_up_blocks:
  assumes "unat n + 511 < 2 ^ 64"
  shows "unat (round_up_blocks n) = 512 * ((unat n + 511) div 512)"
proof -
  have "unat (n + 511) = unat n + 511" using assms by (simp add: unat_word_ariths)
  then show ?thesis by (simp add: round_up_blocks_def tar_consts unat_and_minus_512)
qed

lemma round_up_512:
  fixes k m :: nat
  shows "k \<le> 512 * ((k + 511) div 512)"
    and "512 dvd m \<Longrightarrow> k \<le> m \<Longrightarrow> 512 * ((k + 511) div 512) \<le> m"
proof -
  show "k \<le> 512 * ((k + 511) div 512)"
    using div_mult_mod_eq [of "k + 511" 512] mod_less_divisor [of 512 "k + 511"] by linarith
  assume "512 dvd m" "k \<le> m"
  then obtain j where j: "m = 512 * j" by auto
  then have "(k + 511) div 512 \<le> (512 * j + 511) div 512"
    using \<open>k \<le> m\<close> by (intro div_le_mono) simp
  then show "512 * ((k + 511) div 512) \<le> m" using j by simp
qed

text \<open>
  Rounding up to blocks gives the least multiple of 512 that is at least the argument,
  as long as the addition of 511 does not wrap.
\<close>

theorem round_up_blocks_least:
  assumes "unat n + 511 < 2 ^ 64"
  shows "512 dvd unat (round_up_blocks n) \<and> n \<le> round_up_blocks n \<and>
         (\<forall>m. 512 dvd m \<longrightarrow> unat n \<le> m \<longrightarrow> unat (round_up_blocks n) \<le> m)"
proof -
  note eq = unat_round_up_blocks [OF assms]
  show ?thesis unfolding word_le_nat_alt eq by (intro conjI allI impI round_up_512) auto
qed

theorem round_up_blocks_least_witness:
  "unat (513 :: u64) + 511 < 2 ^ 64 \<and> unat (round_up_blocks 513) \<le> 1024"
proof -
  have h: "unat (513 :: u64) + 511 < 2 ^ 64" by simp
  have "unat (round_up_blocks 513) \<le> 1024"
    using round_up_blocks_least [OF h] by simp
  with h show ?thesis by blast
qed

section \<open>The walk\<close>

text \<open>The size of a subtree, by recursion on the tree instead of a queue.\<close>

fun tree_size :: "string \<Rightarrow> string \<Rightarrow> node \<Rightarrow> u64" where
  "tree_size dst p (File c) = entry_size_at_path (path_join dst p) (File c)"
| "tree_size dst p (Dir es) =
     entry_size_at_path (path_join dst p) (Dir es) +
     sum_list (map (\<lambda>(name, n). tree_size dst (path_join p name) n) es)"

lemma tree_size_children:
  "tree_size dst p n =
     entry_size_at_path (path_join dst p) n +
     sum_list (map (\<lambda>(p, n). tree_size dst p n) (children (p, n)))"
  by (cases n) (auto simp: children_def case_prod_unfold comp_def)

lemma walk_queue_sum:
  "walk_queue dst q tot = tot + sum_list (map (\<lambda>(p, n). tree_size dst p n) q)"
proof (induction dst q tot rule: walk_queue.induct)
  case (2 dst p n paths tot)
  then show ?case by (simp add: tree_size_children [of dst p n] algebra_simps)
qed simp

text \<open>
  C22. The breadth-first walk of a directory terminates and counts every file and directory
  of the tree exactly once: its result is the sum computed by recursion on the tree.
\<close>

theorem walk_eq_tree_size: "walk reference dst = tree_size dst [] reference"
  by (simp add: walk_def walk_queue_sum)

section \<open>Block alignment\<close>

abbreviation aligned :: "u64 \<Rightarrow> bool" where "aligned n \<equiv> 512 dvd unat n"

lemma aligned_add: "aligned a \<Longrightarrow> aligned b \<Longrightarrow> aligned (a + b)"
  by (simp add: unat_word_ariths dvd_mod)

lemma aligned_round_up: "aligned (round_up_blocks n)"
  by (simp add: round_up_blocks_def tar_consts unat_and_minus_512)

lemma aligned_header: "aligned (entry_header_size p)"
  unfolding entry_header_size_def Let_def tar_consts
  by (auto intro!: aligned_add aligned_round_up)

lemma aligned_entry: "aligned (entry_size_at_path p n)"
  by (cases n) (auto intro: aligned_add aligned_header aligned_round_up)

lemma aligned_walk_queue: "aligned tot \<Longrightarrow> aligned (walk_queue dst q tot)"
  by (induction dst q tot rule: walk_queue.induct) (auto intro: aligned_add aligned_entry)

lemma aligned_estimate_paths:
  "estimate_paths look ps tot = Ok t \<Longrightarrow> aligned tot \<Longrightarrow> aligned t"
proof (induction look ps tot rule: estimate_paths.induct)
  case (2 look key path ps tot)
  have "aligned (tot + walk n key)" "aligned (tot + entry_size_at_path key n)" for n
    using 2(4) by (auto simp: walk_def intro: aligned_add aligned_walk_queue aligned_entry)
  with 2 show ?case
    by (auto split: option.splits node.splits simp del: entry_size_at_path.simps)
qed auto

text \<open>
  Every size estimate is a whole number of 512-byte blocks, whatever the tree and even
  if the 64-bit sums wrap.
\<close>

theorem estimate_tar_size_aligned:
  assumes "estimate_tar_size look paths = Ok t"
  shows "512 dvd unat t"
proof -
  obtain s where "estimate_paths look paths ARCHIVE_HEADER_SIZE = Ok s"
    and t: "t = s + END_OF_ARCHIVE_MARKER_SIZE"
    using assms by (auto simp: estimate_tar_size_def try_bind_eq_Ok)
  then have "aligned s" by (auto intro: aligned_estimate_paths simp: tar_consts)
  then show ?thesis unfolding t by (rule aligned_add) (simp add: tar_consts)
qed

theorem estimate_tar_size_aligned_witness:
  "estimate_tar_size (\<lambda>p. Some (File ''abc'')) [(''k'', ''/k'')] = Ok 2048 \<and> (512::nat) dvd 2048"
proof -
  have h: "estimate_tar_size (\<lambda>p. Some (File ''abc'')) [(''k'', ''/k'')] = Ok 2048"
    by (simp add: estimate_tar_size_def tar_consts entry_header_size_def round_up_blocks_def)
  show ?thesis using h estimate_tar_size_aligned [OF h] by simp
qed

end
