(* ===== verification/Backup_Id.thy ===== *)
theory Backup_Id
  imports Prelude
begin

text \<open>
  The module \<open>backup_id\<close> of \<^verbatim>\<open>api/crates/backup/src/lib.rs\<close>: identifiers of backups, their
  serialisation to object keys and the parser.  Percent-encoding (crate \<open>urlencoding\<close>) and
  the conversion of a Unix timestamp (crate \<open>time\<close>) are not in the repository: they are the
  fields of \<open>id_lib\<close>, and what the code relies on is \<open>urlencoding_laws\<close> and \<open>time_laws\<close>.
\<close>

section \<open>Model\<close>

text \<open>\<open>time::UtcDateTime\<close>, as seconds since the epoch and the fraction of a second.\<close>

record utc_datetime =
  unix_timestamp :: int
  nanosecond :: nat

record backup_id =
  id_prefix :: string
  created_at :: utc_datetime
  description :: string
  extensions :: "string list"

record id_lib =
  url_encode :: "string \<Rightarrow> string"
  url_decode :: "string \<Rightarrow> anyhow + string"
  from_unix_timestamp :: "int \<Rightarrow> anyhow + utc_datetime"

definition urlencode_component :: "id_lib \<Rightarrow> string \<Rightarrow> string" where
  "urlencode_component lib str =
     (let res = url_encode lib str;
          res = replace_char CHR ''-'' ''%2D'' res;
          res = replace_char CHR ''.'' ''%2E'' res;
          res = replace_char CHR ''/'' ''%2F'' res
      in res)"

definition backup_id_parse :: "id_lib \<Rightarrow> string \<Rightarrow> anyhow + backup_id" where
  "backup_id_parse lib str =
     (case split_once CHR ''-'' str of
        None \<Rightarrow> Err [''File has no prefix.'']
      | Some (pfx, rest) \<Rightarrow>
     (case split_once CHR ''-'' rest of
        None \<Rightarrow> Err [''File is missing the timestamp prefix.'']
      | Some (timestamp_str, rest) \<Rightarrow>
     (case parse_i64 timestamp_str of
        None \<Rightarrow> Err [''Could not read integer'']
      | Some secs \<Rightarrow>
     try_bind (map_err (context_msg ''Could not parse timestamp from file name'')
                 (from_unix_timestamp lib secs)) (\<lambda>created.
     (case split_once CHR ''.'' rest of
        None \<Rightarrow> Err [''File has no extension.'']
      | Some (descr, exts) \<Rightarrow>
     try_bind (map_err (context_msg ''Backup prefix contains invalid UTF-8'')
                 (url_decode lib pfx)) (\<lambda>pfx.
     try_bind (map_err (context_msg ''Backup description contains invalid UTF-8'')
                 (url_decode lib descr)) (\<lambda>descr.
     Ok \<lparr>id_prefix = pfx, created_at = created, description = descr,
         extensions = split_on CHR ''.'' exts\<rparr>)))))))"

text \<open>\<open>Display::fmt\<close>: the four assertions on the components and the one on the timestamp panic.\<close>

definition backup_id_fmt :: "id_lib \<Rightarrow> backup_id \<Rightarrow> string run" where
  "backup_id_fmt lib bid =
     (if \<not> length (id_prefix bid) \<le> 256 then Panic
      else if \<not> length (description bid) \<le> 256 then Panic
      else if id_prefix bid = [] then Panic
      else if description bid = [] then Panic
      else
        (let pfx = urlencode_component lib (id_prefix bid);
             descr = urlencode_component lib (description bid);
             created = unix_timestamp (created_at bid)
         in if \<not> created \<le> 9999999999 then Panic
            else
              (let exts = join ''.'' (extensions bid)
               in Ret (pfx @ ''-'' @ fmt_padded 10 created @ ''-'' @ descr @ ''.'' @ exts))))"

section \<open>What the code relies on\<close>

definition is_hex_digit :: "char \<Rightarrow> bool" where
  "is_hex_digit c = (c \<in> set ''0123456789ABCDEFabcdef'')"

text \<open>Every \<open>%\<close> of a percent-encoded string starts an escape of two hexadecimal digits.\<close>

fun wf_pct :: "string \<Rightarrow> bool" where
  "wf_pct [] = True"
| "wf_pct (c # cs) =
     (if c = CHR ''%''
      then (case cs of h # l # r \<Rightarrow> is_hex_digit h \<and> is_hex_digit l \<and> wf_pct r | _ \<Rightarrow> False)
      else wf_pct cs)"

text \<open>
  Documented behaviour of \<open>urlencoding\<close>: encoded text is well formed and decodes to the
  original, and escaping one of the unreserved characters \<open>-\<close>, \<open>.\<close> (or \<open>/\<close>) in a well-formed
  text does not change what it decodes to.
\<close>

definition urlencoding_laws :: "id_lib \<Rightarrow> bool" where
  "urlencoding_laws lib \<longleftrightarrow>
     (\<forall>s. wf_pct (url_encode lib s)) \<and>
     (\<forall>s. url_decode lib (url_encode lib s) = Ok s) \<and>
     (\<forall>t. wf_pct t \<longrightarrow>
        url_decode lib (replace_char CHR ''-'' ''%2D'' t) = url_decode lib t \<and>
        url_decode lib (replace_char CHR ''.'' ''%2E'' t) = url_decode lib t \<and>
        url_decode lib (replace_char CHR ''/'' ''%2F'' t) = url_decode lib t)"

text \<open>Documented behaviour of \<open>time\<close>: timestamps of the years 1970 to 2286 are accepted.\<close>

definition time_laws :: "id_lib \<Rightarrow> bool" where
  "time_laws lib \<longleftrightarrow>
     (\<forall>n. 0 \<le> n \<longrightarrow> n \<le> 9999999999 \<longrightarrow>
        from_unix_timestamp lib n = Ok \<lparr>unix_timestamp = n, nanosecond = 0\<rparr>)"

section \<open>Lemmas\<close>

lemma wf_pct_replace_char:
  assumes "wf_pct s" "\<not> is_hex_digit c" "c \<noteq> CHR ''%''"
    and "is_hex_digit h" "is_hex_digit l"
  shows "wf_pct (replace_char c [CHR ''%'', h, l] s)"
  using assms
proof (induction s rule: wf_pct.induct)
  case (2 x xs)
  show ?case
  proof (cases "x = CHR ''%''")
    case True
    then obtain a b r where "xs = a # b # r" "is_hex_digit a" "is_hex_digit b" "wf_pct r"
      using 2 by (auto split: list.splits)
    with 2 True show ?thesis by auto
  next
    case False
    with 2 show ?thesis by auto
  qed
qed simp

lemma hex_facts [simp]:
  "is_hex_digit CHR ''2''" "is_hex_digit CHR ''D''" "is_hex_digit CHR ''E''"
  "is_hex_digit CHR ''F''" "\<not> is_hex_digit CHR ''-''" "\<not> is_hex_digit CHR ''.''"
  "\<not> is_hex_digit CHR ''/''"
  by (simp_all add: is_hex_digit_def)

lemma urldecode_component:
  assumes "urlencoding_laws lib"
  shows "url_decode lib (urlencode_component lib s) = Ok s"
proof -
  let ?a = "url_encode lib s"
  let ?b = "replace_char CHR ''-'' ''%2D'' ?a"
  let ?c = "replace_char CHR ''.'' ''%2E'' ?b"
  have "wf_pct ?a" using assms by (simp add: urlencoding_laws_def)
  moreover from this have "wf_pct ?b" by (rule wf_pct_replace_char) simp_all
  moreover from this have "wf_pct ?c" by (rule wf_pct_replace_char) simp_all
  ultimately show ?thesis
    using assms by (simp add: urlencode_component_def Let_def urlencoding_laws_def)
qed

lemma urlencode_component_chars:
  "CHR ''-'' \<notin> set (urlencode_component lib s)"
  "CHR ''.'' \<notin> set (urlencode_component lib s)"
  "CHR ''/'' \<notin> set (urlencode_component lib s)"
proof -
  let ?b = "replace_char CHR ''-'' ''%2D'' (url_encode lib s)"
  let ?c = "replace_char CHR ''.'' ''%2E'' ?b"
  have b: "CHR ''-'' \<notin> set ?b" by (rule replace_char_removes) simp
  have c: "CHR ''.'' \<notin> set ?c" by (rule replace_char_removes) simp
  have c': "CHR ''-'' \<notin> set ?c" using b set_replace_char [of "CHR ''.''" "''%2E''" ?b] by auto
  note d = set_replace_char [of "CHR ''/''" "''%2F''" ?c]
  show "CHR ''-'' \<notin> set (urlencode_component lib s)"
    "CHR ''.'' \<notin> set (urlencode_component lib s)"
    using c c' d by (auto simp: urlencode_component_def Let_def)
  show "CHR ''/'' \<notin> set (urlencode_component lib s)"
    unfolding urlencode_component_def Let_def by (rule replace_char_removes) simp
qed

text \<open>The identifiers the service itself builds: the assertions hold and the extensions are plain.\<close>

definition valid_id :: "backup_id \<Rightarrow> bool" where
  "valid_id bid \<longleftrightarrow>
     id_prefix bid \<noteq> [] \<and> length (id_prefix bid) \<le> 256 \<and>
     description bid \<noteq> [] \<and> length (description bid) \<le> 256 \<and>
     0 \<le> unix_timestamp (created_at bid) \<and> unix_timestamp (created_at bid) \<le> 9999999999 \<and>
     extensions bid \<noteq> [] \<and> (\<forall>e \<in> set (extensions bid). CHR ''.'' \<notin> set e)"

abbreviation stamp :: "backup_id \<Rightarrow> string" where
  "stamp bid \<equiv> fixed_dec 10 (nat (unix_timestamp (created_at bid)))"

lemma fmt_padded_10:
  "0 \<le> n \<Longrightarrow> n \<le> 9999999999 \<Longrightarrow> fmt_padded 10 n = fixed_dec 10 (nat n)"
  using fmt_padded_nonneg [of n 9] by (simp del: fixed_dec.simps)

lemma backup_id_fmt_valid:
  assumes "valid_id bid"
  shows "backup_id_fmt lib bid =
    Ret (urlencode_component lib (id_prefix bid) @ ''-'' @ stamp bid @ ''-'' @
         urlencode_component lib (description bid) @ ''.'' @ join ''.'' (extensions bid))"
  using assms by (simp add: backup_id_fmt_def valid_id_def Let_def fmt_padded_10)

lemma stamp_parse:
  assumes "valid_id bid"
  shows "CHR ''-'' \<notin> set (stamp bid)"
    and "parse_i64 (stamp bid) = Some (unix_timestamp (created_at bid))"
proof -
  let ?n = "nat (unix_timestamp (created_at bid))"
  have n: "?n < 10 ^ 10" using assms by (simp add: valid_id_def nat_less_iff)
  show "CHR ''-'' \<notin> set (stamp bid)"
    using fixed_dec_digits [of 10 ?n] ascii_digit_not_sign by (auto simp: list_all_iff)
  have "stamp bid \<noteq> []" using length_fixed_dec [of 10 ?n] by force
  moreover have "dec_val (stamp bid) = ?n" by (rule dec_val_fixed_dec [OF n])
  ultimately have "parse_i64 (stamp bid) = Some (int ?n)"
    using parse_i64_unsigned [of "stamp bid"] fixed_dec_digits n by simp
  then show "parse_i64 (stamp bid) = Some (unix_timestamp (created_at bid))"
    using assms by (simp add: valid_id_def)
qed

section \<open>A percent-encoding that satisfies the laws\<close>

text \<open>
  Percent-encoding of RFC 3986 (unreserved characters stand for themselves), used to show
  that the laws can hold and to run the parser on concrete identifiers.
\<close>

definition hex_char :: "nat \<Rightarrow> char" where
  "hex_char n = ''0123456789ABCDEF'' ! n"

definition hex_val :: "char \<Rightarrow> nat" where
  "hex_val c =
     (let n = of_char c in if n < 58 then n - 48 else if n < 71 then n - 55 else n - 87)"

definition unreserved :: "char \<Rightarrow> bool" where
  "unreserved c =
     (let n = of_char c :: nat in
      48 \<le> n \<and> n \<le> 57 \<or> 65 \<le> n \<and> n \<le> 90 \<or> 97 \<le> n \<and> n \<le> 122 \<or> c \<in> set ''-._~'')"

definition pct :: "char \<Rightarrow> string" where
  "pct c = (let n = of_char c in [CHR ''%'', hex_char (n div 16), hex_char (n mod 16)])"

definition rfc_encode :: "string \<Rightarrow> string" where
  "rfc_encode s = concat (map (\<lambda>c. if unreserved c then [c] else pct c) s)"

fun rfc_decode :: "string \<Rightarrow> string" where
  "rfc_decode [] = []"
| "rfc_decode (c # cs) =
     (if c = CHR ''%''
      then (case cs of h # l # r \<Rightarrow> char_of (16 * hex_val h + hex_val l) # rfc_decode r
                     | _ \<Rightarrow> c # rfc_decode cs)
      else c # rfc_decode cs)"

definition rfc_lib :: id_lib where
  "rfc_lib = \<lparr>url_encode = rfc_encode, url_decode = (\<lambda>s. Ok (rfc_decode s)),
     from_unix_timestamp =
       (\<lambda>n. if - 377705116800 \<le> n \<and> n \<le> 253402300799
            then Ok \<lparr>unix_timestamp = n, nanosecond = 0\<rparr> else Err [''out of range''])\<rparr>"

lemma hex_char_ok: "n < 16 \<Longrightarrow> is_hex_digit (hex_char n) \<and> hex_val (hex_char n) = n"
  using less_16_cases [of n] by (auto simp: hex_char_def is_hex_digit_def hex_val_def Let_def)

lemma pct_ok:
  "wf_pct (pct c @ s) \<longleftrightarrow> wf_pct s" "rfc_decode (pct c @ s) = c # rfc_decode s"
proof -
  let ?n = "of_char c :: nat"
  have n: "?n < 256" by (rule of_char_mod_256 [THEN sym, THEN ord_eq_less_trans]) simp
  have h: "?n div 16 < 16" and l: "?n mod 16 < 16"
    using n by (simp_all add: div_less_iff_less_mult)
  show "wf_pct (pct c @ s) \<longleftrightarrow> wf_pct s"
    using hex_char_ok [OF h] hex_char_ok [OF l] by (simp add: pct_def Let_def)
  have "char_of (16 * (?n div 16) + ?n mod 16) = c" by simp
  then show "rfc_decode (pct c @ s) = c # rfc_decode s"
    using hex_char_ok [OF h] hex_char_ok [OF l] by (simp add: pct_def Let_def)
qed

lemma rfc_encode_simps:
  "rfc_encode [] = []" "rfc_encode (c # s) = (if unreserved c then [c] else pct c) @ rfc_encode s"
  by (simp_all add: rfc_encode_def)

lemma unreserved_not_pct: "unreserved c \<Longrightarrow> c \<noteq> CHR ''%''"
  by (auto simp: unreserved_def Let_def)

lemma rfc_encode_ok: "wf_pct (rfc_encode s) \<and> rfc_decode (rfc_encode s) = s"
  by (induction s) (auto simp: rfc_encode_simps pct_ok dest: unreserved_not_pct)

lemma rfc_decode_escape:
  assumes "wf_pct t" "\<not> is_hex_digit c" "c \<noteq> CHR ''%''"
  shows "rfc_decode (replace_char c (pct c) t) = rfc_decode t"
  using assms
proof (induction t rule: wf_pct.induct)
  case (2 x xs)
  show ?case
  proof (cases "x = CHR ''%''")
    case True
    then obtain a b r where "xs = a # b # r" "is_hex_digit a" "is_hex_digit b" "wf_pct r"
      using 2 by (auto split: list.splits)
    moreover from this have "a \<noteq> c" "b \<noteq> c" using 2 by auto
    ultimately show ?thesis using 2 True by auto
  next
    case False
    with 2 show ?thesis by (auto simp: pct_ok)
  qed
qed simp

lemma pct_codes: "pct CHR ''-'' = ''%2D''" "pct CHR ''.'' = ''%2E''" "pct CHR ''/'' = ''%2F''"
  by (simp_all add: pct_def hex_char_def Let_def)

lemma rfc_lib_laws: "urlencoding_laws rfc_lib" "time_laws rfc_lib"
  using rfc_encode_ok rfc_decode_escape [of _ "CHR ''-''"] rfc_decode_escape [of _ "CHR ''.''"]
    rfc_decode_escape [of _ "CHR ''/''"]
  by (simp_all add: urlencoding_laws_def time_laws_def rfc_lib_def pct_codes)

section \<open>Properties\<close>

lemma backup_id_parse_fmt:
  assumes "urlencoding_laws lib" "time_laws lib" "valid_id bid"
    and "backup_id_fmt lib bid = Ret s"
  shows "backup_id_parse lib s = Ok (bid\<lparr>created_at := (created_at bid)\<lparr>nanosecond := 0\<rparr>\<rparr>)"
proof -
  have s: "s = urlencode_component lib (id_prefix bid) @ CHR ''-'' # (stamp bid @ CHR ''-'' #
      (urlencode_component lib (description bid) @ CHR ''.'' # join ''.'' (extensions bid)))"
    using assms(4) backup_id_fmt_valid [OF assms(3)] by (simp del: fixed_dec.simps)
  have "from_unix_timestamp lib (unix_timestamp (created_at bid)) =
      Ok \<lparr>unix_timestamp = unix_timestamp (created_at bid), nanosecond = 0\<rparr>"
    using assms(2,3) by (simp add: time_laws_def valid_id_def)
  moreover have "split_on CHR ''.'' (join ''.'' (extensions bid)) = extensions bid"
    using assms(3) by (intro split_on_join) (auto simp: valid_id_def)
  ultimately show ?thesis
    unfolding s using stamp_parse [OF assms(3)] urldecode_component [OF assms(1)]
    by (simp add: backup_id_parse_def urlencode_component_chars del: fixed_dec.simps)
qed

text \<open>
  C21. Round trip: the object key of a well-formed identifier is defined (no assertion fails)
  and parsing it gives the identifier back, to the second.
\<close>

theorem backup_id_roundtrip:
  assumes "urlencoding_laws lib" "time_laws lib" "valid_id bid"
  shows "\<exists>s. backup_id_fmt lib bid = Ret s \<and>
    backup_id_parse lib s = Ok (bid\<lparr>created_at := (created_at bid)\<lparr>nanosecond := 0\<rparr>\<rparr>)"
  using backup_id_fmt_valid [OF assms(3)] backup_id_parse_fmt [OF assms] by blast

definition example_id :: backup_id where
  "example_id = \<lparr>id_prefix = ''prose-backup'',
     created_at = \<lparr>unix_timestamp = 1772432392, nanosecond = 5\<rparr>,
     description = ''Automatic backup'', extensions = [''tar'', ''zst'', ''pgp'']\<rparr>"

lemma example_id_valid: "valid_id example_id"
  by (simp add: valid_id_def example_id_def)

theorem backup_id_roundtrip_witness:
  "\<exists>s. backup_id_fmt rfc_lib example_id = Ret s \<and>
    backup_id_parse rfc_lib s =
      Ok (example_id\<lparr>created_at := (created_at example_id)\<lparr>nanosecond := 0\<rparr>\<rparr>)"
  by (rule backup_id_roundtrip [OF rfc_lib_laws example_id_valid])

text \<open>
  Object keys of well-formed identifiers with the same prefix sort bytewise by creation
  time, so the alphabetically first key is the oldest backup.
\<close>

theorem backup_id_fmt_order:
  assumes "valid_id a" "valid_id b" "id_prefix a = id_prefix b"
    and "unix_timestamp (created_at a) < unix_timestamp (created_at b)"
    and "backup_id_fmt lib a = Ret s" "backup_id_fmt lib b = Ret t"
  shows "s < t"
proof -
  have "nat (unix_timestamp (created_at a)) < 10 ^ 10" "nat (unix_timestamp (created_at b)) < 10 ^ 10"
    "nat (unix_timestamp (created_at a)) < nat (unix_timestamp (created_at b))"
    using assms(1,2,4) by (auto simp: valid_id_def nat_less_iff)
  then have "stamp a < stamp b" by (simp only: fixed_dec_less)
  then show ?thesis
    using assms(3,5,6) backup_id_fmt_valid [OF assms(1), of lib] backup_id_fmt_valid [OF assms(2), of lib]
    by (auto simp: append_less_eq_length simp del: fixed_dec.simps)
qed

theorem backup_id_fmt_order_witness:
  "the_ret (backup_id_fmt rfc_lib example_id) <
   the_ret (backup_id_fmt rfc_lib
     (example_id\<lparr>created_at := \<lparr>unix_timestamp = 1772432393, nanosecond = 0\<rparr>\<rparr>))"
proof -
  let ?b = "example_id\<lparr>created_at := \<lparr>unix_timestamp = 1772432393, nanosecond = 0\<rparr>\<rparr>"
  have b: "valid_id ?b" by (simp add: valid_id_def example_id_def)
  show ?thesis
    using backup_id_fmt_valid [OF example_id_valid, of rfc_lib] backup_id_fmt_valid [OF b, of rfc_lib]
    by (intro backup_id_fmt_order [OF example_id_valid b, where lib = rfc_lib])
      (simp_all add: example_id_def del: fixed_dec.simps)
qed

text \<open>
  Two well-formed identifiers with the same object key agree on prefix, description,
  extensions and creation second: distinct backups never share an object.
\<close>

theorem backup_id_fmt_inj:
  assumes "urlencoding_laws lib" "time_laws lib" "valid_id a" "valid_id b"
    and "backup_id_fmt lib a = backup_id_fmt lib b"
  shows "id_prefix a = id_prefix b \<and> description a = description b \<and>
    extensions a = extensions b \<and> unix_timestamp (created_at a) = unix_timestamp (created_at b)"
proof -
  obtain s where a: "backup_id_fmt lib a = Ret s" using backup_id_fmt_valid [OF assms(3)] by blast
  then have b: "backup_id_fmt lib b = Ret s" using assms(5) by simp
  have "a\<lparr>created_at := (created_at a)\<lparr>nanosecond := 0\<rparr>\<rparr> =
      b\<lparr>created_at := (created_at b)\<lparr>nanosecond := 0\<rparr>\<rparr>"
    using backup_id_parse_fmt [OF assms(1-3) a] backup_id_parse_fmt [OF assms(1,2,4) b] by simp
  then show ?thesis by (cases a, cases b, cases "created_at a", cases "created_at b") simp
qed

theorem backup_id_fmt_inj_witness: "id_prefix example_id = id_prefix example_id"
  using backup_id_fmt_inj [OF rfc_lib_laws example_id_valid example_id_valid] by simp

text \<open>
  The object key of a well-formed identifier contains no path separator unless one of
  its extensions does: no prefix and no description can escape the storage directory.
\<close>

theorem backup_id_fmt_no_slash:
  assumes "valid_id bid" "\<forall>e \<in> set (extensions bid). CHR ''/'' \<notin> set e"
    and "backup_id_fmt lib bid = Ret s"
  shows "CHR ''/'' \<notin> set s"
proof -
  have "CHR ''/'' \<notin> set (join ''.'' xs)" if "\<forall>e \<in> set xs. CHR ''/'' \<notin> set e" for xs
    using that by (induction "''.''" xs rule: join.induct) auto
  moreover have "CHR ''/'' \<notin> set (stamp bid)"
    using fixed_dec_digits [of 10 "nat (unix_timestamp (created_at bid))"]
    by (auto simp: list_all_iff is_ascii_digit_def)
  ultimately show ?thesis
    using assms backup_id_fmt_valid [OF assms(1), of lib] urlencode_component_chars(3)
    by (auto simp del: fixed_dec.simps)
qed

theorem backup_id_fmt_no_slash_witness:
  "CHR ''/'' \<notin> set (the_ret (backup_id_fmt rfc_lib example_id))"
  using backup_id_fmt_valid [OF example_id_valid, of rfc_lib]
  by (intro backup_id_fmt_no_slash [OF example_id_valid, where lib = rfc_lib])
    (simp_all add: example_id_def del: fixed_dec.simps)

text \<open>
  The parser does not constrain the extensions: it accepts a key whose extensions hold
  path separators and parent-directory steps, which the assertions of the printer and the
  encoding of the other components do not catch.
\<close>

theorem backup_id_parse_accepts_traversal:
  "\<exists>bid. backup_id_parse rfc_lib ''a-1-b.x/../../etc'' = Ok bid \<and>
     (\<exists>e \<in> set (extensions bid). CHR ''/'' \<in> set e) \<and>
     (\<exists>s. backup_id_fmt rfc_lib bid = Ret s \<and> CHR ''/'' \<in> set s)"
proof -
  let ?bid = "\<lparr>id_prefix = ''a'', created_at = \<lparr>unix_timestamp = 1, nanosecond = 0\<rparr>,
    description = ''b'', extensions = [''x/'', '''', ''/'', '''', ''/etc'']\<rparr>"
  have "backup_id_parse rfc_lib ''a-1-b.x/../../etc'' = Ok ?bid"
    by (simp add: backup_id_parse_def parse_i64_def parse_digits_def is_ascii_digit_def dec_val_def
        digit_val_def rfc_lib_def)
  moreover have "\<exists>e \<in> set (extensions ?bid). CHR ''/'' \<in> set e" by simp
  moreover have "\<exists>s. backup_id_fmt rfc_lib ?bid = Ret s \<and> CHR ''/'' \<in> set s"
    by (simp add: backup_id_fmt_def Let_def)
  ultimately show ?thesis by blast
qed

end
