(* ===== verification/Object_Store.thy ===== *)
theory Object_Store
  imports Prelude Tar_Size "HOL-Library.AList"
begin

text \<open>
  \<^verbatim>\<open>api/crates/backup/src/stores/mod.rs\<close>: the trait \<open>ObjectStore\<close>, as a record of the
  operations of a store over its state \<open>'s\<close> with writers of type \<open>'w\<close> (the trait object's
  method table), the two provided methods, and object identifiers.  The locale
  \<open>object_store_contract\<close> states what the backup service expects of a store, against an
  abstract map from keys to contents.
\<close>

section \<open>The trait\<close>

record object_metadata =
  file_name :: string
  size_bytes :: u64

datatype deleted_state = Deleted | MarkedForDeletion

record bulk_delete_output =
  deleted :: "string list"
  marked_for_deletion :: "string list"
  errors :: "anyhow list"

definition bulk_delete_default :: bulk_delete_output where
  "bulk_delete_default = \<lparr>deleted = [], marked_for_deletion = [], errors = []\<rparr>"

datatype read_object_error = ObjectNotFound anyhow | ReadOther anyhow

datatype read_sized_object_error =
    ReadFailed read_object_error
  | ObjectTooLarge string u64 u64

text \<open>
  A reader, by what reading it to the end gives: the bytes delivered, and whether an I/O
  error comes after them.
\<close>

record reader =
  rd_data :: bytes
  rd_fails :: bool

record ('s, 'w) object_store =
  os_writer :: "string \<Rightarrow> 's \<Rightarrow> (anyhow + 'w) run \<times> 's"
  os_write_all :: "'w \<Rightarrow> bytes \<Rightarrow> 's \<Rightarrow> (anyhow + 'w) \<times> 's"
  os_finalize :: "'w \<Rightarrow> 's \<Rightarrow> (anyhow + unit) \<times> 's"
  os_reader :: "string \<Rightarrow> 's \<Rightarrow> (read_object_error + reader) run"
  os_exists :: "string \<Rightarrow> 's \<Rightarrow> anyhow + bool"
  os_find :: "string \<Rightarrow> 's \<Rightarrow> anyhow + object_metadata list"
  os_list_all_after :: "string \<Rightarrow> 's \<Rightarrow> anyhow + object_metadata list"
  os_metadata :: "string \<Rightarrow> 's \<Rightarrow> read_object_error + object_metadata"
  os_download_url :: "string \<Rightarrow> nat \<Rightarrow> 's \<Rightarrow> anyhow + string"
  os_delete :: "string \<Rightarrow> 's \<Rightarrow> (anyhow + deleted_state) \<times> 's"
  os_delete_all :: "string \<Rightarrow> 's \<Rightarrow> (anyhow + bulk_delete_output) \<times> 's"

text \<open>The provided methods of the trait.\<close>

definition reader_if_not_too_large ::
  "('s, 'w) object_store \<Rightarrow> string \<Rightarrow> u64 \<Rightarrow> 's \<Rightarrow> (read_sized_object_error + reader) run" where
  "reader_if_not_too_large S key max_size s =
     (case os_metadata S key s of
        Inl e \<Rightarrow> Ret (Err (ReadFailed e))
      | Inr m \<Rightarrow>
          let size = size_bytes m in
          if size \<le> max_size
          then (case os_reader S key s of Panic \<Rightarrow> Panic | Ret r \<Rightarrow> Ret (map_err ReadFailed r))
          else Ret (Err (ObjectTooLarge key size max_size)))"

definition store_list_all :: "('s, 'w) object_store \<Rightarrow> 's \<Rightarrow> anyhow + object_metadata list" where
  "store_list_all S s = os_list_all_after S [] s"

section \<open>ObjectId\<close>

text \<open>\<open>ObjectId::with_extension\<close>; the assertion panics.\<close>

definition with_extension :: "string \<Rightarrow> string \<Rightarrow> string run" where
  "with_extension oid extension =
     (if ends_with extension ''.'' then Panic else Ret (oid @ ''.'' @ extension))"

lemma with_extension_const [simp]:
  "with_extension oid ''sig'' = Ret (oid @ ''.sig'')"
  "with_extension oid ''blake3'' = Ret (oid @ ''.blake3'')"
  "with_extension oid ''sha256'' = Ret (oid @ ''.sha256'')"
  by (simp_all add: with_extension_def ends_with_def starts_with_def)

section \<open>The contract\<close>

definition object_meta :: "string \<Rightarrow> bytes \<Rightarrow> object_metadata" where
  "object_meta k c = \<lparr>file_name = k, size_bytes = of_nat (length c)\<rparr>"

text \<open>A sorted listing of exactly the objects whose key satisfies \<open>P\<close>.\<close>

definition lists_exactly :: "(string \<Rightarrow> bool) \<Rightarrow> (string \<rightharpoonup> bytes) \<Rightarrow> object_metadata list \<Rightarrow> bool" where
  "lists_exactly P m ms \<longleftrightarrow>
     sorted_wrt (<) (map file_name ms) \<and>
     set ms = {object_meta k c | k c. m k = Some c \<and> P k}"

locale object_store_contract =
  fixes S :: "('s, 'w) object_store"
    and abs :: "'s \<Rightarrow> string \<rightharpoonup> bytes"
    and inv :: "'s \<Rightarrow> bool"
  assumes find_lists: "inv s \<Longrightarrow> \<exists>ms. os_find S p s = Ok ms \<and> lists_exactly (\<lambda>k. starts_with k p) (abs s) ms"
    and after_lists: "inv s \<Longrightarrow> \<exists>ms. os_list_all_after S p s = Ok ms \<and> lists_exactly (\<lambda>k. p < k) (abs s) ms"
    and exists_iff: "inv s \<Longrightarrow> os_exists S k s = Ok (abs s k \<noteq> None)"
    and metadata_Some: "inv s \<Longrightarrow> abs s k = Some c \<Longrightarrow> os_metadata S k s = Ok (object_meta k c)"
    and metadata_None: "inv s \<Longrightarrow> abs s k = None \<Longrightarrow> \<exists>e. os_metadata S k s = Err (ObjectNotFound e)"
    and delete_Ok: "inv s \<Longrightarrow> abs s k \<noteq> None \<Longrightarrow>
          \<exists>d s'. os_delete S k s = (Ok d, s') \<and> inv s' \<and> abs s' = (abs s)(k := None)"
    and delete_missing: "inv s \<Longrightarrow> abs s k = None \<Longrightarrow> \<exists>e. os_delete S k s = (Err e, s)"
begin

lemma list_all_lists:
  "inv s \<Longrightarrow> \<exists>ms. store_list_all S s = Ok ms \<and> lists_exactly (\<lambda>k. k \<noteq> []) (abs s) ms"
  using after_lists [of s "[]"] by (simp add: store_list_all_def)

lemma delete_then_absent:
  "inv s \<Longrightarrow> os_delete S k s = (Ok d, s') \<Longrightarrow> os_exists S k s' = Ok False"
  using delete_Ok [of s k] delete_missing [of s k] exists_iff [of s' k] by (cases "abs s k") auto

lemma too_large_not_read:
  "inv s \<Longrightarrow> abs s k = Some c \<Longrightarrow> max_size < of_nat (length c) \<Longrightarrow>
   reader_if_not_too_large S k max_size s = Ret (Err (ObjectTooLarge k (of_nat (length c)) max_size))"
  using metadata_Some [of s k c] by (auto simp: reader_if_not_too_large_def object_meta_def Let_def dest: leD)

end

end
