(* ===== verification/Fs_Store.thy ===== *)
theory Fs_Store
  imports Object_Store
begin

text \<open>
  \<^verbatim>\<open>api/crates/backup/src/stores/fs.rs\<close>: the object store kept in one directory.  The
  directory is the list of its files in the order \<open>read_dir\<close> yields them; \<open>faults\<close> says which
  system calls fail.  Keys are file names of that directory (keys with a \<open>/\<close> are outside
  the model).  A writer is the name of the open file.
\<close>

unbundle bit_operations_syntax

section \<open>The directory\<close>

record fs_faults =
  read_dir_fails :: bool
  entry_fails :: "string \<Rightarrow> bool"
  stat_fails :: "string \<Rightarrow> bool"
  open_fails :: "string \<Rightarrow> bool"
  io_fails :: "string \<Rightarrow> bool"
  unlink_fails :: "string \<Rightarrow> bool"

definition no_faults :: fs_faults where
  "no_faults = \<lparr>read_dir_fails = False, entry_fails = (\<lambda>_. False), stat_fails = (\<lambda>_. False),
     open_fails = (\<lambda>_. False), io_fails = (\<lambda>_. False), unlink_fails = (\<lambda>_. False)\<rparr>"

record fs_dir =
  files :: "(string \<times> bytes) list"
  faults :: fs_faults

text \<open>\<open>fs::read_dir\<close>: an error, or the entries, each of which may itself be an error.\<close>

definition read_dir :: "fs_dir \<Rightarrow> anyhow + (anyhow + string) list" where
  "read_dir d =
     (if read_dir_fails (faults d) then Err [''read_dir'']
      else Ok (map (\<lambda>(n, _). if entry_fails (faults d) n then Err [''entry''] else Ok n) (files d)))"

text \<open>\<open>fs::metadata\<close>, by the length of the file.\<close>

definition stat_len :: "fs_dir \<Rightarrow> string \<Rightarrow> anyhow + u64" where
  "stat_len d n =
     (if stat_fails (faults d) n then Err [''stat'']
      else (case map_of (files d) n of None \<Rightarrow> Err [''not found''] | Some c \<Rightarrow> Ok (of_nat (length c))))"

section \<open>Configuration\<close>

record fs_store =
  directory :: string
  overwrite :: bool
  mode :: u32

record storage_fs_config =
  cfg_directory :: string
  cfg_overwrite :: bool
  cfg_mode :: u32

datatype mode_result = ModeOk | ModeWarn | ModeErr

definition validate_mode :: "u32 \<Rightarrow> u32 \<Rightarrow> mode_result" where
  "validate_mode md min_permissions =
     (if md = min_permissions then ModeOk
      else if md AND 0x4F \<noteq> 0 then ModeErr
      else if md AND min_permissions \<noteq> min_permissions then ModeErr
      else ModeWarn)"

definition try_from_config :: "storage_fs_config \<Rightarrow> u32 \<Rightarrow> anyhow + fs_store" where
  "try_from_config config min_permissions =
     (case validate_mode (cfg_mode config) min_permissions of
        ModeErr \<Rightarrow> Err [''Invalid permissions'']
      | _ \<Rightarrow> Ok \<lparr>directory = cfg_directory config, overwrite = cfg_overwrite config,
                 mode = cfg_mode config\<rparr>)"

section \<open>Operations\<close>

definition fs_writer :: "fs_store \<Rightarrow> string \<Rightarrow> fs_dir \<Rightarrow> (anyhow + string) run \<times> fs_dir" where
  "fs_writer st n d =
     (if starts_with n ''/'' then (Panic, d)
      else if mode st AND 0x4F \<noteq> 0 then (Panic, d)
      else if open_fails (faults d) n then (Ret (Err [''Failed opening file (write)'']), d)
      else if overwrite st then (Ret (Ok n), d\<lparr>files := AList.update n [] (files d)\<rparr>)
      else if map_of (files d) n \<noteq> None then (Ret (Err [''Failed opening file (write)'', ''exists'']), d)
      else (Ret (Ok n), d\<lparr>files := AList.update n [] (files d)\<rparr>))"

text \<open>\<open>write_all\<close> on the open file (nothing is written when the call fails) and \<open>finalize\<close>.\<close>

definition fs_write_all :: "string \<Rightarrow> bytes \<Rightarrow> fs_dir \<Rightarrow> (anyhow + string) \<times> fs_dir" where
  "fs_write_all n buf d =
     (if io_fails (faults d) n then (Err [''write''], d)
      else (case map_of (files d) n of
              None \<Rightarrow> (Ok n, d)
            | Some c \<Rightarrow> (Ok n, d\<lparr>files := AList.update n (c @ buf) (files d)\<rparr>)))"

definition fs_finalize :: "string \<Rightarrow> fs_dir \<Rightarrow> (anyhow + unit) \<times> fs_dir" where
  "fs_finalize n d = (Ok (), d)"

definition fs_reader :: "string \<Rightarrow> fs_dir \<Rightarrow> (read_object_error + reader) run" where
  "fs_reader n d =
     (if starts_with n ''/'' then Panic
      else (case map_of (files d) n of
              None \<Rightarrow> Ret (Err (ObjectNotFound [''not found'']))
            | Some c \<Rightarrow>
                if open_fails (faults d) n
                then Ret (Err (ReadOther [''Failed opening file (read)'']))
                else Ret (Ok \<lparr>rd_data = (if io_fails (faults d) n then [] else c),
                              rd_fails = io_fails (faults d) n\<rparr>)))"

definition fs_exists :: "string \<Rightarrow> fs_dir \<Rightarrow> anyhow + bool" where
  "fs_exists n d = Ok (map_of (files d) n \<noteq> None \<and> \<not> stat_fails (faults d) n)"

text \<open>The loop shared by \<open>find\<close> and \<open>list_all_after\<close>: entries in error are skipped, a metadata
  error aborts, the matching files are collected.\<close>

fun fs_collect :: "fs_dir \<Rightarrow> (string \<Rightarrow> bool) \<Rightarrow> (anyhow + string) list \<Rightarrow> object_metadata list \<Rightarrow>
    anyhow + object_metadata list" where
  "fs_collect d P [] results = Ok results"
| "fs_collect d P (Inl e # es) results = fs_collect d P es results"
| "fs_collect d P (Inr n # es) results =
     (case stat_len d n of
        Inl e \<Rightarrow> Err e
      | Inr len \<Rightarrow>
          if P n then fs_collect d P es (results @ [\<lparr>file_name = n, size_bytes = len\<rparr>])
          else fs_collect d P es results)"

definition fs_find :: "string \<Rightarrow> fs_dir \<Rightarrow> anyhow + object_metadata list" where
  "fs_find pfx d =
     try_bind (map_err (context_msg ''Failed reading directory'') (read_dir d)) (\<lambda>es.
     try_bind (fs_collect d (\<lambda>n. starts_with n pfx) es []) (\<lambda>results.
     Ok (sort_key file_name results)))"

definition fs_list_all_after :: "string \<Rightarrow> fs_dir \<Rightarrow> anyhow + object_metadata list" where
  "fs_list_all_after pfx d =
     try_bind (map_err (context_msg ''Failed reading directory'') (read_dir d)) (\<lambda>es.
     try_bind (fs_collect d (\<lambda>n. n > pfx) es []) (\<lambda>results.
     Ok (sort_key file_name results)))"

definition fs_metadata :: "string \<Rightarrow> fs_dir \<Rightarrow> read_object_error + object_metadata" where
  "fs_metadata n d =
     (case stat_len d n of
        Inl e \<Rightarrow> Err (ObjectNotFound (context_msg ''Failed getting file metadata'' e))
      | Inr len \<Rightarrow> Ok \<lparr>file_name = n, size_bytes = len\<rparr>)"

definition fs_download_url :: "fs_store \<Rightarrow> string \<Rightarrow> nat \<Rightarrow> fs_dir \<Rightarrow> anyhow + string" where
  "fs_download_url st n ttl d = Ok (''file://'' @ path_join (directory st) n)"

definition fs_delete :: "string \<Rightarrow> fs_dir \<Rightarrow> (anyhow + deleted_state) \<times> fs_dir" where
  "fs_delete n d =
     (if map_of (files d) n = None \<or> unlink_fails (faults d) n then (Err [''remove_file''], d)
      else (Ok Deleted, d\<lparr>files := AList.delete n (files d)\<rparr>))"

fun fs_delete_loop :: "string \<Rightarrow> (anyhow + string) list \<Rightarrow> bulk_delete_output \<Rightarrow> fs_dir \<Rightarrow>
    bulk_delete_output \<times> fs_dir" where
  "fs_delete_loop pfx [] out d = (out, d)"
| "fs_delete_loop pfx (Inl e # es) out d =
     fs_delete_loop pfx es (out\<lparr>errors := errors out @ [context_msg ''Invalid entry in directory'' e]\<rparr>) d"
| "fs_delete_loop pfx (Inr n # es) out d =
     (if n > pfx
      then (case fs_delete n d of
              (Inr _, d') \<Rightarrow> fs_delete_loop pfx es (out\<lparr>deleted := deleted out @ [n]\<rparr>) d'
            | (Inl e, d') \<Rightarrow>
                fs_delete_loop pfx es (out\<lparr>errors := errors out @ [context_msg ''File not deleted'' e]\<rparr>) d')
      else fs_delete_loop pfx es out d)"

definition fs_delete_all :: "string \<Rightarrow> fs_dir \<Rightarrow> (anyhow + bulk_delete_output) \<times> fs_dir" where
  "fs_delete_all pfx d =
     (case map_err (context_msg ''Failed reading directory'') (read_dir d) of
        Inl e \<Rightarrow> (Err e, d)
      | Inr es \<Rightarrow> (let (out, d') = fs_delete_loop pfx es bulk_delete_default d in (Ok out, d')))"

definition fs_object_store :: "fs_store \<Rightarrow> (fs_dir, string) object_store" where
  "fs_object_store st = \<lparr>os_writer = fs_writer st, os_write_all = fs_write_all,
     os_finalize = fs_finalize, os_reader = fs_reader, os_exists = fs_exists,
     os_find = fs_find, os_list_all_after = fs_list_all_after, os_metadata = fs_metadata,
     os_download_url = fs_download_url st, os_delete = fs_delete, os_delete_all = fs_delete_all\<rparr>"

section \<open>Invariant\<close>

text \<open>File names are unique; in the fault-free states no system call fails.\<close>

definition fs_wf :: "fs_dir \<Rightarrow> bool" where
  "fs_wf d \<longleftrightarrow> distinct (map fst (files d))"

definition fs_good :: "fs_dir \<Rightarrow> bool" where
  "fs_good d \<longleftrightarrow> fs_wf d \<and> faults d = no_faults"

definition fs_abs :: "fs_dir \<Rightarrow> string \<rightharpoonup> bytes" where
  "fs_abs d = map_of (files d)"

lemma fs_wf_update [simp]: "fs_wf d \<Longrightarrow> fs_wf (d\<lparr>files := AList.update n c (files d)\<rparr>)"
  by (simp add: fs_wf_def distinct_update)

lemma fs_wf_delete [simp]: "fs_wf d \<Longrightarrow> fs_wf (d\<lparr>files := AList.delete n (files d)\<rparr>)"
  by (simp add: fs_wf_def distinct_delete)

lemma fs_abs_delete: "fs_abs (d\<lparr>files := AList.delete n (files d)\<rparr>) = (fs_abs d)(n := None)"
  by (simp add: fs_abs_def delete_conv')

lemma fs_abs_update: "fs_abs (d\<lparr>files := AList.update n c (files d)\<rparr>) = (fs_abs d)(n \<mapsto> c)"
  by (simp add: fs_abs_def update_conv')

section \<open>Listing\<close>

definition meta_at :: "fs_dir \<Rightarrow> string \<Rightarrow> object_metadata" where
  "meta_at d n = object_meta n (case fs_abs d n of None \<Rightarrow> [] | Some c \<Rightarrow> c)"

lemma file_name_meta_at [simp]: "file_name (meta_at d n) = n"
  by (simp add: meta_at_def object_meta_def)

lemma read_dir_good: "fs_good d \<Longrightarrow> read_dir d = Ok (map Inr (map fst (files d)))"
  by (auto simp: read_dir_def fs_good_def no_faults_def)

lemma fs_collect_good:
  assumes "faults d = no_faults" "\<forall>n \<in> set ns. fs_abs d n \<noteq> None"
  shows "fs_collect d P (map Inr ns) acc = Ok (acc @ map (meta_at d) (filter P ns))"
  using assms(2)
proof (induction ns arbitrary: acc)
  case (Cons n ns)
  then obtain c where "fs_abs d n = Some c" by auto
  then have "stat_len d n = Ok (of_nat (length c))" "meta_at d n = object_meta n c"
    using assms(1) by (simp_all add: stat_len_def fs_abs_def no_faults_def meta_at_def)
  with Cons show ?case by (simp add: object_meta_def)
qed simp

lemma set_files_abs: "set (map fst (files d)) = dom (fs_abs d)"
  by (simp add: fs_abs_def dom_map_of_conv_image_fst)

lemma lists_exactly_sorted:
  assumes "fs_wf d"
  shows "lists_exactly P (fs_abs d) (sort_key file_name (map (meta_at d) (filter P (map fst (files d)))))"
proof -
  let ?ns = "filter P (map fst (files d))"
  have names: "map file_name (sort_key file_name (map (meta_at d) ?ns)) = sort ?ns"
    by (simp add: map_sort_key comp_def)
  have "sorted_wrt (<) (sort ?ns)"
    using assms by (simp add: fs_wf_def strict_sorted_iff)
  moreover have "meta_at d ` {n \<in> dom (fs_abs d). P n} =
      {object_meta k c | k c. fs_abs d k = Some c \<and> P k}"
    by (force simp: meta_at_def)
  ultimately show ?thesis
    unfolding lists_exactly_def names using set_files_abs [of d] by (simp add: Collect_conj_eq image_def)
qed

lemma fs_collect_dir:
  assumes "fs_good d"
  shows "fs_collect d P (map Inr (map fst (files d))) [] =
    Ok (map (meta_at d) (filter P (map fst (files d))))"
  using fs_collect_good [of d "map fst (files d)" P "[]"] assms set_files_abs [of d]
  by (auto simp: fs_good_def)

lemma fs_listing:
  assumes "fs_good d"
  shows "\<exists>ms. fs_find p d = Ok ms \<and> lists_exactly (\<lambda>k. starts_with k p) (fs_abs d) ms"
    and "\<exists>ms. fs_list_all_after p d = Ok ms \<and> lists_exactly (\<lambda>k. p < k) (fs_abs d) ms"
  using lists_exactly_sorted [of d] fs_collect_dir [OF assms] assms
  by (simp_all add: fs_find_def fs_list_all_after_def read_dir_good fs_good_def del: map_map)

text \<open>The file system store meets the contract in every fault-free state.\<close>

interpretation fs: object_store_contract "fs_object_store st" fs_abs fs_good for st
proof
  fix s p k and c :: bytes
  assume g: "fs_good s"
  have nf: "faults s = no_faults" and wf: "fs_wf s" using g by (simp_all add: fs_good_def)
  show "\<exists>ms. os_find (fs_object_store st) p s = Ok ms \<and> lists_exactly (\<lambda>k. starts_with k p) (fs_abs s) ms"
    "\<exists>ms. os_list_all_after (fs_object_store st) p s = Ok ms \<and> lists_exactly (\<lambda>k. p < k) (fs_abs s) ms"
    using fs_listing [OF g] by (simp_all add: fs_object_store_def)
  show "os_exists (fs_object_store st) k s = Ok (fs_abs s k \<noteq> None)"
    using nf by (simp add: fs_object_store_def fs_exists_def fs_abs_def no_faults_def)
  show "fs_abs s k = Some c \<Longrightarrow> os_metadata (fs_object_store st) k s = Ok (object_meta k c)"
    using nf by (simp add: fs_object_store_def fs_metadata_def stat_len_def fs_abs_def no_faults_def object_meta_def)
  show "fs_abs s k = None \<Longrightarrow> \<exists>e. os_metadata (fs_object_store st) k s = Err (ObjectNotFound e)"
    by (simp add: fs_object_store_def fs_metadata_def stat_len_def fs_abs_def)
  show "fs_abs s k \<noteq> None \<Longrightarrow> \<exists>d s'. os_delete (fs_object_store st) k s = (Ok d, s') \<and>
      fs_good s' \<and> fs_abs s' = (fs_abs s)(k := None)"
    using nf wf fs_abs_delete [where d = s and n = k]
    by (simp add: fs_object_store_def fs_delete_def fs_good_def fs_abs_def no_faults_def)
  show "fs_abs s k = None \<Longrightarrow> \<exists>e. os_delete (fs_object_store st) k s = (Err e, s)"
    by (simp add: fs_object_store_def fs_delete_def fs_abs_def)
qed

section \<open>Properties\<close>

text \<open>
  Listing the objects after a key returns, in strictly increasing order of name and each
  once, exactly the files whose name is greater, with their sizes.
\<close>

theorem fs_list_all_after_correct:
  assumes "fs_good d"
  shows "\<exists>ms. fs_list_all_after p d = Ok ms \<and> sorted_wrt (<) (map file_name ms) \<and>
    set ms = {object_meta k c | k c. fs_abs d k = Some c \<and> p < k}"
  using fs.after_lists [OF assms, of undefined p]
  by (simp add: fs_object_store_def lists_exactly_def)

definition example_dir :: fs_dir where
  "example_dir = \<lparr>files = [(''b'', ''22''), (''a'', ''1''), (''c'', [])], faults = no_faults\<rparr>"

lemma example_dir_good: "fs_good example_dir"
  by (simp add: fs_good_def fs_wf_def example_dir_def)

theorem fs_list_all_after_correct_witness:
  "\<exists>ms. fs_list_all_after ''a'' example_dir = Ok ms \<and> sorted_wrt (<) (map file_name ms) \<and>
    set ms = {object_meta k c | k c. fs_abs example_dir k = Some c \<and> ''a'' < k}"
  by (rule fs_list_all_after_correct [OF example_dir_good])

text \<open>
  A mode is accepted without an error only if it is the required one, or has all required
  bits and no bit for execution by the owner or group nor any bit for others.
\<close>

theorem validate_mode_safe:
  assumes "try_from_config config min_permissions = Ok st"
  shows "mode st = min_permissions \<or>
    mode st AND 0x4F = 0 \<and> mode st AND min_permissions = min_permissions"
  using assms by (auto simp: try_from_config_def validate_mode_def split: if_splits)

theorem validate_mode_safe_witness:
  "(0x1A0 :: u32) = 0x180 \<or> (0x1A0 :: u32) AND 0x4F = 0 \<and> (0x1A0 :: u32) AND 0x180 = 0x180"
proof -
  let ?c = "\<lparr>cfg_directory = ''/d'', cfg_overwrite = False, cfg_mode = 0x1A0\<rparr>"
  have h: "try_from_config ?c 0x180 = Ok \<lparr>directory = ''/d'', overwrite = False, mode = 0x1A0\<rparr>"
    by (simp add: try_from_config_def validate_mode_def)
  show ?thesis using validate_mode_safe [OF h] by simp
qed

section \<open>Bulk deletion\<close>

lemma fs_delete_good:
  assumes "fs_good d" "fs_abs d n \<noteq> None"
  shows "fs_delete n d = (Ok Deleted, d\<lparr>files := AList.delete n (files d)\<rparr>)"
    and "fs_good (d\<lparr>files := AList.delete n (files d)\<rparr>)"
  using assms by (simp_all add: fs_delete_def fs_good_def fs_abs_def no_faults_def)

lemma fs_delete_loop_good:
  assumes "fs_good d" "distinct ns" "\<forall>n \<in> set ns. fs_abs d n \<noteq> None"
  shows "\<exists>d'. fs_delete_loop p (map Inr ns) out d =
      (out\<lparr>deleted := deleted out @ filter (\<lambda>n. p < n) ns\<rparr>, d') \<and> fs_good d' \<and>
      fs_abs d' = (\<lambda>k. if k \<in> set ns \<and> p < k then None else fs_abs d k)"
  using assms
proof (induction ns arbitrary: d out)
  case (Cons n ns)
  show ?case
  proof (cases "p < n")
    case True
    let ?d = "d\<lparr>files := AList.delete n (files d)\<rparr>"
    let ?out = "out\<lparr>deleted := deleted out @ [n]\<rparr>"
    have del: "fs_delete n d = (Ok Deleted, ?d)" and good: "fs_good ?d"
      using fs_delete_good [of d n] Cons.prems by simp_all
    have abs: "fs_abs ?d = (fs_abs d)(n := None)" by (rule fs_abs_delete)
    have "\<forall>m \<in> set ns. fs_abs ?d m \<noteq> None" using Cons.prems abs by auto
    then obtain d' where "fs_delete_loop p (map Inr ns) ?out ?d =
        (?out\<lparr>deleted := deleted ?out @ filter (\<lambda>n. p < n) ns\<rparr>, d')" "fs_good d'"
      "fs_abs d' = (\<lambda>k. if k \<in> set ns \<and> p < k then None else fs_abs ?d k)"
      using Cons.IH [OF good, of ?out] Cons.prems(2) by fastforce
    with True del abs show ?thesis by auto
  next
    case False
    with Cons.IH [OF Cons.prems(1), of out] Cons.prems show ?thesis by fastforce
  qed
qed simp

lemma fs_delete_all_spec:
  assumes "fs_good d"
  shows "\<exists>out d'. fs_delete_all p d = (Ok out, d') \<and> fs_good d' \<and>
    deleted out = filter (\<lambda>n. p < n) (map fst (files d)) \<and> errors out = [] \<and>
    fs_abs d' = (\<lambda>k. if p < k then None else fs_abs d k)"
proof -
  let ?ns = "map fst (files d)"
  have names: "distinct ?ns" "\<forall>n \<in> set ?ns. fs_abs d n \<noteq> None"
    using assms set_files_abs [of d] by (auto simp: fs_good_def fs_wf_def)
  obtain d' where d': "fs_delete_loop p (map Inr ?ns) bulk_delete_default d =
      (bulk_delete_default\<lparr>deleted := deleted bulk_delete_default @ filter (\<lambda>n. p < n) ?ns\<rparr>, d')"
    "fs_good d'" "fs_abs d' = (\<lambda>k. if k \<in> set ?ns \<and> p < k then None else fs_abs d k)"
    using fs_delete_loop_good [OF assms names, of p bulk_delete_default] by blast
  have "fs_abs d' = (\<lambda>k. if p < k then None else fs_abs d k)"
    unfolding d'(3) set_files_abs by (auto simp: fun_eq_iff)
  then show ?thesis
    using d' assms by (simp add: fs_delete_all_def read_dir_good bulk_delete_default_def del: map_map)
qed

text \<open>
  \<open>delete_all\<close> on the file system store: it succeeds, reports as deleted exactly the files
  whose name is greater than the given prefix (in directory order), and leaves exactly the
  others.  The comparison is the order on names: being a prefix plays no part.
\<close>

theorem fs_delete_all_effect:
  assumes "fs_good d"
  shows "\<exists>out d'. fs_delete_all p d = (Ok out, d') \<and> fs_good d' \<and>
    deleted out = filter (\<lambda>n. p < n) (map fst (files d)) \<and> errors out = [] \<and>
    fs_abs d' = (\<lambda>k. if p < k then None else fs_abs d k)"
  by (rule fs_delete_all_spec [OF assms])

theorem fs_delete_all_effect_witness:
  "\<exists>out d'. fs_delete_all ''a'' example_dir = (Ok out, d') \<and> fs_good d' \<and>
    deleted out = [''b'', ''c''] \<and> errors out = [] \<and>
    fs_abs d' = (\<lambda>k. if ''a'' < k then None else fs_abs example_dir k)"
  using fs_delete_all_effect [OF example_dir_good, of "''a''"] by (simp add: example_dir_def)

section \<open>Writing\<close>

lemma fs_writer_write_good:
  assumes "fs_good d" "\<not> starts_with n ''/''" "mode st AND 0x4F = 0" "overwrite st \<or> fs_abs d n = None"
  shows "\<exists>d1. fs_writer st n d = (Ret (Ok n), d1) \<and> fs_good d1 \<and> fs_abs d1 = (fs_abs d)(n \<mapsto> [])"
  using assms fs_abs_update [where d = d and n = n and c = "[]"]
  by (auto simp: fs_writer_def fs_good_def fs_abs_def no_faults_def)

lemma fs_write_all_good:
  assumes "fs_good d" "fs_abs d n = Some c"
  shows "\<exists>d1. fs_write_all n buf d = (Ok n, d1) \<and> fs_good d1 \<and> fs_abs d1 = (fs_abs d)(n \<mapsto> c @ buf)"
  using assms fs_abs_update [where d = d and n = n and c = "c @ buf"]
  by (auto simp: fs_write_all_def fs_good_def fs_abs_def no_faults_def)

text \<open>
  Writing an object and reading it back: opening a writer on an allowed key, writing two
  chunks and finalising leaves exactly the concatenated chunks readable under that key and
  every other object unchanged.
\<close>

theorem fs_write_read_roundtrip:
  assumes "fs_good d" "\<not> starts_with n ''/''" "mode st AND 0x4F = 0" "overwrite st \<or> fs_abs d n = None"
  shows "\<exists>d1 d2 d3. fs_writer st n d = (Ret (Ok n), d1) \<and> fs_write_all n a d1 = (Ok n, d2) \<and>
    fs_write_all n b d2 = (Ok n, d3) \<and> fs_finalize n d3 = (Ok (), d3) \<and>
    fs_reader n d3 = Ret (Ok \<lparr>rd_data = a @ b, rd_fails = False\<rparr>) \<and>
    fs_abs d3 = (fs_abs d)(n \<mapsto> a @ b)"
proof -
  obtain d1 where 1: "fs_writer st n d = (Ret (Ok n), d1)" "fs_good d1" "fs_abs d1 = (fs_abs d)(n \<mapsto> [])"
    using fs_writer_write_good [OF assms] by blast
  obtain d2 where 2: "fs_write_all n a d1 = (Ok n, d2)" "fs_good d2" "fs_abs d2 = (fs_abs d)(n \<mapsto> a)"
    using fs_write_all_good [OF 1(2), of n "[]" a] 1(3) by auto
  obtain d3 where 3: "fs_write_all n b d2 = (Ok n, d3)" "fs_good d3" "fs_abs d3 = (fs_abs d)(n \<mapsto> a @ b)"
    using fs_write_all_good [OF 2(2), of n a b] 2(3) by auto
  have "fs_reader n d3 = Ret (Ok \<lparr>rd_data = a @ b, rd_fails = False\<rparr>)"
    using 3(2) fun_cong [OF 3(3), of n] assms(2)
    by (simp add: fs_reader_def fs_good_def fs_abs_def no_faults_def)
  then show ?thesis using 1 2 3 by (auto simp: fs_finalize_def)
qed

theorem fs_write_read_roundtrip_witness:
  "\<exists>d1 d2 d3. fs_writer \<lparr>directory = ''/d'', overwrite = False, mode = 0x180\<rparr> ''z'' example_dir =
      (Ret (Ok ''z''), d1) \<and> fs_write_all ''z'' ''x'' d1 = (Ok ''z'', d2) \<and>
    fs_write_all ''z'' ''y'' d2 = (Ok ''z'', d3) \<and> fs_finalize ''z'' d3 = (Ok (), d3) \<and>
    fs_reader ''z'' d3 = Ret (Ok \<lparr>rd_data = ''x'' @ ''y'', rd_fails = False\<rparr>) \<and>
    fs_abs d3 = (fs_abs example_dir)(''z'' \<mapsto> ''x'' @ ''y'')"
  by (rule fs_write_read_roundtrip [OF example_dir_good])
    (simp_all add: starts_with_def fs_abs_def example_dir_def)

end
