(* ===== verification/Store_Cache.thy ===== *)
theory Store_Cache
  imports Fs_Store Measurements
begin

text \<open>
  \<^verbatim>\<open>api/crates/backup/src/stores/cache.rs\<close>: \<open>CachedStore\<close>, a store that keeps local copies of
  the objects it reads, and \<open>PathGuard\<close> of \<^verbatim>\<open>util/fs.rs\<close>.  The cache directory is an
  \<open>fs_dir\<close> (a cached object is the file named like its key); \<open>guards\<close> lists the live
  \<open>Arc<PathGuard>\<close> references, and dropping the last one for a path deletes the file.
\<close>

section \<open>State\<close>

record cache_entry =
  ce_key :: string
  ce_path :: string
  ce_size :: u64

record store_cache =
  entries :: "cache_entry list"
  total_size :: u64

record cache_state =
  cache :: store_cache
  cache_files :: fs_dir
  guards :: "string list"

datatype cache_reader =
    Caching (cr_reader: reader) (cr_size: u64) (cr_key: string) (cr_path: string)
  | Cached (cr_file: bytes) (cr_pos: nat) (cr_path: string)

text \<open>\<open>CachedStore::new\<close>: the configured maximum, in bytes.\<close>

definition cached_store_new :: "bytes_amount option \<Rightarrow> u64 option" where
  "cached_store_new max_backup_cache_size = map_option as_bytes max_backup_cache_size"

section \<open>Path guards\<close>

text \<open>\<open>PathGuard::drop\<close>, for the last reference: best effort, nothing happens on an error.\<close>

definition path_guard_drop :: "string \<Rightarrow> fs_dir \<Rightarrow> fs_dir" where
  "path_guard_drop p d = snd (fs_delete p d)"

definition drop_guard :: "string \<Rightarrow> cache_state \<Rightarrow> cache_state" where
  "drop_guard p w =
     (let gs = remove1 p (guards w) in
      w\<lparr>guards := gs,
        cache_files := (if p \<in> set gs then cache_files w else path_guard_drop p (cache_files w))\<rparr>)"

definition clone_guard :: "string \<Rightarrow> cache_state \<Rightarrow> cache_state" where
  "clone_guard p w = w\<lparr>guards := p # guards w\<rparr>"

section \<open>Operations\<close>

text \<open>The purge loop of \<open>CachedStore::cache\<close>; popping an entry drops its path guard.\<close>

fun purge :: "u64 \<Rightarrow> u64 \<Rightarrow> cache_entry list \<Rightarrow> u64 \<Rightarrow> cache_state \<Rightarrow> cache_state" where
  "purge max_size sz [] tot w =
     (if tot + sz > max_size then w\<lparr>cache := \<lparr>entries = [], total_size = 0\<rparr>\<rparr>
      else w\<lparr>cache := \<lparr>entries = [], total_size = tot\<rparr>\<rparr>)"
| "purge max_size sz (e # es) tot w =
     (if tot + sz > max_size
      then purge max_size sz es (saturating_sub tot (ce_size e)) (drop_guard (ce_path e) w)
      else w\<lparr>cache := \<lparr>entries = e # es, total_size = tot\<rparr>\<rparr>)"

definition push_entry :: "cache_entry \<Rightarrow> cache_state \<Rightarrow> cache_state" where
  "push_entry e w =
     w\<lparr>cache := \<lparr>entries = entries (cache w) @ [e], total_size = total_size (cache w) + ce_size e\<rparr>\<rparr>"

text \<open>\<open>CachedStore::cache\<close>: takes one reference to the path, dropped if the entry is not kept.\<close>

definition cache_object :: "u64 option \<Rightarrow> string \<Rightarrow> string \<Rightarrow> u64 \<Rightarrow> cache_state \<Rightarrow> cache_state" where
  "cache_object max_cache_size_bytes key path sz w =
     (if \<exists>e \<in> set (entries (cache w)). ce_key e = key then drop_guard path w
      else
        (let entry = \<lparr>ce_key = key, ce_path = path, ce_size = sz\<rparr> in
         case max_cache_size_bytes of
           None \<Rightarrow> push_entry entry w
         | Some max_size \<Rightarrow>
             if sz > max_size then drop_guard path w
             else push_entry entry (purge max_size sz (entries (cache w)) (total_size (cache w)) w)))"

text \<open>Opening the file of a cache entry.\<close>

definition open_cached :: "fs_dir \<Rightarrow> string \<Rightarrow> bytes option" where
  "open_cached d p = (if open_fails (faults d) p then None else map_of (files d) p)"

text \<open>\<open>CachedStore::cached_reader\<close> over the inner store \<open>S\<close> in state \<open>s\<close>.\<close>

definition cached_reader ::
  "('s, 'w) object_store \<Rightarrow> 's \<Rightarrow> string \<Rightarrow> cache_state \<Rightarrow>
     (read_object_error + cache_reader) run \<times> cache_state" where
  "cached_reader S s key w =
     (case (case find (\<lambda>e. ce_key e = key) (entries (cache w)) of
              None \<Rightarrow> None
            | Some e \<Rightarrow> map_option (\<lambda>c. (ce_path e, c)) (open_cached (cache_files w) (ce_path e))) of
        Some (p, c) \<Rightarrow> (Ret (Ok (Cached c 0 p)), clone_guard p w)
      | None \<Rightarrow>
          let d = cache_files w in
          if open_fails (faults d) key \<or> map_of (files d) key \<noteq> None
          then (Ret (Err (ReadOther [''Failed opening a file path to cache the object at''])), w)
          else
            (let w' = w\<lparr>cache_files := d\<lparr>files := AList.update key [] (files d)\<rparr>\<rparr> in
             case os_reader S key s of
               Panic \<Rightarrow> (Panic, w')
             | Ret (Inl e) \<Rightarrow> (Ret (Err e), w')
             | Ret (Inr r) \<Rightarrow> (Ret (Ok (Caching r 0 key key)), clone_guard key w')))"

text \<open>
  \<open>CachedReader::read\<close> with a buffer of \<open>n\<close> bytes: \<open>Caching\<close> copies what it delivers to the
  cache file and counts it.
\<close>

fun cached_read :: "nat \<Rightarrow> cache_reader \<Rightarrow> cache_state \<Rightarrow> (anyhow + bytes) \<times> cache_reader \<times> cache_state" where
  "cached_read n (Caching r sz key path) w =
     (if rd_data r = [] \<and> rd_fails r then (Err [''read''], Caching r sz key path, w)
      else
        (let buf = take n (rd_data r);
             r' = r\<lparr>rd_data := drop n (rd_data r)\<rparr>
         in case fs_write_all path buf (cache_files w) of
              (Inl e, d) \<Rightarrow> (Err e, Caching r' sz key path, w\<lparr>cache_files := d\<rparr>)
            | (Inr _, d) \<Rightarrow>
                (Ok buf, Caching r' (saturating_add sz (of_nat (length buf))) key path,
                 w\<lparr>cache_files := d\<rparr>)))"
| "cached_read n (Cached c pos path) w =
     (Ok (take n (drop pos c)), Cached c (pos + length (take n (drop pos c))) path, w)"

definition persist_cache :: "u64 option \<Rightarrow> cache_reader \<Rightarrow> cache_state \<Rightarrow> string \<times> cache_state" where
  "persist_cache max_cache_size_bytes cr w =
     (case cr of
        Caching _ sz key path \<Rightarrow>
          (path, cache_object max_cache_size_bytes key path sz (clone_guard path w))
      | Cached _ _ path \<Rightarrow> (path, w))"

definition persist_cache_and_rewind ::
  "u64 option \<Rightarrow> cache_reader \<Rightarrow> cache_state \<Rightarrow> (anyhow + cache_reader) \<times> cache_state" where
  "persist_cache_and_rewind max_cache_size_bytes cr w =
     (case cr of
        Caching _ _ _ _ \<Rightarrow>
          (let (path, w') = persist_cache max_cache_size_bytes cr w in
           case open_cached (cache_files w') path of
             None \<Rightarrow> (Err [''open''], drop_guard path w')
           | Some c \<Rightarrow> (Ok (Cached c 0 path), w'))
      | Cached c _ path \<Rightarrow> (Ok (Cached c 0 path), w))"

text \<open>
  \<open>CachedStore::remove\<close>: the matching indices are collected first, then removed one by one;
  \<open>VecDeque::remove\<close> out of range does nothing.
\<close>

definition matching_indices :: "string \<Rightarrow> cache_entry list \<Rightarrow> (nat \<times> u64) list" where
  "matching_indices key es =
     map (\<lambda>(i, e). (i, ce_size e)) (filter (\<lambda>(i, e). ce_key e = key) (enumerate 0 es))"

definition remove_at :: "nat \<Rightarrow> 'a list \<Rightarrow> 'a list" where
  "remove_at i xs = take i xs @ drop (Suc i) xs"

fun remove_indices :: "(nat \<times> u64) list \<Rightarrow> cache_state \<Rightarrow> cache_state" where
  "remove_indices [] w = w"
| "remove_indices ((i, sz) # is) w =
     (let es = entries (cache w);
          w1 = w\<lparr>cache := \<lparr>entries = remove_at i es,
                         total_size = saturating_sub (total_size (cache w)) sz\<rparr>\<rparr>;
          w2 = (if i < length es then drop_guard (ce_path (es ! i)) w1 else w1)
      in remove_indices is w2)"

definition cache_remove :: "string \<Rightarrow> cache_state \<Rightarrow> cache_state" where
  "cache_remove key w = remove_indices (matching_indices key (entries (cache w))) w"

text \<open>\<open>CachedStore::delete\<close>: the inner store first, then the cache.\<close>

definition cached_delete ::
  "('s, 'w) object_store \<Rightarrow> string \<Rightarrow> 's \<Rightarrow> cache_state \<Rightarrow> (anyhow + deleted_state) \<times> 's \<times> cache_state" where
  "cached_delete S key s w =
     (case os_delete S key s of
        (Inl e, s') \<Rightarrow> (Err e, s', w)
      | (Inr st, s') \<Rightarrow> (Ok st, s', cache_remove key w))"

text \<open>The other mutating operations go straight to the inner store.\<close>

definition cached_writer ::
  "('s, 'w) object_store \<Rightarrow> string \<Rightarrow> 's \<Rightarrow> cache_state \<Rightarrow> (anyhow + 'w) run \<times> 's \<times> cache_state" where
  "cached_writer S key s w = (let (r, s') = os_writer S key s in (r, s', w))"

definition cached_delete_all ::
  "('s, 'w) object_store \<Rightarrow> string \<Rightarrow> 's \<Rightarrow> cache_state \<Rightarrow> (anyhow + bulk_delete_output) \<times> 's \<times> cache_state" where
  "cached_delete_all S pfx s w = (let (r, s') = os_delete_all S pfx s in (r, s', w))"

section \<open>Invariant\<close>

text \<open>
  Keys are unique, the recorded total is the sum of the entries' sizes (no wrap-around) and
  stays within the configured maximum.
\<close>

definition sizes :: "cache_entry list \<Rightarrow> nat" where
  "sizes es = sum_list (map (\<lambda>e. unat (ce_size e)) es)"

definition cache_ok :: "u64 option \<Rightarrow> cache_state \<Rightarrow> bool" where
  "cache_ok max_cache_size_bytes w \<longleftrightarrow>
     distinct (map ce_key (entries (cache w))) \<and>
     unat (total_size (cache w)) = sizes (entries (cache w)) \<and>
     (case max_cache_size_bytes of None \<Rightarrow> True | Some m \<Rightarrow> total_size (cache w) \<le> m)"

lemma sizes_simps [simp]:
  "sizes [] = 0" "sizes (e # es) = unat (ce_size e) + sizes es" "sizes (a @ b) = sizes a + sizes b"
  by (simp_all add: sizes_def)

lemma cache_drop_guard [simp]: "cache (drop_guard p w) = cache w"
  by (simp add: drop_guard_def Let_def)

lemma cache_clone_guard [simp]: "cache (clone_guard p w) = cache w"
  by (simp add: clone_guard_def)

text \<open>The purge drops the shortest prefix of the entries that makes enough room.\<close>

lemma purge_spec:
  assumes "unat tot = sizes es" "sz \<le> m" "unat tot + unat sz < 2 ^ 64"
  shows "\<exists>k \<le> length es. entries (cache (purge m sz es tot w)) = drop k es \<and>
    unat (total_size (cache (purge m sz es tot w))) = sizes (drop k es) \<and>
    sizes (drop k es) + unat sz \<le> unat m \<and> (\<forall>j < k. unat m < sizes (drop j es) + unat sz)"
  using assms
proof (induction m sz es tot w rule: purge.induct)
  case (1 m sz tot w)
  then have "tot = 0" by (simp add: unat_eq_zero)
  with 1 show ?case by (auto simp: word_le_nat_alt word_less_nat_alt)
next
  case (2 m sz e es tot w)
  have plus: "unat (tot + sz) = unat tot + unat sz" using 2(4) by (simp add: unat_add_u64)
  show ?case
  proof (cases "tot + sz > m")
    case True
    have sub: "unat (saturating_sub tot (ce_size e)) = sizes es"
      using 2(2) by (simp add: unat_saturating_sub)
    then obtain k where k: "k \<le> length es"
      "entries (cache (purge m sz (e # es) tot w)) = drop k es"
      "unat (total_size (cache (purge m sz (e # es) tot w))) = sizes (drop k es)"
      "sizes (drop k es) + unat sz \<le> unat m" "\<forall>j < k. unat m < sizes (drop j es) + unat sz"
      using 2(1) [OF True] 2(2-4) True by auto
    have "\<forall>j < Suc k. unat m < sizes (drop j (e # es)) + unat sz"
      using k(5) True plus 2(2) by (auto simp: less_Suc_eq_0_disj word_less_nat_alt)
    with k show ?thesis by (intro exI [of _ "Suc k"]) simp
  next
    case False
    with 2 plus show ?thesis by (intro exI [of _ 0]) (auto simp: word_less_nat_alt)
  qed
qed

text \<open>No 64-bit sum wraps: the maximum is below \<open>2 ^ 63\<close>, or, without one, the sizes add up.\<close>

definition no_wrap :: "u64 option \<Rightarrow> u64 \<Rightarrow> cache_state \<Rightarrow> bool" where
  "no_wrap max_cache_size_bytes sz w \<longleftrightarrow>
     (case max_cache_size_bytes of
        Some m \<Rightarrow> unat m < 2 ^ 63
      | None \<Rightarrow> sizes (entries (cache w)) + unat sz < 2 ^ 64)"

lemma cache_object_kept:
  assumes ok: "cache_ok (Some m) w" and m: "unat m < 2 ^ 63" and sz: "sz \<le> m"
    and key: "\<forall>e \<in> set (entries (cache w)). ce_key e \<noteq> key"
  shows "\<exists>k \<le> length (entries (cache w)).
    entries (cache (cache_object (Some m) key path sz w)) =
      drop k (entries (cache w)) @ [\<lparr>ce_key = key, ce_path = path, ce_size = sz\<rparr>] \<and>
    unat (total_size (cache (cache_object (Some m) key path sz w))) =
      sizes (drop k (entries (cache w))) + unat sz \<and>
    sizes (drop k (entries (cache w))) + unat sz \<le> unat m \<and>
    (\<forall>j < k. unat m < sizes (drop j (entries (cache w))) + unat sz)"
proof -
  let ?es = "entries (cache w)" and ?tot = "total_size (cache w)"
  let ?w = "purge m sz ?es ?tot w"
  have "unat ?tot + unat sz < 2 ^ 64"
    using ok m sz by (simp add: cache_ok_def word_le_nat_alt)
  then obtain k where k: "k \<le> length ?es" "entries (cache ?w) = drop k ?es"
    "unat (total_size (cache ?w)) = sizes (drop k ?es)"
    "sizes (drop k ?es) + unat sz \<le> unat m" "\<forall>j < k. unat m < sizes (drop j ?es) + unat sz"
    using purge_spec [of ?tot ?es sz m w] ok sz by (auto simp: cache_ok_def)
  have "unat (total_size (cache ?w) + sz) = sizes (drop k ?es) + unat sz"
    using k(3,4) m by (subst unat_add_u64) simp_all
  moreover have "cache_object (Some m) key path sz w =
      push_entry \<lparr>ce_key = key, ce_path = path, ce_size = sz\<rparr> ?w"
    using key sz by (auto simp: cache_object_def Let_def not_less)
  ultimately show ?thesis using k by (auto simp: push_entry_def)
qed

text \<open>
  Caching an object evicts oldest entries first and only as many as needed: the kept
  entries are a suffix of the old ones followed by the new one, they fit in the maximum, and
  keeping one more would not have fitted.
\<close>

theorem cache_object_fifo_minimal:
  assumes "cache_ok (Some m) w" "unat m < 2 ^ 63" "sz \<le> m"
    and "\<forall>e \<in> set (entries (cache w)). ce_key e \<noteq> key"
  shows "\<exists>k \<le> length (entries (cache w)).
    entries (cache (cache_object (Some m) key path sz w)) =
      drop k (entries (cache w)) @ [\<lparr>ce_key = key, ce_path = path, ce_size = sz\<rparr>] \<and>
    sizes (drop k (entries (cache w))) + unat sz \<le> unat m \<and>
    (\<forall>j < k. unat m < sizes (drop j (entries (cache w))) + unat sz)"
  using cache_object_kept [OF assms] by blast

definition example_cache :: cache_state where
  "example_cache = \<lparr>cache = \<lparr>entries = [\<lparr>ce_key = ''a'', ce_path = ''a'', ce_size = 4\<rparr>,
       \<lparr>ce_key = ''b'', ce_path = ''b'', ce_size = 3\<rparr>], total_size = 7\<rparr>,
     cache_files = \<lparr>files = [(''a'', ''1234''), (''b'', ''123''), (''c'', ''12'')], faults = no_faults\<rparr>,
     guards = [''a'', ''b'', ''c'']\<rparr>"

lemma example_cache_ok: "cache_ok (Some 8) example_cache"
  by (simp add: cache_ok_def example_cache_def)

theorem cache_object_fifo_minimal_witness:
  "\<exists>k \<le> length (entries (cache example_cache)).
    entries (cache (cache_object (Some 8) ''c'' ''c'' 2 example_cache)) =
      drop k (entries (cache example_cache)) @ [\<lparr>ce_key = ''c'', ce_path = ''c'', ce_size = 2\<rparr>] \<and>
    sizes (drop k (entries (cache example_cache))) + unat (2 :: u64) \<le> unat (8 :: u64) \<and>
    (\<forall>j < k. unat (8 :: u64) < sizes (drop j (entries (cache example_cache))) + unat (2 :: u64))"
  by (rule cache_object_fifo_minimal [OF example_cache_ok]) (simp_all add: example_cache_def)

text \<open>With a maximum below \<open>2 ^ 63\<close> no sum wraps.\<close>

lemma cache_object_ok_bounded:
  assumes "cache_ok (Some m) w" "unat m < 2 ^ 63"
  shows "cache_ok (Some m) (cache_object (Some m) key path sz w)"
proof (cases "(\<exists>e \<in> set (entries (cache w)). ce_key e = key) \<or> sz > m")
  case True
  then have "cache (cache_object (Some m) key path sz w) = cache w"
    by (auto simp: cache_object_def Let_def)
  then show ?thesis using assms(1) by (simp add: cache_ok_def)
next
  case False
  then have new: "\<forall>e \<in> set (entries (cache w)). ce_key e \<noteq> key" and "sz \<le> m" by auto
  then obtain k where k: "entries (cache (cache_object (Some m) key path sz w)) =
      drop k (entries (cache w)) @ [\<lparr>ce_key = key, ce_path = path, ce_size = sz\<rparr>]"
    "unat (total_size (cache (cache_object (Some m) key path sz w))) = sizes (drop k (entries (cache w))) + unat sz"
    "sizes (drop k (entries (cache w))) + unat sz \<le> unat m"
    using cache_object_kept [OF assms] by blast
  have "distinct (map ce_key (drop k (entries (cache w))))"
    using assms(1) by (simp add: cache_ok_def drop_map [symmetric])
  moreover have "\<forall>e \<in> set (drop k (entries (cache w))). ce_key e \<noteq> key"
    using new in_set_dropD by fast
  ultimately show ?thesis using k by (auto simp: cache_ok_def word_le_nat_alt)
qed

text \<open>
  Caching preserves the accounting: keys stay unique, the recorded total is the sum of
  the sizes of the entries and never exceeds the configured maximum (in particular the
  "desynchronized" branch is never needed).
\<close>

theorem cache_object_ok:
  assumes "cache_ok mx w" "no_wrap mx sz w"
  shows "cache_ok mx (cache_object mx key path sz w)"
proof (cases mx)
  case None
  show ?thesis
  proof (cases "\<exists>e \<in> set (entries (cache w)). ce_key e = key")
    case True
    with None assms(1) show ?thesis by (simp add: cache_object_def cache_ok_def)
  next
    case False
    have "unat (total_size (cache w) + sz) = sizes (entries (cache w)) + unat sz"
      using None assms by (subst unat_add_u64) (simp_all add: cache_ok_def no_wrap_def)
    with None assms(1) False show ?thesis
      by (auto simp: cache_ok_def cache_object_def push_entry_def)
  qed
next
  case (Some m)
  with assms cache_object_ok_bounded show ?thesis by (simp add: no_wrap_def)
qed

theorem cache_object_ok_witness:
  "cache_ok (Some 8) (cache_object (Some 8) ''c'' ''c'' 2 example_cache)"
  by (rule cache_object_ok [OF example_cache_ok]) (simp add: no_wrap_def)

section \<open>Removal\<close>

lemma filter_enumerate_key:
  assumes "distinct (map ce_key es)"
  shows "filter (\<lambda>(i, e). ce_key e = key) (enumerate n es) = [] \<and> (\<forall>e \<in> set es. ce_key e \<noteq> key) \<or>
    (\<exists>i < length es. filter (\<lambda>(i, e). ce_key e = key) (enumerate n es) = [(n + i, es ! i)] \<and>
       ce_key (es ! i) = key \<and> remove_at i es = filter (\<lambda>e. ce_key e \<noteq> key) es)"
  using assms
proof (induction es arbitrary: n)
  case (Cons e es)
  show ?case
  proof (cases "ce_key e = key")
    case True
    with Cons.prems have new: "\<forall>e \<in> set es. ce_key e \<noteq> key" by (auto simp: image_iff)
    with Cons have "filter (\<lambda>(i, e). ce_key e = key) (enumerate (Suc n) es) = []" by fastforce
    moreover have "filter (\<lambda>e. ce_key e \<noteq> key) es = es" using new by simp
    ultimately show ?thesis using True by (intro disjI2 exI [of _ 0]) (simp add: remove_at_def)
  next
    case False
    with Cons.IH [of "Suc n"] Cons.prems show ?thesis
      by (auto simp: remove_at_def intro: exI [of _ "Suc _"])
  qed
qed simp

text \<open>With unique keys, removal drops the entry for the key (if any) and its guard.\<close>

lemma cache_remove_cases:
  assumes "distinct (map ce_key (entries (cache w)))"
  obtains (absent) "cache_remove key w = w" "\<forall>e \<in> set (entries (cache w)). ce_key e \<noteq> key"
  | (present) e where "e \<in> set (entries (cache w))" "ce_key e = key"
      "cache_remove key w = drop_guard (ce_path e)
         (w\<lparr>cache := \<lparr>entries = filter (\<lambda>e. ce_key e \<noteq> key) (entries (cache w)),
                      total_size = saturating_sub (total_size (cache w)) (ce_size e)\<rparr>\<rparr>)"
proof -
  let ?es = "entries (cache w)"
  consider "filter (\<lambda>(i, e). ce_key e = key) (enumerate 0 ?es) = []" "\<forall>e \<in> set ?es. ce_key e \<noteq> key"
    | i where "i < length ?es" "filter (\<lambda>(i, e). ce_key e = key) (enumerate 0 ?es) = [(i, ?es ! i)]"
        "ce_key (?es ! i) = key" "remove_at i ?es = filter (\<lambda>e. ce_key e \<noteq> key) ?es"
    using filter_enumerate_key [OF assms, of key 0] by auto
  then show thesis
  proof cases
    case 1
    then show thesis by (intro absent) (simp_all add: cache_remove_def matching_indices_def)
  next
    case (2 i)
    then show thesis
      by (intro present [of "?es ! i"]) (simp_all add: cache_remove_def matching_indices_def Let_def)
  qed
qed

lemma sizes_remove:
  "distinct (map ce_key es) \<Longrightarrow> e \<in> set es \<Longrightarrow>
   sizes (filter (\<lambda>x. ce_key x \<noteq> ce_key e) es) = sizes es - unat (ce_size e) \<and> unat (ce_size e) \<le> sizes es"
proof (induction es)
  case (Cons a es)
  show ?case
  proof (cases "a = e")
    case True
    with Cons.prems have "\<forall>x \<in> set es. ce_key x \<noteq> ce_key e" by (auto simp: image_iff)
    then have "filter (\<lambda>x. ce_key x \<noteq> ce_key e) es = es" by simp
    with True show ?thesis by simp
  next
    case False
    with Cons.prems have "ce_key a \<noteq> ce_key e" "e \<in> set es" by auto
    with Cons show ?thesis by auto
  qed
qed simp

lemma map_filter_distinct: "distinct (map f xs) \<Longrightarrow> distinct (map f (filter P xs))"
  by (induction xs) auto

lemma cache_remove_spec:
  assumes "cache_ok mx w"
  shows "entries (cache (cache_remove key w)) = filter (\<lambda>e. ce_key e \<noteq> key) (entries (cache w)) \<and>
    cache_ok mx (cache_remove key w)"
proof -
  have dist: "distinct (map ce_key (entries (cache w)))" and
    tot: "unat (total_size (cache w)) = sizes (entries (cache w))"
    using assms by (simp_all add: cache_ok_def)
  show ?thesis
  proof (cases rule: cache_remove_cases [OF dist, of key])
    case 1
    then have "filter (\<lambda>e. ce_key e \<noteq> key) (entries (cache w)) = entries (cache w)" by simp
    with 1 assms show ?thesis by simp
  next
    case (2 e)
    let ?t = "saturating_sub (total_size (cache w)) (ce_size e)"
    have "unat ?t = sizes (filter (\<lambda>e. ce_key e \<noteq> key) (entries (cache w)))"
      using sizes_remove [OF dist 2(1)] 2(2) tot by (simp add: unat_saturating_sub)
    moreover have "?t \<le> total_size (cache w)" by (simp add: word_le_nat_alt unat_saturating_sub)
    ultimately show ?thesis
      using 2(3) assms map_filter_distinct [OF dist]
      by (cases mx) (auto simp: cache_ok_def intro: order_trans)
  qed
qed

text \<open>
  Removing a key from the cache leaves exactly the entries with other keys, in order, and
  keeps the accounting.
\<close>

theorem cache_remove_correct:
  assumes "cache_ok mx w"
  shows "entries (cache (cache_remove key w)) = filter (\<lambda>e. ce_key e \<noteq> key) (entries (cache w)) \<and>
    cache_ok mx (cache_remove key w)"
  by (rule cache_remove_spec [OF assms])

theorem cache_remove_correct_witness:
  "entries (cache (cache_remove ''a'' example_cache)) =
     filter (\<lambda>e. ce_key e \<noteq> ''a'') (entries (cache example_cache)) \<and>
   cache_ok (Some 8) (cache_remove ''a'' example_cache)"
  by (rule cache_remove_correct [OF example_cache_ok])

end
