(* ===== verification/Cache_Guards.thy ===== *)
theory Cache_Guards
  imports Store_Cache "HOL-Library.Multiset"
begin

text \<open>
  The life of the files of \<open>CachedStore\<close>: a step relation over the cache and its clients (the
  live \<open>CachedReader\<close>s and the \<open>Arc<PathGuard>\<close>s handed out by \<open>persist_cache\<close>), and the
  invariant that the reference counts of the path guards match their holders, so that no file
  is deleted while it is referenced and none outlives its last reference, apart from the files
  of failed reads, which the relation records.
\<close>

section \<open>Accounting of the guards\<close>

text \<open>
  \<open>M\<close>: the holders' references, with multiplicity; \<open>L\<close>: files without a guard.  Distinct
  guards for one path do not occur: \<open>create_new\<close> fails while the file exists.
\<close>

definition acct :: "string multiset \<Rightarrow> string set \<Rightarrow> cache_state \<Rightarrow> bool" where
  "acct M L w \<longleftrightarrow>
     fs_good (cache_files w) \<and> mset (guards w) = M \<and>
     dom (fs_abs (cache_files w)) = set_mset M \<union> L \<and> set_mset M \<inter> L = {}"

lemma acct_cache_update [simp]: "acct M L (w\<lparr>cache := c\<rparr>) = acct M L w"
  by (simp add: acct_def)

lemma acct_push_entry [simp]: "acct M L (push_entry e w) = acct M L w"
  by (simp add: push_entry_def)

lemma path_guard_drop_good:
  assumes "fs_good d" "p \<in> dom (fs_abs d)"
  shows "fs_good (path_guard_drop p d) \<and> fs_abs (path_guard_drop p d) = (fs_abs d)(p := None)"
  using fs_delete_good [of d p] assms fs_abs_delete [where d = d and n = p] by (auto simp: path_guard_drop_def)

lemma acct_drop_guard:
  assumes "acct (add_mset p M) L w"
  shows "acct M L (drop_guard p w)"
proof -
  have g: "fs_good (cache_files w)" "mset (guards w) = add_mset p M"
    "dom (fs_abs (cache_files w)) = insert p (set_mset M \<union> L)" "insert p (set_mset M) \<inter> L = {}"
    using assms by (auto simp: acct_def)
  have gs: "mset (remove1 p (guards w)) = M" using g(2) by simp
  then have mem: "p \<in> set (remove1 p (guards w)) \<longleftrightarrow> p \<in># M" by (metis set_mset_mset)
  show ?thesis
  proof (cases "p \<in># M")
    case True
    with g gs mem show ?thesis by (auto simp: acct_def drop_guard_def Let_def)
  next
    case False
    with g path_guard_drop_good [of "cache_files w" p]
    have "fs_good (path_guard_drop p (cache_files w))"
      "dom (fs_abs (path_guard_drop p (cache_files w))) = set_mset M \<union> L" by auto
    with False g gs mem show ?thesis by (auto simp: acct_def drop_guard_def Let_def)
  qed
qed

lemma acct_clone_guard: "acct M L w \<Longrightarrow> p \<in># M \<Longrightarrow> acct (add_mset p M) L (clone_guard p w)"
  by (auto simp: acct_def clone_guard_def)

abbreviation paths :: "cache_entry list \<Rightarrow> string multiset" where
  "paths es \<equiv> mset (map ce_path es)"

lemma acct_purge:
  "acct (paths es + M) L w \<Longrightarrow>
   acct (paths (entries (cache (purge m sz es tot w))) + M) L (purge m sz es tot w)"
proof (induction m sz es tot w rule: purge.induct)
  case (2 m sz e es tot w)
  have "acct (paths es + M) L (drop_guard (ce_path e) w)"
    using 2(2) by (intro acct_drop_guard) simp
  with 2 show ?case by simp
qed simp

lemma acct_cache_object:
  assumes "acct (add_mset path (paths (entries (cache w)) + M)) L w"
  shows "acct (paths (entries (cache (cache_object mx key path sz w))) + M) L (cache_object mx key path sz w)"
proof -
  let ?P = "\<lambda>m. purge m sz (entries (cache w)) (total_size (cache w)) w"
  have "acct (paths (entries (cache w)) + M) L (drop_guard path w)"
    by (rule acct_drop_guard [OF assms])
  moreover have "acct (paths (entries (cache (?P m))) + add_mset path M) L (?P m)" for m
    using acct_purge [of "entries (cache w)" "add_mset path M" L w] assms by simp
  ultimately show ?thesis
    using assms by (auto simp: cache_object_def Let_def push_entry_def split: option.splits)
qed

lemma mset_remove_at: "i < length es \<Longrightarrow> mset es = add_mset (es ! i) (mset (remove_at i es))"
  by (subst id_take_nth_drop [of i es]) (simp_all add: remove_at_def)

lemma acct_remove_indices:
  "acct (paths (entries (cache w)) + M) L w \<Longrightarrow>
   acct (paths (entries (cache (remove_indices is w))) + M) L (remove_indices is w)"
proof (induction "is" w rule: remove_indices.induct)
  case (2 i sz "is" w)
  let ?es = "entries (cache w)"
  let ?w = "w\<lparr>cache := \<lparr>entries = remove_at i ?es, total_size = saturating_sub (total_size (cache w)) sz\<rparr>\<rparr>"
  show ?case
  proof (cases "i < length ?es")
    case True
    have "acct (add_mset (ce_path (?es ! i)) (paths (remove_at i ?es) + M)) L ?w"
      using 2(2) mset_remove_at [OF True] by (simp flip: mset_map) (metis image_mset_add_mset mset_map add_mset_add_single union_mset_add_mset_left)
    from acct_drop_guard [OF this] 2(1) True show ?thesis by (simp add: Let_def)
  next
    case False
    then have "remove_at i ?es = ?es" by (simp add: remove_at_def)
    with False 2 show ?thesis by (simp add: Let_def)
  qed
qed simp

lemma acct_cache_remove:
  "acct (paths (entries (cache w)) + M) L w \<Longrightarrow>
   acct (paths (entries (cache (cache_remove key w))) + M) L (cache_remove key w)"
  unfolding cache_remove_def by (rule acct_remove_indices)

lemma acct_write:
  assumes "acct M L w" "fs_write_all p buf (cache_files w) = (r, d)"
  shows "acct M L (w\<lparr>cache_files := d\<rparr>)"
proof -
  have good: "fs_good (cache_files w)" using assms(1) by (simp add: acct_def)
  have "fs_good d \<and> dom (fs_abs d) = dom (fs_abs (cache_files w))"
  proof (cases "fs_abs (cache_files w) p")
    case None
    with assms(2) good show ?thesis by (auto simp: fs_write_all_def fs_abs_def split: if_splits)
  next
    case (Some c)
    obtain d1 where "fs_write_all p buf (cache_files w) = (Ok p, d1)" "fs_good d1"
      "fs_abs d1 = (fs_abs (cache_files w))(p \<mapsto> c @ buf)"
      using fs_write_all_good [OF good Some, of buf] by blast
    with assms(2) Some show ?thesis by auto
  qed
  with assms(1) show ?thesis by (simp add: acct_def)
qed

lemma acct_cached_read:
  assumes "acct M L w" "cached_read n r w = (res, r', w')"
  shows "acct M L w'" "cr_path r' = cr_path r" "cache w' = cache w"
  using assms acct_write [OF assms(1)]
  by (cases r; auto simp: Let_def split: if_splits prod.splits sum.splits)+

text \<open>A successful \<open>cached_reader\<close> holds one more guard; a failing one may leave its file.\<close>

lemma acct_new_file:
  assumes "acct M L w" "map_of (files (cache_files w)) key = None"
  defines "w1 \<equiv> w\<lparr>cache_files := cache_files w\<lparr>files := AList.update key [] (files (cache_files w))\<rparr>\<rparr>"
  shows "acct M (insert key L) w1" "acct (add_mset key M) L (clone_guard key w1)"
proof -
  have "fs_abs (cache_files w) key = None" using assms(2) by (simp add: fs_abs_def)
  then have "key \<notin> set_mset M \<union> L" using assms(1) by (auto simp: acct_def)
  then show "acct M (insert key L) w1" "acct (add_mset key M) L (clone_guard key w1)"
    using assms(1) fs_abs_update [where d = "cache_files w" and n = key and c = "[]"]
    by (auto simp: acct_def w1_def clone_guard_def fs_good_def)
qed

lemma acct_cached_reader:
  assumes "acct (paths (entries (cache w)) + M) L w" "cached_reader S s key w = (res, w')"
  shows "cache w' = cache w"
    and "res = Ret (Ok r) \<Longrightarrow> acct (paths (entries (cache w)) + add_mset (cr_path r) M) L w'"
    and "\<nexists>r. res = Ret (Ok r) \<Longrightarrow>
      acct (paths (entries (cache w)) + M) (if w' = w then L else insert key L) w'"
  using assms acct_new_file [OF assms(1), of key] acct_clone_guard [OF assms(1)]
  by (auto simp: cached_reader_def Let_def clone_guard_def dest!: find_in_set
      split: option.splits if_splits run.splits sum.splits)

section \<open>The cache and its clients\<close>

record cache_run =
  run_cache :: cache_state
  run_readers :: "cache_reader list"
  run_held :: "string list"
  run_leaked :: "string list"

definition run_init :: cache_run where
  "run_init = \<lparr>run_cache = \<lparr>cache = \<lparr>entries = [], total_size = 0\<rparr>,
       cache_files = \<lparr>files = [], faults = no_faults\<rparr>, guards = []\<rparr>,
     run_readers = [], run_held = [], run_leaked = []\<rparr>"

text \<open>
  One operation on the cache, by any client: opening a reader (successfully or not), reading,
  persisting (with or without rewinding), dropping a reader or a guard, removing a key.
\<close>

inductive cache_step :: "('s, 'w) object_store \<Rightarrow> u64 option \<Rightarrow> cache_run \<Rightarrow> cache_run \<Rightarrow> bool" for S mx where
  step_open: "cached_reader S s key w = (Ret (Ok r), w') \<Longrightarrow>
    cache_step S mx \<lparr>run_cache = w, run_readers = rs, run_held = hs, run_leaked = ls\<rparr>
      \<lparr>run_cache = w', run_readers = r # rs, run_held = hs, run_leaked = ls\<rparr>"
| step_open_fails: "cached_reader S s key w = (res, w') \<Longrightarrow> \<nexists>r. res = Ret (Ok r) \<Longrightarrow>
    cache_step S mx \<lparr>run_cache = w, run_readers = rs, run_held = hs, run_leaked = ls\<rparr>
      \<lparr>run_cache = w', run_readers = rs, run_held = hs, run_leaked = (if w' = w then ls else key # ls)\<rparr>"
| step_read: "cached_read n r w = (res, r', w') \<Longrightarrow>
    cache_step S mx \<lparr>run_cache = w, run_readers = as @ r # bs, run_held = hs, run_leaked = ls\<rparr>
      \<lparr>run_cache = w', run_readers = as @ r' # bs, run_held = hs, run_leaked = ls\<rparr>"
| step_persist: "persist_cache mx r w = (p, w') \<Longrightarrow>
    cache_step S mx \<lparr>run_cache = w, run_readers = as @ r # bs, run_held = hs, run_leaked = ls\<rparr>
      \<lparr>run_cache = w', run_readers = as @ bs, run_held = p # hs, run_leaked = ls\<rparr>"
| step_rewind: "persist_cache_and_rewind mx r w = (res, w') \<Longrightarrow>
    cache_step S mx \<lparr>run_cache = w, run_readers = as @ r # bs, run_held = hs, run_leaked = ls\<rparr>
      \<lparr>run_cache = w', run_readers = as @ (case res of Inl e \<Rightarrow> [] | Inr r' \<Rightarrow> [r']) @ bs,
       run_held = hs, run_leaked = ls\<rparr>"
| step_drop_reader:
    "cache_step S mx \<lparr>run_cache = w, run_readers = as @ r # bs, run_held = hs, run_leaked = ls\<rparr>
      \<lparr>run_cache = drop_guard (cr_path r) w, run_readers = as @ bs, run_held = hs, run_leaked = ls\<rparr>"
| step_drop_held:
    "cache_step S mx \<lparr>run_cache = w, run_readers = rs, run_held = as @ p # bs, run_leaked = ls\<rparr>
      \<lparr>run_cache = drop_guard p w, run_readers = rs, run_held = as @ bs, run_leaked = ls\<rparr>"
| step_remove:
    "cache_step S mx \<lparr>run_cache = w, run_readers = rs, run_held = hs, run_leaked = ls\<rparr>
      \<lparr>run_cache = cache_remove key w, run_readers = rs, run_held = hs, run_leaked = ls\<rparr>"

inductive cache_reach :: "('s, 'w) object_store \<Rightarrow> u64 option \<Rightarrow> cache_run \<Rightarrow> bool" for S mx where
  reach_init: "cache_reach S mx run_init"
| reach_step: "cache_reach S mx r \<Longrightarrow> cache_step S mx r r' \<Longrightarrow> cache_reach S mx r'"

abbreviation client_paths :: "cache_run \<Rightarrow> string multiset" where
  "client_paths r \<equiv> mset (map cr_path (run_readers r)) + mset (run_held r)"

definition run_ok :: "cache_run \<Rightarrow> bool" where
  "run_ok r \<longleftrightarrow>
     acct (paths (entries (cache (run_cache r))) + client_paths r) (set (run_leaked r)) (run_cache r)"

lemma persist_acct:
  assumes "acct (paths (entries (cache w)) + add_mset (cr_path r) M) L w" "persist_cache mx r w = (p, w')"
  shows "p = cr_path r" "acct (paths (entries (cache w')) + add_mset p M) L w'"
proof -
  show p: "p = cr_path r" using assms(2) by (cases r) (auto simp: persist_cache_def)
  have "acct (add_mset (cr_path r) (paths (entries (cache w)) + add_mset (cr_path r) M)) L
      (clone_guard (cr_path r) w)"
    by (rule acct_clone_guard [OF assms(1)]) simp
  with acct_cache_object [where M = "add_mset (cr_path r) M" and path = "cr_path r" and
      w = "clone_guard (cr_path r) w"] assms p
  show "acct (paths (entries (cache w')) + add_mset p M) L w'"
    by (cases r) (auto simp: persist_cache_def)
qed

lemma rewind_acct:
  assumes "acct (paths (entries (cache w)) + add_mset (cr_path r) M) L w"
    "persist_cache_and_rewind mx r w = (res, w')"
  shows "acct (paths (entries (cache w')) + mset (map cr_path (case res of Inl e \<Rightarrow> [] | Inr r' \<Rightarrow> [r'])) + M) L w'"
proof (cases r)
  case (Caching rd sz key path)
  obtain w1 where w1: "persist_cache mx r w = (path, w1)"
    using Caching by (simp add: persist_cache_def)
  have a: "acct (paths (entries (cache w1)) + add_mset path M) L w1"
    by (rule persist_acct(2) [OF assms(1) w1])
  then have "acct (paths (entries (cache w1)) + M) L (drop_guard path w1)"
    by (intro acct_drop_guard) simp
  with a assms(2) Caching w1 show ?thesis
    by (auto simp: persist_cache_and_rewind_def split: option.splits)
next
  case (Cached c pos path)
  with assms show ?thesis by (auto simp: persist_cache_and_rewind_def)
qed

lemma cache_step_ok: "cache_step S mx r r' \<Longrightarrow> run_ok r \<Longrightarrow> run_ok r'"
proof (induction rule: cache_step.induct)
  case (step_open s key w r w' rs hs ls)
  from acct_cached_reader(1,2) [OF _ step_open(1)] step_open(2) show ?case by (simp add: run_ok_def)
next
  case (step_open_fails s key w res w' rs hs ls)
  let ?M = "mset (map cr_path rs) + mset hs"
  have a: "acct (paths (entries (cache w)) + ?M) (set ls) w"
    using step_open_fails(3) by (simp add: run_ok_def)
  from acct_cached_reader(1,3) [OF a step_open_fails(1)] step_open_fails(2) show ?case
    by (cases "w' = w") (simp_all add: run_ok_def)
next
  case (step_read n r w res r' w' as bs hs ls)
  from acct_cached_read [OF _ step_read(1)] step_read(2) show ?case by (simp add: run_ok_def)
next
  case (step_persist r w p w' as bs hs ls)
  have "acct (paths (entries (cache w)) + add_mset (cr_path r)
      (mset (map cr_path (as @ bs)) + mset hs)) (set ls) w"
    using step_persist(2) by (simp add: run_ok_def)
  from persist_acct [OF this step_persist(1)] show ?case by (simp add: run_ok_def)
next
  case (step_rewind r w res w' as bs hs ls)
  have "acct (paths (entries (cache w)) + add_mset (cr_path r)
      (mset (map cr_path (as @ bs)) + mset hs)) (set ls) w"
    using step_rewind(2) by (simp add: run_ok_def)
  from rewind_acct [OF this step_rewind(1)] show ?case by (simp add: run_ok_def ac_simps)
next
  case (step_drop_reader w as r bs hs ls)
  then show ?case by (simp add: run_ok_def acct_drop_guard)
next
  case (step_drop_held w rs as p bs ls)
  then show ?case by (simp add: run_ok_def acct_drop_guard)
next
  case (step_remove w rs hs ls key)
  then show ?case using acct_cache_remove [of w "mset (map cr_path rs) + mset hs"]
    by (simp add: run_ok_def ac_simps)
qed

lemma cache_reach_run_ok: "cache_reach S mx r \<Longrightarrow> run_ok r"
proof (induction rule: cache_reach.induct)
  case reach_init
  then show ?case by (simp add: run_ok_def run_init_def acct_def fs_good_def fs_wf_def fs_abs_def)
qed (rule cache_step_ok)

section \<open>Properties\<close>

text \<open>
  C19. In every reachable state the files of the cache directory are exactly the files of the
  cache entries, of the live readers and of the handed-out guards, and the files left by
  failed reads: no file is deleted while someone refers to it, and none stays after its last
  reference is dropped.
\<close>

theorem cache_files_guarded:
  assumes "cache_reach S mx r"
  shows "dom (fs_abs (cache_files (run_cache r))) =
    ce_path ` set (entries (cache (run_cache r))) \<union> cr_path ` set (run_readers r) \<union>
    set (run_held r) \<union> set (run_leaked r)"
  using cache_reach_run_ok [OF assms] by (simp add: run_ok_def acct_def Un_assoc)

text \<open>A run: read the object \<open>a\<close> of the example directory and put it in the cache.\<close>

definition example_store :: "(fs_dir, string) object_store" where
  "example_store = fs_object_store \<lparr>directory = ''/d'', overwrite = False, mode = 0x180\<rparr>"

definition example_run :: cache_run where
  "example_run = \<lparr>run_cache = \<lparr>cache = \<lparr>entries = [\<lparr>ce_key = ''a'', ce_path = ''a'', ce_size = 1\<rparr>], total_size = 1\<rparr>,
       cache_files = \<lparr>files = [(''a'', ''1'')], faults = no_faults\<rparr>, guards = [''a'', ''a'']\<rparr>,
     run_readers = [], run_held = [''a''], run_leaked = []\<rparr>"

lemma example_run_reach: "cache_reach example_store (Some 8) example_run"
proof -
  let ?e = "\<lparr>entries = [], total_size = 0\<rparr>"
  let ?w0 = "run_cache run_init"
  let ?w1 = "\<lparr>cache = ?e, cache_files = \<lparr>files = [(''a'', [])], faults = no_faults\<rparr>, guards = [''a'']\<rparr>"
  let ?w2 = "\<lparr>cache = ?e, cache_files = \<lparr>files = [(''a'', ''1'')], faults = no_faults\<rparr>, guards = [''a'']\<rparr>"
  let ?r1 = "Caching \<lparr>rd_data = ''1'', rd_fails = False\<rparr> 0 ''a'' ''a''"
  let ?r2 = "Caching \<lparr>rd_data = [], rd_fails = False\<rparr> 1 ''a'' ''a''"
  have 1: "cached_reader example_store example_dir ''a'' ?w0 = (Ret (Ok ?r1), ?w1)"
    by (simp add: cached_reader_def example_store_def fs_object_store_def fs_reader_def run_init_def
        example_dir_def no_faults_def starts_with_def clone_guard_def Let_def)
  have 2: "cached_read 9 ?r1 ?w1 = (Ok ''1'', ?r2, ?w2)"
    by (simp add: fs_write_all_def no_faults_def saturating_add_def Let_def)
  have 3: "persist_cache (Some 8) ?r2 ?w2 = (''a'', run_cache example_run)"
    by (simp add: persist_cache_def cache_object_def clone_guard_def push_entry_def example_run_def)
  have init: "cache_reach example_store (Some 8)
      \<lparr>run_cache = ?w0, run_readers = [], run_held = [], run_leaked = []\<rparr>"
    using reach_init [of example_store "Some 8"] by (simp add: run_init_def)
  have "cache_reach example_store (Some 8) \<lparr>run_cache = ?w1, run_readers = [] @ ?r1 # [], run_held = [], run_leaked = []\<rparr>"
    using reach_step [OF init step_open [OF 1]] by simp
  from reach_step [OF reach_step [OF this step_read [OF 2]] step_persist [OF 3]]
  show ?thesis by (simp add: example_run_def)
qed

theorem cache_files_guarded_witness:
  "dom (fs_abs (cache_files (run_cache example_run))) =
    ce_path ` set (entries (cache (run_cache example_run))) \<union> cr_path ` set (run_readers example_run) \<union>
    set (run_held example_run) \<union> set (run_leaked example_run)"
  by (rule cache_files_guarded [OF example_run_reach])

lemma cached_reader_cache [simp]: "cache (snd (cached_reader S s key w)) = cache w"
  by (auto simp: cached_reader_def Let_def clone_guard_def split: option.splits run.splits sum.splits)

lemma cached_read_cache: "cached_read n r w = (res, r', w') \<Longrightarrow> cache w' = cache w"
  by (cases r) (auto simp: Let_def split: if_splits prod.splits sum.splits)

lemma persist_cache_ok:
  assumes "cache_ok (Some m) w" "unat m < 2 ^ 63"
  shows "cache_ok (Some m) (snd (persist_cache (Some m) r w))"
proof -
  have "cache_ok (Some m) (clone_guard p w)" for p using assms(1) by (simp add: cache_ok_def)
  with cache_object_ok_bounded [OF _ assms(2)] assms(1) show ?thesis
    by (cases r) (simp_all add: persist_cache_def)
qed

lemma rewind_ok:
  assumes "cache_ok (Some m) w" "unat m < 2 ^ 63"
  shows "cache_ok (Some m) (snd (persist_cache_and_rewind (Some m) r w))"
proof (cases r)
  case (Caching rd sz key path)
  obtain w1 where w1: "persist_cache (Some m) r w = (path, w1)"
    using Caching by (simp add: persist_cache_def)
  then have "cache_ok (Some m) w1" using persist_cache_ok [OF assms, of r] by simp
  with w1 Caching show ?thesis
    by (auto simp: persist_cache_and_rewind_def cache_ok_def split: option.splits)
qed (use assms in \<open>simp add: persist_cache_and_rewind_def\<close>)

lemma cache_remove_ok: "cache_ok mx w \<Longrightarrow> cache_ok mx (cache_remove key w)"
  using cache_remove_spec by blast

lemma cache_step_cache_ok:
  assumes "cache_step S (Some m) r r'" "cache_ok (Some m) (run_cache r)" "unat m < 2 ^ 63"
  shows "cache_ok (Some m) (run_cache r')"
  using assms
proof (induction rule: cache_step.induct)
  case (step_open s key w r w' rs hs ls)
  then show ?case using cached_reader_cache [of S s key w] by (simp add: cache_ok_def)
next
  case (step_open_fails s key w res w' rs hs ls)
  then show ?case using cached_reader_cache [of S s key w] by (simp add: cache_ok_def)
next
  case (step_read n r w res r' w' as bs hs ls)
  then show ?case using cached_read_cache [OF step_read(1)] by (simp add: cache_ok_def)
next
  case (step_persist r w p w' as bs hs ls)
  then show ?case using persist_cache_ok [of m w r] by simp
next
  case (step_rewind r w res w' as bs hs ls)
  then show ?case using rewind_ok [of m w r] by simp
qed (simp_all add: cache_remove_ok, simp_all add: cache_ok_def)

text \<open>
  C20. In every reachable state the sizes recorded for the cached objects add up to the
  recorded total and stay within the configured maximum cache size.
\<close>

theorem cache_reach_bounded:
  assumes "cache_reach S (Some m) r" "unat m < 2 ^ 63"
  shows "unat (total_size (cache (run_cache r))) = sizes (entries (cache (run_cache r))) \<and>
    sizes (entries (cache (run_cache r))) \<le> unat m \<and> distinct (map ce_key (entries (cache (run_cache r))))"
proof -
  have "cache_ok (Some m) (run_cache r)"
    using assms
  proof (induction rule: cache_reach.induct)
    case reach_init
    then show ?case by (simp add: run_init_def cache_ok_def)
  next
    case (reach_step r r')
    then show ?case using cache_step_cache_ok by blast
  qed
  then show ?thesis by (simp add: cache_ok_def word_le_nat_alt)
qed

theorem cache_reach_bounded_witness:
  "unat (total_size (cache (run_cache example_run))) = sizes (entries (cache (run_cache example_run))) \<and>
    sizes (entries (cache (run_cache example_run))) \<le> unat (8 :: u64) \<and>
    distinct (map ce_key (entries (cache (run_cache example_run))))"
  by (rule cache_reach_bounded [OF example_run_reach]) simp

section \<open>Contents\<close>

text \<open>A client reading with buffers of the given sizes, until an error.\<close>

fun cached_reads :: "nat list \<Rightarrow> cache_reader \<Rightarrow> cache_state \<Rightarrow> (anyhow + bytes) \<times> cache_reader \<times> cache_state" where
  "cached_reads [] r w = (Ok [], r, w)"
| "cached_reads (n # ns) r w =
     (case cached_read n r w of
        (Inl e, r', w') \<Rightarrow> (Err e, r', w')
      | (Inr b, r', w') \<Rightarrow> (let (res, r'', w'') = cached_reads ns r' w' in (try_bind res (\<lambda>bs. Ok (b @ bs)), r'', w'')))"

lemma cached_reads_caching:
  assumes "fs_good (cache_files w)" "fs_abs (cache_files w) path = Some c"
  shows "\<exists>sz' w'. cached_reads ns (Caching \<lparr>rd_data = d, rd_fails = False\<rparr> sz key path) w =
      (Ok (take (sum_list ns) d), Caching \<lparr>rd_data = drop (sum_list ns) d, rd_fails = False\<rparr> sz' key path, w') \<and>
    cache w' = cache w \<and> guards w' = guards w \<and> fs_good (cache_files w') \<and>
    fs_abs (cache_files w') = (fs_abs (cache_files w))(path \<mapsto> c @ take (sum_list ns) d)"
  using assms
proof (induction ns arbitrary: d sz w c)
  case Nil
  then show ?case by (auto simp: fun_eq_iff)
next
  case (Cons n ns)
  obtain d1 where d1: "fs_write_all path (take n d) (cache_files w) = (Ok path, d1)" "fs_good d1"
    "fs_abs d1 = (fs_abs (cache_files w))(path \<mapsto> c @ take n d)"
    using fs_write_all_good [OF Cons.prems, of "take n d"] by blast
  obtain sz' w' where "cached_reads ns (Caching \<lparr>rd_data = drop n d, rd_fails = False\<rparr>
        (saturating_add sz (of_nat (length (take n d)))) key path) (w\<lparr>cache_files := d1\<rparr>) =
      (Ok (take (sum_list ns) (drop n d)),
       Caching \<lparr>rd_data = drop (sum_list ns) (drop n d), rd_fails = False\<rparr> sz' key path, w')"
    "cache w' = cache w" "guards w' = guards w" "fs_good (cache_files w')"
    "fs_abs (cache_files w') = (fs_abs d1)(path \<mapsto> (c @ take n d) @ take (sum_list ns) (drop n d))"
    using d1 Cons.IH [of "w\<lparr>cache_files := d1\<rparr>" "c @ take n d" "drop n d"
        "saturating_add sz (of_nat (length (take n d)))"] by (auto simp: fun_eq_iff)
  with d1 show ?case by (simp add: Let_def take_add add.commute) (simp add: fun_eq_iff)
qed

lemma cached_reads_cached:
  "cached_reads ns (Cached c pos path) w =
     (Ok (take (sum_list ns) (drop pos c)), Cached c (min (pos + sum_list ns) (max pos (length c))) path, w)"
proof (induction ns arbitrary: pos)
  case (Cons n ns)
  have "take n (drop pos c) @ take (sum_list ns) (drop (pos + length (take n (drop pos c))) c) =
      take (n + sum_list ns) (drop pos c)"
    by (cases "n \<le> length c - pos") (auto simp: take_add add.commute)
  then show ?case using Cons by (auto simp: Let_def)
qed simp

text \<open>Dropping guards never changes the contents of a file that stays.\<close>

lemma drop_guard_le: "fs_abs (cache_files (drop_guard p w)) \<subseteq>\<^sub>m fs_abs (cache_files w)"
  using fs_abs_delete [where d = "cache_files w" and n = p]
  by (auto simp: map_le_def drop_guard_def path_guard_drop_def fs_delete_def Let_def)

lemma purge_le: "fs_abs (cache_files (purge m sz es tot w)) \<subseteq>\<^sub>m fs_abs (cache_files w)"
  by (induction m sz es tot w rule: purge.induct) (auto intro: map_le_trans drop_guard_le)

lemma cache_object_le: "fs_abs (cache_files (cache_object mx key path sz w)) \<subseteq>\<^sub>m fs_abs (cache_files w)"
  using drop_guard_le purge_le by (auto simp: cache_object_def Let_def push_entry_def split: option.splits)

text \<open>
  A first pass over a reader of an object that is not cached delivers the object's bytes;
  after persisting and rewinding, the second pass reads the local copy and delivers the same
  bytes, whether or not the object fitted in the cache and whatever was evicted for it.
\<close>

theorem rewind_roundtrip:
  assumes "run_ok \<lparr>run_cache = w, run_readers = rs, run_held = hs, run_leaked = ls\<rparr>"
    and "cached_reader S s key w = (Ret (Ok (Caching \<lparr>rd_data = d, rd_fails = False\<rparr> 0 key key)), w0)"
    and "length d \<le> sum_list ns"
  shows "\<exists>r1 w1 w2. cached_reads ns (Caching \<lparr>rd_data = d, rd_fails = False\<rparr> 0 key key) w0 = (Ok d, r1, w1) \<and>
    persist_cache_and_rewind mx r1 w1 = (Ok (Cached d 0 key), w2) \<and>
    fst (cached_reads ns (Cached d 0 key) w2) = Ok d"
proof -
  let ?M = "mset (map cr_path rs) + mset hs"
  have a: "acct (paths (entries (cache w)) + ?M) (set ls) w" using assms(1) by (simp add: run_ok_def)
  have cw0: "cache w0 = cache w" using cached_reader_cache [of S s key w] assms(2) by simp
  have a0: "acct (paths (entries (cache w0)) + add_mset key ?M) (set ls) w0"
    using acct_cached_reader(2) [OF a assms(2)] cw0 by simp
  have empty: "fs_abs (cache_files w0) key = Some []"
    using assms(2) fs_abs_update [where d = "cache_files w" and n = key and c = "[]"]
    by (auto simp: cached_reader_def Let_def clone_guard_def split: option.splits if_splits run.splits sum.splits)
  have good: "fs_good (cache_files w0)" using a0 by (simp add: acct_def)
  obtain sz1 w1 where 1: "cached_reads ns (Caching \<lparr>rd_data = d, rd_fails = False\<rparr> 0 key key) w0 =
      (Ok d, Caching \<lparr>rd_data = [], rd_fails = False\<rparr> sz1 key key, w1)"
    "cache w1 = cache w0" "guards w1 = guards w0" "fs_good (cache_files w1)"
    "fs_abs (cache_files w1) = (fs_abs (cache_files w0))(key \<mapsto> d)"
    using cached_reads_caching [OF good empty, of ns d 0 key] assms(3) by auto
  let ?r1 = "Caching \<lparr>rd_data = [], rd_fails = False\<rparr> sz1 key key"
  have a1: "acct (paths (entries (cache w1)) + add_mset (cr_path ?r1) ?M) (set ls) w1"
    using a0 1 empty by (auto simp: acct_def)
  obtain w2 where 2: "persist_cache mx ?r1 w1 = (key, w2)" by (simp add: persist_cache_def)
  have "acct (paths (entries (cache w2)) + add_mset key ?M) (set ls) w2"
    using persist_acct(2) [OF a1 2] .
  then have key: "key \<in> dom (fs_abs (cache_files w2))" and nf: "faults (cache_files w2) = no_faults"
    by (auto simp: acct_def fs_good_def)
  have "fs_abs (cache_files w2) \<subseteq>\<^sub>m fs_abs (cache_files w1)"
    using 2 cache_object_le [of mx key key sz1 "clone_guard key w1"]
    by (simp add: persist_cache_def clone_guard_def)
  with key 1(5) have "fs_abs (cache_files w2) key = Some d" by (auto simp: map_le_def)
  with nf 2 have "persist_cache_and_rewind mx ?r1 w1 = (Ok (Cached d 0 key), w2)"
    by (simp add: persist_cache_and_rewind_def open_cached_def no_faults_def fs_abs_def)
  with 1(1) assms(3) show ?thesis by (auto simp: cached_reads_cached)
qed

theorem rewind_roundtrip_witness:
  "\<exists>w0 r1 w1 w2. cached_reads [1, 1] (Caching \<lparr>rd_data = ''22'', rd_fails = False\<rparr> 0 ''b'' ''b'') w0 = (Ok ''22'', r1, w1) \<and>
    persist_cache_and_rewind (Some 1) r1 w1 = (Ok (Cached ''22'' 0 ''b''), w2) \<and>
    fst (cached_reads [1, 1] (Cached ''22'' 0 ''b'') w2) = Ok ''22''"
proof -
  let ?w = "run_cache run_init"
  have ok: "run_ok \<lparr>run_cache = ?w, run_readers = [], run_held = [], run_leaked = []\<rparr>"
    using cache_reach_run_ok [OF reach_init] by (simp add: run_init_def)
  have open_b: "cached_reader example_store example_dir ''b'' ?w =
      (Ret (Ok (Caching \<lparr>rd_data = ''22'', rd_fails = False\<rparr> 0 ''b'' ''b'')), snd (cached_reader example_store example_dir ''b'' ?w))"
    by (simp add: cached_reader_def example_store_def fs_object_store_def fs_reader_def run_init_def
        example_dir_def no_faults_def starts_with_def clone_guard_def Let_def)
  show ?thesis using rewind_roundtrip [OF ok open_b, of "[1, 1]" "Some 1"] by auto
qed

text \<open>
  Failed reads poison the cache directory: when the inner store fails to open an object
  that is not cached, the new cache file stays without a guard, and every later
  \<open>cached_reader\<close> for that key fails, even once the inner store can read the object.
\<close>

theorem failed_read_poisons_key:
  assumes "fs_good (cache_files w)" "fs_abs (cache_files w) key = None"
    and "\<forall>e \<in> set (entries (cache w)). ce_key e \<noteq> key" "os_reader S key s = Ret (Err e)"
  shows "\<exists>w'. cached_reader S s key w = (Ret (Err e), w') \<and> guards w' = guards w \<and>
    fs_abs (cache_files w') = (fs_abs (cache_files w))(key \<mapsto> []) \<and>
    (\<forall>s'. \<exists>msg. cached_reader S s' key w' = (Ret (Err (ReadOther msg)), w'))"
proof -
  have nf: "find (\<lambda>e. ce_key e = key) (entries (cache w)) = None"
    using assms(3) by (simp add: find_None_iff)
  let ?w = "w\<lparr>cache_files := cache_files w\<lparr>files := AList.update key [] (files (cache_files w))\<rparr>\<rparr>"
  have "cached_reader S s key w = (Ret (Err e), ?w)"
    using assms nf by (simp add: cached_reader_def fs_good_def no_faults_def fs_abs_def Let_def)
  moreover have "\<exists>msg. cached_reader S s' key ?w = (Ret (Err (ReadOther msg)), ?w)" for s'
    using nf by (simp add: cached_reader_def update_conv' Let_def)
  ultimately show ?thesis
    using fs_abs_update [where d = "cache_files w" and n = key and c = "[]"] by auto
qed

theorem failed_read_poisons_key_witness:
  "\<exists>w'. cached_reader example_store \<lparr>files = [], faults = no_faults\<rparr> ''a'' (run_cache run_init) =
      (Ret (Err (ObjectNotFound [''not found''])), w') \<and> guards w' = guards (run_cache run_init) \<and>
    fs_abs (cache_files w') = (fs_abs (cache_files (run_cache run_init)))(''a'' \<mapsto> []) \<and>
    (\<forall>s'. \<exists>msg. cached_reader example_store s' ''a'' w' = (Ret (Err (ReadOther msg)), w'))"
  by (rule failed_read_poisons_key)
    (simp_all add: run_init_def fs_good_def fs_wf_def fs_abs_def example_store_def fs_object_store_def
      fs_reader_def starts_with_def)

end
