(* ===== verification/Composable_Stream.thy ===== *)
theory Composable_Stream
  imports Prelude
begin

text \<open>
  The crate \<^verbatim>\<open>api/crates/backup/crates/composable-stream\<close>: builders of layered streams
  (\<open>lib.rs\<close>), \<open>Tee\<close> (\<open>tee.rs\<close>), \<open>OptionalStream\<close> (\<open>option.rs\<close>) and \<open>Either\<close>
  (\<open>either.rs\<close>).  A type that implements \<open>std::io::Write\<close> is its record of operations over
  the writer's own state \<open>'w\<close> and the world \<open>'s\<close> (the stores) that writing may change; a layer
  is a function from the operations of the inner writer to its own.  The locale \<open>byte_sink\<close>
  is the contract of a writer: what it accepts is appended, in order, to what it has received.
\<close>

section \<open>Readers and writers\<close>

record ('w, 's) write_ops =
  wr_write :: "bytes \<Rightarrow> 'w \<Rightarrow> 's \<Rightarrow> (anyhow + nat) \<times> 'w \<times> 's"
  wr_flush :: "'w \<Rightarrow> 's \<Rightarrow> (anyhow + unit) \<times> 'w \<times> 's"

record ('r, 's) read_ops =
  rd_read :: "nat \<Rightarrow> 'r \<Rightarrow> 's \<Rightarrow> (anyhow + bytes) \<times> 'r \<times> 's"

text \<open>
  \<open>Write::write_all\<close> of the standard library: write until nothing is left; accepting no byte of
  a non-empty buffer is an error.
\<close>

function write_all :: "('w, 's) write_ops \<Rightarrow> bytes \<Rightarrow> 'w \<Rightarrow> 's \<Rightarrow> (anyhow + unit) \<times> 'w \<times> 's" where
  "write_all W buf w s =
     (if buf = [] then (Ok (), w, s)
      else (case wr_write W buf w s of
              (Inl e, w', s') \<Rightarrow> (Err e, w', s')
            | (Inr n, w', s') \<Rightarrow>
                if n = 0 then (Err [''failed to write whole buffer''], w', s')
                else write_all W (drop n buf) w' s'))"
  by pat_completeness auto
termination
  by (relation "measure (\<lambda>(W, buf, w, s). length buf)") auto

declare write_all.simps [simp del]

lemma write_all_Nil [simp]: "write_all W [] w s = (Ok (), w, s)"
  by (simp add: write_all.simps)

section \<open>Builders\<close>

text \<open>\<open>make\<close> turns the inner stream into the layered one; it may write, hence the world.\<close>

record ('a, 'c, 'e, 's) composable_stream_builder =
  csb_make :: "'a \<Rightarrow> 's \<Rightarrow> ('e + 'c) \<times> 's"

definition builder :: "('a, 'a, 'e, 's) composable_stream_builder" where
  "builder = \<lparr>csb_make = (\<lambda>stream s. (Ok stream, s))\<rparr>"

definition builder_then ::
  "('b, 'c, 'e, 's) composable_stream_builder \<Rightarrow> ('a, 'b, 'e, 's) composable_stream_builder \<Rightarrow>
     ('a, 'c, 'e, 's) composable_stream_builder" where
  "builder_then self other =
     \<lparr>csb_make = (\<lambda>a s. case csb_make other a s of (Inl e, s') \<Rightarrow> (Err e, s') | (Inr b, s') \<Rightarrow> csb_make self b s')\<rparr>"

definition build :: "('a, 'c, 'e, 's) composable_stream_builder \<Rightarrow> 'a \<Rightarrow> 's \<Rightarrow> ('e + 'c) \<times> 's" where
  "build self stream s = csb_make self stream s"

section \<open>Either and OptionalStream\<close>

datatype ('a, 'b) either = EitherA 'a | EitherB 'b

fun either_write :: "('a, 's) write_ops \<Rightarrow> ('b, 's) write_ops \<Rightarrow> bytes \<Rightarrow> ('a, 'b) either \<Rightarrow> 's \<Rightarrow>
    (anyhow + nat) \<times> ('a, 'b) either \<times> 's" where
  "either_write A B buf (EitherA writer) s = (let (r, w, s') = wr_write A buf writer s in (r, EitherA w, s'))"
| "either_write A B buf (EitherB writer) s = (let (r, w, s') = wr_write B buf writer s in (r, EitherB w, s'))"

fun either_flush :: "('a, 's) write_ops \<Rightarrow> ('b, 's) write_ops \<Rightarrow> ('a, 'b) either \<Rightarrow> 's \<Rightarrow>
    (anyhow + unit) \<times> ('a, 'b) either \<times> 's" where
  "either_flush A B (EitherA writer) s = (let (r, w, s') = wr_flush A writer s in (r, EitherA w, s'))"
| "either_flush A B (EitherB writer) s = (let (r, w, s') = wr_flush B writer s in (r, EitherB w, s'))"

definition either_ops :: "('a, 's) write_ops \<Rightarrow> ('b, 's) write_ops \<Rightarrow> (('a, 'b) either, 's) write_ops" where
  "either_ops A B = \<lparr>wr_write = either_write A B, wr_flush = either_flush A B\<rparr>"

fun either_read :: "('a, 's) read_ops \<Rightarrow> ('b, 's) read_ops \<Rightarrow> nat \<Rightarrow> ('a, 'b) either \<Rightarrow> 's \<Rightarrow>
    (anyhow + bytes) \<times> ('a, 'b) either \<times> 's" where
  "either_read A B n (EitherA reader) s = (let (r, x, s') = rd_read A n reader s in (r, EitherA x, s'))"
| "either_read A B n (EitherB reader) s = (let (r, x, s') = rd_read B n reader s in (r, EitherB x, s'))"

datatype 'a optional_stream = OptNone | OptSome 'a

fun opt_new :: "'a \<Rightarrow> ('a \<Rightarrow> bool \<times> 'a) \<Rightarrow> 'a optional_stream" where
  "opt_new stream cond = (let (b, stream') = cond stream in if b then OptSome stream' else OptNone)"

fun opt_is_some :: "'a optional_stream \<Rightarrow> bool" where
  "opt_is_some OptNone = False" | "opt_is_some (OptSome a) = True"

fun opt_mapping :: "'t option \<Rightarrow> ('t \<Rightarrow> 'a) \<Rightarrow> 'a optional_stream" where
  "opt_mapping None f = OptNone" | "opt_mapping (Some t) f = OptSome (f t)"

fun opt_map :: "('a \<Rightarrow> 'b) \<Rightarrow> 'a optional_stream \<Rightarrow> 'b optional_stream" where
  "opt_map f OptNone = OptNone" | "opt_map f (OptSome a) = OptSome (f a)"

fun opt_take :: "'a optional_stream \<Rightarrow> 'a optional_stream \<times> 'a optional_stream" where
  "opt_take self = (self, OptNone)"

fun opt_write :: "('a, 's) write_ops \<Rightarrow> bytes \<Rightarrow> 'a optional_stream \<Rightarrow> 's \<Rightarrow>
    (anyhow + nat) \<times> 'a optional_stream \<times> 's" where
  "opt_write A buf OptNone s = (Ok (length buf), OptNone, s)"
| "opt_write A buf (OptSome writer) s = (let (r, w, s') = wr_write A buf writer s in (r, OptSome w, s'))"

fun opt_flush :: "('a, 's) write_ops \<Rightarrow> 'a optional_stream \<Rightarrow> 's \<Rightarrow> (anyhow + unit) \<times> 'a optional_stream \<times> 's" where
  "opt_flush A OptNone s = (Ok (), OptNone, s)"
| "opt_flush A (OptSome writer) s = (let (r, w, s') = wr_flush A writer s in (r, OptSome w, s'))"

definition opt_ops :: "('a, 's) write_ops \<Rightarrow> ('a optional_stream, 's) write_ops" where
  "opt_ops A = \<lparr>wr_write = opt_write A, wr_flush = opt_flush A\<rparr>"

fun opt_read :: "('a, 's) read_ops \<Rightarrow> nat \<Rightarrow> 'a optional_stream \<Rightarrow> 's \<Rightarrow> (anyhow + bytes) \<times> 'a optional_stream \<times> 's" where
  "opt_read A n OptNone s = (Ok [], OptNone, s)"
| "opt_read A n (OptSome reader) s = (let (r, x, s') = rd_read A n reader s in (r, OptSome x, s'))"

definition eventually_layer ::
  "'t option \<Rightarrow> ('t \<Rightarrow> ('a, 'b, 'e, 's) composable_stream_builder) \<Rightarrow>
     ('a, ('b, 'a) either, 'e, 's) composable_stream_builder" where
  "eventually_layer cond other_builder =
     \<lparr>csb_make = (\<lambda>a s. case map_option (\<lambda>t. csb_make (other_builder t)) cond of
        Some make_b \<Rightarrow> (case make_b a s of (Inl e, s') \<Rightarrow> (Err e, s') | (Inr b, s') \<Rightarrow> (Ok (EitherA b), s'))
      | None \<Rightarrow> (Ok (EitherB a), s))\<rparr>"

definition optionally ::
  "'t option \<Rightarrow> ('t \<Rightarrow> ('a, 'b, 'e, 's) composable_stream_builder) \<Rightarrow>
     ('a, 'b optional_stream, 'e, 's) composable_stream_builder" where
  "optionally cond other_builder =
     \<lparr>csb_make = (\<lambda>a s. case map_option (\<lambda>t. csb_make (other_builder t)) cond of
        Some make_b \<Rightarrow> (case make_b a s of (Inl e, s') \<Rightarrow> (Err e, s') | (Inr b, s') \<Rightarrow> (Ok (OptSome b), s'))
      | None \<Rightarrow> (Ok OptNone, s))\<rparr>"

section \<open>Tee\<close>

datatype ('a, 'b) tee_stream = Tee (tee_0: 'a) (tee_1: 'b)

fun tee_write :: "('a, 's) write_ops \<Rightarrow> ('b, 's) write_ops \<Rightarrow> bytes \<Rightarrow> ('a, 'b) tee_stream \<Rightarrow> 's \<Rightarrow>
    (anyhow + nat) \<times> ('a, 'b) tee_stream \<times> 's" where
  "tee_write A B buf (Tee w1 w2) s =
     (case wr_write A buf w1 s of
        (Inl e, w1', s') \<Rightarrow> (Err e, Tee w1' w2, s')
      | (Inr n, w1', s') \<Rightarrow>
          (case write_all B (take n buf) w2 s' of
             (Inl e, w2', s'') \<Rightarrow> (Err e, Tee w1' w2', s'')
           | (Inr _, w2', s'') \<Rightarrow> (Ok n, Tee w1' w2', s'')))"

fun tee_flush :: "('a, 's) write_ops \<Rightarrow> ('b, 's) write_ops \<Rightarrow> ('a, 'b) tee_stream \<Rightarrow> 's \<Rightarrow>
    (anyhow + unit) \<times> ('a, 'b) tee_stream \<times> 's" where
  "tee_flush A B (Tee w1 w2) s =
     (case wr_flush A w1 s of
        (Inl e, w1', s') \<Rightarrow> (Err e, Tee w1' w2, s')
      | (Inr _, w1', s') \<Rightarrow> (let (r, w2', s'') = wr_flush B w2 s' in (r, Tee w1' w2', s'')))"

definition tee_ops :: "('a, 's) write_ops \<Rightarrow> ('b, 's) write_ops \<Rightarrow> (('a, 'b) tee_stream, 's) write_ops" where
  "tee_ops A B = \<lparr>wr_write = tee_write A B, wr_flush = tee_flush A B\<rparr>"

text \<open>The free function \<open>tee\<close> and the methods of the builder.\<close>

definition tee :: "'b \<Rightarrow> ('a, ('a, 'b) tee_stream, 'e, 's) composable_stream_builder" where
  "tee b2 = \<lparr>csb_make = (\<lambda>b1 s. (Ok (Tee b1 b2), s))\<rparr>"

definition builder_tee ::
  "(('b1, 'b2) tee_stream, 'c, 'e, 's) composable_stream_builder \<Rightarrow>
     ('a2, 'b2, 'e, 's) composable_stream_builder \<Rightarrow> 'a2 \<Rightarrow> ('b1, 'c, 'e, 's) composable_stream_builder" where
  "builder_tee self other a2 =
     \<lparr>csb_make = (\<lambda>b1 s. case csb_make other a2 s of (Inl e, s') \<Rightarrow> (Err e, s') | (Inr b2, s') \<Rightarrow> csb_make self (Tee b1 b2) s')\<rparr>"

definition tee_into ::
  "(('b1, 'b2) tee_stream, 'c, 'e, 's) composable_stream_builder \<Rightarrow> 'b2 \<Rightarrow>
     ('b1, 'c, 'e, 's) composable_stream_builder" where
  "tee_into self b2 = \<lparr>csb_make = (\<lambda>b1 s. csb_make self (Tee b1 b2) s)\<rparr>"

definition opt_tee ::
  "(('a1, 'b2 optional_stream) tee_stream, 'c, 'e, 's) composable_stream_builder \<Rightarrow> 't option \<Rightarrow>
     ('t \<Rightarrow> ('a2, 'b2, 'e, 's) composable_stream_builder) \<Rightarrow> 'a2 \<Rightarrow>
     ('a1, 'c, 'e, 's) composable_stream_builder" where
  "opt_tee self cond other_builder stream =
     \<lparr>csb_make = (\<lambda>a1 s. case map_option (\<lambda>t. csb_make (other_builder t)) cond of
        Some make_b2 \<Rightarrow>
          (case make_b2 stream s of
             (Inl e, s') \<Rightarrow> (Err e, s')
           | (Inr b2, s') \<Rightarrow> csb_make self (Tee a1 (OptSome b2)) s')
      | None \<Rightarrow> csb_make self (Tee a1 OptNone) s)\<rparr>"

definition opt_tee_into ::
  "('a1, 'b1, 'e, 's) composable_stream_builder \<Rightarrow> 't option \<Rightarrow> ('t \<Rightarrow> 'b2) \<Rightarrow>
     ('a1, ('b1, 'b2 optional_stream) tee_stream, 'e, 's) composable_stream_builder" where
  "opt_tee_into self cond other_builder =
     \<lparr>csb_make = (\<lambda>a1 s. case csb_make self a1 s of
        (Inl e, s') \<Rightarrow> (Err e, s')
      | (Inr b1, s') \<Rightarrow> (Ok (Tee b1 (opt_mapping cond other_builder)), s'))\<rparr>"

section \<open>The contract of a writer\<close>

text \<open>
  \<open>rcv w s xs\<close>: the writer \<open>w\<close> in world \<open>s\<close> has received the bytes \<open>xs\<close>.  A successful \<open>write\<close>
  adds the accepted prefix of the buffer.
\<close>

locale byte_sink =
  fixes W :: "('w, 's) write_ops"
    and rcv :: "'w \<Rightarrow> 's \<Rightarrow> bytes \<Rightarrow> bool"
  assumes write_rcv: "rcv w s xs \<Longrightarrow> wr_write W buf w s = (Ok n, w', s') \<Longrightarrow>
      n \<le> length buf \<and> rcv w' s' (xs @ take n buf)"
begin

text \<open>A \<open>write_all\<close> that succeeds delivers the whole buffer.\<close>

lemma write_all_rcv:
  assumes "rcv w s xs" "write_all W buf w s = (Ok u, w', s')"
  shows "rcv w' s' (xs @ buf)"
  using assms
proof (induction buf arbitrary: w s xs rule: length_induct)
  case (1 buf)
  show ?case
  proof (cases "buf = []")
    case True
    with 1(2,3) show ?thesis by simp
  next
    case False
    then obtain n w1 s1 where st: "wr_write W buf w s = (Ok n, w1, s1)" "n \<noteq> 0"
      "write_all W (drop n buf) w1 s1 = (Ok u, w', s')"
      using 1(3) by (subst (asm) write_all.simps) (auto split: prod.splits sum.splits if_splits)
    have "rcv w1 s1 (xs @ take n buf)" using write_rcv [OF 1(2) st(1)] by simp
    moreover have "length (drop n buf) < length buf" using st(2) False by simp
    ultimately have "rcv w' s' ((xs @ take n buf) @ drop n buf)" using 1(1) st(3) by blast
    then show ?thesis by simp
  qed
qed

end

text \<open>A writer that only changes its own state.\<close>

locale local_sink =
  fixes W :: "('w, 's) write_ops"
    and rcvl :: "'w \<Rightarrow> bytes \<Rightarrow> bool"
  assumes write_rcvl: "rcvl w xs \<Longrightarrow> wr_write W buf w s = (Ok n, w', s') \<Longrightarrow>
      n \<le> length buf \<and> rcvl w' (xs @ take n buf)"
    and write_local: "wr_write W buf w s = (r, w', s') \<Longrightarrow> s' = s"

sublocale local_sink \<subseteq> byte_sink W "\<lambda>w s. rcvl w"
  by unfold_locales (rule write_rcvl)

context local_sink
begin

lemma write_all_local: "write_all W buf w s = (r, w', s') \<Longrightarrow> s' = s"
proof (induction buf arbitrary: w rule: length_induct)
  case (1 buf)
  obtain r1 w1 s1 where st: "wr_write W buf w s = (r1, w1, s1)" by (metis prod_cases3)
  have s1: "s1 = s" by (rule write_local [OF st])
  show ?case
  proof (cases "buf = [] \<or> (\<exists>e. r1 = Inl e) \<or> r1 = Inr 0")
    case True
    with 1(2) st s1 show ?thesis by (subst (asm) write_all.simps) (auto split: if_splits)
  next
    case False
    then obtain n where n: "r1 = Inr n" "n \<noteq> 0" "buf \<noteq> []" by (cases r1) auto
    then have "write_all W (drop n buf) w1 s = (r, w', s')"
      using 1(2) st s1 by (subst (asm) write_all.simps) simp
    moreover have "length (drop n buf) < length buf" using n by simp
    ultimately show ?thesis using 1(1) by blast
  qed
qed

end

text \<open>
  An optional writer receives anything when it is absent; \<open>absent\<close> says whether it may be, and
  writing does not change that.
\<close>

fun opt_rcv :: "bool \<Rightarrow> ('a \<Rightarrow> bytes \<Rightarrow> bool) \<Rightarrow> 'a optional_stream \<Rightarrow> bytes \<Rightarrow> bool" where
  "opt_rcv absent R OptNone xs = absent" | "opt_rcv absent R (OptSome a) xs = R a xs"

locale optional_sink = some: local_sink B rcvb
  for B :: "('b, 's) write_ops" and rcvb +
  fixes absent :: bool

sublocale optional_sink \<subseteq> opt: local_sink "opt_ops B" "opt_rcv absent rcvb"
proof
  fix w xs buf s n w' s' r
  show "opt_rcv absent rcvb w xs \<Longrightarrow> wr_write (opt_ops B) buf w s = (Ok n, w', s') \<Longrightarrow>
      n \<le> length buf \<and> opt_rcv absent rcvb w' (xs @ take n buf)"
    using some.write_rcvl by (cases w) (auto simp: opt_ops_def split: prod.splits)
  show "wr_write (opt_ops B) buf w s = (r, w', s') \<Longrightarrow> s' = s"
    using some.write_local by (cases w) (auto simp: opt_ops_def split: prod.splits)
qed

text \<open>Both branches of a \<open>Tee\<close> receive the same bytes, those of its first branch.\<close>

locale teed_sinks = a: byte_sink A rcva + b: local_sink B rcvb
  for A :: "('a, 's) write_ops" and rcva and B :: "('b, 's) write_ops" and rcvb

sublocale teed_sinks \<subseteq> tee: byte_sink "tee_ops A B" "\<lambda>t s xs. rcva (tee_0 t) s xs \<and> rcvb (tee_1 t) xs"
proof
  fix w s xs buf n w' s'
  assume r: "rcva (tee_0 w) s xs \<and> rcvb (tee_1 w) xs"
    and st: "wr_write (tee_ops A B) buf w s = (Ok n, w', s')"
  obtain w1 w2 where w: "w = Tee w1 w2" by (cases w)
  obtain w1' s1 w2' where wr: "wr_write A buf w1 s = (Ok n, w1', s1)"
    "write_all B (take n buf) w2 s1 = (Ok (), w2', s')" "w' = Tee w1' w2'"
    using st w by (auto simp: tee_ops_def split: prod.splits sum.splits)
  have "s' = s1" by (rule b.write_all_local [OF wr(2)])
  moreover have "n \<le> length buf \<and> rcva w1' s1 (xs @ take n buf)"
    using a.write_rcv [of w1 s xs] wr(1) r w by simp
  moreover have "rcvb w2' (xs @ take n buf)"
    using b.write_all_rcv [OF _ wr(2)] r w by simp
  ultimately show "n \<le> length buf \<and> (rcva (tee_0 w') s' (xs @ take n buf) \<and> rcvb (tee_1 w') (xs @ take n buf))"
    using wr(3) by simp
qed

text \<open>An \<open>Either\<close> of two writers.\<close>

fun either_rcv :: "('a \<Rightarrow> 's \<Rightarrow> bytes \<Rightarrow> bool) \<Rightarrow> ('b \<Rightarrow> 's \<Rightarrow> bytes \<Rightarrow> bool) \<Rightarrow> ('a, 'b) either \<Rightarrow> 's \<Rightarrow> bytes \<Rightarrow> bool" where
  "either_rcv P Q (EitherA a) = P a" | "either_rcv P Q (EitherB b) = Q b"

locale either_sinks = a: byte_sink A rcva + b: byte_sink B rcvb
  for A :: "('a, 's) write_ops" and rcva and B :: "('b, 's) write_ops" and rcvb

sublocale either_sinks \<subseteq> either: byte_sink "either_ops A B" "either_rcv rcva rcvb"
proof
  fix w s xs buf n w' s'
  show "either_rcv rcva rcvb w s xs \<Longrightarrow> wr_write (either_ops A B) buf w s = (Ok n, w', s') \<Longrightarrow>
      n \<le> length buf \<and> either_rcv rcva rcvb w' s' (xs @ take n buf)"
    using a.write_rcv b.write_rcv by (cases w) (auto simp: either_ops_def split: prod.splits)
qed

text \<open>An invariant of a writer, as a contract that ignores the bytes.\<close>

lemma byte_sink_inv_write_all:
  "byte_sink W (\<lambda>w s _. I w s) \<Longrightarrow> I w s \<Longrightarrow> write_all W buf w s = (Ok u, w', s') \<Longrightarrow> I w' s'"
  by (rule byte_sink.write_all_rcv)

section \<open>Vec\<close>

text \<open>\<open>impl Write for Vec<u8>\<close>.\<close>

definition vec_ops :: "(bytes, 's) write_ops" where
  "vec_ops = \<lparr>wr_write = (\<lambda>buf v s. (Ok (length buf), v @ buf, s)), wr_flush = (\<lambda>v s. (Ok (), v, s))\<rparr>"

interpretation vec: local_sink vec_ops "(=)"
  by unfold_locales (auto simp: vec_ops_def)

interpretation vec_opt: optional_sink vec_ops "(=)" True
  by unfold_locales

interpretation vec_tee: teed_sinks vec_ops "\<lambda>w s. (=) w" vec_ops "(=)"
  by unfold_locales

interpretation vec_either: either_sinks vec_ops "\<lambda>w s. (=) w" vec_ops "\<lambda>w s. (=) w"
  by unfold_locales

section \<open>Properties\<close>

text \<open>
  \<open>then\<close> is composition in topological order: it is associative and the empty builder is
  neutral on both sides.
\<close>

theorem builder_then_assoc:
  "builder_then (builder_then a b) c = builder_then a (builder_then b c) \<and>
   builder_then builder a = a \<and> builder_then a builder = a"
  by (cases a) (auto simp: builder_then_def builder_def fun_eq_iff split: prod.splits sum.splits)

text \<open>
  A successful \<open>write_all\<close> on a \<open>Tee\<close> of two vectors with equal contents appends the whole
  buffer to both.
\<close>

theorem tee_write_all_both:
  "write_all (tee_ops vec_ops vec_ops) buf (Tee v v) s = (Ok (), Tee (v @ buf) (v @ buf), s)"
proof (cases "buf = []")
  case False
  then have "write_all vec_ops buf v s = (Ok (), v @ buf, s)"
    by (subst write_all.simps) (simp add: vec_ops_def)
  then have "wr_write (tee_ops vec_ops vec_ops) buf (Tee v v) s = (Ok (length buf), Tee (v @ buf) (v @ buf), s)"
    by (simp add: tee_ops_def) (simp add: vec_ops_def)
  with False show ?thesis by (subst write_all.simps) simp
qed simp

end
