(* ===== verification/Stats.thy ===== *)
theory Stats
  imports Composable_Stream
begin

text \<open>
  \<^verbatim>\<open>api/crates/backup/src/stats.rs\<close>: \<open>MeteredStream\<close>, the layer that counts what goes
  through it, and the counters \<open>ReadStats\<close> and \<open>WriteStats\<close> (release build: no durations).
  The traits \<open>StreamStats\<close> and \<open>WriterStats\<close> are the record \<open>stats_ops\<close>.
\<close>

section \<open>Counters\<close>

record 'st stats_ops =
  record_chunk :: "nat \<Rightarrow> 'st \<Rightarrow> 'st"
  record_flush :: "'st \<Rightarrow> 'st"

record read_stats =
  bytes_read :: u64
  chunks_read :: u64

record write_stats =
  bytes_written :: u64
  chunks_written :: u64
  flush_count :: u32

definition read_stats_new :: read_stats where
  "read_stats_new = \<lparr>bytes_read = 0, chunks_read = 0\<rparr>"

definition write_stats_new :: write_stats where
  "write_stats_new = \<lparr>bytes_written = 0, chunks_written = 0, flush_count = 0\<rparr>"

definition read_stats_ops :: "read_stats stats_ops" where
  "read_stats_ops = \<lparr>record_chunk = (\<lambda>len st. st\<lparr>bytes_read := bytes_read st + of_nat len,
       chunks_read := chunks_read st + 1\<rparr>), record_flush = (\<lambda>st. st)\<rparr>"

definition write_stats_ops :: "write_stats stats_ops" where
  "write_stats_ops = \<lparr>record_chunk = (\<lambda>len st. st\<lparr>bytes_written := bytes_written st + of_nat len,
       chunks_written := chunks_written st + 1\<rparr>),
     record_flush = (\<lambda>st. st\<lparr>flush_count := flush_count st + 1\<rparr>)\<rparr>"

text \<open>\<open>NoopStats\<close>.\<close>

definition noop_stats_ops :: "unit stats_ops" where
  "noop_stats_ops = \<lparr>record_chunk = (\<lambda>_ st. st), record_flush = (\<lambda>st. st)\<rparr>"

text \<open>The text printed for a counter: bytes, then the number of chunks.\<close>

definition stats_fmt :: "u64 \<Rightarrow> u64 \<Rightarrow> string" where
  "stats_fmt bts chunks =
     dec (unat bts) @ ''B ('' @ dec (unat chunks) @ '' '' @
     (if chunks < 2 then ''chunk'' else ''chunks'') @ '')''"

section \<open>MeteredStream\<close>

record ('i, 'st) metered_stream =
  inner :: 'i
  stats :: 'st

definition metered_new :: "'i \<Rightarrow> 'st \<Rightarrow> ('i, 'st) metered_stream" where
  "metered_new i st = \<lparr>inner = i, stats = st\<rparr>"

definition into_parts :: "('i, 'st) metered_stream \<Rightarrow> 'i \<times> 'st" where
  "into_parts m = (inner m, stats m)"

definition metered_write ::
  "('i, 's) write_ops \<Rightarrow> 'st stats_ops \<Rightarrow> bytes \<Rightarrow> ('i, 'st) metered_stream \<Rightarrow> 's \<Rightarrow>
     (anyhow + nat) \<times> ('i, 'st) metered_stream \<times> 's" where
  "metered_write I ST buf m s =
     (case wr_write I buf (inner m) s of
        (Inl e, i, s') \<Rightarrow> (Err e, m\<lparr>inner := i\<rparr>, s')
      | (Inr n, i, s') \<Rightarrow> (Ok n, m\<lparr>inner := i, stats := record_chunk ST n (stats m)\<rparr>, s'))"

definition metered_flush ::
  "('i, 's) write_ops \<Rightarrow> 'st stats_ops \<Rightarrow> ('i, 'st) metered_stream \<Rightarrow> 's \<Rightarrow>
     (anyhow + unit) \<times> ('i, 'st) metered_stream \<times> 's" where
  "metered_flush I ST m s =
     (let (res, i, s') = wr_flush I (inner m) s
      in (res, m\<lparr>inner := i, stats := record_flush ST (stats m)\<rparr>, s'))"

definition metered_ops :: "('i, 's) write_ops \<Rightarrow> 'st stats_ops \<Rightarrow> (('i, 'st) metered_stream, 's) write_ops" where
  "metered_ops I ST = \<lparr>wr_write = metered_write I ST, wr_flush = metered_flush I ST\<rparr>"

definition metered_read ::
  "('i, 's) read_ops \<Rightarrow> 'st stats_ops \<Rightarrow> nat \<Rightarrow> ('i, 'st) metered_stream \<Rightarrow> 's \<Rightarrow>
     (anyhow + bytes) \<times> ('i, 'st) metered_stream \<times> 's" where
  "metered_read I ST n m s =
     (case rd_read I n (inner m) s of
        (Inl e, i, s') \<Rightarrow> (Err e, m\<lparr>inner := i\<rparr>, s')
      | (Inr b, i, s') \<Rightarrow> (Ok b, m\<lparr>inner := i, stats := record_chunk ST (length b) (stats m)\<rparr>, s'))"

text \<open>\<open>meter_writes\<close>, the layer as a builder.\<close>

definition meter_writes :: "'st \<Rightarrow> ('i, ('i, 'st) metered_stream, 'e, 's) composable_stream_builder" where
  "meter_writes st = \<lparr>csb_make = (\<lambda>w s. (Ok (metered_new w st), s))\<rparr>"

section \<open>The byte counter\<close>

text \<open>
  A metered writer receives what its inner writer receives, and the counter \<open>count\<close> is the
  number of bytes received, modulo \<open>2 ^ 64\<close>.
\<close>

locale metered_sink = inner: byte_sink I rcvi
  for I :: "('i, 's) write_ops" and rcvi +
  fixes ST :: "'st stats_ops" and count :: "'st \<Rightarrow> u64"
  assumes count_chunk: "count (record_chunk ST n st) = count st + of_nat n"

sublocale metered_sink \<subseteq> metered: byte_sink "metered_ops I ST"
  "\<lambda>m s xs. rcvi (inner m) s xs \<and> count (stats m) = of_nat (length xs)"
proof
  fix w s xs buf n w' s'
  assume r: "rcvi (inner w) s xs \<and> count (stats w) = of_nat (length xs)"
    and st: "wr_write (metered_ops I ST) buf w s = (Ok n, w', s')"
  obtain i where i: "wr_write I buf (inner w) s = (Ok n, i, s')"
    "w' = w\<lparr>inner := i, stats := record_chunk ST n (stats w)\<rparr>"
    using st by (auto simp: metered_ops_def metered_write_def split: prod.splits sum.splits)
  have "n \<le> length buf \<and> rcvi i s' (xs @ take n buf)"
    using inner.write_rcv [OF _ i(1)] r by blast
  with i(2) r show "n \<le> length buf \<and> (rcvi (inner w') s' (xs @ take n buf) \<and>
      count (stats w') = of_nat (length (xs @ take n buf)))"
    by (simp add: count_chunk min_absorb2)
qed

interpretation vec_metered: metered_sink vec_ops "\<lambda>w s. (=) w" write_stats_ops bytes_written
  by unfold_locales (simp add: write_stats_ops_def)

end
