(* ===== verification/Verification.thy ===== *)
theory Verification
  imports Cache_Guards Backup_Id
begin

text \<open>
  \<^verbatim>\<open>api/crates/backup/src/verification.rs\<close>: downloading a backup to the cache directory and
  checking its OpenPGP signature or its checksum before anything else reads it.  OpenPGP
  (\<open>sequoia_openpgp\<close>) and the hash functions are parameters: \<open>pgp_lib\<close> gives the detached
  verifier (built from the certificates, the policy, the signature and the time) and the
  message structure it reports for some data; \<open>blake3\<close> and \<open>sha256\<close> are functions on bytes.
\<close>

section \<open>Signatures\<close>

datatype sig_result =
    GoodChecksum string string
  | MissingKey
  | UnboundKey string
  | BadKey string string
  | BadSignature string string
  | MalformedSignature
  | OtherSigError

datatype message_layer = SignatureGroup "sig_result list" | EncryptionLayer | CompressionLayer

record pgp_signature_report =
  cert_fingerprint :: string
  subkey_fingerprint :: "string option"
  is_valid :: bool

record pgp_verification_report =
  known_signing_keys :: "pgp_signature_report list"
  rejected_signatures_count :: u64

definition pgp_report_default :: pgp_verification_report where
  "pgp_report_default = \<lparr>known_signing_keys = [], rejected_signatures_count = 0\<rparr>"

definition push_known :: "string \<Rightarrow> string option \<Rightarrow> bool \<Rightarrow> pgp_verification_report \<Rightarrow> pgp_verification_report" where
  "push_known cert subkey valid rep =
     rep\<lparr>known_signing_keys := known_signing_keys rep @
       [\<lparr>cert_fingerprint = cert, subkey_fingerprint = subkey, is_valid = valid\<rparr>]\<rparr>"

definition reject :: "pgp_verification_report \<Rightarrow> pgp_verification_report" where
  "reject rep = rep\<lparr>rejected_signatures_count := saturating_add (rejected_signatures_count rep) 1\<rparr>"

text \<open>The loop over the results of a signature group: the report, and the errors.\<close>

fun check_results :: "sig_result list \<Rightarrow> pgp_verification_report \<Rightarrow> sig_result list \<Rightarrow>
    pgp_verification_report \<times> sig_result list" where
  "check_results [] rep errs = (rep, errs)"
| "check_results (r # rs) rep errs =
     (case r of
        GoodChecksum cert key \<Rightarrow> check_results rs (push_known cert (Some key) True rep) errs
      | UnboundKey cert \<Rightarrow> check_results rs (push_known cert None False (reject rep)) (errs @ [r])
      | BadKey cert key \<Rightarrow> check_results rs (push_known cert (Some key) False (reject rep)) (errs @ [r])
      | BadSignature cert key \<Rightarrow> check_results rs (push_known cert (Some key) False (reject rep)) (errs @ [r])
      | _ \<Rightarrow> check_results rs (reject rep) (errs @ [r]))"

text \<open>\<open>PgpVerificationHelper::check\<close>, from layer number \<open>i\<close>.\<close>

fun pgp_check :: "nat \<Rightarrow> message_layer list \<Rightarrow> pgp_verification_report \<Rightarrow> (anyhow + unit) \<times> pgp_verification_report" where
  "pgp_check i [] rep = (Ok (), rep)"
| "pgp_check i (SignatureGroup results # layers) rep =
     (if i = 0 then
        (let (rep', errs) = check_results results rep [] in
         if errs \<noteq> [] then (Err [''No valid signature.''], rep') else pgp_check (Suc i) layers rep')
      else (Err [''Unexpected message structure''], rep))"
| "pgp_check i (EncryptionLayer # layers) rep = (Err [''Unexpected message structure''], rep)"
| "pgp_check i (CompressionLayer # layers) rep = (Err [''Unexpected message structure''], rep)"

record ('c, 'p) pgp_verification_context =
  pvc_certs :: "'c list"
  pvc_policy :: 'p

text \<open>\<open>get_certs\<close> of the helper: all certificates, whatever the ids.\<close>

definition pgp_get_certs :: "('c, 'p) pgp_verification_context \<Rightarrow> string list \<Rightarrow> 'c list" where
  "pgp_get_certs ctx ids = pvc_certs ctx"

record ('c, 'p, 'v) pgp_lib =
  detached_new :: "'c list \<Rightarrow> 'p \<Rightarrow> bytes \<Rightarrow> utc_datetime \<Rightarrow> anyhow + 'v"
  detached_structure :: "'v \<Rightarrow> bytes \<Rightarrow> anyhow + message_layer list"

definition pgp_verifier_new ::
  "('c, 'p, 'v) pgp_lib \<Rightarrow> ('c, 'p) pgp_verification_context \<Rightarrow> bytes \<Rightarrow> utc_datetime \<Rightarrow> anyhow + 'v" where
  "pgp_verifier_new lib ctx expected time = detached_new lib (pgp_get_certs ctx []) (pvc_policy ctx) expected time"

section \<open>Reading the backup\<close>

fun remaining :: "cache_reader \<Rightarrow> nat" where
  "remaining (Caching r _ _ _) = length (rd_data r)"
| "remaining (Cached c pos _) = length c - pos"

lemma cached_read_remaining:
  "(Ok b, r', w') = cached_read 8192 r w \<Longrightarrow> b \<noteq> [] \<Longrightarrow> remaining r' < remaining r"
  by (cases r) (auto simp: Let_def split: if_splits prod.splits sum.splits)

text \<open>\<open>std::io::copy\<close> from the reader into a writer that cannot fail: all its bytes, in order.\<close>

function io_copy :: "cache_reader \<Rightarrow> cache_state \<Rightarrow> (anyhow + bytes) \<times> cache_reader \<times> cache_state" where
  "io_copy r w =
     (case cached_read 8192 r w of
        (Inl e, r', w') \<Rightarrow> (Err e, r', w')
      | (Inr b, r', w') \<Rightarrow>
          if b = [] then (Ok [], r', w')
          else (let (res, r'', w'') = io_copy r' w' in (try_bind res (\<lambda>bs. Ok (b @ bs)), r'', w'')))"
  by pat_completeness auto
termination
  by (relation "measure (\<lambda>(r, w). remaining r)") (auto intro: cached_read_remaining)

declare io_copy.simps [simp del]

text \<open>
  \<open>PgpSignatureVerifier::verify_reader\<close> then \<open>report\<close>: the data is read to the end (an error
  ends the verification before \<open>check\<close>), then the structure goes through \<open>check\<close>.
\<close>

definition verify_reader ::
  "('c, 'p, 'v) pgp_lib \<Rightarrow> 'v \<Rightarrow> cache_reader \<Rightarrow> cache_state \<Rightarrow>
     (anyhow + unit) \<times> pgp_verification_report \<times> cache_reader \<times> cache_state" where
  "verify_reader lib v r w =
     (case io_copy r w of
        (Inl e, r', w') \<Rightarrow> (Err e, pgp_report_default, r', w')
      | (Inr data, r', w') \<Rightarrow>
          (case detached_structure lib v data of
             Inl e \<Rightarrow> (Err e, pgp_report_default, r', w')
           | Inr layers \<Rightarrow> (let (res, rep) = pgp_check 0 layers pgp_report_default in (res, rep, r', w'))))"

section \<open>The service's checks\<close>

definition MAX_PGP_SIGNATURE_LENGTH :: u64 where
  "MAX_PGP_SIGNATURE_LENGTH = 2 * 1024"

datatype verification_error =
    BackupNotFound anyhow
  | InvalidSignature anyhow
  | BackupNotSigned
  | InvalidChecksum anyhow
  | VerificationOther anyhow

record verification_report =
  is_signed :: bool
  is_encrypted :: bool
  can_be_restored :: bool
  is_intact :: bool
  vr_known_signing_keys :: "pgp_signature_report list"
  vr_signature :: "bytes option"
  is_encryption_valid :: bool

definition verification_report_default :: verification_report where
  "verification_report_default = \<lparr>is_signed = False, is_encrypted = False, can_be_restored = False,
     is_intact = False, vr_known_signing_keys = [], vr_signature = None, is_encryption_valid = False\<rparr>"

text \<open>What the checks use of the service: the check store in its state and the contexts.\<close>

record ('k, 'kw, 'c, 'p, 'v) verifier =
  v_check_store :: "('k, 'kw) object_store"
  v_checks :: 'k
  v_max_cache :: "u64 option"
  v_pgp_lib :: "('c, 'p, 'v) pgp_lib"
  v_pgp :: "('c, 'p) pgp_verification_context option"
  v_mandatory :: bool
  v_blake3 :: "bytes \<Rightarrow> bytes"
  v_sha256 :: "bytes \<Rightarrow> bytes"

text \<open>A labelled block either breaks out (with the reader) or returns from the function.\<close>

datatype block = Break cache_reader | Return "(verification_error + string) run"

text \<open>An early return drops the reader, hence its path guard.\<close>

definition return_err ::
  "verification_error \<Rightarrow> cache_reader \<Rightarrow> verification_report \<Rightarrow> cache_state \<Rightarrow>
     block \<times> verification_report \<times> cache_state" where
  "return_err e r rep w = (Return (Ret (Err e)), rep, drop_guard (cr_path r) w)"

definition return_panic :: "cache_reader \<Rightarrow> verification_report \<Rightarrow> cache_state \<Rightarrow>
    block \<times> verification_report \<times> cache_state" where
  "return_panic r rep w = (Return Panic, rep, drop_guard (cr_path r) w)"

text \<open>The block \<open>'pgp_sig\<close>, once the signature is read.\<close>

definition pgp_verify ::
  "('k, 'kw, 'c, 'p, 'v) verifier \<Rightarrow> ('c, 'p) pgp_verification_context \<Rightarrow> utc_datetime \<Rightarrow> bytes \<Rightarrow>
     cache_reader \<Rightarrow> verification_report \<Rightarrow> cache_state \<Rightarrow> block \<times> verification_report \<times> cache_state" where
  "pgp_verify V ctx time_of signature r rep w =
     (case pgp_verifier_new (v_pgp_lib V) ctx signature time_of of
        Inl e \<Rightarrow> return_err (InvalidSignature (context_msg ''Invalid OpenPGP signature'' e)) r rep w
      | Inr v \<Rightarrow>
          (let (res, pgp_report, r', w') = verify_reader (v_pgp_lib V) v r w;
               rep1 = rep\<lparr>vr_known_signing_keys := known_signing_keys pgp_report\<rparr>
           in case res of
             Inr _ \<Rightarrow>
               (let (path, w'') = persist_cache (v_max_cache V) r' w'
                in (Return (Ret (Ok path)), rep1\<lparr>is_intact := True\<rparr>, w''))
           | Inl e \<Rightarrow>
               if vr_known_signing_keys rep1 = [] then
                 (case persist_cache_and_rewind (v_max_cache V) r' w' of
                    (Inl e', w'') \<Rightarrow>
                      (Return (Ret (Err (VerificationOther (context_msg ''Failed saving cache'' e')))), rep1, w'')
                  | (Inr r'', w'') \<Rightarrow> (Break r'', rep1, w''))
               else return_err (InvalidSignature (context_msg ''Invalid OpenPGP signature (verify)'' e)) r' rep1 w'))"

definition pgp_sig_block ::
  "('k, 'kw, 'c, 'p, 'v) verifier \<Rightarrow> string \<Rightarrow> utc_datetime \<Rightarrow>
     cache_reader \<Rightarrow> verification_report \<Rightarrow> cache_state \<Rightarrow> block \<times> verification_report \<times> cache_state" where
  "pgp_sig_block V oid time_of r rep w =
     (case v_pgp V of
        None \<Rightarrow> (Break r, rep, w)
      | Some ctx \<Rightarrow>
          (case with_extension oid ''sig'' of
             Panic \<Rightarrow> return_panic r rep w
           | Ret check_name \<Rightarrow>
               (case reader_if_not_too_large (v_check_store V) check_name MAX_PGP_SIGNATURE_LENGTH (v_checks V) of
                  Panic \<Rightarrow> return_panic r rep w
                | Ret (Inl (ObjectTooLarge _ _ _)) \<Rightarrow> (Break r, rep, w)
                | Ret (Inl (ReadFailed (ObjectNotFound _))) \<Rightarrow> (Break r, rep, w)
                | Ret (Inl (ReadFailed (ReadOther e))) \<Rightarrow>
                    return_err (VerificationOther (context_msg ''Failed opening OpenPGP signature reader'' e)) r rep w
                | Ret (Inr rd) \<Rightarrow>
                    (let rep1 = rep\<lparr>is_signed := True\<rparr> in
                     if rd_fails rd
                     then return_err (VerificationOther [''Failed reading OpenPGP signature'']) r rep1 w
                     else pgp_verify V ctx time_of (rd_data rd) r
                            (rep1\<lparr>vr_signature := Some (rd_data rd)\<rparr>) w))))"

text \<open>The blocks \<open>'blake3_check\<close> and \<open>'sha256_check\<close>.\<close>

definition checksum_block ::
  "string \<Rightarrow> nat \<Rightarrow> (bytes \<Rightarrow> bytes) \<Rightarrow> ('k, 'kw, 'c, 'p, 'v) verifier \<Rightarrow> string \<Rightarrow>
     cache_reader \<Rightarrow> verification_report \<Rightarrow> cache_state \<Rightarrow> block \<times> verification_report \<times> cache_state" where
  "checksum_block ext out_len hash V oid r rep w =
     (case with_extension oid ext of
        Panic \<Rightarrow> return_panic r rep w
      | Ret check_name \<Rightarrow>
          (case reader_if_not_too_large (v_check_store V) check_name (of_nat out_len) (v_checks V) of
             Panic \<Rightarrow> return_panic r rep w
           | Ret (Inl (ObjectTooLarge _ _ _)) \<Rightarrow> (Break r, rep, w)
           | Ret (Inl (ReadFailed (ObjectNotFound _))) \<Rightarrow> (Break r, rep, w)
           | Ret (Inl (ReadFailed (ReadOther e))) \<Rightarrow>
               return_err (VerificationOther (context_msg ''Failed opening checksum reader'' e)) r rep w
           | Ret (Inr rd) \<Rightarrow>
               if rd_fails rd then return_err (VerificationOther [''Failed reading checksum'']) r rep w
               else if length (rd_data rd) \<noteq> out_len
               then return_err (InvalidChecksum [''Invalid checksum'']) r rep w
               else
                 (case io_copy r w of
                    (Inl e, r', w') \<Rightarrow>
                      return_err (VerificationOther (context_msg ''Failed reading backup'' e)) r' rep w'
                  | (Inr data, r', w') \<Rightarrow>
                      if hash data \<noteq> rd_data rd
                      then return_err (InvalidChecksum [''Invalid checksum (verify)'']) r' rep w'
                      else
                        (let (path, w'') = persist_cache (v_max_cache V) r' w'
                         in (Return (Ret (Ok path)), rep\<lparr>is_intact := True\<rparr>, w'')))))"

definition blake3_check where
  "blake3_check V = checksum_block ''blake3'' 32 (v_blake3 V) V"

definition sha256_check where
  "sha256_check V = checksum_block ''sha256'' 32 (v_sha256 V) V"

text \<open>
  \<open>BackupService::download_backup_and_check_integrity\<close>: \<open>oid\<close> is the object key of the backup,
  \<open>S\<close> and \<open>s\<close> the backup store and its state.
\<close>

definition download_backup_and_check_integrity ::
  "('k, 'kw, 'c, 'p, 'v) verifier \<Rightarrow> ('s, 'w) object_store \<Rightarrow> 's \<Rightarrow> string \<Rightarrow> utc_datetime \<Rightarrow>
     verification_report \<Rightarrow> cache_state \<Rightarrow>
     (verification_error + string) run \<times> verification_report \<times> cache_state" where
  "download_backup_and_check_integrity V S s oid time_of rep w =
     (case cached_reader S s oid w of
        (Panic, w') \<Rightarrow> (Panic, rep, w')
      | (Ret (Inl (ObjectNotFound e)), w') \<Rightarrow> (Ret (Err (BackupNotFound e)), rep, w')
      | (Ret (Inl (ReadOther e)), w') \<Rightarrow>
          (Ret (Err (VerificationOther (context_msg ''Failed opening backup reader'' e))), rep, w')
      | (Ret (Inr r), w') \<Rightarrow>
          (case pgp_sig_block V oid time_of r rep w' of
             (Return res, rep1, w1) \<Rightarrow> (res, rep1, w1)
           | (Break r1, rep1, w1) \<Rightarrow>
               if v_mandatory V then (Ret (Err BackupNotSigned), rep1, drop_guard (cr_path r1) w1)
               else
                 (case blake3_check V oid r1 rep1 w1 of
                    (Return res, rep2, w2) \<Rightarrow> (res, rep2, w2)
                  | (Break r2, rep2, w2) \<Rightarrow>
                      (case sha256_check V oid r2 rep2 w2 of
                         (Return res, rep3, w3) \<Rightarrow> (res, rep3, w3)
                       | (Break r3, rep3, w3) \<Rightarrow>
                           (Ret (Err (VerificationOther [''Could not check the integrity of the backup.''])),
                            rep3, drop_guard (cr_path r3) w3)))))"

section \<open>What the reader has copied\<close>

text \<open>\<open>xs\<close>: the bytes delivered so far, which are the start of the cache file.\<close>

definition copied :: "cache_reader \<Rightarrow> cache_state \<Rightarrow> bytes \<Rightarrow> bool" where
  "copied r w xs =
     (case r of
        Caching _ _ _ path \<Rightarrow> fs_abs (cache_files w) path = Some xs
      | Cached c pos path \<Rightarrow> fs_abs (cache_files w) path = Some c \<and> take pos c = xs)"

lemma cached_read_copied:
  assumes "fs_good (cache_files w)" "copied r w xs" "cached_read n r w = (res, r', w')"
  shows "(\<forall>b. res = Ok b \<longrightarrow> copied r' w' (xs @ b)) \<and> (\<exists>ys. copied r' w' ys)"
proof (cases r)
  case (Caching rd sz key path)
  obtain d1 where d1: "fs_write_all path (take n (rd_data rd)) (cache_files w) = (Ok path, d1)"
    "fs_abs d1 = (fs_abs (cache_files w))(path \<mapsto> xs @ take n (rd_data rd))"
    using fs_write_all_good [OF assms(1)] assms(2) Caching by (fastforce simp: copied_def)
  with assms(2,3) Caching show ?thesis
    by (auto simp: copied_def Let_def split: if_splits)
next
  case (Cached c pos path)
  have "take (pos + length (take n (drop pos c))) c = take pos c @ take n (drop pos c)"
    by (cases "n \<le> length c - pos") (simp_all add: take_add)
  with assms(2,3) Cached show ?thesis by (auto simp: copied_def)
qed

lemma copied_end:
  "copied r w xs \<Longrightarrow> cached_read 8192 r w = (Ok [], r', w') \<Longrightarrow> fs_good (cache_files w) \<Longrightarrow>
   fs_abs (cache_files w') (cr_path r) = Some xs"
  using cached_read_copied [of w r xs 8192 "Ok []" r' w']
  by (cases r) (auto simp: copied_def Let_def split: if_splits prod.splits sum.splits)

lemma io_copy_spec:
  assumes "acct M L w" "copied r w xs" "io_copy r w = (res, r', w')"
  shows "acct M L w' \<and> cr_path r' = cr_path r \<and> cache w' = cache w \<and> (\<exists>ys. copied r' w' ys) \<and>
    (\<forall>d. res = Ok d \<longrightarrow> fs_abs (cache_files w') (cr_path r) = Some (xs @ d))"
  using assms
proof (induction r w arbitrary: xs res r' w' rule: io_copy.induct)
  case (1 r w)
  have good: "fs_good (cache_files w)" using 1(2) by (simp add: acct_def)
  obtain res1 r1 w1 where rd: "cached_read 8192 r w = (res1, r1, w1)" by (metis prod_cases3)
  have keep: "acct M L w1" "cr_path r1 = cr_path r" "cache w1 = cache w"
    using acct_cached_read [OF 1(2) rd] by simp_all
  have cp: "\<forall>b. res1 = Ok b \<longrightarrow> copied r1 w1 (xs @ b)" "\<exists>ys. copied r1 w1 ys"
    using cached_read_copied [OF good 1(3) rd] by simp_all
  consider (err) e where "res1 = Inl e" | (eof) "res1 = Inr []" | (more) b where "res1 = Inr b" "b \<noteq> []"
    by (cases res1) auto
  then show ?case
  proof cases
    case err
    with 1(4) rd keep cp show ?thesis by (subst (asm) io_copy.simps) auto
  next
    case eof
    have "fs_abs (cache_files w1) (cr_path r) = Some xs"
      using copied_end [OF 1(3) _ good] rd eof by blast
    with 1(4) rd keep cp eof show ?thesis by (subst (asm) io_copy.simps) auto
  next
    case more
    obtain res2 r2 w2 where rec: "io_copy r1 w1 = (res2, r2, w2)" by (metis prod_cases3)
    have "acct M L w2 \<and> cr_path r2 = cr_path r1 \<and> cache w2 = cache w1 \<and> (\<exists>ys. copied r2 w2 ys) \<and>
      (\<forall>d. res2 = Ok d \<longrightarrow> fs_abs (cache_files w2) (cr_path r1) = Some ((xs @ b) @ d))"
      using 1(1) [OF rd [symmetric] more(1) refl more(2) keep(1) _ rec, of "xs @ b"] cp(1) more(1) by simp
    moreover have "res = try_bind res2 (\<lambda>bs. Ok (b @ bs))" "r' = r2" "w' = w2"
      using 1(4) rd more rec by (subst (asm) io_copy.simps; simp)+
    ultimately show ?thesis using keep by (auto simp: try_bind_eq_Ok)
  qed
qed

lemma cached_reader_copied:
  assumes "acct (paths (entries (cache w)) + M) L w" "cached_reader S s key w = (Ret (Ok r), w')"
  shows "copied r w' []"
  using assms(2) fs_abs_update [where d = "cache_files w" and n = key and c = "[]"]
  by (auto simp: cached_reader_def copied_def clone_guard_def open_cached_def fs_abs_def Let_def
      split: option.splits if_splits run.splits sum.splits)

lemma persist_content:
  assumes "acct (paths (entries (cache w)) + add_mset (cr_path r) M) L w" "persist_cache mx r w = (p, w')"
  shows "fs_abs (cache_files w') (cr_path r) = fs_abs (cache_files w) (cr_path r)"
proof -
  have "acct (paths (entries (cache w')) + add_mset (cr_path r) M) L w'"
    using persist_acct [OF assms] by simp
  then have "cr_path r \<in> dom (fs_abs (cache_files w'))" by (simp add: acct_def)
  moreover have "fs_abs (cache_files w') \<subseteq>\<^sub>m fs_abs (cache_files w)"
    using assms(2) cache_object_le [of mx _ _ _ "clone_guard (cr_path r) w"]
    by (cases r) (auto simp: persist_cache_def clone_guard_def)
  ultimately show ?thesis by (simp add: map_le_def)
qed

lemma rewind_copied:
  assumes "acct (paths (entries (cache w)) + add_mset (cr_path r) M) L w" "copied r w xs"
    "persist_cache_and_rewind mx r w = (Ok r', w')"
  shows "copied r' w' [] \<and> cr_path r' = cr_path r"
  using assms(2,3)
  by (cases r) (auto simp: persist_cache_and_rewind_def copied_def open_cached_def fs_abs_def
      persist_cache_def split: option.splits if_splits prod.splits)

section \<open>The blocks\<close>

definition stored_check :: "('k, 'kw, 'c, 'p, 'v) verifier \<Rightarrow> string \<Rightarrow> u64 \<Rightarrow> bytes \<Rightarrow> bool" where
  "stored_check V key max_size data \<longleftrightarrow>
     reader_if_not_too_large (v_check_store V) key max_size (v_checks V) =
       Ret (Ok \<lparr>rd_data = data, rd_fails = False\<rparr>)"

text \<open>The digest stored for the backup is the digest of \<open>d\<close>.\<close>

definition checksum_matches where
  "checksum_matches ext out_len hash V oid d \<longleftrightarrow>
     stored_check V (oid @ ''.'' @ ext) (of_nat out_len) (hash d) \<and> length (hash d) = out_len"

text \<open>The signature stored for the backup is accepted for \<open>d\<close>.\<close>

definition signature_verified ::
  "('k, 'kw, 'c, 'p, 'v) verifier \<Rightarrow> string \<Rightarrow> utc_datetime \<Rightarrow> bytes \<Rightarrow> bool" where
  "signature_verified V oid time_of d \<longleftrightarrow>
     (\<exists>ctx sig v layers. v_pgp V = Some ctx \<and>
        stored_check V (oid @ ''.sig'') MAX_PGP_SIGNATURE_LENGTH sig \<and>
        pgp_verifier_new (v_pgp_lib V) ctx sig time_of = Ok v \<and>
        detached_structure (v_pgp_lib V) v d = Ok layers \<and>
        fst (pgp_check 0 layers pgp_report_default) = Ok ())"

text \<open>The state in which a block starts: the reader holds its guard and has not been read.\<close>

definition reading :: "string multiset \<Rightarrow> string set \<Rightarrow> cache_reader \<Rightarrow> cache_state \<Rightarrow> bool" where
  "reading M L r w \<longleftrightarrow> acct (paths (entries (cache w)) + add_mset (cr_path r) M) L w \<and> copied r w []"

fun block_ok :: "(bytes \<Rightarrow> bool) \<Rightarrow> string multiset \<Rightarrow> string set \<Rightarrow> block \<times> verification_report \<times> cache_state \<Rightarrow> bool" where
  "block_ok P M L (Break r, rep, w) = reading M L r w"
| "block_ok P M L (Return (Ret (Inr path)), rep, w) =
     (acct (paths (entries (cache w)) + add_mset path M) L w \<and> is_intact rep \<and>
      (\<exists>d. fs_abs (cache_files w) path = Some d \<and> P d))"
| "block_ok P M L (Return (Ret (Inl e)), rep, w) = acct (paths (entries (cache w)) + M) L w"
| "block_ok P M L (Return Panic, rep, w) = acct (paths (entries (cache w)) + M) L w"

lemma drop_reader_acct:
  "acct (paths (entries (cache w)) + add_mset p M) L w \<Longrightarrow> acct (paths (entries (cache w)) + M) L (drop_guard p w)"
  by (rule acct_drop_guard) simp

lemma reading_return:
  "acct (paths (entries (cache w)) + add_mset (cr_path r) M) L w \<Longrightarrow> block_ok P M L (return_err e r rep w)"
  "acct (paths (entries (cache w)) + add_mset (cr_path r) M) L w \<Longrightarrow> block_ok P M L (return_panic r rep w)"
  by (simp_all add: return_err_def return_panic_def acct_drop_guard)

text \<open>Persisting after a complete copy that satisfies \<open>P\<close>.\<close>

lemma persist_block_ok:
  assumes "acct (paths (entries (cache w)) + add_mset (cr_path r) M) L w"
    "fs_abs (cache_files w) (cr_path r) = Some d" "P d" "persist_cache mx r w = (path, w')"
  shows "block_ok P M L (Return (Ret (Ok path)), rep\<lparr>is_intact := True\<rparr>, w')"
  using persist_acct [OF assms(1,4)] persist_content [OF assms(1,4)] assms(2,3) by simp

lemma io_copy_reading:
  assumes "reading M L r w" "io_copy r w = (res, r', w')"
  shows "acct (paths (entries (cache w')) + add_mset (cr_path r') M) L w' \<and> (\<exists>ys. copied r' w' ys) \<and>
    (\<forall>d. res = Ok d \<longrightarrow> fs_abs (cache_files w') (cr_path r') = Some d)"
  using io_copy_spec [OF _ _ assms(2)] assms(1) by (force simp: reading_def)

lemma checksum_block_ok:
  assumes "reading M L r w" "\<not> ends_with ext ''.''"
  shows "block_ok (checksum_matches ext out_len hash V oid) M L (checksum_block ext out_len hash V oid r rep w)"
proof -
  have a: "acct (paths (entries (cache w)) + add_mset (cr_path r) M) L w"
    using assms(1) by (simp add: reading_def)
  obtain res r' w' where cp: "io_copy r w = (res, r', w')" by (metis prod_cases3)
  have b: "acct (paths (entries (cache w')) + add_mset (cr_path r') M) L w'"
    "\<forall>d. res = Ok d \<longrightarrow> fs_abs (cache_files w') (cr_path r') = Some d"
    using io_copy_reading [OF assms(1) cp] by simp_all
  obtain path w'' where ps: "persist_cache (v_max_cache V) r' w' = (path, w'')" by (metis surj_pair)
  have m: "checksum_matches ext out_len hash V oid d"
    if "reader_if_not_too_large (v_check_store V) (oid @ ''.'' @ ext) (of_nat out_len) (v_checks V) = Ret (Ok rd)"
      "\<not> rd_fails rd" "hash d = rd_data rd" "length (rd_data rd) = out_len" for rd d
    using that by (cases rd) (simp add: checksum_matches_def stored_check_def)
  show ?thesis
    using assms a b cp ps m persist_block_ok [OF b(1) _ _ ps]
    unfolding checksum_block_def with_extension_def
    by (auto simp: reading_return simp del: block_ok.simps(2)
        split: run.split sum.split read_sized_object_error.split read_object_error.split)
qed

lemma verify_reader_ok:
  assumes "reading M L r w" "verify_reader lib v r w = (res, prep, r', w')"
  shows "acct (paths (entries (cache w')) + add_mset (cr_path r') M) L w' \<and> (\<exists>ys. copied r' w' ys) \<and>
    (res = Ok () \<longrightarrow> (\<exists>d layers. fs_abs (cache_files w') (cr_path r') = Some d \<and>
       detached_structure lib v d = Ok layers \<and> fst (pgp_check 0 layers pgp_report_default) = Ok ()))"
proof -
  obtain res1 r1 w1 where cp: "io_copy r w = (res1, r1, w1)" by (metis prod_cases3)
  have eq: "r' = r1" "w' = w1"
    using assms(2) cp by (auto simp: verify_reader_def split: sum.splits prod.splits)
  from io_copy_reading [OF assms(1) cp] assms(2) cp show ?thesis
    unfolding eq by (auto simp: verify_reader_def split: sum.splits prod.splits)
qed

lemma pgp_verify_ok:
  assumes "reading M L r w" "v_pgp V = Some ctx" "stored_check V (oid @ ''.sig'') MAX_PGP_SIGNATURE_LENGTH sig"
  shows "block_ok (signature_verified V oid time_of) M L (pgp_verify V ctx time_of sig r rep w)"
proof (cases "pgp_verifier_new (v_pgp_lib V) ctx sig time_of")
  case (Inl e)
  with assms(1) show ?thesis by (simp add: pgp_verify_def reading_def reading_return)
next
  case (Inr v)
  obtain res prep r' w' where vr: "verify_reader (v_pgp_lib V) v r w = (res, prep, r', w')"
    by (metis prod_cases4)
  have a: "acct (paths (entries (cache w')) + add_mset (cr_path r') M) L w'" "\<exists>ys. copied r' w' ys"
    and ok: "res = Ok () \<Longrightarrow> \<exists>d. fs_abs (cache_files w') (cr_path r') = Some d \<and> signature_verified V oid time_of d"
    using verify_reader_ok [OF assms(1) vr] assms(2,3) Inr by (auto simp: signature_verified_def)
  obtain path w1 where ps: "persist_cache (v_max_cache V) r' w' = (path, w1)" by (metis surj_pair)
  obtain res2 w2 where rw: "persist_cache_and_rewind (v_max_cache V) r' w' = (res2, w2)" by (metis surj_pair)
  have r2: "acct (paths (entries (cache w2)) + mset (map cr_path (case res2 of Inl e \<Rightarrow> [] | Inr r'' \<Rightarrow> [r''])) + M) L w2"
    by (rule rewind_acct [OF a(1) rw])
  have cp: "\<forall>r''. res2 = Ok r'' \<longrightarrow> copied r'' w2 []" using rewind_copied [OF a(1)] a(2) rw by blast
  show ?thesis
  proof (cases res)
    case (Inr u)
    then obtain d where "fs_abs (cache_files w') (cr_path r') = Some d" "signature_verified V oid time_of d"
      using ok by auto
    from persist_block_ok [where P = "signature_verified V oid time_of", OF a(1) this ps] show ?thesis
      using \<open>pgp_verifier_new (v_pgp_lib V) ctx sig time_of = Inr v\<close> vr Inr ps
      by (simp add: pgp_verify_def del: block_ok.simps)
  next
    case (Inl e)
    with \<open>pgp_verifier_new (v_pgp_lib V) ctx sig time_of = Inr v\<close> vr rw a(1) r2 cp show ?thesis
      by (cases res2) (auto simp: pgp_verify_def Let_def reading_return reading_def)
  qed
qed

lemma pgp_sig_block_ok:
  assumes "reading M L r w"
  shows "block_ok (signature_verified V oid time_of) M L (pgp_sig_block V oid time_of r rep w)"
proof -
  have a: "acct (paths (entries (cache w)) + add_mset (cr_path r) M) L w"
    using assms by (simp add: reading_def)
  have s: "stored_check V (oid @ ''.sig'') MAX_PGP_SIGNATURE_LENGTH (rd_data rd)"
    if "reader_if_not_too_large (v_check_store V) (oid @ ''.sig'') MAX_PGP_SIGNATURE_LENGTH (v_checks V) = Ret (Ok rd)"
      "\<not> rd_fails rd" for rd
    using that by (cases rd) (simp add: stored_check_def)
  show ?thesis
    using assms reading_return [OF a] pgp_verify_ok [OF assms] s
    by (auto simp: pgp_sig_block_def Let_def split: option.split run.split sum.split
        read_sized_object_error.split read_object_error.split)
qed

section \<open>Properties\<close>

lemma ext_ok: "\<not> ends_with ''blake3'' ''.''" "\<not> ends_with ''sha256'' ''.''"
  by (simp_all add: ends_with_def starts_with_def)

text \<open>The checks after the reader is open.\<close>

definition verified :: "('k, 'kw, 'c, 'p, 'v) verifier \<Rightarrow> string \<Rightarrow> utc_datetime \<Rightarrow> bytes \<Rightarrow> bool" where
  "verified V oid time_of d \<longleftrightarrow>
     signature_verified V oid time_of d \<or> \<not> v_mandatory V \<and>
       (checksum_matches ''blake3'' 32 (v_blake3 V) V oid d \<or>
        checksum_matches ''sha256'' 32 (v_sha256 V) V oid d)"

lemma block_ok_mono: "block_ok P M L b \<Longrightarrow> (\<And>d. P d \<Longrightarrow> Q d) \<Longrightarrow> block_ok Q M L b"
  by (induction P M L b rule: block_ok.induct) auto

lemma checks_ok:
  assumes "reading M L r w" "\<not> v_mandatory V"
  shows "block_ok (verified V oid time_of) M L (blake3_check V oid r rep w)"
    "block_ok (verified V oid time_of) M L (sha256_check V oid r rep w)"
proof -
  show "block_ok (verified V oid time_of) M L (blake3_check V oid r rep w)"
    unfolding blake3_check_def
    by (rule block_ok_mono [OF checksum_block_ok [OF assms(1) ext_ok(1)]]) (simp add: verified_def assms(2))
  show "block_ok (verified V oid time_of) M L (sha256_check V oid r rep w)"
    unfolding sha256_check_def
    by (rule block_ok_mono [OF checksum_block_ok [OF assms(1) ext_ok(2)]]) (simp add: verified_def assms(2))
qed

lemma download_after_open:
  assumes "cached_reader S s oid w = (Ret (Ok r), w0)" "reading M L r w0"
    "download_backup_and_check_integrity V S s oid time_of rep w = (res, rep', w')"
  shows "block_ok (verified V oid time_of) M L (Return res, rep', w')"
proof -
  obtain b1 rep1 w1 where p: "pgp_sig_block V oid time_of r rep w0 = (b1, rep1, w1)" by (metis prod_cases3)
  have b1: "block_ok (verified V oid time_of) M L (b1, rep1, w1)"
    using block_ok_mono [OF pgp_sig_block_ok [OF assms(2)]] p by (metis verified_def)
  show ?thesis
  proof (cases b1)
    case (Return r1)
    with assms p b1 show ?thesis by (simp add: download_backup_and_check_integrity_def del: block_ok.simps)
  next
    case (Break r1)
    then have rd1: "reading M L r1 w1" using b1 by simp
    show ?thesis
    proof (cases "v_mandatory V")
      case True
      with assms p Break rd1 show ?thesis
        by (auto simp: download_backup_and_check_integrity_def reading_def acct_drop_guard)
    next
      case False
      obtain b2 rep2 w2 where q: "blake3_check V oid r1 rep1 w1 = (b2, rep2, w2)" by (metis prod_cases3)
      have b2: "block_ok (verified V oid time_of) M L (b2, rep2, w2)"
        using checks_ok(1) [OF rd1 False] q by metis
      show ?thesis
      proof (cases b2)
        case (Return r2)
        with assms p Break False q b2 show ?thesis
          by (simp add: download_backup_and_check_integrity_def del: block_ok.simps)
      next
        case (Break r2)
        then have rd2: "reading M L r2 w2" using b2 by simp
        obtain b3 rep3 w3 where z: "sha256_check V oid r2 rep2 w2 = (b3, rep3, w3)" by (metis prod_cases3)
        have b3: "block_ok (verified V oid time_of) M L (b3, rep3, w3)"
          using checks_ok(2) [OF rd2 False] z by metis
        show ?thesis
          using assms p \<open>b1 = Break r1\<close> False q Break z b3
          by (cases b3) (auto simp: download_backup_and_check_integrity_def reading_def acct_drop_guard
              simp del: block_ok.simps(2))
      qed
    qed
  qed
qed

text \<open>A successful download, given the accounts of the cache.\<close>

lemma download_Ok:
  assumes "run_ok \<lparr>run_cache = w, run_readers = rs, run_held = hs, run_leaked = ls\<rparr>"
    and "download_backup_and_check_integrity V S s oid time_of rep w = (Ret (Ok path), rep', w')"
  shows "is_intact rep' \<and> run_ok \<lparr>run_cache = w', run_readers = rs, run_held = path # hs, run_leaked = ls\<rparr> \<and>
    (\<exists>d. fs_abs (cache_files w') path = Some d \<and> verified V oid time_of d)"
proof -
  let ?M = "mset (map cr_path rs) + mset hs" and ?L = "set ls"
  have a: "acct (paths (entries (cache w)) + ?M) ?L w" using assms(1) by (simp add: run_ok_def)
  obtain r w0 where op: "cached_reader S s oid w = (Ret (Ok r), w0)"
    using assms(2) by (auto simp: download_backup_and_check_integrity_def
        split: prod.splits run.splits sum.splits read_object_error.splits)
  have "reading ?M ?L r w0"
    using acct_cached_reader(1,2) [OF a op] cached_reader_copied [OF a op] by (simp add: reading_def)
  from download_after_open [OF op this assms(2)] show ?thesis by (simp add: run_ok_def)
qed

text \<open>
  C5. A backup is handed over only after verification, and what is handed over is what was
  verified: when downloading succeeds, the file at the returned path holds bytes that carry an
  accepted signature, or, if signing is not mandatory, whose digest is the stored one; the
  report says that the backup is intact, and the returned guard keeps the file alive.
\<close>

theorem download_verified:
  assumes "run_ok \<lparr>run_cache = w, run_readers = rs, run_held = hs, run_leaked = ls\<rparr>"
    and "download_backup_and_check_integrity V S s oid time_of rep w = (Ret (Ok path), rep', w')"
  shows "is_intact rep' \<and> run_ok \<lparr>run_cache = w', run_readers = rs, run_held = path # hs, run_leaked = ls\<rparr> \<and>
    (\<exists>d. fs_abs (cache_files w') path = Some d \<and>
       (signature_verified V oid time_of d \<or> \<not> v_mandatory V \<and>
          (checksum_matches ''blake3'' 32 (v_blake3 V) V oid d \<or>
           checksum_matches ''sha256'' 32 (v_sha256 V) V oid d)))"
  using download_Ok [OF assms] by (simp add: verified_def)

text \<open>
  C6. With mandatory signing, nothing is handed over without an accepted signature: checksums
  alone never suffice.
\<close>

theorem mandatory_signing_enforced:
  assumes "run_ok \<lparr>run_cache = w, run_readers = rs, run_held = hs, run_leaked = ls\<rparr>" "v_mandatory V"
    and "download_backup_and_check_integrity V S s oid time_of rep w = (Ret (Ok path), rep', w')"
  shows "\<exists>d. fs_abs (cache_files w') path = Some d \<and> signature_verified V oid time_of d"
  using download_Ok [OF assms(1,3)] assms(2) by (auto simp: verified_def)

text \<open>A verifier over a directory of checks: the key of the signature is not known.\<close>

definition example_checks :: fs_dir where
  "example_checks = \<lparr>files = [(''a.sig'', ''s''), (''a.blake3'', replicate 32 CHR ''1'')], faults = no_faults\<rparr>"

definition example_hash :: "bytes \<Rightarrow> bytes" where
  "example_hash d = replicate 32 (if d = ''1'' then CHR ''1'' else CHR ''0'')"

definition example_verifier :: "bool \<Rightarrow> sig_result list \<Rightarrow> (fs_dir, string, unit, unit, unit) verifier" where
  "example_verifier mandatory results = \<lparr>v_check_store = example_store, v_checks = example_checks, v_max_cache = None,
     v_pgp_lib = \<lparr>detached_new = (\<lambda>_ _ _ _. Ok ()), detached_structure = (\<lambda>_ _. Ok [SignatureGroup results])\<rparr>,
     v_pgp = Some \<lparr>pvc_certs = [()], pvc_policy = ()\<rparr>, v_mandatory = mandatory,
     v_blake3 = example_hash, v_sha256 = example_hash\<rparr>"

definition example_time :: utc_datetime where
  "example_time = created_at example_id"

definition faulty_dir :: fs_dir where
  "faulty_dir = example_dir\<lparr>faults := no_faults\<lparr>io_fails := (\<lambda>n. n = ''a'')\<rparr>\<rparr>"

definition example_download where
  "example_download V d w =
     download_backup_and_check_integrity V example_store d ''a'' example_time verification_report_default w"

lemmas download_eval =
  example_download_def example_verifier_def example_checks_def example_hash_def run_init_def
  download_backup_and_check_integrity_def cached_reader_def open_cached_def example_store_def
  fs_object_store_def fs_reader_def fs_metadata_def stat_len_def fs_write_all_def example_dir_def
  no_faults_def starts_with_def clone_guard_def pgp_sig_block_def pgp_verify_def pgp_verifier_new_def
  verify_reader_def checksum_block_def blake3_check_def sha256_check_def return_err_def
  reader_if_not_too_large_def MAX_PGP_SIGNATURE_LENGTH_def io_copy.simps saturating_add_def
  persist_cache_def persist_cache_and_rewind_def cache_object_def push_entry_def drop_guard_def
  pgp_report_default_def push_known_def reject_def verification_report_default_def Let_def

lemma example_download_ok:
  "fst (example_download (example_verifier False [MissingKey]) example_dir (run_cache run_init)) = Ret (Ok ''a'')"
  by (simp add: download_eval)

lemma example_download_signed:
  "fst (example_download (example_verifier True [GoodChecksum ''c'' ''k'']) example_dir (run_cache run_init)) = Ret (Ok ''a'')"
  by (simp add: download_eval)

lemma run_init_ok: "run_ok \<lparr>run_cache = run_cache run_init, run_readers = [], run_held = [], run_leaked = []\<rparr>"
  using cache_reach_run_ok [OF reach_init] by (simp add: run_init_def)

lemma example_download_split:
  "fst (example_download V d w) = Ret (Ok p) \<Longrightarrow>
   download_backup_and_check_integrity V example_store d ''a'' example_time verification_report_default w =
     (Ret (Ok p), fst (snd (example_download V d w)), snd (snd (example_download V d w)))"
  by (simp add: example_download_def prod_eq_iff)

theorem download_verified_witness:
  "let V = example_verifier False [MissingKey]; (res, rep, w) = example_download V example_dir (run_cache run_init)
   in res = Ret (Ok ''a'') \<and> is_intact rep \<and>
    run_ok \<lparr>run_cache = w, run_readers = [], run_held = [''a''], run_leaked = []\<rparr> \<and>
    (\<exists>d. fs_abs (cache_files w) ''a'' = Some d \<and>
       (signature_verified V ''a'' example_time d \<or>
        checksum_matches ''blake3'' 32 example_hash V ''a'' d \<or>
        checksum_matches ''sha256'' 32 example_hash V ''a'' d))"
proof -
  let ?V = "example_verifier False [MissingKey]"
  have "v_blake3 ?V = example_hash" "v_sha256 ?V = example_hash" by (simp_all add: example_verifier_def)
  then show ?thesis
    using download_verified [OF run_init_ok example_download_split [OF example_download_ok]] example_download_ok
    by (auto simp: Let_def split: prod.splits)
qed

theorem mandatory_signing_enforced_witness:
  "let V = example_verifier True [GoodChecksum ''c'' ''k''];
       (res, rep, w) = example_download V example_dir (run_cache run_init)
   in res = Ret (Ok ''a'') \<and>
     (\<exists>d. fs_abs (cache_files w) ''a'' = Some d \<and> signature_verified V ''a'' example_time d)"
proof -
  let ?V = "example_verifier True [GoodChecksum ''c'' ''k'']"
  have "v_mandatory ?V" by (simp add: example_verifier_def)
  from mandatory_signing_enforced [OF run_init_ok this example_download_split [OF example_download_signed]]
  show ?thesis using example_download_signed by (auto simp: Let_def split: prod.splits)
qed

text \<open>
  A download that fails gives back everything it took: the guards held are those held
  before, and the only file it may leave without a guard is that of a reader that could not be
  opened.
\<close>

theorem download_failure_releases:
  assumes "run_ok \<lparr>run_cache = w, run_readers = rs, run_held = hs, run_leaked = ls\<rparr>"
    and "download_backup_and_check_integrity V S s oid time_of rep w = (res, rep', w')" "\<nexists>path. res = Ret (Ok path)"
  shows "\<exists>ls'. set ls' \<subseteq> insert oid (set ls) \<and>
    run_ok \<lparr>run_cache = w', run_readers = rs, run_held = hs, run_leaked = ls'\<rparr>"
proof -
  let ?M = "mset (map cr_path rs) + mset hs"
  have a: "acct (paths (entries (cache w)) + ?M) (set ls) w" using assms(1) by (simp add: run_ok_def)
  obtain res0 w0 where op: "cached_reader S s oid w = (res0, w0)" by (metis surj_pair)
  show ?thesis
  proof (cases "\<exists>r. res0 = Ret (Ok r)")
    case True
    then obtain r where r: "cached_reader S s oid w = (Ret (Ok r), w0)" using op by blast
    have "reading ?M (set ls) r w0"
      using acct_cached_reader(1,2) [OF a r] cached_reader_copied [OF a r] by (simp add: reading_def)
    from download_after_open [OF r this assms(2)] assms(3)
    have "run_ok \<lparr>run_cache = w', run_readers = rs, run_held = hs, run_leaked = ls\<rparr>"
      by (cases res; cases "the_ret res") (auto simp: run_ok_def)
    then show ?thesis by blast
  next
    case False
    have "w' = w0"
      using assms(2) op False by (auto simp: download_backup_and_check_integrity_def
          split: run.splits sum.splits read_object_error.splits)
    moreover have "run_ok \<lparr>run_cache = w0, run_readers = rs, run_held = hs,
        run_leaked = (if w0 = w then ls else oid # ls)\<rparr>"
      using acct_cached_reader(1,3) [OF a op] False by (cases "w0 = w") (simp_all add: run_ok_def)
    ultimately show ?thesis by (intro exI [of _ "if w0 = w then ls else oid # ls"]) auto
  qed
qed

theorem download_failure_releases_witness:
  "\<exists>ls'. set ls' \<subseteq> {''a''} \<and>
    run_ok \<lparr>run_cache = snd (snd (example_download (example_verifier True [MissingKey]) example_dir (run_cache run_init))),
      run_readers = [], run_held = [], run_leaked = ls'\<rparr>"
proof -
  let ?d = "example_download (example_verifier True [MissingKey]) example_dir (run_cache run_init)"
  have "fst ?d = Ret (Err BackupNotSigned)" by (simp add: download_eval)
  then have "download_backup_and_check_integrity (example_verifier True [MissingKey]) example_store example_dir ''a''
      example_time verification_report_default (run_cache run_init) =
      (Ret (Err BackupNotSigned), fst (snd ?d), snd (snd ?d))"
    by (simp add: example_download_def prod_eq_iff)
  from download_failure_releases [OF run_init_ok this] show ?thesis by auto
qed

section \<open>The signature check\<close>

lemma check_results_errors:
  "snd (check_results rs rep errs) = errs @ filter (\<lambda>r. \<nexists>c k. r = GoodChecksum c k) rs"
  by (induction rs arbitrary: rep errs) (auto split: sig_result.splits)

text \<open>
  C7. The signature check accepts exactly a structure without layers, or with one signature
  group all of whose signatures are good: one bad signature among several is enough to refuse,
  and an empty group (or an empty structure) is accepted.
\<close>

theorem pgp_check_accepts_iff:
  "fst (pgp_check 0 layers rep) = Ok () \<longleftrightarrow>
     layers = [] \<or> (\<exists>rs. layers = [SignatureGroup rs] \<and> (\<forall>r \<in> set rs. \<exists>c k. r = GoodChecksum c k))"
proof (cases layers)
  case (Cons l ls)
  show ?thesis
  proof (cases l)
    case (SignatureGroup rs)
    obtain rep' errs where c: "check_results rs rep [] = (rep', errs)" by (metis surj_pair)
    have errs: "errs = [] \<longleftrightarrow> (\<forall>r \<in> set rs. \<exists>c k. r = GoodChecksum c k)"
      using check_results_errors [of rs rep "[]"] c by (auto simp: filter_empty_conv)
    have "fst (pgp_check (Suc 0) ls rep') = Ok () \<longleftrightarrow> ls = []"
      by (cases "(Suc 0, ls, rep')" rule: pgp_check.cases) auto
    with c errs show ?thesis unfolding Cons SignatureGroup by (auto simp: Let_def)
  qed (simp_all add: Cons)
qed simp

theorem pgp_check_accepts_iff_witness:
  "fst (pgp_check 0 [SignatureGroup []] pgp_report_default) = Ok ()"
  using pgp_check_accepts_iff [of "[SignatureGroup []]" pgp_report_default] by simp

text \<open>
  A read error during the signature check poisons the cache: the truncated copy is put in
  the cache as the backup, the check falls back to the checksum and fails, and a second
  download, from a store that now delivers the intact backup, reads the truncated copy and
  fails again, although the same download succeeds with a fresh cache.
\<close>

theorem truncated_copy_stays_cached:
  "let V = example_verifier False [MissingKey];
       (r1, _, w1) = example_download V faulty_dir (run_cache run_init);
       (r2, _, w2) = example_download V example_dir w1
   in r1 = Ret (Err (InvalidChecksum [''Invalid checksum (verify)''])) \<and>
      map ce_key (entries (cache w1)) = [''a''] \<and>
      r2 = Ret (Err (InvalidChecksum [''Invalid checksum (verify)''])) \<and>
      fst (example_download V example_dir (run_cache run_init)) = Ret (Ok ''a'')"
  by (simp add: download_eval faulty_dir_def)

end
