(* ===== verification/Path_Mapping.thy ===== *)
theory Path_Mapping
  imports Prelude
begin

text \<open>
  The path computations of \<^verbatim>\<open>api/crates/backup/src/restoration.rs\<close>: which migrations apply
  (\<open>filter_migrations\<close>), how they are merged (\<open>flatten\<close>) and where an archive entry goes
  (\<open>map_path\<close>).  Archive paths are byte strings; a destination (\<open>PathBuf\<close>) is the list of its
  components.
\<close>

section \<open>Definitions\<close>

type_synonym path = "string list"

record archive_migration =
  mig_version :: u8
  migrate_paths :: "(string \<times> string) list"

definition filter_migrations :: "archive_migration list \<Rightarrow> u8 \<Rightarrow> u8 \<Rightarrow> archive_migration list" where
  "filter_migrations migrations from to =
     takeWhile (\<lambda>m. mig_version m \<le> to) (dropWhile (\<lambda>m. mig_version m \<le> from) migrations)"

text \<open>How a path relates to a prefix (without its last \<open>/\<close>).\<close>

datatype prefix_match = NoMatch | Exact | Proper string

definition strip_slash :: "string \<Rightarrow> string" where
  "strip_slash p = (if ends_with p ''/'' then butlast p else p)"

definition match_prefix :: "string \<Rightarrow> string \<Rightarrow> prefix_match" where
  "match_prefix from p =
     (case strip_prefix (strip_slash from) p of
        None \<Rightarrow> NoMatch
      | Some suffix \<Rightarrow>
          if suffix = [] \<or> suffix = ''/'' then Exact
          else if starts_with suffix ''/'' then Proper suffix
          else NoMatch)"

definition concat_osstr :: "string \<Rightarrow> string \<Rightarrow> string" where
  "concat_osstr a b = a @ b"

definition concat_byte_slices :: "bytes \<Rightarrow> bytes \<Rightarrow> bytes" where
  "concat_byte_slices a b = a @ b"

text \<open>The inner loop of \<open>flatten\<close>: the updated list, and whether to insert the new mapping.\<close>

fun flatten_update :: "string \<Rightarrow> string \<Rightarrow> (string \<times> string) list \<Rightarrow> (string \<times> string) list \<times> bool" where
  "flatten_update new_from new_to [] = ([], True)"
| "flatten_update new_from new_to ((from, to) # flat) =
     (case match_prefix new_from to of
        Exact \<Rightarrow> ((from, new_to) # flat, False)
      | Proper suffix \<Rightarrow> ((from, concat_osstr new_to suffix) # flat, True)
      | NoMatch \<Rightarrow> (let (flat', ins) = flatten_update new_from new_to flat in ((from, to) # flat', ins)))"

fun flatten_loop :: "(string \<times> string) list \<Rightarrow> (string \<times> string) list \<Rightarrow> (string \<times> string) list" where
  "flatten_loop [] flat = flat"
| "flatten_loop ((new_from, new_to) # migrations) flat =
     (let (flat', need_insert) = flatten_update new_from new_to flat
      in flatten_loop migrations (if need_insert then flat' @ [(new_from, new_to)] else flat'))"

text \<open>The stable sort by decreasing length of the prefix.\<close>

definition sort_longest_first :: "(string \<times> 'a) list \<Rightarrow> (string \<times> 'a) list" where
  "sort_longest_first xs = sort_key (\<lambda>(prfx, _). - int (length prfx)) xs"

definition flatten :: "(string \<times> string) list \<Rightarrow> (string \<times> string) list" where
  "flatten migrations = sort_longest_first (flatten_loop migrations [])"

text \<open>\<open>map_path\<close>: first the migrations, then the mappings; in both the first match wins.\<close>

fun apply_migrations :: "(string \<times> string) list \<Rightarrow> bytes \<Rightarrow> bytes" where
  "apply_migrations [] new_path = new_path"
| "apply_migrations ((from, to) # migrations) new_path =
     (case match_prefix from new_path of
        Exact \<Rightarrow> to
      | Proper suffix \<Rightarrow> concat_byte_slices to suffix
      | NoMatch \<Rightarrow> apply_migrations migrations new_path)"

fun find_destination :: "(string \<times> path) list \<Rightarrow> bytes \<Rightarrow> (bytes \<times> path option) run" where
  "find_destination [] new_path = Ret (new_path, None)"
| "find_destination ((from, to) # path_mappings) new_path =
     (case match_prefix from new_path of
        Exact \<Rightarrow> if to = [] then Panic else Ret (last to, Some (butlast to))
      | Proper suffix \<Rightarrow> Ret (drop 1 suffix, Some to)
      | NoMatch \<Rightarrow> find_destination path_mappings new_path)"

definition map_path :: "bytes \<Rightarrow> (string \<times> string) list \<Rightarrow> (string \<times> path) list \<Rightarrow> (bytes \<times> path option) run" where
  "map_path original_path migrations path_mappings =
     find_destination path_mappings (apply_migrations migrations original_path)"

section \<open>Lemmas\<close>

lemma match_prefix_Proper:
  "match_prefix from p = Proper suffix \<Longrightarrow> p = strip_slash from @ suffix \<and> starts_with suffix ''/''"
  by (auto simp: match_prefix_def strip_prefix_eq_Some split: option.splits if_splits)

lemma strip_prefix_self [simp]: "strip_prefix p p = Some []"
  using strip_prefix_append [of p "[]"] by simp

lemma match_prefix_Exact:
  "match_prefix from p = Exact \<longleftrightarrow> p = strip_slash from \<or> p = strip_slash from @ ''/''"
  by (auto simp: match_prefix_def strip_prefix_eq_Some split: option.splits)

lemma sorted_longest: "sorted_wrt (\<lambda>(p, _) (q, _). length q \<le> length p) (sort_longest_first xs)"
  using sorted_sort_key [of "\<lambda>(prfx, _). - int (length prfx)" xs]
  by (auto simp: sort_longest_first_def sorted_map case_prod_beta intro: sorted_wrt_mono_rel [rotated])

lemma set_sort_longest [simp]: "set (sort_longest_first xs) = set xs"
  by (simp add: sort_longest_first_def)

section \<open>Properties\<close>

text \<open>
  With migrations sorted by version, exactly the migrations after the version of the
  backup and up to the target version are selected, in order.
\<close>

theorem filter_migrations_range:
  assumes "sorted (map mig_version migrations)"
  shows "filter_migrations migrations from to =
    filter (\<lambda>m. from < mig_version m \<and> mig_version m \<le> to) migrations"
proof -
  have drop: "dropWhile (\<lambda>m. mig_version m \<le> from) ms = filter (\<lambda>m. from < mig_version m) ms"
    if "sorted (map mig_version ms)" for ms
    using that
  proof (induction ms)
    case (Cons m ms)
    have "filter (\<lambda>m. from < mig_version m) ms = ms" if "from < mig_version m"
      using Cons.prems that by (auto simp: filter_id_conv intro: order.strict_trans2)
    with Cons show ?case by (auto simp: not_le)
  qed simp
  have take: "takeWhile (\<lambda>m. mig_version m \<le> to) ms = filter (\<lambda>m. mig_version m \<le> to) ms"
    if "sorted (map mig_version ms)" for ms
    using that
  proof (induction ms)
    case (Cons m ms)
    have "filter (\<lambda>m. mig_version m \<le> to) ms = []" if "to < mig_version m"
      using Cons.prems that by (auto simp: filter_empty_conv)
    with Cons show ?case by (auto simp: not_le)
  qed simp
  have "sorted (map mig_version (filter (\<lambda>m. from < mig_version m) migrations))"
    using assms by (simp add: sorted_filter)
  then show ?thesis
    unfolding filter_migrations_def drop [OF assms] by (subst take) (simp_all add: conj_commute)
qed

theorem filter_migrations_range_witness:
  "filter_migrations (map (\<lambda>v. \<lparr>mig_version = v, migrate_paths = []\<rparr>) [2, 3, 4, 5]) 2 4 =
    filter (\<lambda>m. 2 < mig_version m \<and> mig_version m \<le> 4)
      (map (\<lambda>v. \<lparr>mig_version = v, migrate_paths = []\<rparr>) [2, 3, 4, 5])"
  by (rule filter_migrations_range) simp

text \<open>
  C18. With the mappings sorted longest prefix first, an entry goes to the most specific mapping:
  the chosen mapping matches the entry, the entry ends up exactly at the mapping's target or
  below it, and no mapping with a longer prefix matches.
\<close>

theorem map_path_most_specific:
  assumes "map_path p migrations (sort_longest_first maps) = Ret (q, Some dst)"
  shows "\<exists>from to. (from, to) \<in> set maps \<and>
    (match_prefix from (apply_migrations migrations p) = Exact \<and> dst @ [q] = to \<or>
     match_prefix from (apply_migrations migrations p) = Proper (''/'' @ q) \<and> dst = to) \<and>
    (\<forall>(from', to') \<in> set maps. match_prefix from' (apply_migrations migrations p) \<noteq> NoMatch \<longrightarrow>
       length from' \<le> length from)"
proof -
  let ?n = "apply_migrations migrations p"
  have "\<exists>from to. (from, to) \<in> set ms \<and>
      (match_prefix from ?n = Exact \<and> dst @ [q] = to \<or> match_prefix from ?n = Proper (''/'' @ q) \<and> dst = to) \<and>
      (\<forall>(from', to') \<in> set ms. match_prefix from' ?n \<noteq> NoMatch \<longrightarrow> length from' \<le> length from)"
    if "find_destination ms ?n = Ret (q, Some dst)"
      "sorted_wrt (\<lambda>(p, _) (q, _). length q \<le> length p) ms" for ms :: "(string \<times> path) list"
    using that
  proof (induction ms)
    case (Cons m ms)
    obtain fm tg where m: "m = (fm, tg)" by (cases m)
    have le: "\<forall>(from', to') \<in> set ms. length from' \<le> length fm" using Cons.prems(2) m by auto
    show ?case
    proof (cases "match_prefix fm ?n")
      case NoMatch
      with Cons.prems m have "find_destination ms ?n = Ret (q, Some dst)"
        "sorted_wrt (\<lambda>(p, _) (q, _). length q \<le> length p) ms" by simp_all
      from Cons.IH [OF this] obtain f2 t2 where f2: "(f2, t2) \<in> set ms"
        "match_prefix f2 ?n = Exact \<and> dst @ [q] = t2 \<or> match_prefix f2 ?n = Proper (''/'' @ q) \<and> dst = t2"
        "\<forall>(f', t') \<in> set ms. match_prefix f' ?n \<noteq> NoMatch \<longrightarrow> length f' \<le> length f2" by blast
      with NoMatch m show ?thesis by (intro exI [of _ f2] exI [of _ t2]) simp
    next
      case Exact
      with Cons.prems(1) m have "dst @ [q] = tg" by (auto split: if_splits)
      with Exact m le show ?thesis by (intro exI [of _ fm] exI [of _ tg]) auto
    next
      case (Proper suffix)
      with Cons.prems(1) m have "q = drop 1 suffix" "dst = tg" by auto
      moreover have "suffix = ''/'' @ drop 1 suffix"
        using match_prefix_Proper [OF Proper] by (cases suffix) (auto simp: starts_with_iff)
      ultimately show ?thesis using Proper m le by (intro exI [of _ fm] exI [of _ tg]) auto
    qed
  qed simp
  from this [of "sort_longest_first maps"] show ?thesis
    using assms sorted_longest [of maps] by (simp add: map_path_def)
qed

definition example_maps :: "(string \<times> path) list" where
  "example_maps = [(''foo/'', [''var'', ''lib'', ''foo'']), (''foo/a'', [''mnt'', ''a''])]"

theorem map_path_most_specific_witness:
  "\<exists>from to. (from, to) \<in> set example_maps \<and>
    (match_prefix from ''foo/a/x'' = Exact \<and> [''mnt'', ''a''] @ [''x''] = to \<or>
     match_prefix from ''foo/a/x'' = Proper (''/'' @ ''x'') \<and> [''mnt'', ''a''] = to) \<and>
    (\<forall>(from', to') \<in> set example_maps. match_prefix from' ''foo/a/x'' \<noteq> NoMatch \<longrightarrow>
       length from' \<le> length from)"
proof -
  have "map_path ''foo/a/x'' [] (sort_longest_first example_maps) = Ret (''x'', Some [''mnt'', ''a''])"
    by code_simp
  from map_path_most_specific [OF this] show ?thesis by simp
qed

text \<open>
  Merging migrations loses a rename below a renamed directory: moving \<open>a\<close> to \<open>b\<close> in one
  version and \<open>b/x\<close> to \<open>c\<close> in the next sends \<open>a/x/f\<close> to \<open>c/f\<close>, but the merged migrations send
  it to \<open>b/x/f\<close>.
\<close>

theorem flatten_loses_nested_rename:
  "apply_migrations [(''b/x'', ''c'')] (apply_migrations [(''a'', ''b'')] ''a/x/f'') = ''c/f'' \<and>
   apply_migrations (flatten [(''a'', ''b''), (''b/x'', ''c'')]) ''a/x/f'' = ''b/x/f''"
  by code_simp

lemma match_prefix_append:
  assumes "\<not> ends_with b ''/''"
  shows "match_prefix b b = Exact"
    "starts_with s ''/'' \<Longrightarrow> match_prefix b (b @ s) = (if s = ''/'' then Exact else Proper s)"
  using assms by (auto simp: match_prefix_def strip_slash_def starts_with_def)

text \<open>
  Merging two successive renames of one directory is their composition on everything in
  that directory.
\<close>

theorem flatten_chain:
  assumes "\<not> ends_with b ''/''" "match_prefix a p \<noteq> NoMatch"
  shows "apply_migrations (flatten [(a, b), (b, c)]) p =
    apply_migrations [(b, c)] (apply_migrations [(a, b)] p)"
proof -
  have flat: "flatten [(a, b), (b, c)] = [(a, c)]"
    using match_prefix_append [OF assms(1)] by (simp add: flatten_def sort_longest_first_def)
  show ?thesis
  proof (cases "match_prefix a p")
    case (Proper s)
    then have "s \<noteq> ''/''" "starts_with s ''/''"
      using match_prefix_Proper [OF Proper] by (auto simp: match_prefix_def split: option.splits if_splits)
    with Proper show ?thesis
      using match_prefix_append(2) [OF assms(1), of s] by (simp add: flat concat_byte_slices_def)
  qed (use assms(2) match_prefix_append(1) [OF assms(1)] in \<open>simp_all add: flat\<close>)
qed

theorem flatten_chain_witness:
  "apply_migrations (flatten [(''a'', ''b''), (''b'', ''c'')]) ''a/x'' =
    apply_migrations [(''b'', ''c'')] (apply_migrations [(''a'', ''b'')] ''a/x'')"
  by (rule flatten_chain) (simp_all add: ends_with_def starts_with_def match_prefix_def strip_slash_def)

end
