(* ===== verification/Layers.thy ===== *)
theory Layers
  imports Stats Backup_Id
begin

text \<open>
  The layers of a backup stream: \<^verbatim>\<open>compression.rs\<close>, \<^verbatim>\<open>hashing.rs\<close>,
  \<^verbatim>\<open>encryption.rs\<close>, \<^verbatim>\<open>signing.rs\<close>, \<^verbatim>\<open>decryption.rs\<close> and
  \<^verbatim>\<open>pgp.rs\<close> of \<^verbatim>\<open>api/crates/backup/src\<close>.  The libraries zstd, BLAKE3, SHA-2 and
  OpenPGP are parameters: an encoder is a state \<open>'z\<close> that turns chunks into output, a
  certificate is the list of its keys, with the flags the key iterators filter on.
\<close>

datatype cannot_archive = FailedComputingExpectedSize anyhow | MissingFile string

datatype create_backup_error =
    CannotCreateSink anyhow
  | CannotArchive cannot_archive
  | ArchivingFailed anyhow
  | CannotCompress anyhow
  | CompressionFailed anyhow
  | CannotEncrypt anyhow
  | EncryptionFailed anyhow
  | HashingFailed anyhow
  | CannotSign anyhow
  | SigningFailed anyhow
  | UploadFailed anyhow
  | IntegrityCheckUploadFailed anyhow
  | CreateOther anyhow

section \<open>Encoders\<close>

text \<open>
  A streaming encoder: creation (which may fail, and may emit a header), feeding a chunk,
  finishing.  The output goes to the inner writer.
\<close>

record 'z encoder =
  enc_step :: "'z \<Rightarrow> bytes \<Rightarrow> 'z \<times> bytes"
  enc_finish :: "'z \<Rightarrow> anyhow + bytes"

text \<open>Writing a chunk through an encoder into the inner writer.\<close>

definition encoder_write ::
  "'z encoder \<Rightarrow> ('w, 's) write_ops \<Rightarrow> bytes \<Rightarrow> 'z \<times> 'w \<Rightarrow> 's \<Rightarrow> (anyhow + nat) \<times> ('z \<times> 'w) \<times> 's" where
  "encoder_write E W buf zw s =
     (let (z', out) = enc_step E (fst zw) buf in
      case write_all W out (snd zw) s of
        (Inl e, w', s') \<Rightarrow> (Err e, (z', w'), s')
      | (Inr _, w', s') \<Rightarrow> (Ok (length buf), (z', w'), s'))"

definition encoder_flush ::
  "('w, 's) write_ops \<Rightarrow> 'z \<times> 'w \<Rightarrow> 's \<Rightarrow> (anyhow + unit) \<times> ('z \<times> 'w) \<times> 's" where
  "encoder_flush W zw s = (let (r, w', s') = wr_flush W (snd zw) s in (r, (fst zw, w'), s'))"

definition encoder_close ::
  "'z encoder \<Rightarrow> ('w, 's) write_ops \<Rightarrow> 'z \<times> 'w \<Rightarrow> 's \<Rightarrow> (anyhow + 'w) \<times> 's" where
  "encoder_close E W zw s =
     (case enc_finish E (fst zw) of
        Inl e \<Rightarrow> (Err e, s)
      | Inr out \<Rightarrow>
          (case write_all W out (snd zw) s of
             (Inl e, w', s') \<Rightarrow> (Err e, s')
           | (Inr _, w', s') \<Rightarrow> (Ok w', s')))"

section \<open>Compression\<close>

datatype compression_config = Zstd int | CompressionOff

datatype ('z, 'w) compression_writer = ZstdWriter "'z \<times> 'w" | OffWriter 'w

text \<open>\<open>zstd_new\<close>: \<open>zstd::Encoder::new\<close> at a compression level.\<close>

definition compress ::
  "(int \<Rightarrow> anyhow + 'z) \<Rightarrow> compression_config \<Rightarrow>
     ('w, ('z, 'w) compression_writer, create_backup_error, 's) composable_stream_builder" where
  "compress zstd_new config =
     \<lparr>csb_make = (\<lambda>writer s. case config of
        Zstd level \<Rightarrow>
          (case zstd_new level of
             Inr z \<Rightarrow> (Ok (ZstdWriter (z, writer)), s)
           | Inl e \<Rightarrow> (Err (CannotCompress (context_msg ''Could not build zstd encoder'' e)), s))
      | CompressionOff \<Rightarrow> (Ok (OffWriter writer), s))\<rparr>"

fun compression_write :: "'z encoder \<Rightarrow> ('w, 's) write_ops \<Rightarrow> bytes \<Rightarrow> ('z, 'w) compression_writer \<Rightarrow> 's \<Rightarrow>
    (anyhow + nat) \<times> ('z, 'w) compression_writer \<times> 's" where
  "compression_write E W buf (ZstdWriter zw) s =
     (let (r, zw', s') = encoder_write E W buf zw s in (r, ZstdWriter zw', s'))"
| "compression_write E W buf (OffWriter w) s =
     (let (r, w', s') = wr_write W buf w s in (r, OffWriter w', s'))"

fun compression_flush :: "('w, 's) write_ops \<Rightarrow> ('z, 'w) compression_writer \<Rightarrow> 's \<Rightarrow>
    (anyhow + unit) \<times> ('z, 'w) compression_writer \<times> 's" where
  "compression_flush W (ZstdWriter zw) s = (let (r, zw', s') = encoder_flush W zw s in (r, ZstdWriter zw', s'))"
| "compression_flush W (OffWriter w) s = (let (r, w', s') = wr_flush W w s in (r, OffWriter w', s'))"

definition compression_ops :: "'z encoder \<Rightarrow> ('w, 's) write_ops \<Rightarrow> (('z, 'w) compression_writer, 's) write_ops" where
  "compression_ops E W = \<lparr>wr_write = compression_write E W, wr_flush = compression_flush W\<rparr>"

fun compression_finalize :: "'z encoder \<Rightarrow> ('w, 's) write_ops \<Rightarrow> ('z, 'w) compression_writer \<Rightarrow> 's \<Rightarrow> (anyhow + 'w) \<times> 's" where
  "compression_finalize E W (ZstdWriter zw) s = encoder_close E W zw s"
| "compression_finalize E W (OffWriter w) s = (Ok w, s)"

section \<open>Hashing\<close>

datatype hashing_algorithm = Blake3 | Sha256

text \<open>A hasher is what it has been fed.\<close>

datatype digest_writer = Blake3Writer bytes | Sha256Writer bytes

fun digest :: "hashing_algorithm \<Rightarrow> digest_writer" where
  "digest Blake3 = Blake3Writer []" | "digest Sha256 = Sha256Writer []"

fun digest_write :: "bytes \<Rightarrow> digest_writer \<Rightarrow> 's \<Rightarrow> (anyhow + nat) \<times> digest_writer \<times> 's" where
  "digest_write buf (Blake3Writer fed) s = (Ok (length buf), Blake3Writer (fed @ buf), s)"
| "digest_write buf (Sha256Writer fed) s = (Ok (length buf), Sha256Writer (fed @ buf), s)"

fun digest_flush :: "digest_writer \<Rightarrow> 's \<Rightarrow> (anyhow + unit) \<times> digest_writer \<times> 's" where
  "digest_flush w s = (Ok (), w, s)"

definition digest_ops :: "(digest_writer, 's) write_ops" where
  "digest_ops = \<lparr>wr_write = digest_write, wr_flush = digest_flush\<rparr>"

fun digest_finalize :: "(bytes \<Rightarrow> bytes) \<Rightarrow> (bytes \<Rightarrow> bytes) \<Rightarrow> digest_writer \<Rightarrow> bytes" where
  "digest_finalize blake3 sha256 (Blake3Writer fed) = blake3 fed"
| "digest_finalize blake3 sha256 (Sha256Writer fed) = sha256 fed"

text \<open>The hasher of an algorithm that has been fed \<open>xs\<close>.\<close>

fun digest_with :: "hashing_algorithm \<Rightarrow> bytes \<Rightarrow> digest_writer" where
  "digest_with Blake3 xs = Blake3Writer xs" | "digest_with Sha256 xs = Sha256Writer xs"

lemma digest_eq_with: "digest alg = digest_with alg []"
  by (cases alg) simp_all

interpretation dig: local_sink digest_ops "\<lambda>w xs. w = digest_with alg xs" for alg
proof
  fix w xs buf s n w' s' r
  show "w = digest_with alg xs \<Longrightarrow> wr_write digest_ops buf w s = (Ok n, w', s') \<Longrightarrow>
      n \<le> length buf \<and> w' = digest_with alg (xs @ take n buf)"
    by (cases alg) (auto simp: digest_ops_def)
  show "wr_write digest_ops buf w s = (r, w', s') \<Longrightarrow> s' = s"
    by (cases w) (auto simp: digest_ops_def)
qed

section \<open>Keys\<close>

text \<open>
  A key of a certificate, with what the iterators of \<open>sequoia_openpgp\<close> filter on at a given
  policy and time, and how its secret part opens: \<open>key_open p\<close> is the pair unlocked by the
  passphrase \<open>p\<close>, \<open>key_plain\<close> the pair of an unprotected key.
\<close>

record 'kp pgp_key =
  key_fingerprint :: string
  key_handle :: string
  key_valid :: "utc_datetime \<Rightarrow> bool"
  key_supported :: bool
  key_alive :: "utc_datetime \<Rightarrow> bool"
  key_revoked :: "utc_datetime \<Rightarrow> bool"
  key_for_signing :: bool
  key_for_storage_encryption :: bool
  key_secret :: bool
  key_encrypted :: bool
  key_plain :: "anyhow + 'kp"
  key_open :: "string \<Rightarrow> anyhow + (anyhow + 'kp)"

record 'kp pgp_cert =
  cert_fpr :: string
  cert_is_tsk :: bool
  cert_keys :: "'kp pgp_key list"

text \<open>\<open>keys().with_policy(policy, time).supported().alive().revoked(false)\<close>.\<close>

definition usable_keys :: "utc_datetime \<Rightarrow> 'kp pgp_cert \<Rightarrow> 'kp pgp_key list" where
  "usable_keys time cert =
     filter (\<lambda>k. key_valid k time \<and> key_supported k \<and> key_alive k time \<and> \<not> key_revoked k time) (cert_keys cert)"

subsection \<open>Encryption\<close>

text \<open>The recipients of \<open>encryption::pgp::encrypt\<close>.\<close>

definition encryption_recipients :: "utc_datetime \<Rightarrow> 'kp pgp_cert list \<Rightarrow> ('kp pgp_key \<times> 'kp pgp_cert) list" where
  "encryption_recipients time certs =
     concat (map (\<lambda>cert. map (\<lambda>k. (k, cert)) (filter key_for_storage_encryption (usable_keys time cert))) certs)"

text \<open>
  \<open>encryptor_new\<close>: \<open>Encryptor::for_recipients(..).build()\<close> and \<open>LiteralWriter\<close>, for the selected
  keys; it emits the packet headers.
\<close>

definition pgp_encrypt ::
  "('kp pgp_key list \<Rightarrow> anyhow + 'e \<times> bytes) \<Rightarrow> ('w, 's) write_ops \<Rightarrow> 'kp pgp_cert list \<Rightarrow> utc_datetime \<Rightarrow>
     'w \<Rightarrow> 's \<Rightarrow> (anyhow + 'e \<times> 'w) \<times> 's" where
  "pgp_encrypt encryptor_new W recipient_certs time writer s =
     (let recipients = encryption_recipients time recipient_certs in
      if recipients = [] then (Err [''No valid encryption key.''], s)
      else (case encryptor_new (map fst recipients) of
              Inl e \<Rightarrow> (Err e, s)
            | Inr (e, header) \<Rightarrow>
                (case write_all W header writer s of
                   (Inl err, _, s') \<Rightarrow> (Err err, s')
                 | (Inr _, w', s') \<Rightarrow> (Ok (e, w'), s'))))"

definition encrypt ::
  "('kp pgp_key list \<Rightarrow> anyhow + 'e \<times> bytes) \<Rightarrow> ('w, 's) write_ops \<Rightarrow> 'kp pgp_cert list \<Rightarrow> utc_datetime \<Rightarrow>
     ('w, 'e \<times> 'w, create_backup_error, 's) composable_stream_builder" where
  "encrypt encryptor_new W recipients time =
     \<lparr>csb_make = (\<lambda>writer s. let (r, s') = pgp_encrypt encryptor_new W recipients time writer s
                  in (map_err CannotEncrypt r, s'))\<rparr>"

definition encryption_ops :: "'e encoder \<Rightarrow> ('w, 's) write_ops \<Rightarrow> ('e \<times> 'w, 's) write_ops" where
  "encryption_ops E W = \<lparr>wr_write = encoder_write E W, wr_flush = encoder_flush W\<rparr>"

text \<open>\<open>EncryptionWriter::into_inner\<close>.\<close>

definition encryption_into_inner :: "'e encoder \<Rightarrow> ('w, 's) write_ops \<Rightarrow> 'e \<times> 'w \<Rightarrow> 's \<Rightarrow> (anyhow + 'w) \<times> 's" where
  "encryption_into_inner E W ew s = encoder_close E W ew s"

subsection \<open>Signing\<close>

record 'kp pgp_signing_context =
  psc_tsk :: "'kp pgp_cert"
  psc_passphrases :: "string \<rightharpoonup> string"

text \<open>The first of two fingerprints with a passphrase that unlocks the key.\<close>

fun try_passphrases :: "(string \<rightharpoonup> string) \<Rightarrow> 'kp pgp_key \<Rightarrow> string list \<Rightarrow> (anyhow + 'kp) option" where
  "try_passphrases passphrases key [] = None"
| "try_passphrases passphrases key (fingerprint # fps) =
     (case passphrases fingerprint of
        None \<Rightarrow> try_passphrases passphrases key fps
      | Some passphrase \<Rightarrow>
          (case key_open key passphrase of
             Inl e \<Rightarrow> try_passphrases passphrases key fps
           | Inr keypair \<Rightarrow> Some keypair))"

text \<open>The loop \<open>'for_ka\<close> of \<open>PgpSigningContext::new_writer\<close>: the key pair to sign with.\<close>

fun signing_keypair :: "(string \<rightharpoonup> string) \<Rightarrow> string \<Rightarrow> 'kp pgp_key list \<Rightarrow> anyhow + 'kp" where
  "signing_keypair passphrases cert [] = Err [''No signing-capable secret key material'']"
| "signing_keypair passphrases cert (ka # kas) =
     (if key_encrypted ka
      then (case try_passphrases passphrases ka [key_fingerprint ka, cert] of
              Some keypair \<Rightarrow> keypair
            | None \<Rightarrow> signing_keypair passphrases cert kas)
      else key_plain ka)"

definition signing_keys :: "utc_datetime \<Rightarrow> 'kp pgp_cert \<Rightarrow> 'kp pgp_key list" where
  "signing_keys time cert = filter (\<lambda>k. key_for_signing k \<and> key_secret k) (usable_keys time cert)"

text \<open>\<open>signer_new\<close>: a detached \<open>Signer\<close> with a key pair and creation time; it has read nothing.\<close>

definition sign_new_writer ::
  "('kp \<Rightarrow> utc_datetime \<Rightarrow> anyhow + 'g) \<Rightarrow> 'kp pgp_signing_context \<Rightarrow> utc_datetime \<Rightarrow> anyhow + 'g" where
  "sign_new_writer signer_new ctx time =
     try_bind (signing_keypair (psc_passphrases ctx) (cert_fpr (psc_tsk ctx)) (signing_keys time (psc_tsk ctx)))
       (\<lambda>keypair. signer_new keypair time)"

text \<open>
  \<open>PgpSigner\<close>: the signer, what it has read, and the writer its signature goes to on
  \<open>finalize\<close>.  \<open>signature_of\<close> is the detached signature of some data.
\<close>

record 'g pgp_signer =
  sg_signer :: 'g
  sg_fed :: bytes
  sg_writer :: bytes

definition pgp_sign ::
  "('kp \<Rightarrow> utc_datetime \<Rightarrow> anyhow + 'g) \<Rightarrow> 'kp pgp_signing_context \<Rightarrow> utc_datetime \<Rightarrow>
     (bytes, 'g pgp_signer, create_backup_error, 's) composable_stream_builder" where
  "pgp_sign signer_new ctx time =
     \<lparr>csb_make = (\<lambda>writer s.
        (map_err (\<lambda>e. CannotSign (context_msg ''Failed building OpenPGP signer'' e))
           (try_bind (sign_new_writer signer_new ctx time)
              (\<lambda>g. Ok \<lparr>sg_signer = g, sg_fed = [], sg_writer = writer\<rparr>)), s))\<rparr>"

definition signer_ops :: "('g pgp_signer, 's) write_ops" where
  "signer_ops = \<lparr>wr_write = (\<lambda>buf g s. (Ok (length buf), g\<lparr>sg_fed := sg_fed g @ buf\<rparr>, s)),
     wr_flush = (\<lambda>g s. (Ok (), g, s))\<rparr>"

definition signer_finalize :: "('g \<Rightarrow> bytes \<Rightarrow> anyhow + bytes) \<Rightarrow> 'g pgp_signer \<Rightarrow> anyhow + bytes" where
  "signer_finalize signature_of g =
     try_bind (signature_of (sg_signer g) (sg_fed g)) (\<lambda>sig. Ok (sg_writer g @ sig))"

text \<open>A signer that started on an empty writer has been fed \<open>xs\<close>; \<open>P\<close> is what is known of it.\<close>

definition signer_rcv :: "('g \<Rightarrow> bool) \<Rightarrow> 'g pgp_signer \<Rightarrow> bytes \<Rightarrow> bool" where
  "signer_rcv P g xs \<longleftrightarrow> sg_fed g = xs \<and> sg_writer g = [] \<and> P (sg_signer g)"

interpretation sgn: optional_sink signer_ops "signer_rcv P" absent for P absent
  by unfold_locales (auto simp: signer_ops_def signer_rcv_def)

subsection \<open>Decryption\<close>

text \<open>\<open>lookup_secret_key\<close> of \<^verbatim>\<open>pgp.rs\<close>.\<close>

fun lookup_secret_key :: "string \<Rightarrow> 'kp pgp_cert list \<Rightarrow> utc_datetime \<Rightarrow> ('kp pgp_cert \<times> 'kp pgp_key) option" where
  "lookup_secret_key recipient [] time = None"
| "lookup_secret_key recipient (cert # tsks) time =
     (if \<not> cert_is_tsk cert then lookup_secret_key recipient tsks time
      else (case find (\<lambda>k. key_handle k = recipient)
               (filter (\<lambda>k. key_for_storage_encryption k \<and> key_secret k) (usable_keys time cert)) of
              Some k \<Rightarrow> Some (cert, k)
            | None \<Rightarrow> lookup_secret_key recipient tsks time))"

record 'kp pgp_decryption_context =
  pdc_tsks :: "'kp pgp_cert list"
  pdc_passphrases :: "string \<rightharpoonup> string"

text \<open>
  A \<open>PKESK\<close> packet: its recipient, if any, and whether a key pair yields the session key that
  decrypts the message (\<open>pkesk.decrypt\<close> then the \<open>decrypt\<close> callback).
\<close>

record 'kp pkesk =
  pk_recipient :: "string option"
  pk_decrypts :: "'kp \<Rightarrow> bool"

definition decrypt_candidates ::
  "'kp pgp_decryption_context \<Rightarrow> utc_datetime \<Rightarrow> 'kp pkesk list \<Rightarrow> ('kp pkesk \<times> 'kp pgp_cert \<times> 'kp pgp_key) list" where
  "decrypt_candidates ctx time pkesks =
     List.map_filter (\<lambda>pk. case pk_recipient pk of
        None \<Rightarrow> None
      | Some recipient \<Rightarrow>
          map_option (\<lambda>(cert, key). (pk, cert, key)) (lookup_secret_key recipient (pdc_tsks ctx) time)) pkesks"

text \<open>The first pass: unprotected keys; an error building a key pair ends the decryption.\<close>

fun decrypt_unprotected :: "('kp pkesk \<times> 'kp pgp_cert \<times> 'kp pgp_key) list \<Rightarrow> anyhow + (string \<times> string) option" where
  "decrypt_unprotected [] = Ok None"
| "decrypt_unprotected ((pk, cert, key) # rs) =
     (if key_encrypted key then decrypt_unprotected rs
      else try_bind (key_plain key) (\<lambda>keypair.
             if pk_decrypts pk keypair then Ok (Some (cert_fpr cert, key_fingerprint key))
             else decrypt_unprotected rs))"

text \<open>The second pass: protected keys, with the passphrase of the key, then of the certificate.\<close>

fun decrypt_with_passphrases :: "(string \<rightharpoonup> string) \<Rightarrow> 'kp pkesk \<Rightarrow> 'kp pgp_key \<Rightarrow> string list \<Rightarrow> bool" where
  "decrypt_with_passphrases passphrases pk key [] = False"
| "decrypt_with_passphrases passphrases pk key (fingerprint # fps) =
     (case passphrases fingerprint of
        None \<Rightarrow> decrypt_with_passphrases passphrases pk key fps
      | Some passphrase \<Rightarrow>
          (case key_open key passphrase of
             Inr (Inr keypair) \<Rightarrow> pk_decrypts pk keypair \<or> decrypt_with_passphrases passphrases pk key fps
           | _ \<Rightarrow> decrypt_with_passphrases passphrases pk key fps))"

fun decrypt_protected :: "(string \<rightharpoonup> string) \<Rightarrow> ('kp pkesk \<times> 'kp pgp_cert \<times> 'kp pgp_key) list \<Rightarrow> (string \<times> string) option" where
  "decrypt_protected passphrases [] = None"
| "decrypt_protected passphrases ((pk, cert, key) # rs) =
     (if key_encrypted key \<and> decrypt_with_passphrases passphrases pk key [key_fingerprint key, cert_fpr cert]
      then Some (cert_fpr cert, key_fingerprint key)
      else decrypt_protected passphrases rs)"

text \<open>\<open>PgpDecryptionHelper::decrypt\<close>: the certificate and key used, as reported.\<close>

definition pgp_decrypt ::
  "'kp pgp_decryption_context \<Rightarrow> utc_datetime \<Rightarrow> 'kp pkesk list \<Rightarrow> anyhow + string \<times> string" where
  "pgp_decrypt ctx time pkesks =
     (let recipients = decrypt_candidates ctx time pkesks in
      try_bind (decrypt_unprotected recipients) (\<lambda>used.
        case used of
          Some u \<Rightarrow> Ok u
        | None \<Rightarrow>
            (case decrypt_protected (pdc_passphrases ctx) recipients of
               Some u \<Rightarrow> Ok u
             | None \<Rightarrow> Err [''No matching key found when decrypting.''])))"

section \<open>Key selection\<close>

text \<open>A key may be used at a time: it satisfies the policy, is supported, alive, not revoked.\<close>

definition usable :: "utc_datetime \<Rightarrow> 'kp pgp_key \<Rightarrow> bool" where
  "usable time k \<longleftrightarrow> key_valid k time \<and> key_supported k \<and> key_alive k time \<and> \<not> key_revoked k time"

lemma set_usable_keys: "set (usable_keys time cert) = {k \<in> set (cert_keys cert). usable time k}"
  by (auto simp: usable_keys_def usable_def)

text \<open>The pair of a key: unprotected, or unlocked by a passphrase configured for one of \<open>fps\<close>.\<close>

definition keypair_of :: "(string \<rightharpoonup> string) \<Rightarrow> string list \<Rightarrow> 'kp pgp_key \<Rightarrow> 'kp \<Rightarrow> bool" where
  "keypair_of passphrases fps key kp \<longleftrightarrow>
     \<not> key_encrypted key \<and> key_plain key = Ok kp \<or>
     key_encrypted key \<and> (\<exists>f \<in> set fps. \<exists>p. passphrases f = Some p \<and> key_open key p = Ok (Ok kp))"

lemma lookup_secret_key_sound:
  "lookup_secret_key r tsks time = Some (cert, key) \<Longrightarrow>
   cert \<in> set tsks \<and> cert_is_tsk cert \<and> key \<in> set (cert_keys cert) \<and> usable time key \<and>
   key_for_storage_encryption key \<and> key_secret key \<and> key_handle key = r"
  by (induction tsks) (auto simp: find_Some_iff set_usable_keys split: if_splits option.splits
      dest!: nth_mem [of _ "filter _ _"])

lemma decrypt_with_passphrases_iff:
  "decrypt_with_passphrases ps pk key fps \<longleftrightarrow>
     (\<exists>f \<in> set fps. \<exists>p kp. ps f = Some p \<and> key_open key p = Ok (Ok kp) \<and> pk_decrypts pk kp)"
  by (induction fps) (auto split: option.splits sum.splits)

lemma decrypt_unprotected_sound:
  "decrypt_unprotected rs = Ok (Some u) \<Longrightarrow> \<exists>pk cert key kp. (pk, cert, key) \<in> set rs \<and>
     u = (cert_fpr cert, key_fingerprint key) \<and> \<not> key_encrypted key \<and> key_plain key = Ok kp \<and> pk_decrypts pk kp"
proof (induction rs)
  case (Cons r rs)
  obtain pk cert key where r: "r = (pk, cert, key)" by (cases r)
  from Cons.prems consider "decrypt_unprotected rs = Ok (Some u)"
    | kp where "\<not> key_encrypted key" "key_plain key = Ok kp" "pk_decrypts pk kp" "u = (cert_fpr cert, key_fingerprint key)"
    unfolding r by (auto simp: try_bind_eq_Ok split: if_splits)
  then show ?case
  proof cases
    case 1
    from Cons.IH [OF this] show ?thesis by fastforce
  next
    case 2
    then show ?thesis unfolding r by fastforce
  qed
qed simp

lemma decrypt_protected_sound:
  "decrypt_protected ps rs = Some u \<Longrightarrow> \<exists>pk cert key kp. (pk, cert, key) \<in> set rs \<and>
     u = (cert_fpr cert, key_fingerprint key) \<and> keypair_of ps [key_fingerprint key, cert_fpr cert] key kp \<and>
     pk_decrypts pk kp"
proof (induction rs)
  case (Cons r rs)
  obtain pk cert key where r: "r = (pk, cert, key)" by (cases r)
  show ?case
  proof (cases "key_encrypted key \<and> decrypt_with_passphrases ps pk key [key_fingerprint key, cert_fpr cert]")
    case True
    then obtain kp where "keypair_of ps [key_fingerprint key, cert_fpr cert] key kp" "pk_decrypts pk kp"
      by (auto simp: keypair_of_def decrypt_with_passphrases_iff)
    with True Cons.prems show ?thesis unfolding r by fastforce
  next
    case False
    with Cons.prems have "decrypt_protected ps rs = Some u" unfolding r by auto
    from Cons.IH [OF this] show ?thesis by fastforce
  qed
qed simp

lemma decrypt_candidates_sound:
  assumes "(pk, cert, key) \<in> set (decrypt_candidates ctx time pkesks)"
  shows "pk \<in> set pkesks \<and> pk_recipient pk = Some (key_handle key) \<and> cert \<in> set (pdc_tsks ctx) \<and>
    key \<in> set (cert_keys cert) \<and> usable time key \<and> key_for_storage_encryption key \<and> key_secret key"
proof -
  obtain r where "pk \<in> set pkesks" "pk_recipient pk = Some r"
    "lookup_secret_key r (pdc_tsks ctx) time = Some (cert, key)"
    using assms by (auto simp: decrypt_candidates_def map_filter_def split: option.splits)
  with lookup_secret_key_sound [OF this(3)] show ?thesis by auto
qed

text \<open>
  C15. A backup is decrypted only with a secret key of a configured certificate that is usable at
  the creation time of the backup, meant for storage encryption, named as a recipient of the
  message, and unprotected or unlocked by a configured passphrase; the report names that key.
\<close>

theorem pgp_decrypt_sound:
  assumes "pgp_decrypt ctx time pkesks = Ok (c, k)"
  shows "\<exists>pk cert key kp. pk \<in> set pkesks \<and> pk_recipient pk = Some (key_handle key) \<and>
    cert \<in> set (pdc_tsks ctx) \<and> key \<in> set (cert_keys cert) \<and> usable time key \<and>
    key_for_storage_encryption key \<and> key_secret key \<and> c = cert_fpr cert \<and> k = key_fingerprint key \<and>
    keypair_of (pdc_passphrases ctx) [key_fingerprint key, cert_fpr cert] key kp \<and> pk_decrypts pk kp"
proof -
  let ?rs = "decrypt_candidates ctx time pkesks"
  consider (plain) "decrypt_unprotected ?rs = Ok (Some (c, k))"
    | (locked) "decrypt_protected (pdc_passphrases ctx) ?rs = Some (c, k)"
    using assms by (auto simp: pgp_decrypt_def Let_def try_bind_eq_Ok split: option.splits)
  then have "\<exists>pk cert key kp. (pk, cert, key) \<in> set ?rs \<and> c = cert_fpr cert \<and> k = key_fingerprint key \<and>
      keypair_of (pdc_passphrases ctx) [key_fingerprint key, cert_fpr cert] key kp \<and> pk_decrypts pk kp"
  proof cases
    case plain
    from decrypt_unprotected_sound [OF this] show ?thesis by (auto simp: keypair_of_def)
  next
    case locked
    from decrypt_protected_sound [OF this] show ?thesis by auto
  qed
  then obtain pk cert key kp where "(pk, cert, key) \<in> set ?rs" "c = cert_fpr cert" "k = key_fingerprint key"
    "keypair_of (pdc_passphrases ctx) [key_fingerprint key, cert_fpr cert] key kp" "pk_decrypts pk kp" by blast
  with decrypt_candidates_sound [OF this(1)] show ?thesis by blast
qed

definition example_key :: "string \<Rightarrow> bool \<Rightarrow> string pgp_key" where
  "example_key f enc = \<lparr>key_fingerprint = f, key_handle = f, key_valid = (\<lambda>_. True), key_supported = True,
     key_alive = (\<lambda>_. True), key_revoked = (\<lambda>_. False), key_for_signing = True,
     key_for_storage_encryption = True, key_secret = True, key_encrypted = enc, key_plain = Ok f,
     key_open = (\<lambda>p. if p = ''pw'' then Ok (Ok f) else Err [])\<rparr>"

definition example_cert :: "string pgp_cert" where
  "example_cert = \<lparr>cert_fpr = ''C'', cert_is_tsk = True, cert_keys = [example_key ''k1'' True, example_key ''k2'' True]\<rparr>"

definition example_decryption :: "string pgp_decryption_context" where
  "example_decryption = \<lparr>pdc_tsks = [example_cert], pdc_passphrases = [''k1'' \<mapsto> ''bad'', ''C'' \<mapsto> ''pw'']\<rparr>"

definition example_pkesks :: "string pkesk list" where
  "example_pkesks = [\<lparr>pk_recipient = Some ''other'', pk_decrypts = (\<lambda>_. False)\<rparr>,
     \<lparr>pk_recipient = Some ''k2'', pk_decrypts = (\<lambda>kp. kp = ''k2'')\<rparr>]"

lemmas key_eval = pgp_decrypt_def decrypt_candidates_def map_filter_def usable_keys_def
  example_decryption_def example_pkesks_def example_cert_def example_key_def Let_def

theorem pgp_decrypt_sound_witness:
  "\<exists>pk cert key kp. pk \<in> set example_pkesks \<and> pk_recipient pk = Some (key_handle key) \<and>
    cert \<in> set (pdc_tsks example_decryption) \<and> key \<in> set (cert_keys cert) \<and> usable (created_at example_id) key \<and>
    key_for_storage_encryption key \<and> key_secret key \<and> ''C'' = cert_fpr cert \<and> ''k2'' = key_fingerprint key \<and>
    keypair_of (pdc_passphrases example_decryption) [key_fingerprint key, cert_fpr cert] key kp \<and> pk_decrypts pk kp"
  by (rule pgp_decrypt_sound) (simp add: key_eval)

text \<open>
  A new backup is encrypted for exactly the keys of the configured certificates that are
  usable at its creation time and meant for storage encryption; without any, encryption is
  refused and nothing is written.
\<close>

theorem pgp_encrypt_recipients:
  "set (map fst (encryption_recipients time certs)) =
     {k. \<exists>cert \<in> set certs. k \<in> set (cert_keys cert) \<and> usable time k \<and> key_for_storage_encryption k} \<and>
   (encryption_recipients time certs = [] \<longrightarrow>
      pgp_encrypt encryptor_new W certs time writer s = (Err [''No valid encryption key.''], s))"
  by (auto simp: encryption_recipients_def pgp_encrypt_def set_usable_keys) (force simp: image_iff set_usable_keys)

theorem pgp_encrypt_recipients_witness:
  "pgp_encrypt (\<lambda>_. Ok ((), [])) vec_ops [example_cert\<lparr>cert_keys := []\<rparr>] (created_at example_id) [] () =
     (Err [''No valid encryption key.''], ())"
  using pgp_encrypt_recipients [of "created_at example_id" "[example_cert\<lparr>cert_keys := []\<rparr>]" "\<lambda>_. Ok ((), [])" vec_ops "[]" "()"]
  by (simp add: encryption_recipients_def usable_keys_def)

lemma try_passphrases_sound:
  "try_passphrases ps key fps = Some (Ok kp) \<Longrightarrow> \<exists>f \<in> set fps. \<exists>p. ps f = Some p \<and> key_open key p = Ok (Ok kp)"
  by (induction fps) (auto split: option.splits sum.splits)

lemma signing_keypair_sound:
  "signing_keypair ps c kas = Ok kp \<Longrightarrow> \<exists>key \<in> set kas. keypair_of ps [key_fingerprint key, c] key kp"
  by (induction kas) (auto simp: keypair_of_def simp del: try_passphrases.simps
      split: if_splits option.splits dest!: try_passphrases_sound)

text \<open>
  Backups are signed with a secret signing key of the configured certificate that is usable
  at the creation time of the backup, unprotected or unlocked by a configured passphrase.
\<close>

theorem signing_key_sound:
  assumes "sign_new_writer signer_new ctx time = Ok g"
  shows "\<exists>key kp. key \<in> set (cert_keys (psc_tsk ctx)) \<and> usable time key \<and> key_for_signing key \<and> key_secret key \<and>
    keypair_of (psc_passphrases ctx) [key_fingerprint key, cert_fpr (psc_tsk ctx)] key kp \<and>
    signer_new kp time = Ok g"
  using assms signing_keypair_sound
  by (fastforce simp: sign_new_writer_def try_bind_eq_Ok signing_keys_def set_usable_keys)

theorem signing_key_sound_witness:
  "\<exists>key kp. key \<in> set (cert_keys example_cert) \<and> usable (created_at example_id) key \<and> key_for_signing key \<and>
    key_secret key \<and> keypair_of [''C'' \<mapsto> ''pw''] [key_fingerprint key, ''C''] key kp \<and>
    (\<lambda>kp _. Ok (kp :: string)) kp (created_at example_id) = (Ok ''k1'' :: anyhow + string)"
proof -
  let ?ctx = "\<lparr>psc_tsk = example_cert, psc_passphrases = [''C'' \<mapsto> ''pw'']\<rparr>"
  have "sign_new_writer (\<lambda>kp _. Ok kp) ?ctx (created_at example_id) = (Ok ''k1'' :: anyhow + string)"
    by (simp add: sign_new_writer_def signing_keys_def usable_keys_def example_cert_def example_key_def)
  from signing_key_sound [OF this] show ?thesis by (simp add: example_cert_def)
qed

end
