(* ===== verification/Archiving.thy ===== *)
theory Archiving
  imports Layers Tar_Size Object_Store
begin

text \<open>
  \<^verbatim>\<open>api/crates/backup/src/archiving.rs\<close>: what goes into an archive, and reading it back up
  to its metadata.  The \<open>tar\<close>, \<open>zstd\<close>, JSON and OpenPGP libraries are parameters
  (\<open>tar_lib\<close>, \<open>archive_lib\<close>): how an entry is encoded, and how the bytes of an archive decode
  into entries, each of which may be an error.
\<close>

definition METADATA_FILE_NAME :: string where
  "METADATA_FILE_NAME = ''metadata.json''"

record 'p archive_blueprint =
  bp_version :: u8
  bp_paths :: "(string \<times> 'p) list"

definition blueprint_new :: "u8 \<Rightarrow> (string \<times> 'p) list \<Rightarrow> 'p archive_blueprint" where
  "blueprint_new version paths = \<lparr>bp_version = version, bp_paths = paths\<rparr>"

section \<open>Archiving\<close>

text \<open>\<open>AdditionalData\<close>: the size it expects to add, and the bytes it appends to the archive.\<close>

record additional_data =
  ad_expected_size :: "anyhow + u64"
  ad_append :: "anyhow + bytes"

text \<open>\<open>impl AdditionalData for ()\<close>.\<close>

definition unit_additional_data :: additional_data where
  "unit_additional_data = \<lparr>ad_expected_size = Ok 0, ad_append = Ok []\<rparr>"

text \<open>\<open>look\<close>: the file or directory at a local path, \<open>None\<close> if there is none.\<close>

definition check_archiving_will_succeed ::
  "(string \<Rightarrow> node option) \<Rightarrow> string archive_blueprint \<Rightarrow> additional_data option \<Rightarrow> cannot_archive + u64" where
  "check_archiving_will_succeed look blueprint additional =
     try_bind (case additional of
                 Some data \<Rightarrow> map_err FailedComputingExpectedSize (ad_expected_size data)
               | None \<Rightarrow> Ok 0) (\<lambda>additional_data_size.
     (case find (\<lambda>(_, local_path). look local_path = None) (bp_paths blueprint) of
        Some (_, local_path) \<Rightarrow> Err (MissingFile local_path)
      | None \<Rightarrow>
          try_bind (map_err FailedComputingExpectedSize (estimate_tar_size look (bp_paths blueprint))) (\<lambda>size.
          Ok (size + file_entry_size METADATA_FILE_NAME 13 + additional_data_size))))"

record tar_lib =
  tar_data :: "string \<Rightarrow> bytes \<Rightarrow> anyhow + bytes"
  tar_file :: "string \<Rightarrow> bytes \<Rightarrow> anyhow + bytes"
  tar_dir_all :: "string \<Rightarrow> (string \<times> node) list \<Rightarrow> anyhow + bytes"
  tar_trailer :: bytes
  metadata_to_json :: "u8 \<Rightarrow> bytes"

text \<open>Appending encoded bytes to the archive through the inner writer.\<close>

definition tar_append ::
  "('w, 's) write_ops \<Rightarrow> anyhow + bytes \<Rightarrow> 'w \<Rightarrow> 's \<Rightarrow> (anyhow + unit) \<times> 'w \<times> 's" where
  "tar_append W chunk w s =
     (case chunk of Inl e \<Rightarrow> (Err e, w, s) | Inr out \<Rightarrow> write_all W out w s)"

fun archive_paths ::
  "tar_lib \<Rightarrow> ('w, 's) write_ops \<Rightarrow> (string \<Rightarrow> node option) \<Rightarrow> (string \<times> string) list \<Rightarrow> 'w \<Rightarrow> 's \<Rightarrow>
     (anyhow + unit) \<times> 'w \<times> 's" where
  "archive_paths T W look [] w s = (Ok (), w, s)"
| "archive_paths T W look ((archive_path, local_path) # paths) w s =
     (case look local_path of
        None \<Rightarrow> (Err [''does not exist''], w, s)
      | Some (File c) \<Rightarrow>
          (case tar_append W (map_err (context_msg ''Could not archive file'') (tar_file T archive_path c)) w s of
             (Inl e, w', s') \<Rightarrow> (Err e, w', s')
           | (Inr _, w', s') \<Rightarrow> archive_paths T W look paths w' s')
      | Some (Dir es) \<Rightarrow>
          (case tar_append W (map_err (context_msg ''Could not archive directory'') (tar_dir_all T archive_path es)) w s of
             (Inl e, w', s') \<Rightarrow> (Err e, w', s')
           | (Inr _, w', s') \<Rightarrow> archive_paths T W look paths w' s'))"

definition archive_writer ::
  "tar_lib \<Rightarrow> ('w, 's) write_ops \<Rightarrow> (string \<Rightarrow> node option) \<Rightarrow> string archive_blueprint \<Rightarrow>
     additional_data option \<Rightarrow> 'w \<Rightarrow> 's \<Rightarrow> (anyhow + unit) \<times> 'w \<times> 's" where
  "archive_writer T W look blueprint additional w s =
     (case additional of
        None \<Rightarrow> archive_paths T W look (bp_paths blueprint) w s
      | Some data \<Rightarrow>
          (case tar_append W (map_err (context_msg ''Could not archive additional data'') (ad_append data)) w s of
             (Inl e, w', s') \<Rightarrow> (Err e, w', s')
           | (Inr _, w', s') \<Rightarrow> archive_paths T W look (bp_paths blueprint) w' s'))"

definition add_metadata_file ::
  "tar_lib \<Rightarrow> ('w, 's) write_ops \<Rightarrow> u8 \<Rightarrow> 'w \<Rightarrow> 's \<Rightarrow> (anyhow + unit) \<times> 'w \<times> 's" where
  "add_metadata_file T W version w s =
     tar_append W (tar_data T METADATA_FILE_NAME (metadata_to_json T version)) w s"

definition archive ::
  "tar_lib \<Rightarrow> ('w, 's) write_ops \<Rightarrow> (string \<Rightarrow> node option) \<Rightarrow> string archive_blueprint \<Rightarrow>
     additional_data option \<Rightarrow> ('w, 'w, create_backup_error, 's) composable_stream_builder" where
  "archive T W look blueprint additional =
     \<lparr>csb_make = (\<lambda>writer s.
        case add_metadata_file T W (bp_version blueprint) writer s of
          (Inl e, _, s') \<Rightarrow> (Err (ArchivingFailed e), s')
        | (Inr _, w', s') \<Rightarrow>
            (case archive_writer T W look blueprint additional w' s' of
               (Inl e, _, s'') \<Rightarrow> (Err (ArchivingFailed e), s'')
             | (Inr _, w'', s'') \<Rightarrow> (Ok w'', s'')))\<rparr>"

text \<open>\<open>tar::Builder::into_inner\<close>: the end of the archive, then the inner writer.\<close>

definition tar_into_inner :: "tar_lib \<Rightarrow> ('w, 's) write_ops \<Rightarrow> 'w \<Rightarrow> 's \<Rightarrow> (anyhow + 'w) \<times> 's" where
  "tar_into_inner T W w s =
     (case write_all W (tar_trailer T) w s of
        (Inl e, _, s') \<Rightarrow> (Err e, s')
      | (Inr _, w', s') \<Rightarrow> (Ok w', s'))"

section \<open>Unarchiving\<close>

datatype extraction_error =
    InvalidBackup anyhow
  | UnknownBackupVersion u8
  | ExtractionOther anyhow

record tar_entry =
  te_path :: bytes
  te_data :: bytes
  te_size :: "u64 option"

record 'kp archive_lib =
  al_decrypt :: "'kp pgp_decryption_context \<Rightarrow> utc_datetime \<Rightarrow> reader \<Rightarrow> anyhow + reader \<times> (string \<times> string) option"
  al_zstd :: "reader \<Rightarrow> anyhow + reader"
  al_entries :: "reader \<Rightarrow> anyhow + (anyhow + tar_entry) list"
  al_metadata :: "bytes \<Rightarrow> anyhow + u8"

text \<open>\<open>decryption::reader\<close>: the report names the certificate and key used.\<close>

definition decryption_reader ::
  "'kp archive_lib \<Rightarrow> reader \<Rightarrow> 'kp pgp_decryption_context option \<Rightarrow> backup_id \<Rightarrow>
     anyhow + reader \<times> (string \<times> string) option" where
  "decryption_reader A backup_reader ctx bid =
     (if ''pgp'' \<in> set (extensions bid) then
        (case ctx of
           Some c \<Rightarrow> al_decrypt A c (created_at bid) backup_reader
         | None \<Rightarrow> Err [''Encryption not configured. Cannot find private keys.''])
      else Ok (backup_reader, None))"

definition archive_reader ::
  "'kp archive_lib \<Rightarrow> reader \<Rightarrow> backup_id \<Rightarrow> 'kp pgp_decryption_context option \<Rightarrow>
     extraction_error + reader \<times> (string \<times> string) option" where
  "archive_reader A backup_reader bid ctx =
     try_bind (map_err ExtractionOther (decryption_reader A backup_reader ctx bid)) (\<lambda>(r, used).
     if ''zst'' \<in> set (extensions bid)
     then try_bind (map_err (\<lambda>e. ExtractionOther (context_msg ''Cannot decompress'' e)) (al_zstd A r)) (\<lambda>r'. Ok (r', used))
     else Ok (r, used))"

text \<open>\<open>ExtractionReport::on_extraction_progress\<close>.\<close>

definition on_extraction_progress :: "u64 \<Rightarrow> tar_entry \<Rightarrow> u64" where
  "on_extraction_progress extracted entry =
     (case te_size entry of Some n \<Rightarrow> extracted + n | None \<Rightarrow> extracted)"

text \<open>Equality of \<open>Path\<close>s, by components: repeated and trailing separators and inner \<open>.\<close> are ignored.\<close>

definition path_components :: "string \<Rightarrow> string list" where
  "path_components p =
     (if starts_with p ''/'' then [''/''] else if starts_with p ''./'' \<or> p = ''.'' then [''.''] else []) @
     filter (\<lambda>c. c \<noteq> [] \<and> c \<noteq> ''.'') (split_on CHR ''/'' p)"

text \<open>
  \<open>read_metadata\<close>: the version, the entries that follow and the number of bytes extracted.
\<close>

definition read_metadata ::
  "'kp archive_lib \<Rightarrow> (anyhow + tar_entry) list \<Rightarrow> u64 \<Rightarrow>
     extraction_error + u8 \<times> (anyhow + tar_entry) list \<times> u64" where
  "read_metadata A entries extracted =
     (case entries of
        [] \<Rightarrow> Err (InvalidBackup [''Backup empty.''])
      | Inl e # _ \<Rightarrow> Err (InvalidBackup e)
      | Inr entry # rest \<Rightarrow>
          let extracted' = on_extraction_progress extracted entry in
          if path_components (te_path entry) \<noteq> path_components METADATA_FILE_NAME
          then Err (InvalidBackup [''Metadata file not found''])
          else try_bind (map_err (\<lambda>e. ExtractionOther (context_msg ''Invalid metadata file'' e))
                  (al_metadata A (te_data entry))) (\<lambda>version. Ok (version, rest, extracted')))"

text \<open>\<open>get_metadata\<close>, on the contents of the verified file (\<open>None\<close> when it cannot be opened).\<close>

definition get_metadata ::
  "'kp archive_lib \<Rightarrow> bytes option \<Rightarrow> backup_id \<Rightarrow> 'kp pgp_decryption_context option \<Rightarrow>
     (u8 \<rightharpoonup> 'p archive_blueprint) \<Rightarrow>
     (extraction_error + 'p archive_blueprint \<times> u8) \<times> (string \<times> string) option" where
  "get_metadata A file bid ctx blueprints =
     (case file of
        None \<Rightarrow> (Err (ExtractionOther [''Could not open backup file'']), None)
      | Some c \<Rightarrow>
          (case archive_reader A \<lparr>rd_data = c, rd_fails = False\<rparr> bid ctx of
             Inl e \<Rightarrow> (Err e, None)
           | Inr (r, used) \<Rightarrow>
               (try_bind (map_err ExtractionOther (al_entries A r)) (\<lambda>entries.
                try_bind (read_metadata A entries 0) (\<lambda>(version, _, _).
                case blueprints version of
                  None \<Rightarrow> Err (UnknownBackupVersion version)
                | Some blueprint \<Rightarrow> Ok (blueprint, version))), used)))"

section \<open>Properties\<close>

lemma estimate_paths_total:
  "\<forall>(_, p) \<in> set ps. look p \<noteq> None \<Longrightarrow> \<exists>n. estimate_paths look ps tot = Ok n"
  by (induction look ps tot rule: estimate_paths.induct) (auto split: option.splits node.splits)

text \<open>
  The check before archiving succeeds exactly when the size of the additional data is known
  and every path of the blueprint exists; a missing path that is reported is one of the
  blueprint's.
\<close>

theorem check_archiving_iff:
  "((\<exists>n. check_archiving_will_succeed look bp additional = Ok n) \<longleftrightarrow>
     (case additional of None \<Rightarrow> True | Some data \<Rightarrow> is_ok (ad_expected_size data)) \<and>
     (\<forall>(_, p) \<in> set (bp_paths bp). look p \<noteq> None)) \<and>
   (check_archiving_will_succeed look bp additional = Err (MissingFile m) \<longrightarrow>
     m \<in> snd ` set (bp_paths bp) \<and> look m = None)"
proof (cases "\<exists>e. (case additional of None \<Rightarrow> Ok 0 | Some d \<Rightarrow> ad_expected_size d) = Inl e")
  case True
  then show ?thesis
    by (auto simp: check_archiving_will_succeed_def split: option.splits)
next
  case False
  then obtain a where a: "(case additional of None \<Rightarrow> Ok 0 | Some d \<Rightarrow> ad_expected_size d) = Inr a"
    by (metis sum.exhaust)
  then have size: "(case additional of Some data \<Rightarrow> map_err FailedComputingExpectedSize (ad_expected_size data)
      | None \<Rightarrow> Ok 0) = Ok a" "case additional of None \<Rightarrow> True | Some data \<Rightarrow> is_ok (ad_expected_size data)"
    by (auto split: option.splits)
  show ?thesis
  proof (cases "find (\<lambda>(_, p). look p = None) (bp_paths bp)")
    case None
    then have all: "\<forall>(_, p) \<in> set (bp_paths bp). look p \<noteq> None" by (auto simp: find_None_iff)
    then obtain n where "estimate_tar_size look (bp_paths bp) = Ok n"
      using estimate_paths_total [of "bp_paths bp" look ARCHIVE_HEADER_SIZE]
      by (auto simp: estimate_tar_size_def)
    with None size all show ?thesis by (simp add: check_archiving_will_succeed_def)
  next
    case (Some kp)
    obtain k p where kp: "kp = (k, p)" by (cases kp)
    then have p: "(k, p) \<in> set (bp_paths bp)" "look p = None"
      using find_in_set [OF Some] by auto
    then have "\<not> (\<forall>(_, p) \<in> set (bp_paths bp). look p \<noteq> None)" by (auto intro!: bexI [of _ "(k, p)"])
    with Some kp size p show ?thesis
      by (simp add: check_archiving_will_succeed_def) force
  qed
qed

theorem check_archiving_iff_witness:
  "check_archiving_will_succeed (\<lambda>p. if p = ''/etc/a'' then Some (File ''x'') else None)
      \<lparr>bp_version = 1, bp_paths = [(''a'', ''/etc/a''), (''b'', ''/etc/b'')]\<rparr> None = Err (MissingFile ''/etc/b'') \<and>
    ''/etc/b'' \<in> snd ` set [(''a'', ''/etc/a''), (''b'', ''/etc/b'')]"
  using check_archiving_iff [of "\<lambda>p. if p = ''/etc/a'' then Some (File ''x'') else None"
      "\<lparr>bp_version = 1, bp_paths = [(''a'', ''/etc/a''), (''b'', ''/etc/b'')]\<rparr>" None "''/etc/b''"]
  by (simp add: check_archiving_will_succeed_def)

lemma get_metadata_blueprint:
  "get_metadata A file bid ctx blueprints = (Ok (blueprint, version), used) \<Longrightarrow> blueprints version = Some blueprint"
  by (auto simp: get_metadata_def try_bind_eq_Ok split: option.splits sum.splits)

text \<open>
  An archive is accepted only if its first entry is the metadata file and the version in it
  is known; in particular a backup of unknown version or without metadata is refused before
  anything is extracted.
\<close>

theorem get_metadata_sound:
  assumes "get_metadata A (Some c) bid ctx blueprints = (Ok (blueprint, version), used)"
  shows "blueprints version = Some blueprint \<and>
    (\<exists>r entry rest. archive_reader A \<lparr>rd_data = c, rd_fails = False\<rparr> bid ctx = Ok (r, used) \<and>
       al_entries A r = Ok (Ok entry # rest) \<and>
       path_components (te_path entry) = [METADATA_FILE_NAME] \<and> al_metadata A (te_data entry) = Ok version)"
proof -
  obtain r where r: "archive_reader A \<lparr>rd_data = c, rd_fails = False\<rparr> bid ctx = Ok (r, used)"
    using assms by (auto simp: get_metadata_def split: sum.splits prod.splits)
  with assms obtain entries rest n where e: "al_entries A r = Ok entries"
    "read_metadata A entries 0 = Ok (version, rest, n)" "blueprints version = Some blueprint"
    by (auto simp: get_metadata_def try_bind_eq_Ok split: option.splits)
  have m: "path_components METADATA_FILE_NAME = [METADATA_FILE_NAME]"
    unfolding METADATA_FILE_NAME_def by code_simp
  from e(2) obtain entry where "entries = Ok entry # rest"
    "path_components (te_path entry) = [METADATA_FILE_NAME]" "al_metadata A (te_data entry) = Ok version"
    by (auto simp: read_metadata_def Let_def try_bind_eq_Ok m split: list.splits sum.splits if_splits)
  with r e show ?thesis by auto
qed

definition example_archive_lib :: "unit archive_lib" where
  "example_archive_lib = \<lparr>al_decrypt = (\<lambda>_ _ r. Ok (r, Some (''C'', ''K''))), al_zstd = Ok,
     al_entries = (\<lambda>r. Ok [Ok \<lparr>te_path = ''metadata.json'', te_data = rd_data r, te_size = Some 1\<rparr>]),
     al_metadata = (\<lambda>d. if d = ''3'' then Ok 3 else Err [])\<rparr>"

theorem get_metadata_sound_witness:
  "[3 \<mapsto> \<lparr>bp_version = 3, bp_paths = []\<rparr>] (3 :: u8) = Some (\<lparr>bp_version = (3 :: u8), bp_paths = [] :: (string \<times> string) list\<rparr>) \<and>
    (\<exists>r entry rest. archive_reader example_archive_lib \<lparr>rd_data = ''3'', rd_fails = False\<rparr> example_id
         (Some \<lparr>pdc_tsks = [], pdc_passphrases = Map.empty\<rparr>) = Ok (r, Some (''C'', ''K'')) \<and>
       al_entries example_archive_lib r = Ok (Ok entry # rest) \<and>
       path_components (te_path entry) = [METADATA_FILE_NAME] \<and> al_metadata example_archive_lib (te_data entry) = Ok 3)"
proof -
  have p: "path_components ''metadata.json'' = path_components METADATA_FILE_NAME"
    by (simp add: METADATA_FILE_NAME_def)
  have "get_metadata example_archive_lib (Some ''3'') example_id (Some \<lparr>pdc_tsks = [], pdc_passphrases = Map.empty\<rparr>)
      [3 \<mapsto> \<lparr>bp_version = 3, bp_paths = []\<rparr>] = (Ok (\<lparr>bp_version = 3, bp_paths = []\<rparr>, 3), Some (''C'', ''K''))"
    using p by (simp add: get_metadata_def archive_reader_def decryption_reader_def read_metadata_def
        example_archive_lib_def example_id_def)
  from get_metadata_sound [OF this] show ?thesis by simp
qed

end
