(* ===== verification/Backup_Create.thy ===== *)
theory Backup_Create
  imports Archiving Store_Cache
begin

text \<open>
  Creation and deletion of backups: the modules \<open>create\<close> and \<open>delete\<close> of
  \<^verbatim>\<open>api/crates/backup/src/lib.rs\<close>.  The stream of a new backup is assembled from the layers
  exactly as \<open>create_backup\<close> chains them; the world is the state of the backup store, the cache
  and the state of the check store.
\<close>

section \<open>Libraries and service\<close>

record ('kp, 'z, 'e, 'g) create_libs =
  cl_ids :: id_lib
  cl_tar :: tar_lib
  cl_zstd_new :: "int \<Rightarrow> anyhow + 'z"
  cl_zstd :: "'z encoder"
  cl_encryptor_new :: "'kp pgp_key list \<Rightarrow> anyhow + 'e \<times> bytes"
  cl_encryptor :: "'e encoder"
  cl_signer_new :: "'kp \<Rightarrow> utc_datetime \<Rightarrow> anyhow + 'g"
  cl_signature_of :: "'g \<Rightarrow> bytes \<Rightarrow> anyhow + bytes"
  cl_blake3 :: "bytes \<Rightarrow> bytes"
  cl_sha256 :: "bytes \<Rightarrow> bytes"

record 'kp backup_service =
  sv_compression :: compression_config
  sv_hashing :: hashing_algorithm
  sv_encryption :: "'kp pgp_cert list option"
  sv_signing_mandatory :: bool
  sv_signing :: "'kp pgp_signing_context option"

record create_backup_command =
  cmd_prefix :: string
  cmd_description :: string
  cmd_blueprint :: "string archive_blueprint"
  cmd_additional :: "additional_data option"

record backup_metadata_partial =
  bm_created_at :: utc_datetime
  bm_size_bytes :: u64
  bm_is_signed :: bool
  bm_is_encrypted :: bool
  bm_can_be_restored :: bool

record create_backup_success =
  cs_id :: backup_id
  cs_description :: string
  cs_metadata :: backup_metadata_partial
  cs_digest_ids :: "string list"
  cs_signature_ids :: "string list"

section \<open>The stream\<close>

text \<open>The writer of the backup store as a \<open>Write\<close>.\<close>

definition upload_ops :: "('s, 'w) object_store \<Rightarrow> ('w, 's) write_ops" where
  "upload_ops S = \<lparr>wr_write = (\<lambda>buf w s. case os_write_all S w buf s of
       (Inl e, s') \<Rightarrow> (Err e, w, s') | (Inr w', s') \<Rightarrow> (Ok (length buf), w', s')),
     wr_flush = (\<lambda>w s. (Ok (), w, s))\<rparr>"

type_synonym ('w, 'g) sink = "(('w, 'g pgp_signer optional_stream) tee_stream, digest_writer) tee_stream"
type_synonym ('w, 'g) counted = "(('w, 'g) sink, write_stats) metered_stream"
type_synonym ('w, 'g, 'e) encrypted = "('e \<times> ('w, 'g) counted, ('w, 'g) counted) either"
type_synonym ('w, 'g, 'e, 'z) compressed = "('z, ('w, 'g, 'e) encrypted) compression_writer"

definition sink_ops :: "('s, 'w) object_store \<Rightarrow> (('w, 'g) sink, 's) write_ops" where
  "sink_ops S = tee_ops (tee_ops (upload_ops S) (opt_ops signer_ops)) digest_ops"

definition counted_ops :: "('s, 'w) object_store \<Rightarrow> (('w, 'g) counted, 's) write_ops" where
  "counted_ops S = metered_ops (sink_ops S) write_stats_ops"

definition encrypted_ops ::
  "('kp, 'z, 'e, 'g) create_libs \<Rightarrow> ('s, 'w) object_store \<Rightarrow> (('w, 'g, 'e) encrypted, 's) write_ops" where
  "encrypted_ops L S = either_ops (encryption_ops (cl_encryptor L) (counted_ops S)) (counted_ops S)"

definition compressed_ops ::
  "('kp, 'z, 'e, 'g) create_libs \<Rightarrow> ('s, 'w) object_store \<Rightarrow> (('w, 'g, 'e, 'z) compressed, 's) write_ops" where
  "compressed_ops L S = compression_ops (cl_zstd L) (encrypted_ops L S)"

text \<open>\<open>H\<close>: the progress of the archive, reported to the event handler through \<open>BackupStatsReader\<close>.\<close>

definition archive_ops ::
  "('kp, 'z, 'e, 'g) create_libs \<Rightarrow> ('s, 'w) object_store \<Rightarrow> 'h stats_ops \<Rightarrow>
     ((('w, 'g, 'e, 'z) compressed, 'h) metered_stream, 's) write_ops" where
  "archive_ops L S H = metered_ops (compressed_ops L S) H"

definition backup_stream ::
  "('kp, 'z, 'e, 'g) create_libs \<Rightarrow> 'kp backup_service \<Rightarrow> ('s, 'w) object_store \<Rightarrow> 'h stats_ops \<Rightarrow> 'h \<Rightarrow>
     (string \<Rightarrow> node option) \<Rightarrow> create_backup_command \<Rightarrow> utc_datetime \<Rightarrow>
     ('w, (('w, 'g, 'e, 'z) compressed, 'h) metered_stream, create_backup_error, 's) composable_stream_builder" where
  "backup_stream L sv S H h look cmd time =
     opt_tee
       (tee_into
         (builder_then
           (builder_then
             (builder_then
               (builder_then
                 (archive (cl_tar L) (archive_ops L S H) look (cmd_blueprint cmd) (cmd_additional cmd))
                 (meter_writes h))
               (compress (cl_zstd_new L) (sv_compression sv)))
             (eventually_layer (sv_encryption sv)
               (\<lambda>recipients. encrypt (cl_encryptor_new L) (counted_ops S) recipients time)))
           (meter_writes write_stats_new))
         (digest (sv_hashing sv)))
       (sv_signing sv) (\<lambda>ctx. pgp_sign (cl_signer_new L) ctx time) []"

section \<open>Deletion\<close>

text \<open>\<open>delete_backup\<close>: the backup, then everything the check store has for it.\<close>

definition delete_backup ::
  "('s, 'w) object_store \<Rightarrow> ('k, 'kw) object_store \<Rightarrow> string \<Rightarrow> 's \<times> cache_state \<times> 'k \<Rightarrow>
     (anyhow + unit) \<times> 's \<times> cache_state \<times> 'k" where
  "delete_backup S C oid world =
     (let (s, cw, c) = world in
      case cached_delete S oid s cw of
        (Inl e, s', cw') \<Rightarrow> (Err e, s', cw', c)
      | (Inr _, s', cw') \<Rightarrow>
          (case os_delete_all C oid c of
             (Inl e, c') \<Rightarrow> (Err e, s', cw', c')
           | (Inr _, c') \<Rightarrow> (Ok (), s', cw', c')))"

section \<open>Creation\<close>

text \<open>\<open>upload_integrity_check\<close>: \<open>std::io::copy\<close> writes nothing for empty data.\<close>

definition upload_integrity_check ::
  "('k, 'kw) object_store \<Rightarrow> bytes \<Rightarrow> string \<Rightarrow> 'k \<Rightarrow> (create_backup_error + unit) run \<times> 'k" where
  "upload_integrity_check C data check_id c =
     (case os_writer C check_id c of
        (Panic, c') \<Rightarrow> (Panic, c')
      | (Ret (Inl e), c') \<Rightarrow> (Ret (Err (CannotCreateSink e)), c')
      | (Ret (Inr uploader), c') \<Rightarrow>
          (case (if data = [] then (Ok uploader, c') else os_write_all C uploader data c') of
             (Inl e, c'') \<Rightarrow> (Ret (Err (IntegrityCheckUploadFailed (context_msg ''`std::io::copy` failed'' e))), c'')
           | (Inr uploader', c'') \<Rightarrow>
               (case os_finalize C uploader' c'' of
                  (Inl e, c3) \<Rightarrow> (Ret (Err (IntegrityCheckUploadFailed (context_msg ''`finalize` failed'' e))), c3)
                | (Inr _, c3) \<Rightarrow> (Ret (Ok ()), c3))))"

text \<open>Closing the layers, down to the sink and its counter.\<close>

definition close_stream ::
  "('kp, 'z, 'e, 'g) create_libs \<Rightarrow> ('s, 'w) object_store \<Rightarrow> 'h stats_ops \<Rightarrow>
     (('w, 'g, 'e, 'z) compressed, 'h) metered_stream \<Rightarrow> 's \<Rightarrow> (create_backup_error + ('w, 'g) counted) \<times> 's" where
  "close_stream L S H aw s =
     (case tar_into_inner (cl_tar L) (archive_ops L S H) aw s of
        (Inl e, s') \<Rightarrow> (Err (ArchivingFailed (context_msg ''Could not init archive'' e)), s')
      | (Inr m, s') \<Rightarrow>
          (case compression_finalize (cl_zstd L) (encrypted_ops L S) (inner m) s' of
             (Inl e, s'') \<Rightarrow> (Err (CompressionFailed e), s'')
           | (Inr (EitherA ew), s'') \<Rightarrow>
               (let (r, s3) = encryption_into_inner (cl_encryptor L) (counted_ops S) ew s''
                in (map_err EncryptionFailed r, s3))
           | (Inr (EitherB w), s'') \<Rightarrow> (Ok w, s'')))"

definition digest_extension :: "hashing_algorithm \<Rightarrow> string" where
  "digest_extension alg = (case alg of Blake3 \<Rightarrow> ''blake3'' | Sha256 \<Rightarrow> ''sha256'')"

text \<open>Uploading the checks and finishing the upload of the backup.\<close>

definition upload_signature ::
  "('kp, 'z, 'e, 'g) create_libs \<Rightarrow> ('k, 'kw) object_store \<Rightarrow> string \<Rightarrow> 'g pgp_signer optional_stream \<Rightarrow> 'k \<Rightarrow>
     (create_backup_error + string list) run \<times> 'k" where
  "upload_signature L C oid signer_opt c =
     (case signer_opt of
        OptNone \<Rightarrow> (Ret (Ok []), c)
      | OptSome writer \<Rightarrow>
          (case signer_finalize (cl_signature_of L) writer of
             Inl e \<Rightarrow> (Ret (Err (SigningFailed e)), c)
           | Inr pgp_signature \<Rightarrow>
               (case with_extension oid ''sig'' of
                  Panic \<Rightarrow> (Panic, c)
                | Ret check_id \<Rightarrow>
                    (case upload_integrity_check C pgp_signature check_id c of
                       (Ret (Inr _), c') \<Rightarrow> (Ret (Ok [check_id]), c')
                     | (Ret (Inl e), c') \<Rightarrow> (Ret (Err e), c')
                     | (Panic, c') \<Rightarrow> (Panic, c')))))"

definition upload_digest ::
  "('kp, 'z, 'e, 'g) create_libs \<Rightarrow> ('k, 'kw) object_store \<Rightarrow> hashing_algorithm \<Rightarrow> string \<Rightarrow> digest_writer \<Rightarrow> 'k \<Rightarrow>
     (create_backup_error + string list) run \<times> 'k" where
  "upload_digest L C alg oid writer c =
     (case with_extension oid (digest_extension alg) of
        Panic \<Rightarrow> (Panic, c)
      | Ret digest_id \<Rightarrow>
          (case upload_integrity_check C (digest_finalize (cl_blake3 L) (cl_sha256 L) writer) digest_id c of
             (Ret (Inr _), c') \<Rightarrow> (Ret (Ok [digest_id]), c')
           | (Ret (Inl e), c') \<Rightarrow> (Ret (Err e), c')
           | (Panic, c') \<Rightarrow> (Panic, c')))"

definition finish_backup ::
  "('kp, 'z, 'e, 'g) create_libs \<Rightarrow> 'kp backup_service \<Rightarrow> ('s, 'w) object_store \<Rightarrow> ('k, 'kw) object_store \<Rightarrow>
     'h stats_ops \<Rightarrow> backup_id \<Rightarrow> string \<Rightarrow> (('w, 'g, 'e, 'z) compressed, 'h) metered_stream \<Rightarrow> 's \<Rightarrow> 'k \<Rightarrow>
     (create_backup_error + create_backup_success) run \<times> 's \<times> 'k" where
  "finish_backup L sv S C H bid oid aw s c =
     (case close_stream L S H aw s of
        (Inl e, s1) \<Rightarrow> (Ret (Err e), s1, c)
      | (Inr counted, s1) \<Rightarrow>
          (let (sink, backup_stats) = into_parts counted in
           case upload_digest L C (sv_hashing sv) oid (tee_1 sink) c of
             (Panic, c1) \<Rightarrow> (Panic, s1, c1)
           | (Ret (Inl e), c1) \<Rightarrow> (Ret (Err e), s1, c1)
           | (Ret (Inr digest_ids), c1) \<Rightarrow>
               (case upload_signature L C oid (tee_1 (tee_0 sink)) c1 of
                  (Panic, c2) \<Rightarrow> (Panic, s1, c2)
                | (Ret (Inl e), c2) \<Rightarrow> (Ret (Err e), s1, c2)
                | (Ret (Inr signature_ids), c2) \<Rightarrow>
                    (case os_finalize S (tee_0 (tee_0 sink)) s1 of
                       (Inl e, s2) \<Rightarrow> (Ret (Err (UploadFailed e)), s2, c2)
                     | (Inr _, s2) \<Rightarrow>
                         (Ret (Ok \<lparr>cs_id = bid, cs_description = description bid,
                            cs_metadata = \<lparr>bm_created_at = created_at bid, bm_size_bytes = bytes_written backup_stats,
                              bm_is_signed = opt_is_some (tee_1 (tee_0 sink)),
                              bm_is_encrypted = (sv_encryption sv \<noteq> None), bm_can_be_restored = True\<rparr>,
                            cs_digest_ids = digest_ids, cs_signature_ids = signature_ids\<rparr>), s2, c2)))))"

definition backup_extensions :: "'kp backup_service \<Rightarrow> string list" where
  "backup_extensions sv =
     [''tar''] @ (case sv_compression sv of Zstd _ \<Rightarrow> [''zst''] | CompressionOff \<Rightarrow> []) @
     (case sv_encryption sv of Some _ \<Rightarrow> [''pgp''] | None \<Rightarrow> [])"

text \<open>
  \<open>create_backup\<close>: \<open>now\<close> is the time of the call.  \<open>BackupAutoDeleteGuard\<close> exists only after the
  stream is built: a failure or a panic after that point deletes the backup (the outcome of
  the deletion is only logged), one before leaves the store as it is.
\<close>

definition create_backup ::
  "('kp, 'z, 'e, 'g) create_libs \<Rightarrow> 'kp backup_service \<Rightarrow> ('s, 'w) object_store \<Rightarrow> ('k, 'kw) object_store \<Rightarrow>
     'h stats_ops \<Rightarrow> 'h \<Rightarrow> (string \<Rightarrow> node option) \<Rightarrow> create_backup_command \<Rightarrow> utc_datetime \<Rightarrow>
     's \<times> cache_state \<times> 'k \<Rightarrow> (create_backup_error + create_backup_success) run \<times> 's \<times> cache_state \<times> 'k" where
  "create_backup L sv S C H h look cmd now world =
     (let (s, cw, c) = world in
      case check_archiving_will_succeed look (cmd_blueprint cmd) (cmd_additional cmd) of
        Inl e \<Rightarrow> (Ret (Err (CannotArchive e)), world)
      | Inr expected_archive_size \<Rightarrow>
          (let bid = \<lparr>id_prefix = cmd_prefix cmd, created_at = now, description = cmd_description cmd,
                      extensions = backup_extensions sv\<rparr>
           in case backup_id_fmt (cl_ids L) bid of
                Panic \<Rightarrow> (Panic, world)
              | Ret oid \<Rightarrow>
                  (case os_writer S oid s of
                     (Panic, s1) \<Rightarrow> (Panic, s1, cw, c)
                   | (Ret (Inl e), s1) \<Rightarrow> (Ret (Err (CannotCreateSink e)), s1, cw, c)
                   | (Ret (Inr upload), s1) \<Rightarrow>
                       (case build (backup_stream L sv S H h look cmd now) upload s1 of
                          (Inl e, s2) \<Rightarrow> (Ret (Err e), s2, cw, c)
                        | (Inr aw, s2) \<Rightarrow>
                            (case finish_backup L sv S C H bid oid aw s2 c of
                               (Ret (Inr success), s3, c3) \<Rightarrow> (Ret (Ok success), s3, cw, c3)
                             | (Ret (Inl e), s3, c3) \<Rightarrow> (Ret (Err e), snd (delete_backup S C oid (s3, cw, c3)))
                             | (Panic, s3, c3) \<Rightarrow> (Panic, snd (delete_backup S C oid (s3, cw, c3))))))))"

end
