(* ===== verification/Backup_Integrity.thy ===== *)
theory Backup_Integrity
  imports Backup_Create Cache_Guards
begin

text \<open>
  What is stored by \<open>create_backup\<close>: the digest, the signature and the byte count are those of
  the bytes that reach the backup store, whatever the layers above produce.  The locale
  \<open>backup_sink\<close> carries the contract of the backup store's writer through the layers.
\<close>

section \<open>The contract through the layers\<close>

definition sink_rcv :: "hashing_algorithm \<Rightarrow> bool \<Rightarrow> ('g \<Rightarrow> bool) \<Rightarrow> ('w \<Rightarrow> 's \<Rightarrow> bytes \<Rightarrow> bool) \<Rightarrow> ('w, 'g) sink \<Rightarrow> 's \<Rightarrow> bytes \<Rightarrow> bool" where
  "sink_rcv alg absent P R k s xs \<longleftrightarrow>
     (R (tee_0 (tee_0 k)) s xs \<and> opt_rcv absent (signer_rcv P) (tee_1 (tee_0 k)) xs) \<and> tee_1 k = digest_with alg xs"

definition counted_rcv :: "hashing_algorithm \<Rightarrow> bool \<Rightarrow> ('g \<Rightarrow> bool) \<Rightarrow> ('w \<Rightarrow> 's \<Rightarrow> bytes \<Rightarrow> bool) \<Rightarrow> ('w, 'g) counted \<Rightarrow> 's \<Rightarrow> bytes \<Rightarrow> bool" where
  "counted_rcv alg absent P R m s xs \<longleftrightarrow>
     sink_rcv alg absent P R (inner m) s xs \<and> bytes_written (stats m) = of_nat (length xs)"

text \<open>The counted sink at the bottom of the upper layers.\<close>

fun enc_bottom :: "('w, 'g, 'e) encrypted \<Rightarrow> ('w, 'g) counted" where
  "enc_bottom (EitherA ew) = snd ew" | "enc_bottom (EitherB w) = w"

fun comp_bottom :: "('w, 'g, 'e, 'z) compressed \<Rightarrow> ('w, 'g) counted" where
  "comp_bottom (ZstdWriter zw) = enc_bottom (snd zw)" | "comp_bottom (OffWriter w) = enc_bottom w"

lemma encoder_write_sink:
  assumes "byte_sink W (\<lambda>w s _. I w s)" "I (snd zw) s" "encoder_write E W buf zw s = (Ok n, zw', s')"
  shows "n \<le> length buf \<and> I (snd zw') s'"
  using assms byte_sink_inv_write_all [OF assms(1,2)]
  by (auto simp: encoder_write_def Let_def split: prod.splits sum.splits)

lemma encoder_close_sink:
  assumes "byte_sink W (\<lambda>w s _. I w s)" "I (snd zw) s" "encoder_close E W zw s = (Ok w', s')"
  shows "I w' s'"
  using assms byte_sink_inv_write_all [OF assms(1,2)]
  by (auto simp: encoder_close_def split: prod.splits sum.splits)

locale backup_sink = up: byte_sink "upload_ops S" R
  for S :: "('s, 'w) object_store" and R +
  fixes alg :: hashing_algorithm and absent :: bool and P :: "'g \<Rightarrow> bool"

sublocale backup_sink \<subseteq> branch: teed_sinks "upload_ops S" R "opt_ops signer_ops" "opt_rcv absent (signer_rcv P)"
  by unfold_locales

sublocale backup_sink \<subseteq> both: teed_sinks "tee_ops (upload_ops S) (opt_ops signer_ops)"
  "\<lambda>t s xs. R (tee_0 t) s xs \<and> opt_rcv absent (signer_rcv P) (tee_1 t) xs" digest_ops "\<lambda>w xs. w = digest_with alg xs"
  by unfold_locales

sublocale backup_sink \<subseteq> meter: metered_sink "sink_ops S" "sink_rcv alg absent P R" write_stats_ops bytes_written
proof -
  have "byte_sink (sink_ops S) (sink_rcv alg absent P R)"
    using both.tee.byte_sink_axioms by (simp add: sink_ops_def sink_rcv_def [abs_def])
  then show "metered_sink (sink_ops S) (sink_rcv alg absent P R) write_stats_ops bytes_written"
    by (intro metered_sink.intro metered_sink_axioms.intro) (simp_all add: write_stats_ops_def)
qed

context backup_sink
begin

abbreviation bottom :: "('w, 'g) counted \<Rightarrow> 's \<Rightarrow> bool" where
  "bottom m s \<equiv> \<exists>xs. counted_rcv alg absent P R m s xs"

lemma counted_sink: "byte_sink (counted_ops S) (counted_rcv alg absent P R)"
  using meter.metered.byte_sink_axioms by (simp add: counted_ops_def counted_rcv_def [abs_def])

lemma counted_inv: "byte_sink (counted_ops S) (\<lambda>m s _. bottom m s)"
  using byte_sink.write_rcv [OF counted_sink] by (intro byte_sink.intro) blast

lemma encrypted_inv:
  fixes L :: "('kp, 'z, 'e, 'g) create_libs"
  shows "byte_sink (encrypted_ops L S) (\<lambda>w s _. bottom (enc_bottom w) s)"
proof
  fix w :: "('w, 'g, 'e) encrypted" and s xs buf n w' s'
  assume b: "bottom (enc_bottom w) s" and w: "wr_write (encrypted_ops L S) buf w s = (Ok n, w', s')"
  show "n \<le> length buf \<and> bottom (enc_bottom w') s'"
  proof (cases w)
    case (EitherA ew)
    with w obtain ew' where st: "encoder_write (cl_encryptor L) (counted_ops S) buf ew s = (Ok n, ew', s')" "w' = EitherA ew'"
      by (auto simp: encrypted_ops_def either_ops_def encryption_ops_def split: prod.splits)
    have "bottom (snd ew) s" using b EitherA by simp
    from encoder_write_sink [where I = "\<lambda>m s. bottom m s", OF counted_inv this st(1)] st(2)
    show ?thesis by simp
  next
    case (EitherB m)
    with w obtain m' where st: "wr_write (counted_ops S) buf m s = (Ok n, m', s')" "w' = EitherB m'"
      by (auto simp: encrypted_ops_def either_ops_def split: prod.splits)
    have "bottom m s" using b EitherB by simp
    from byte_sink.write_rcv [OF counted_inv this st(1)] st(2) show ?thesis by simp
  qed
qed

lemma compressed_inv:
  fixes L :: "('kp, 'z, 'e, 'g) create_libs"
  shows "byte_sink (compressed_ops L S) (\<lambda>w s _. bottom (comp_bottom w) s)"
proof
  fix w :: "('w, 'g, 'e, 'z) compressed" and s xs buf n w' s'
  assume b: "bottom (comp_bottom w) s" and w: "wr_write (compressed_ops L S) buf w s = (Ok n, w', s')"
  show "n \<le> length buf \<and> bottom (comp_bottom w') s'"
  proof (cases w)
    case (ZstdWriter zw)
    with w obtain zw' where st: "encoder_write (cl_zstd L) (encrypted_ops L S) buf zw s = (Ok n, zw', s')" "w' = ZstdWriter zw'"
      by (auto simp: compressed_ops_def compression_ops_def split: prod.splits)
    have "bottom (enc_bottom (snd zw)) s" using b ZstdWriter by simp
    from encoder_write_sink [where I = "\<lambda>m s. bottom (enc_bottom m) s", OF encrypted_inv this st(1)] st(2)
    show ?thesis by simp
  next
    case (OffWriter e)
    with w obtain e' where st: "wr_write (encrypted_ops L S) buf e s = (Ok n, e', s')" "w' = OffWriter e'"
      by (auto simp: compressed_ops_def compression_ops_def split: prod.splits)
    have "bottom (enc_bottom e) s" using b OffWriter by simp
    from byte_sink.write_rcv [OF encrypted_inv this st(1)] st(2) show ?thesis by simp
  qed
qed

abbreviation opened :: "(('w, 'g, 'e, 'z) compressed, 'h) metered_stream \<Rightarrow> 's \<Rightarrow> bool" where
  "opened w s \<equiv> bottom (comp_bottom (inner w)) s"

lemma archive_inv:
  fixes L :: "('kp, 'z, 'e, 'g) create_libs" and H :: "'h stats_ops"
  shows "byte_sink (archive_ops L S H) (\<lambda>w s _. opened w s)"
proof
  fix w :: "(('w, 'g, 'e, 'z) compressed, 'h) metered_stream" and s xs buf n w' s'
  assume b: "opened w s" and w: "wr_write (archive_ops L S H) buf w s = (Ok n, w', s')"
  obtain i where "wr_write (compressed_ops L S) buf (inner w) s = (Ok n, i, s')" "inner w' = i"
    using w by (auto simp: archive_ops_def metered_ops_def metered_write_def split: prod.splits sum.splits)
  with byte_sink.write_rcv [OF compressed_inv b] show "n \<le> length buf \<and> opened w' s'" by blast
qed

text \<open>Building and closing the stream.\<close>

lemma tar_append_opened:
  assumes "opened w s" "tar_append (archive_ops L S H) chunk w s = (Ok u, w', s')"
  shows "opened w' s'"
  using assms byte_sink_inv_write_all [OF archive_inv assms(1)]
  by (auto simp: tar_append_def split: sum.splits)

lemma archive_paths_opened:
  "archive_paths T (archive_ops L S H) look ps w s = (Ok u, w', s') \<Longrightarrow> opened w s \<Longrightarrow> opened w' s'"
proof (induction ps arbitrary: w s)
  case (Cons p ps)
  obtain a l where p: "p = (a, l)" by (cases p)
  from Cons.prems obtain chunk w1 s1 where
    st: "tar_append (archive_ops L S H) chunk w s = (Ok (), w1, s1)"
      "archive_paths T (archive_ops L S H) look ps w1 s1 = (Ok u, w', s')"
    unfolding p by (auto split: option.splits node.splits prod.splits sum.splits)
  from Cons.IH [OF st(2) tar_append_opened [OF Cons.prems(2) st(1)]] show ?case .
qed simp

lemma archive_opened:
  assumes "csb_make (archive T (archive_ops L S H) look bp add) w s = (Ok w', s')" "opened w s"
  shows "opened w' s'"
proof -
  obtain w1 s1 where 1: "tar_append (archive_ops L S H) (tar_data T METADATA_FILE_NAME (metadata_to_json T (bp_version bp))) w s = (Ok (), w1, s1)"
    "archive_writer T (archive_ops L S H) look bp add w1 s1 = (Ok (), w', s')"
    using assms(1) by (auto simp: archive_def add_metadata_file_def split: prod.splits sum.splits)
  have o1: "opened w1 s1" by (rule tar_append_opened [OF assms(2) 1(1)])
  show ?thesis
  proof (cases add)
    case None
    with 1(2) show ?thesis using archive_paths_opened [OF _ o1] by (simp add: archive_writer_def)
  next
    case (Some d)
    then obtain w2 s2 where 2: "tar_append (archive_ops L S H)
        (map_err (context_msg ''Could not archive additional data'') (ad_append d)) w1 s1 = (Ok (), w2, s2)"
      "archive_paths T (archive_ops L S H) look (bp_paths bp) w2 s2 = (Ok (), w', s')"
      using 1(2) by (auto simp: archive_writer_def split: prod.splits sum.splits)
    from archive_paths_opened [OF 2(2) tar_append_opened [OF o1 2(1)]] show ?thesis .
  qed
qed

text \<open>The layers under the archive, from the sink up.\<close>

lemma layers_opened:
  assumes "counted_rcv alg absent P R (metered_new k write_stats_new) s xs"
    and "csb_make (builder_then (builder_then (builder_then (builder_then A (meter_writes h))
        (compress zn cc)) (eventually_layer enc (\<lambda>rs. encrypt en (counted_ops S) rs time)))
        (meter_writes write_stats_new)) k s = (Ok aw, s')"
  shows "\<exists>w s1. csb_make A w s1 = (Ok aw, s') \<and> opened w s1"
proof -
  let ?m = "metered_new k write_stats_new"
  obtain e s1 where e: "csb_make (eventually_layer enc (\<lambda>rs. encrypt en (counted_ops S) rs time)) ?m s = (Ok e, s1)"
    "csb_make (builder_then (builder_then A (meter_writes h)) (compress zn cc)) e s1 = (Ok aw, s')"
    using assms(2) by (auto simp: builder_then_def meter_writes_def split: prod.splits sum.splits)
  have be: "bottom (enc_bottom e) s1"
  proof (cases enc)
    case None
    with e(1) assms(1) show ?thesis by (auto simp: eventually_layer_def)
  next
    case (Some rs)
    with e(1) obtain ew where ew: "pgp_encrypt en (counted_ops S) rs time ?m s = (Ok ew, s1)" "e = EitherA ew"
      by (auto simp: eventually_layer_def encrypt_def Let_def split: prod.splits sum.splits)
    then obtain header where "write_all (counted_ops S) header ?m s = (Ok (), snd ew, s1)"
      by (auto simp: pgp_encrypt_def Let_def split: prod.splits sum.splits if_splits)
    with byte_sink.write_all_rcv [OF counted_sink assms(1)] ew(2) show ?thesis by auto
  qed
  obtain z s2 where z: "csb_make (compress zn cc) e s1 = (Ok z, s2)"
    "csb_make (builder_then A (meter_writes h)) z s2 = (Ok aw, s')"
    using e(2) by (auto simp: builder_then_def split: prod.splits sum.splits)
  have "s2 = s1 \<and> comp_bottom z = enc_bottom e"
    using z(1) by (auto simp: compress_def split: compression_config.splits sum.splits)
  with be z(2) have "csb_make A (metered_new z h) s2 = (Ok aw, s')" "opened (metered_new z h) s2"
    by (auto simp: builder_then_def meter_writes_def metered_new_def)
  then show ?thesis by blast
qed

lemma build_opened:
  assumes "R upload s []" "sv_hashing sv = alg" "sv_signing sv = None \<Longrightarrow> absent"
    "\<And>ctx g. sv_signing sv = Some ctx \<Longrightarrow> sign_new_writer (cl_signer_new L) ctx time = Ok g \<Longrightarrow> P g"
    "build (backup_stream L sv S H h look cmd time) upload s = (Ok aw, s')"
  shows "opened aw s'"
proof -
  let ?A = "archive (cl_tar L) (archive_ops L S H) look (cmd_blueprint cmd) (cmd_additional cmd)"
  let ?B = "builder_then (builder_then (builder_then (builder_then ?A (meter_writes h))
      (compress (cl_zstd_new L) (sv_compression sv)))
      (eventually_layer (sv_encryption sv) (\<lambda>rs. encrypt (cl_encryptor_new L) (counted_ops S) rs time)))
      (meter_writes write_stats_new)"
  obtain g where g: "csb_make ?B (Tee (Tee upload g) (digest (sv_hashing sv))) s = (Ok aw, s')"
    "opt_rcv absent (signer_rcv P) g []"
  proof (cases "sv_signing sv")
    case None
    with assms that [of OptNone] show thesis
      by (simp add: build_def backup_stream_def opt_tee_def tee_into_def)
  next
    case (Some ctx)
    with assms(5) obtain sg where sg: "sign_new_writer (cl_signer_new L) ctx time = Ok sg"
      "csb_make ?B (Tee (Tee upload (OptSome \<lparr>sg_signer = sg, sg_fed = [], sg_writer = []\<rparr>))
         (digest (sv_hashing sv))) s = (Ok aw, s')"
      by (auto simp: build_def backup_stream_def opt_tee_def tee_into_def pgp_sign_def try_bind_def
          split: prod.splits sum.splits)
    with that [of "OptSome \<lparr>sg_signer = sg, sg_fed = [], sg_writer = []\<rparr>"] assms(4) [OF Some sg(1)]
    show thesis by (simp add: signer_rcv_def)
  qed
  with assms(1,2) have "counted_rcv alg absent P R
      (metered_new (Tee (Tee upload g) (digest (sv_hashing sv))) write_stats_new) s []"
    by (simp add: counted_rcv_def sink_rcv_def metered_new_def write_stats_new_def digest_eq_with)
  from layers_opened [OF this g(1)] archive_opened show ?thesis by blast
qed

lemma close_stream_bottom:
  assumes "opened aw s" "close_stream L S H aw s = (Ok m, s')"
  shows "bottom m s'"
proof -
  obtain aw' s1 where t: "write_all (archive_ops L S H) (tar_trailer (cl_tar L)) aw s = (Ok (), aw', s1)"
    and c: "\<exists>e s2. compression_finalize (cl_zstd L) (encrypted_ops L S) (inner aw') s1 = (Ok e, s2) \<and>
      (case e of EitherA ew \<Rightarrow> encryption_into_inner (cl_encryptor L) (counted_ops S) ew s2 = (Ok m, s')
       | EitherB w \<Rightarrow> m = w \<and> s' = s2)"
    using assms(2) by (auto simp: close_stream_def tar_into_inner_def Let_def
        split: prod.splits sum.splits either.splits)
  have o1: "opened aw' s1" by (rule byte_sink_inv_write_all [OF archive_inv assms(1) t])
  obtain e s2 where e: "compression_finalize (cl_zstd L) (encrypted_ops L S) (inner aw') s1 = (Ok e, s2)"
    "case e of EitherA ew \<Rightarrow> encryption_into_inner (cl_encryptor L) (counted_ops S) ew s2 = (Ok m, s')
     | EitherB w \<Rightarrow> m = w \<and> s' = s2" using c by blast
  have be: "bottom (enc_bottom e) s2"
  proof (cases "inner aw'")
    case (ZstdWriter zw)
    with o1 e(1) have "bottom (enc_bottom (snd zw)) s1"
      "encoder_close (cl_zstd L) (encrypted_ops L S) zw s1 = (Ok e, s2)" by simp_all
    from encoder_close_sink [where I = "\<lambda>m s. bottom (enc_bottom m) s", OF encrypted_inv this]
    show ?thesis .
  next
    case (OffWriter w)
    with o1 e(1) show ?thesis by auto
  qed
  show ?thesis
  proof (cases e)
    case (EitherA ew)
    with be e(2) have "bottom (snd ew) s2"
      "encoder_close (cl_encryptor L) (counted_ops S) ew s2 = (Ok m, s')"
      by (simp_all add: encryption_into_inner_def)
    from encoder_close_sink [where I = "\<lambda>m s. bottom m s", OF counted_inv this] show ?thesis .
  next
    case (EitherB w)
    with be e(2) show ?thesis by auto
  qed
qed

end

section \<open>Backups in the file system store\<close>

text \<open>The writer of \<open>oid\<close> over the directory \<open>d0\<close>: nothing else changes.\<close>

definition fs_rcv :: "string \<Rightarrow> fs_dir \<Rightarrow> string \<Rightarrow> fs_dir \<Rightarrow> bytes \<Rightarrow> bool" where
  "fs_rcv oid d0 n d xs \<longleftrightarrow> n = oid \<and> fs_good d \<and> fs_abs d = (fs_abs d0)(oid \<mapsto> xs)"

interpretation fs_backup: backup_sink "fs_object_store st" "fs_rcv oid d0" alg absent P for st oid d0 alg absent P
proof
  fix w s xs buf n w' s'
  assume r: "fs_rcv oid d0 w s xs" and st: "wr_write (upload_ops (fs_object_store st)) buf w s = (Ok n, w', s')"
  have g: "fs_good s" "fs_abs s oid = Some xs" "w = oid" using r by (auto simp: fs_rcv_def)
  obtain d1 where "fs_write_all oid buf s = (Ok oid, d1)" "fs_good d1" "fs_abs d1 = (fs_abs s)(oid \<mapsto> xs @ buf)"
    using fs_write_all_good [OF g(1,2), of buf] by blast
  with st g(3) r show "n \<le> length buf \<and> fs_rcv oid d0 w' s' (xs @ take n buf)"
    by (auto simp: upload_ops_def fs_object_store_def fs_rcv_def)
qed

lemma fs_writer_Ok:
  assumes "fs_good d" "fs_writer st n d = (Ret (Ok w), d1)"
  shows "w = n \<and> fs_good d1 \<and> fs_abs d1 = (fs_abs d)(n \<mapsto> [])"
  using assms fs_abs_update [where d = d and n = n and c = "[]"]
  by (auto simp: fs_writer_def fs_good_def split: if_splits)

lemma upload_check_fs:
  assumes "fs_good c" "upload_integrity_check (fs_object_store st) data key c = (Ret (Ok u), c')"
  shows "fs_good c' \<and> fs_abs c' = (fs_abs c)(key \<mapsto> data)"
proof -
  obtain w c1 where w: "fs_writer st key c = (Ret (Ok w), c1)"
    and rest: "(case (if data = [] then (Ok w, c1) else fs_write_all w data c1) of
        (Inl e, c2) \<Rightarrow> False | (Inr w2, c2) \<Rightarrow> c' = c2)"
    using assms(2) by (auto simp: upload_integrity_check_def fs_object_store_def fs_finalize_def
        split: run.splits sum.splits prod.splits if_splits)
  have 1: "w = key" "fs_good c1" "fs_abs c1 = (fs_abs c)(key \<mapsto> [])"
    using fs_writer_Ok [OF assms(1) w] by simp_all
  show ?thesis
  proof (cases "data = []")
    case True
    then have "c' = c1" using rest by simp
    with 1 True show ?thesis by auto
  next
    case False
    obtain d1 where "fs_write_all key data c1 = (Ok key, d1)" "fs_good d1" "fs_abs d1 = (fs_abs c1)(key \<mapsto> [] @ data)"
      using fs_write_all_good [of c1 key "[]" data] 1 by auto
    with False rest 1 show ?thesis by auto
  qed
qed

lemma digest_ext_ok: "with_extension oid (digest_extension alg) = Ret (oid @ ''.'' @ digest_extension alg)"
  by (cases alg) (simp_all add: digest_extension_def)

text \<open>The hash function of the configured algorithm.\<close>

definition hash_of :: "('kp, 'z, 'e, 'g) create_libs \<Rightarrow> hashing_algorithm \<Rightarrow> bytes \<Rightarrow> bytes" where
  "hash_of L alg = (case alg of Blake3 \<Rightarrow> cl_blake3 L | Sha256 \<Rightarrow> cl_sha256 L)"

lemma digest_finalize_with:
  "digest_finalize (cl_blake3 L) (cl_sha256 L) (digest_with alg xs) = hash_of L alg xs"
  by (cases alg) (simp_all add: hash_of_def)

lemma finish_backup_fs:
  fixes L :: "('kp, 'z, 'e, 'g) create_libs" and sv :: "'kp backup_service" and now :: utc_datetime
  defines "P \<equiv> \<lambda>g :: 'g. \<exists>ctx. sv_signing sv = Some ctx \<and> sign_new_writer (cl_signer_new L) ctx now = Ok g"
  assumes "counted_rcv (sv_hashing sv) (sv_signing sv = None) P (fs_rcv oid d0) m s1 xs" "fs_good c"
    and "close_stream L (fs_object_store st) H aw s = (Ok m, s1)"
    and "finish_backup L sv (fs_object_store st) (fs_object_store stc) H bid oid aw s c = (Ret (Ok succ), s', c')"
  shows "fs_abs s' = (fs_abs d0)(oid \<mapsto> xs) \<and> fs_good s' \<and> fs_good c' \<and> cs_id succ = bid \<and>
    bm_size_bytes (cs_metadata succ) = of_nat (length xs) \<and>
    fs_abs c' (oid @ ''.'' @ digest_extension (sv_hashing sv)) = Some (hash_of L (sv_hashing sv) xs) \<and>
    (bm_is_signed (cs_metadata succ) \<longleftrightarrow> sv_signing sv \<noteq> None) \<and>
    (\<forall>ctx. sv_signing sv = Some ctx \<longrightarrow> (\<exists>g sig. sign_new_writer (cl_signer_new L) ctx now = Ok g \<and>
       cl_signature_of L g xs = Ok sig \<and> fs_abs c' (oid @ ''.sig'') = Some sig))"
proof -
  let ?S = "fs_object_store st" and ?C = "fs_object_store stc"
  let ?d = "oid @ ''.'' @ digest_extension (sv_hashing sv)"
  have rcv: "tee_0 (tee_0 (inner m)) = oid" "fs_good s1" "fs_abs s1 = (fs_abs d0)(oid \<mapsto> xs)"
    "opt_rcv (sv_signing sv = None) (signer_rcv P) (tee_1 (tee_0 (inner m))) xs"
    "tee_1 (inner m) = digest_with (sv_hashing sv) xs" "bytes_written (stats m) = of_nat (length xs)"
    using assms(2) by (auto simp: counted_rcv_def sink_rcv_def fs_rcv_def)
  obtain c1 sids where d: "upload_integrity_check ?C (hash_of L (sv_hashing sv) xs) ?d c = (Ret (Ok ()), c1)"
    and sg: "upload_signature L ?C oid (tee_1 (tee_0 (inner m))) c1 = (Ret (Ok sids), c')"
    and res: "s' = s1" "cs_id succ = bid" "bm_size_bytes (cs_metadata succ) = bytes_written (stats m)"
      "bm_is_signed (cs_metadata succ) = opt_is_some (tee_1 (tee_0 (inner m)))"
    using assms(4,5) rcv(1,5)
    by (auto simp: finish_backup_def upload_digest_def digest_ext_ok into_parts_def fs_object_store_def fs_finalize_def
        digest_finalize_with split: prod.splits run.splits sum.splits)
  have c1: "fs_good c1" "fs_abs c1 = (fs_abs c)(?d \<mapsto> hash_of L (sv_hashing sv) xs)"
    using upload_check_fs [OF assms(3) d] by simp_all
  have ne: "?d \<noteq> oid @ ''.sig''" by (cases "sv_hashing sv") (simp_all add: digest_extension_def)
  show ?thesis
  proof (cases "tee_1 (tee_0 (inner m))")
    case OptNone
    with rcv res sg c1 show ?thesis by (auto simp: upload_signature_def)
  next
    case (OptSome w)
    with rcv(4) obtain ctx where ctx: "sv_signing sv = Some ctx" "sign_new_writer (cl_signer_new L) ctx now = Ok (sg_signer w)"
      "sg_fed w = xs" "sg_writer w = []" by (auto simp: signer_rcv_def P_def)
    obtain sig where sig: "cl_signature_of L (sg_signer w) xs = Ok sig"
      "upload_integrity_check ?C sig (oid @ ''.sig'') c1 = (Ret (Ok ()), c')"
      using sg OptSome ctx by (auto simp: upload_signature_def signer_finalize_def try_bind_def
          split: sum.splits prod.splits run.splits)
    from upload_check_fs [OF c1(1) sig(2)] c1 ne rcv res OptSome ctx sig show ?thesis by auto
  qed
qed

lemma create_backup_stages:
  assumes "create_backup L sv S C H h look cmd now (s, cw, c) = (Ret (Ok succ), s', cw', c')"
  obtains bid oid w s1 aw s2 where "backup_id_fmt (cl_ids L) bid = Ret oid"
    "bid = \<lparr>id_prefix = cmd_prefix cmd, created_at = now, description = cmd_description cmd, extensions = backup_extensions sv\<rparr>"
    "os_writer S oid s = (Ret (Ok w), s1)" "build (backup_stream L sv S H h look cmd now) w s1 = (Ok aw, s2)"
    "finish_backup L sv S C H bid oid aw s2 c = (Ret (Ok succ), s', c')" "cw' = cw"
  using assms
  by (auto simp: create_backup_def Let_def split: sum.splits run.splits prod.splits)


section \<open>An example\<close>

definition example_libs :: "(string, unit, unit, string) create_libs" where
  "example_libs = \<lparr>cl_ids = rfc_lib,
     cl_tar = \<lparr>tar_data = (\<lambda>n d. Ok (n @ ''='' @ d)), tar_file = (\<lambda>n d. if n = ''bad'' then Err [''io''] else Ok (n @ ''='' @ d)),
       tar_dir_all = (\<lambda>n es. Ok n), tar_trailer = ''.'', metadata_to_json = (\<lambda>v. ''v'')\<rparr>,
     cl_zstd_new = (\<lambda>_. Ok ()), cl_zstd = \<lparr>enc_step = (\<lambda>z b. (z, b)), enc_finish = (\<lambda>z. Ok ''Z'')\<rparr>,
     cl_encryptor_new = (\<lambda>_. Ok ((), ''H'')), cl_encryptor = \<lparr>enc_step = (\<lambda>e b. (e, b)), enc_finish = (\<lambda>e. Ok ''E'')\<rparr>,
     cl_signer_new = (\<lambda>kp _. Ok kp), cl_signature_of = (\<lambda>g d. Ok (g @ d)),
     cl_blake3 = (\<lambda>d. ''3'' @ d), cl_sha256 = (\<lambda>d. ''2'' @ d)\<rparr>"

definition example_service :: "string backup_service" where
  "example_service = \<lparr>sv_compression = Zstd 3, sv_hashing = Blake3, sv_encryption = Some [example_cert],
     sv_signing_mandatory = True, sv_signing = Some \<lparr>psc_tsk = example_cert, psc_passphrases = [''C'' \<mapsto> ''pw'']\<rparr>\<rparr>"

definition example_command :: "string \<Rightarrow> create_backup_command" where
  "example_command key = \<lparr>cmd_prefix = ''p'', cmd_description = ''d'',
     cmd_blueprint = \<lparr>bp_version = 1, bp_paths = [(key, ''/a'')]\<rparr>, cmd_additional = None\<rparr>"

definition empty_dir :: fs_dir where
  "empty_dir = \<lparr>files = [], faults = no_faults\<rparr>"

definition plain_store :: fs_store where
  "plain_store = \<lparr>directory = ''/d'', overwrite = False, mode = 0x180\<rparr>"

definition example_world :: "fs_dir \<times> cache_state \<times> fs_dir" where
  "example_world = (empty_dir, \<lparr>cache = \<lparr>entries = [], total_size = 0\<rparr>, cache_files = empty_dir, guards = []\<rparr>, empty_dir)"

definition epoch :: utc_datetime where
  "epoch = \<lparr>unix_timestamp = 7, nanosecond = 0\<rparr>"

definition example_create where
  "example_create key = create_backup example_libs example_service (fs_object_store plain_store)
     (fs_object_store plain_store) noop_stats_ops () (\<lambda>p. if p = ''/a'' then Some (File ''x'') else None)
     (example_command key) epoch example_world"

lemma example_key: "backup_id_fmt rfc_lib \<lparr>id_prefix = ''p'', created_at = epoch, description = ''d'',
    extensions = [''tar'', ''zst'', ''pgp'']\<rparr> = Ret ''p-0000000007-d.tar.zst.pgp''"
  by code_simp

lemma example_create_ok:
  "is_ok (the_ret (fst (example_create ''a''))) \<and> fst (example_create ''a'') \<noteq> Panic"
  by code_simp


text \<open>
  A failure while the archive is being built leaves a partial backup behind: reading one of
  the files fails, an error is returned, and the store keeps an object with the name of the
  backup and without any integrity check.
\<close>

theorem archiving_failure_leaves_partial_backup:
  "let (res, s, cw, c) = example_create ''bad'' in
   res = Ret (Err (ArchivingFailed [''Could not archive file'', ''io''])) \<and>
   map_of (files s) ''p-0000000007-d.tar.zst.pgp'' = Some ''Hmetadata.json=v'' \<and> files c = []"
  by code_simp

section \<open>Deletion\<close>


definition two_checks :: fs_dir where
  "two_checks = \<lparr>files = [(''p-1-a.tar.sig'', ''s1''), (''p-2-b.tar.sig'', ''s2'')], faults = no_faults\<rparr>"


end
