(* ===== verification/Local_Fs.thy ===== *)
theory Local_Fs
  imports Path_Mapping "HOL-Library.Sublist"
begin

text \<open>
  The local file system a restoration writes to, and the helpers of
  \<^verbatim>\<open>api/crates/backup/src/util/fs.rs\<close>.  A tree is the list of its files and directories by
  absolute path (list of components); \<open>dev\<close> gives the device of a path, \<open>lf_faults\<close> the calls
  that fail.
\<close>

section \<open>Trees\<close>

datatype fs_entry = FileE bytes | DirE

record lfs_faults =
  rename_fails :: "path \<Rightarrow> path \<Rightarrow> bool"
  remove_fails :: "path \<Rightarrow> bool"
  mkdir_fails :: "path \<Rightarrow> bool"
  list_fails :: "path \<Rightarrow> bool"
  dev_fails :: "path \<Rightarrow> bool"

record local_fs =
  tree :: "(path \<times> fs_entry) list"
  dev :: "path \<Rightarrow> nat"
  lf_faults :: lfs_faults

definition look :: "local_fs \<Rightarrow> path \<Rightarrow> fs_entry option" where
  "look fs p = map_of (tree fs) p"

definition path_exists :: "local_fs \<Rightarrow> path \<Rightarrow> bool" where
  "path_exists fs p = (look fs p \<noteq> None)"

definition path_parent :: "path \<Rightarrow> path option" where
  "path_parent p = (if p = [] then None else Some (butlast p))"

text \<open>\<open>Path::with_added_extension\<close>.\<close>

definition with_added_extension :: "path \<Rightarrow> string \<Rightarrow> path" where
  "with_added_extension p ext = (if p = [] then [] else butlast p @ [last p @ ''.'' @ ext])"

definition remove_tree :: "path \<Rightarrow> (path \<times> fs_entry) list \<Rightarrow> (path \<times> fs_entry) list" where
  "remove_tree p t = filter (\<lambda>(q, _). \<not> prefix p q) t"

definition move_tree :: "path \<Rightarrow> path \<Rightarrow> (path \<times> fs_entry) list \<Rightarrow> (path \<times> fs_entry) list" where
  "move_tree src dst t =
     map (\<lambda>(q, e). (if prefix src q then dst @ drop (length src) q else q, e)) (remove_tree dst t)"

definition dir_children :: "local_fs \<Rightarrow> path \<Rightarrow> path list" where
  "dir_children fs p = filter (\<lambda>q. q \<noteq> [] \<and> butlast q = p) (map fst (tree fs))"

text \<open>\<open>fs::rename\<close>: a directory replaces an empty directory only, a file a file only.\<close>

definition can_replace :: "local_fs \<Rightarrow> path \<Rightarrow> path \<Rightarrow> bool" where
  "can_replace fs src dst =
     (case look fs dst of
        None \<Rightarrow> True
      | Some DirE \<Rightarrow> look fs src = Some DirE \<and> dir_children fs dst = []
      | Some (FileE _) \<Rightarrow> look fs src \<noteq> Some DirE)"

definition fs_rename :: "path \<Rightarrow> path \<Rightarrow> local_fs \<Rightarrow> (anyhow + unit) \<times> local_fs" where
  "fs_rename src dst fs =
     (if rename_fails (lf_faults fs) src dst \<or> look fs src = None \<or> dst = [] \<or>
         look fs (butlast dst) \<noteq> Some DirE \<or> prefix src dst \<and> src \<noteq> dst \<or> \<not> can_replace fs src dst
      then (Err [''rename''], fs)
      else if src = dst then (Ok (), fs)
      else (Ok (), fs\<lparr>tree := move_tree src dst (tree fs)\<rparr>))"

text \<open>\<open>create_dir_all\<close>: the missing ancestors, from the root down.\<close>

fun mkdirs :: "path list \<Rightarrow> local_fs \<Rightarrow> (anyhow + unit) \<times> local_fs" where
  "mkdirs [] fs = (Ok (), fs)"
| "mkdirs (p # ps) fs =
     (case look fs p of
        Some DirE \<Rightarrow> mkdirs ps fs
      | Some (FileE _) \<Rightarrow> (Err [''not a directory''], fs)
      | None \<Rightarrow> if mkdir_fails (lf_faults fs) p then (Err [''mkdir''], fs)
                else mkdirs ps (fs\<lparr>tree := (p, DirE) # tree fs\<rparr>))"

definition create_dir_all :: "path \<Rightarrow> local_fs \<Rightarrow> (anyhow + unit) \<times> local_fs" where
  "create_dir_all p fs = mkdirs (prefixes p) fs"

section \<open>Helpers of the backup crate\<close>

text \<open>\<open>util::fs::remove\<close>: a path and everything below it.\<close>

definition fs_remove :: "path \<Rightarrow> local_fs \<Rightarrow> (anyhow + unit) \<times> local_fs" where
  "fs_remove p fs =
     (if look fs p = None \<or> remove_fails (lf_faults fs) p then (Err [''remove''], fs)
      else (Ok (), fs\<lparr>tree := remove_tree p (tree fs)\<rparr>))"

text \<open>\<open>util::fs::backup_path\<close>; \<open>ts\<close> is the Unix timestamp.\<close>

definition backup_name :: "nat \<Rightarrow> local_fs \<Rightarrow> path \<Rightarrow> path" where
  "backup_name ts fs p =
     (let bak = with_added_extension p ''bak'' in
      if path_exists fs bak then with_added_extension p (dec ts @ ''.bak'') else bak)"

definition backup_path :: "nat \<Rightarrow> path \<Rightarrow> local_fs \<Rightarrow> (anyhow + path) \<times> local_fs" where
  "backup_path ts p fs =
     (let bak = backup_name ts fs p in
      case fs_rename p bak fs of
        (Inl e, fs') \<Rightarrow> (Err e, fs')
      | (Inr _, fs') \<Rightarrow> (Ok bak, fs'))"

text \<open>\<open>util::fs::is_same_device\<close>.\<close>

definition is_same_device :: "path \<Rightarrow> path \<Rightarrow> local_fs \<Rightarrow> anyhow + bool" where
  "is_same_device p1 p2 fs =
     (if look fs p1 = None \<or> look fs p2 = None \<or> dev_fails (lf_faults fs) p1 \<or> dev_fails (lf_faults fs) p2
      then Err [''metadata''] else Ok (dev fs p1 = dev fs p2))"

section \<open>Lookups\<close>

lemma look_remove:
  "map_of (remove_tree p t) q = (if prefix p q then None else map_of t q)"
  by (induction t) (auto simp: remove_tree_def)

definition apart :: "path \<Rightarrow> path \<Rightarrow> bool" where
  "apart p q \<longleftrightarrow> \<not> prefix p q \<and> \<not> prefix q p"

lemma apart_sym: "apart p q \<Longrightarrow> apart q p"
  by (auto simp: apart_def)

lemma apart_below: "apart p q \<Longrightarrow> prefix p r \<Longrightarrow> \<not> prefix q r"
  by (auto simp: apart_def dest: prefix_same_cases)

lemma move_tree_Cons:
  "move_tree src dst ((r, e) # t) =
     (if prefix dst r then move_tree src dst t
      else (if prefix src r then dst @ drop (length src) r else r, e) # move_tree src dst t)"
  by (simp add: move_tree_def remove_tree_def)

lemma look_move_below_dst:
  assumes "apart src dst"
  shows "map_of (move_tree src dst t) (dst @ s) = map_of t (src @ s)"
proof (induction t)
  case (Cons x t)
  obtain r e where x: "x = (r, e)" by (cases x)
  consider "prefix dst r" | u where "r = src @ u" "\<not> prefix dst r" | "\<not> prefix src r" "\<not> prefix dst r"
    by (auto simp: prefix_def)
  then show ?case
  proof cases
    case 1
    then have "r \<noteq> src @ s" using apart_below [OF apart_sym [OF assms]] by (auto simp: prefix_def)
    with 1 Cons show ?thesis unfolding x by (simp add: move_tree_Cons)
  next
    case 2
    with Cons show ?thesis unfolding x by (simp add: move_tree_Cons)
  next
    case 3
    then have "r \<noteq> src @ s" "r \<noteq> dst @ s" by (auto simp: prefix_def)
    with 3 Cons show ?thesis unfolding x by (simp add: move_tree_Cons)
  qed
qed (simp add: move_tree_def remove_tree_def)

lemma look_move_elsewhere:
  assumes "apart src dst" "\<not> prefix dst q"
  shows "map_of (move_tree src dst t) q = (if prefix src q then None else map_of t q)"
proof (induction t)
  case (Cons x t)
  obtain r e where x: "x = (r, e)" by (cases x)
  have "dst @ v \<noteq> q" for v using assms(2) by (auto simp: prefix_def)
  with Cons assms(2) show ?case unfolding x by (auto simp: move_tree_Cons)
qed (simp add: move_tree_def remove_tree_def)

lemma look_move:
  assumes "apart src dst"
  shows "map_of (move_tree src dst t) q =
    (if prefix dst q then map_of t (src @ drop (length dst) q)
     else if prefix src q then None else map_of t q)"
  using look_move_below_dst [OF assms] look_move_elsewhere [OF assms] by (auto simp: prefix_def)

end
