(* ===== verification/Revert.thy ===== *)
theory Revert
  imports Local_Fs Archiving
begin

text \<open>
  How a restoration (\<^verbatim>\<open>api/crates/backup/src/restoration.rs\<close>) protects the data it
  replaces: \<open>backup_destinations\<close> renames the destinations before anything is extracted,
  \<open>RestoreRevertGuard\<close> deletes these copies on success and \<open>revert\<close>s otherwise.
\<close>

section \<open>Definitions\<close>

datatype restoration_error =
    PathBackupFailed path anyhow
  | ExtractionFailed extraction_error
  | FoundUnexpectedData "path list"
  | RestorationOther anyhow

text \<open>The paths of a \<open>RestoreRevertGuard\<close>: a destination and its backup, if it existed.\<close>

type_synonym revert_paths = "(path \<times> path option) list"

fun revert :: "revert_paths \<Rightarrow> local_fs \<Rightarrow> local_fs" where
  "revert [] fs = fs"
| "revert ((p, backup_path_opt) # ps) fs =
     (let fs1 = (if path_exists fs p then snd (fs_remove p fs) else fs);
          fs2 = (case backup_path_opt of None \<Rightarrow> fs1 | Some b \<Rightarrow> snd (fs_rename b p fs1))
      in revert ps fs2)"

fun remove_backups :: "revert_paths \<Rightarrow> local_fs \<Rightarrow> local_fs" where
  "remove_backups [] fs = fs"
| "remove_backups ((p, None) # ps) fs = remove_backups ps fs"
| "remove_backups ((p, Some b) # ps) fs =
     remove_backups ps (if path_exists fs b then snd (fs_remove b fs) else fs)"

text \<open>\<open>RestoreRevertGuard::drop\<close>.\<close>

definition revert_guard_drop :: "bool \<Rightarrow> revert_paths \<Rightarrow> local_fs \<Rightarrow> local_fs" where
  "revert_guard_drop is_defused ps fs = (if is_defused then remove_backups ps fs else revert ps fs)"

fun backup_children :: "nat \<Rightarrow> path list \<Rightarrow> revert_paths \<Rightarrow> local_fs \<Rightarrow> restoration_error option \<times> revert_paths \<times> local_fs" where
  "backup_children ts [] g fs = (None, g, fs)"
| "backup_children ts (c # cs) g fs =
     (case backup_path ts c fs of
        (Inl e, fs') \<Rightarrow> (Some (PathBackupFailed c (context_msg ''Failed backing up child'' e)), g, fs')
      | (Inr b, fs') \<Rightarrow> backup_children ts cs (g @ [(c, Some b)]) fs')"

text \<open>One destination of the loop of \<open>backup_destinations\<close>.\<close>

definition backup_destination :: "nat \<Rightarrow> path \<Rightarrow> revert_paths \<Rightarrow> local_fs \<Rightarrow> restoration_error option \<times> revert_paths \<times> local_fs" where
  "backup_destination ts dst g fs =
     (if path_exists fs dst then
        (case path_parent dst of
           None \<Rightarrow> (None, g, fs)
         | Some parent \<Rightarrow>
             (case is_same_device dst parent fs of
                Inl e \<Rightarrow> (Some (PathBackupFailed dst (context_msg ''Failed testing device'' e)), g, fs)
              | Inr True \<Rightarrow>
                  (case backup_path ts dst fs of
                     (Inl e, fs') \<Rightarrow> (Some (PathBackupFailed dst (context_msg ''Failed backing up dir'' e)), g, fs')
                   | (Inr b, fs') \<Rightarrow> (None, g @ [(dst, Some b)], fs'))
              | Inr False \<Rightarrow>
                  if list_fails (lf_faults fs) dst \<or> look fs dst \<noteq> Some DirE
                  then (Some (RestorationOther [''Failed reading'']), g, fs)
                  else backup_children ts (dir_children fs dst) g fs))
      else
        (case (case path_parent dst of None \<Rightarrow> (Ok (), fs) | Some parent \<Rightarrow> create_dir_all parent fs) of
           (Inl e, fs') \<Rightarrow> (Some (RestorationOther (context_msg ''Could not create restore destinations'' e)), g, fs')
         | (Inr _, fs') \<Rightarrow> (None, g @ [(dst, None)], fs')))"

fun backup_loop :: "nat \<Rightarrow> path list \<Rightarrow> revert_paths \<Rightarrow> local_fs \<Rightarrow> restoration_error option \<times> revert_paths \<times> local_fs" where
  "backup_loop ts [] g fs = (None, g, fs)"
| "backup_loop ts (dst # dsts) g fs =
     (case backup_destination ts dst g fs of
        (Some e, g', fs') \<Rightarrow> (Some e, g', fs')
      | (None, g', fs') \<Rightarrow> backup_loop ts dsts g' fs')"

text \<open>\<open>backup_destinations\<close>: an error drops the guard, which reverts.\<close>

definition backup_destinations :: "nat \<Rightarrow> path list \<Rightarrow> local_fs \<Rightarrow> (restoration_error + revert_paths) \<times> local_fs" where
  "backup_destinations ts dsts fs =
     (case backup_loop ts dsts [] fs of
        (Some e, g, fs') \<Rightarrow> (Err e, revert_guard_drop False g fs')
      | (None, g, fs') \<Rightarrow> (Ok g, fs'))"

section \<open>When reverting works\<close>

definition no_lfs_faults :: lfs_faults where
  "no_lfs_faults = \<lparr>rename_fails = (\<lambda>_ _. False), remove_fails = (\<lambda>_. False), mkdir_fails = (\<lambda>_. False),
     list_fails = (\<lambda>_. False), dev_fails = (\<lambda>_. False)\<rparr>"

text \<open>
  Calls may fail, except those that \<open>revert\<close> makes: deleting what was extracted, and renaming a
  backup to its original name.
\<close>

definition backup_names :: "nat \<Rightarrow> path \<Rightarrow> path list" where
  "backup_names ts d = [with_added_extension d ''bak'', with_added_extension d (dec ts @ ''.bak'')]"

definition recoverable :: "nat \<Rightarrow> lfs_faults \<Rightarrow> bool" where
  "recoverable ts f \<longleftrightarrow> (\<forall>p. \<not> remove_fails f p) \<and> (\<forall>d. \<forall>n \<in> set (backup_names ts d). \<not> rename_fails f n d)"

text \<open>A tree of files: the parent of what exists is a directory.\<close>

definition tree_ok :: "local_fs \<Rightarrow> bool" where
  "tree_ok fs \<longleftrightarrow> (\<forall>q. look fs q \<noteq> None \<longrightarrow> q \<noteq> [] \<longrightarrow> look fs (butlast q) = Some DirE)"

lemma tree_ok_below:
  assumes "tree_ok fs" "look fs d = None" "prefix d q"
  shows "look fs q = None"
  using assms(3)
proof (induction "length q - length d" arbitrary: q)
  case 0
  then have "q = d" by (auto simp: prefix_def)
  with assms(2) show ?case by simp
next
  case (Suc k)
  then obtain s where q: "q = d @ s" "s \<noteq> []" by (cases "q = d") (auto simp: prefix_def)
  then have "look fs (butlast q) = None" using Suc by (auto simp: butlast_append)
  with q assms(1) show ?case by (force simp: tree_ok_def)
qed

text \<open>A destination can be backed up by renaming.\<close>

definition ready :: "nat \<Rightarrow> local_fs \<Rightarrow> path \<Rightarrow> bool" where
  "ready ts fs d \<longleftrightarrow> d \<noteq> [] \<and> dev fs d = dev fs (butlast d) \<and>
     (look fs d \<noteq> None \<longrightarrow> look fs (butlast d) = Some DirE) \<and>
     (look fs d = None \<longrightarrow> (\<forall>s. look fs (d @ s) = None)) \<and>
     look fs (backup_name ts fs d) = None"

text \<open>The backup of each destination.\<close>

definition planned :: "nat \<Rightarrow> local_fs \<Rightarrow> path \<Rightarrow> path option" where
  "planned ts fs d = (if look fs d = None then None else Some (backup_name ts fs d))"

text \<open>Destinations and their backups do not overlap.\<close>

definition separate :: "nat \<Rightarrow> path list \<Rightarrow> bool" where
  "separate ts ds \<longleftrightarrow> distinct ds \<and>
     (\<forall>d \<in> set ds. \<forall>d' \<in> set ds. (d \<noteq> d' \<longrightarrow> apart d d') \<and>
        (\<forall>n \<in> set (backup_names ts d). apart n d' \<and>
           (\<forall>n' \<in> set (backup_names ts d'). d \<noteq> d' \<longrightarrow> apart n n')))"

lemma backup_name_in: "backup_name ts fs d \<in> set (backup_names ts d)"
  by (simp add: backup_name_def backup_names_def Let_def)

lemma separateD:
  assumes "separate ts ds" "d \<in> set ds" "d' \<in> set ds"
  shows "d \<noteq> d' \<Longrightarrow> apart d d'" "n \<in> set (backup_names ts d) \<Longrightarrow> apart n d'"
    "\<lbrakk>n \<in> set (backup_names ts d); n' \<in> set (backup_names ts d'); d \<noteq> d'\<rbrakk> \<Longrightarrow> apart n n'"
  using assms unfolding separate_def by blast+

lemma separate_subset: "separate ts all \<Longrightarrow> set ds \<subseteq> set all \<Longrightarrow> distinct ds \<Longrightarrow> separate ts ds"
  unfolding separate_def by blast

lemma separate_tl: "separate ts (d # ds) \<Longrightarrow> separate ts ds"
  by (simp add: separate_def)

subsection \<open>Backing up\<close>

lemma look_mkdirs:
  "mkdirs ps fs = (r, fs') \<Longrightarrow> lf_faults fs' = lf_faults fs \<and> dev fs' = dev fs \<and>
     (\<forall>q. look fs' q = look fs q \<or> look fs q = None \<and> look fs' q = Some DirE \<and> q \<in> set ps)"
proof (induction ps arbitrary: fs)
  case (Cons p ps)
  show ?case
  proof (cases "look fs p")
    case None
    show ?thesis
    proof (cases "mkdir_fails (lf_faults fs) p")
      case False
      with None Cons.prems have "mkdirs ps (fs\<lparr>tree := (p, DirE) # tree fs\<rparr>) = (r, fs')" by simp
      from Cons.IH [OF this] None show ?thesis by (auto simp: look_def split: if_splits)
    qed (use Cons.prems None in auto)
  next
    case (Some e)
    with Cons show ?thesis by (cases e) auto
  qed
qed simp

lemma strict_prefix_butlast:
  assumes "d \<noteq> []" "prefix q (butlast d)"
  shows "strict_prefix q d"
proof -
  obtain x where "d = butlast d @ [x]" using assms(1) by (metis append_butlast_last_id)
  then have "strict_prefix (butlast d) d" by (metis strict_prefixI')
  with assms(2) show ?thesis by (rule prefix_order.le_less_trans)
qed

lemma fs_rename_Ok:
  "fs_rename src dst fs = (Inr u, fs') \<Longrightarrow> src \<noteq> dst \<Longrightarrow> fs' = fs\<lparr>tree := move_tree src dst (tree fs)\<rparr>"
  by (auto simp: fs_rename_def split: if_splits)

text \<open>The effect of backing up one destination.\<close>

lemma backup_destination_effect:
  assumes "ready ts fs d" "apart (backup_name ts fs d) d" "backup_destination ts d g fs = (None, g', fs')"
  shows "lf_faults fs' = lf_faults fs \<and> dev fs' = dev fs \<and> g' = g @ [(d, planned ts fs d)] \<and>
    (\<forall>s. look fs' (d @ s) = None) \<and>
    (look fs d \<noteq> None \<longrightarrow> (\<forall>s. look fs' (backup_name ts fs d @ s) = look fs (d @ s))) \<and>
    (\<forall>q. \<not> prefix d q \<longrightarrow> planned ts fs d = None \<or> \<not> prefix (backup_name ts fs d) q \<longrightarrow>
       look fs' q = look fs q \<or> look fs q = None \<and> look fs' q = Some DirE \<and> strict_prefix q d)"
proof (cases "look fs d")
  case None
  then have m: "mkdirs (prefixes (butlast d)) fs = (Ok (), fs')" "g' = g @ [(d, None)]"
    using assms(1,3) by (auto simp: backup_destination_def path_exists_def path_parent_def ready_def
        create_dir_all_def split: prod.splits sum.splits)
  have "strict_prefix q d" if "q \<in> set (prefixes (butlast d))" for q
    using that strict_prefix_butlast [of d q] assms(1) by (simp add: ready_def)
  moreover have "\<not> strict_prefix (d @ s) d" for s by (auto simp: strict_prefix_def)
  ultimately show ?thesis
    using look_mkdirs [OF m(1)] m(2) None assms(1) unfolding planned_def ready_def
    by simp metis
next
  case (Some e)
  let ?n = "backup_name ts fs d"
  have ap: "apart d ?n" using apart_sym [OF assms(2)] .
  then have ne: "d \<noteq> ?n" by (auto simp: apart_def)
  obtain u where "fs_rename d ?n fs = (Inr u, fs')" "g' = g @ [(d, Some ?n)]"
    using assms(1,3) Some
    by (auto simp: backup_destination_def path_exists_def path_parent_def ready_def is_same_device_def
        backup_path_def Let_def split: prod.splits sum.splits if_splits bool.splits)
  then have "fs' = fs\<lparr>tree := move_tree d ?n (tree fs)\<rparr>" "g' = g @ [(d, Some ?n)]"
    using fs_rename_Ok ne by auto
  then show ?thesis
    using Some look_move [OF ap, of "tree fs"] apart_below [OF ap]
    by (simp add: planned_def look_def)
qed

text \<open>A destination that cannot be backed up: at most missing ancestors were created.\<close>

lemma backup_destination_failed:
  assumes "ready ts fs d" "backup_destination ts d g fs = (Some e, g', fs')"
  shows "g' = g \<and> lf_faults fs' = lf_faults fs \<and>
    (\<forall>q. look fs' q = look fs q \<or> look fs q = None \<and> look fs' q = Some DirE \<and> strict_prefix q d)"
proof (cases "look fs d")
  case None
  then obtain r where m: "mkdirs (prefixes (butlast d)) fs = (r, fs')" "g' = g"
    using assms by (auto simp: backup_destination_def path_exists_def path_parent_def ready_def
        create_dir_all_def split: prod.splits sum.splits)
  have "strict_prefix q d" if "q \<in> set (prefixes (butlast d))" for q
    using that strict_prefix_butlast [of d q] assms(1) by (simp add: ready_def)
  then show ?thesis using look_mkdirs [OF m(1)] m(2) by metis
next
  case (Some e)
  then have "fs' = fs \<and> g' = g"
    using assms by (auto simp: backup_destination_def path_exists_def path_parent_def ready_def is_same_device_def
        backup_path_def fs_rename_def Let_def split: prod.splits sum.splits if_splits bool.splits)
  then show ?thesis by simp
qed

text \<open>
  \<open>framed\<close>: outside the destinations \<open>ds\<close> and their backups nothing changed, except that missing
  ancestors of destinations are now directories.
\<close>

definition framed :: "path list \<Rightarrow> (path \<Rightarrow> path option) \<Rightarrow> local_fs \<Rightarrow> local_fs \<Rightarrow> bool" where
  "framed ds bk fs fs' \<longleftrightarrow>
     (\<forall>q. (\<forall>d \<in> set ds. \<not> prefix d q \<and> (\<forall>n. bk d = Some n \<longrightarrow> \<not> prefix n q)) \<longrightarrow>
        look fs' q = look fs q \<or> look fs q = None \<and> look fs' q = Some DirE \<and> (\<exists>d \<in> set ds. strict_prefix q d))"

lemma framed_region:
  assumes "framed ds bk fs fs'" "\<And>d. d \<in> set ds \<Longrightarrow> apart r d" "\<And>d n. d \<in> set ds \<Longrightarrow> bk d = Some n \<Longrightarrow> apart r n"
  shows "look fs' (r @ s) = look fs (r @ s)"
proof -
  have "\<not> prefix d (r @ s)" "\<not> strict_prefix (r @ s) d" if "d \<in> set ds" for d
    using assms(2) [OF that] apart_below [of r d "r @ s"] 
    by (auto simp: apart_def strict_prefix_def dest: append_prefixD)
  moreover have "\<not> prefix n (r @ s)" if "d \<in> set ds" "bk d = Some n" for d n
    using apart_below [OF assms(3) [OF that]] by simp
  ultimately show ?thesis using assms(1) unfolding framed_def by metis
qed

lemma framed_dir:
  assumes "framed ds bk fs fs'" "look fs (butlast p) = Some DirE" "p \<noteq> []"
    "\<And>d. d \<in> set ds \<Longrightarrow> apart p d" "\<And>d n. d \<in> set ds \<Longrightarrow> bk d = Some n \<Longrightarrow> apart p n"
  shows "look fs' (butlast p) = Some DirE"
proof -
  have "\<not> prefix r (butlast p)" if "apart p r" for r
    using that strict_prefix_butlast [OF assms(3), of r] by (auto simp: apart_def strict_prefix_def)
  then show ?thesis using assms unfolding framed_def by (metis option.distinct(1))
qed

lemma framed_Cons:
  assumes "framed [d] bk fs fs1" "framed ds bk fs1 fs2"
  shows "framed (d # ds) bk fs fs2"
  using assms unfolding framed_def by (auto; metis)

lemma framed_cong: "(\<And>d. d \<in> set ds \<Longrightarrow> bk d = bk' d) \<Longrightarrow> framed ds bk fs fs' = framed ds bk' fs fs'"
  unfolding framed_def by (simp cong: ball_cong)

lemma planned_SomeD: "planned ts fs d = Some n \<Longrightarrow> n = backup_name ts fs d \<and> look fs d \<noteq> None"
  by (simp add: planned_def split: if_splits)

lemma backup_name_frame:
  assumes "\<And>n. n \<in> set (backup_names ts d) \<Longrightarrow> look fs' n = look fs n"
  shows "backup_name ts fs' d = backup_name ts fs d"
  using assms by (simp add: backup_name_def backup_names_def path_exists_def Let_def)

text \<open>Backing up some destinations leaves the others as they were.\<close>

lemma ready_frame:
  assumes "separate ts all" "set ds \<subseteq> set all" "d' \<in> set all" "d' \<notin> set ds"
    "framed ds (planned ts fs) fs fs'" "dev fs' = dev fs" "ready ts fs d'"
  shows "ready ts fs' d' \<and> planned ts fs' d' = planned ts fs d' \<and> (\<forall>s. look fs' (d' @ s) = look fs (d' @ s))"
proof -
  have ap: "apart d' d" "\<And>n. planned ts fs d = Some n \<Longrightarrow> apart d' n" if "d \<in> set ds" for d
    using separateD [OF assms(1)] that assms(2-4) backup_name_in by (metis apart_sym planned_SomeD subset_iff)+
  have apn: "apart n' d" "\<And>n. planned ts fs d = Some n \<Longrightarrow> apart n' n"
    if "d \<in> set ds" "n' \<in> set (backup_names ts d')" for d n'
    using separateD [OF assms(1)] that assms(2-4) backup_name_in by (metis apart_sym planned_SomeD subset_iff)+
  have l: "look fs' (d' @ s) = look fs (d' @ s)" for s
    by (rule framed_region [OF assms(5)]) (use ap in auto)
  have ln: "look fs' n' = look fs n'" if "n' \<in> set (backup_names ts d')" for n'
    using framed_region [OF assms(5), of n' "[]"] apn that by simp
  have "look fs (butlast d') = Some DirE \<Longrightarrow> look fs' (butlast d') = Some DirE"
    using framed_dir [OF assms(5), of d'] ap assms(7) by (simp add: ready_def)
  then show ?thesis
    using l l [of "[]"] backup_name_frame [OF ln] ln backup_name_in assms(6,7)
    unfolding ready_def planned_def by simp
qed

lemma backup_loop_effect:
  assumes "\<And>d. d \<in> set ds \<Longrightarrow> ready ts fs d" "separate ts ds" "backup_loop ts ds g fs = (None, g', fs')"
  shows "lf_faults fs' = lf_faults fs \<and> dev fs' = dev fs \<and> g' = g @ map (\<lambda>d. (d, planned ts fs d)) ds \<and>
    (\<forall>d \<in> set ds. \<forall>s. look fs' (d @ s) = None \<and>
       (look fs d \<noteq> None \<longrightarrow> look fs' (backup_name ts fs d @ s) = look fs (d @ s))) \<and>
    framed ds (planned ts fs) fs fs'"
  using assms
proof (induction ds arbitrary: g fs)
  case Nil
  then show ?case by (simp add: framed_def)
next
  case (Cons d ds)
  let ?n = "backup_name ts fs d"
  from Cons.prems(3) obtain g1 fs1 where b: "backup_destination ts d g fs = (None, g1, fs1)"
    and l: "backup_loop ts ds g1 fs1 = (None, g', fs')"
    by (auto split: prod.splits option.splits)
  have ap: "apart ?n d" by (rule separateD(2) [OF Cons.prems(2) _ _ backup_name_in]) auto
  note E = backup_destination_effect [OF Cons.prems(1) [of d] ap b, simplified]
  have f1: "framed [d] (planned ts fs) fs fs1"
    using E unfolding framed_def by (auto simp: planned_def)
  have R: "ready ts fs1 d'" "planned ts fs1 d' = planned ts fs d'" "look fs1 (d' @ s) = look fs (d' @ s)"
    if "d' \<in> set ds" for d' s
    using ready_frame [OF Cons.prems(2) _ _ _ f1, of d'] E Cons.prems(1,2) that by (auto simp: separate_def)
  note I = Cons.IH [OF R(1) separate_tl [OF Cons.prems(2)] l]
  have f2: "framed ds (planned ts fs) fs1 fs'"
    using I E framed_cong [of ds "planned ts fs1" "planned ts fs"] R(2) by blast
  have k: "look fs' (r @ s) = look fs1 (r @ s)" if r: "r = d \<or> r = ?n" for r s
  proof (rule framed_region [OF f2])
    fix d' assume d': "d' \<in> set ds"
    then have i: "d' \<noteq> d" "d \<in> set (d # ds)" "d' \<in> set (d # ds)" using Cons.prems(2) by (auto simp: separate_def)
    show "apart r d'"
      using r separateD(1,2) [OF Cons.prems(2) i(2,3)] i(1) backup_name_in by auto
    fix n' assume "planned ts fs d' = Some n'"
    then have n': "n' \<in> set (backup_names ts d')" using planned_SomeD backup_name_in by metis
    show "apart r n'"
      using r separateD(2) [OF Cons.prems(2) i(3,2) n'] separateD(3) [OF Cons.prems(2) i(2,3) backup_name_in n'] i(1)
      by (auto intro: apart_sym)
  qed
  have bn: "look fs d' \<noteq> None \<Longrightarrow> backup_name ts fs1 d' = backup_name ts fs d'" if "d' \<in> set ds" for d'
    using R(2) [OF that] R(3) [OF that, of "[]"] by (auto simp: planned_def)
  have "look fs' (d' @ s) = None \<and> (look fs d' \<noteq> None \<longrightarrow> look fs' (backup_name ts fs d' @ s) = look fs (d' @ s))"
    if "d' \<in> set (d # ds)" for d' s
  proof (cases "d' = d")
    case True
    then show ?thesis using E k by simp
  next
    case False
    with that have "d' \<in> set ds" by simp
    with I E bn R(3) [OF this] R(3) [OF this, of "[]"] show ?thesis by auto
  qed
  then show ?case using I E R(2) framed_Cons [OF f1 f2] by simp
qed

text \<open>The file system stays a tree.\<close>

fun chain :: "path list \<Rightarrow> bool" where
  "chain (p # q # ps) \<longleftrightarrow> butlast q = p \<and> chain (q # ps)"
| "chain _ \<longleftrightarrow> True"

lemma chain_Cons: "chain (p # ps) \<longleftrightarrow> (ps \<noteq> [] \<longrightarrow> butlast (hd ps) = p) \<and> chain ps"
  by (cases ps) auto

lemma chain_map_Cons: "chain ps \<Longrightarrow> [] \<notin> set (tl ps) \<Longrightarrow> ps \<noteq> [] \<Longrightarrow> hd ps = [] \<Longrightarrow> chain ([] # map ((#) x) ps)"
proof -
  assume "chain ps" "[] \<notin> set (tl ps)" "ps \<noteq> []" "hd ps = []"
  have "chain (map ((#) x) qs)" if "chain qs" "[] \<notin> set (tl qs)" for qs
    using that by (induction qs rule: chain.induct) auto
  from this [OF \<open>chain ps\<close> \<open>[] \<notin> _\<close>] \<open>ps \<noteq> []\<close> \<open>hd ps = []\<close> show ?thesis by (cases ps) auto
qed

lemma chain_prefixes: "chain (prefixes p) \<and> prefixes p \<noteq> [] \<and> hd (prefixes p) = [] \<and> [] \<notin> set (tl (prefixes p))"
  by (induction p) (auto simp: chain_map_Cons)

lemma tree_ok_add_dir:
  assumes "tree_ok fs" "p = [] \<or> look fs (butlast p) = Some DirE" "look fs p = None"
  shows "tree_ok (fs\<lparr>tree := (p, DirE) # tree fs\<rparr>)"
  using assms unfolding tree_ok_def look_def by (auto split: if_splits)

lemma mkdirs_tree_ok:
  "\<lbrakk>mkdirs ps fs = (r, fs'); chain ps; ps \<noteq> [] \<longrightarrow> hd ps = [] \<or> look fs (butlast (hd ps)) = Some DirE; tree_ok fs\<rbrakk>
     \<Longrightarrow> tree_ok fs'"
proof (induction ps arbitrary: fs)
  case (Cons p ps)
  have pp: "p = [] \<or> look fs (butlast p) = Some DirE" using Cons.prems(3) by simp
  have next': "ps \<noteq> [] \<longrightarrow> butlast (hd ps) = p" "chain ps" using Cons.prems(2) by (auto simp: chain_Cons)
  show ?case
  proof (cases "look fs p")
    case None
    let ?fs = "fs\<lparr>tree := (p, DirE) # tree fs\<rparr>"
    have "tree_ok ?fs" using tree_ok_add_dir [OF Cons.prems(4) pp None] .
    moreover have "look ?fs p = Some DirE" by (simp add: look_def)
    ultimately show ?thesis using Cons.IH [of ?fs] Cons.prems(1,4) None next' by (auto split: if_splits)
  next
    case (Some e)
    then show ?thesis using Cons next' by (cases e) auto
  qed
qed simp

lemma move_tree_ok:
  assumes "tree_ok fs" "apart d n" "d \<noteq> []" "butlast n = butlast d" "look fs (butlast d) = Some DirE"
  shows "tree_ok (fs\<lparr>tree := move_tree d n (tree fs)\<rparr>)"
  unfolding tree_ok_def
proof (intro allI impI)
  fix q
  let ?l = "look (fs\<lparr>tree := move_tree d n (tree fs)\<rparr>)"
  have l: "?l q = (if prefix n q then look fs (d @ drop (length n) q) else if prefix d q then None else look fs q)" for q
    using look_move [OF assms(2), of "tree fs" q] by (simp add: look_def)
  assume q: "?l q \<noteq> None" "q \<noteq> []"
  have nn: "n \<noteq> []" using assms(2) by (auto simp: apart_def)
  have up: "\<not> prefix n (butlast d)" "\<not> prefix d (butlast d)"
    using strict_prefix_butlast [OF assms(3), of d] strict_prefix_butlast [OF nn, of n] assms(4)
    by (auto simp: strict_prefix_def)
  show "?l (butlast q) = Some DirE"
  proof (cases "prefix n q")
    case True
    then obtain s where s: "q = n @ s" by (auto simp: prefix_def)
    show ?thesis
    proof (cases "s = []")
      case True
      then show ?thesis using s l [of "butlast n"] up assms(4,5) by simp
    next
      case False
      then have "look fs (butlast (d @ s)) = Some DirE" using q(1) s l assms(1) unfolding tree_ok_def by simp
      then show ?thesis using s False l by (simp add: butlast_append)
    qed
  next
    case False
    have "look fs q \<noteq> None" "\<not> prefix d q" using q(1) l False by (auto split: if_splits)
    moreover have "\<not> prefix r (butlast q)" if "\<not> prefix r q" for r
      using that strict_prefix_butlast [OF q(2), of r] by (auto simp: strict_prefix_def)
    ultimately show ?thesis using l False q(2) assms(1) unfolding tree_ok_def by simp
  qed
qed

lemma backup_destination_tree_ok:
  assumes "ready ts fs d" "apart (backup_name ts fs d) d" "tree_ok fs" "backup_destination ts d g fs = (r, g', fs')"
  shows "tree_ok fs'"
proof (cases "look fs d")
  case None
  then obtain r where "mkdirs (prefixes (butlast d)) fs = (r, fs')"
    using assms(1,4) by (auto simp: backup_destination_def path_exists_def path_parent_def ready_def
        create_dir_all_def split: prod.splits sum.splits)
  then show ?thesis using mkdirs_tree_ok chain_prefixes assms(3) by blast
next
  case (Some e)
  let ?n = "backup_name ts fs d"
  have ap: "apart d ?n" using apart_sym [OF assms(2)] .
  have "butlast ?n = butlast d" using assms(1) by (simp add: ready_def backup_name_def with_added_extension_def Let_def)
  then have m: "tree_ok (fs\<lparr>tree := move_tree d ?n (tree fs)\<rparr>)"
    using move_tree_ok [OF assms(3) ap] assms(1) Some by (simp add: ready_def)
  have "fs' = fs \<or> fs' = fs\<lparr>tree := move_tree d ?n (tree fs)\<rparr>"
    using assms(1,4) Some
    by (auto simp: backup_destination_def path_exists_def path_parent_def ready_def is_same_device_def
        backup_path_def fs_rename_def Let_def split: prod.splits sum.splits if_splits bool.splits)
  with m assms(3) show ?thesis by auto
qed

lemma backup_loop_tree_ok:
  assumes "\<And>d. d \<in> set ds \<Longrightarrow> ready ts fs d" "separate ts ds" "tree_ok fs" "backup_loop ts ds g fs = (None, g', fs')"
  shows "tree_ok fs'"
  using assms
proof (induction ds arbitrary: g fs)
  case (Cons d ds)
  let ?n = "backup_name ts fs d"
  from Cons.prems(4) obtain g1 fs1 where b: "backup_destination ts d g fs = (None, g1, fs1)"
    and l: "backup_loop ts ds g1 fs1 = (None, g', fs')"
    by (auto split: prod.splits option.splits)
  have ap: "apart ?n d" by (rule separateD(2) [OF Cons.prems(2) _ _ backup_name_in]) auto
  note E = backup_destination_effect [OF Cons.prems(1) [of d] ap b, simplified]
  have f1: "framed [d] (planned ts fs) fs fs1"
    using E unfolding framed_def by (auto simp: planned_def)
  have "ready ts fs1 d'" if "d' \<in> set ds" for d'
    using ready_frame [OF Cons.prems(2) _ _ _ f1, of d'] E Cons.prems(1,2) that by (auto simp: separate_def)
  then show ?case
    using Cons.IH [OF _ separate_tl [OF Cons.prems(2)] _ l] backup_destination_tree_ok [OF _ ap Cons.prems(3) b] Cons.prems(1)
    by auto
qed simp

text \<open>Once backed up, every destination has a parent directory.\<close>

lemma mkdirs_dirs: "mkdirs ps fs = (Ok (), fs') \<Longrightarrow> p \<in> set ps \<Longrightarrow> look fs' p = Some DirE"
proof (induction ps arbitrary: fs)
  case (Cons x ps)
  obtain fs1 where "mkdirs ps fs1 = (Ok (), fs')" "look fs1 x = Some DirE"
  proof (cases "look fs x")
    case None
    then show ?thesis using that [of "fs\<lparr>tree := (x, DirE) # tree fs\<rparr>"] Cons.prems(1)
      by (auto simp: look_def split: if_splits)
  next
    case (Some e)
    then show ?thesis using that [of fs] Cons.prems(1) by (cases e) auto
  qed
  then show ?case using Cons.IH [of fs1] look_mkdirs [of ps fs1 "Ok ()" fs'] Cons.prems(2) by force
qed simp

lemma backup_destination_parent:
  assumes "ready ts fs d" "apart (backup_name ts fs d) d" "backup_destination ts d g fs = (None, g', fs')"
  shows "look fs' (butlast d) = Some DirE"
proof (cases "look fs d")
  case None
  then have "mkdirs (prefixes (butlast d)) fs = (Ok (), fs')"
    using assms(1,3) by (auto simp: backup_destination_def path_exists_def path_parent_def ready_def
        create_dir_all_def split: prod.splits sum.splits)
  then show ?thesis using mkdirs_dirs [of _ fs fs' "butlast d"] by simp
next
  case (Some e)
  have "d \<noteq> []" "look fs (butlast d) = Some DirE" using assms(1) Some by (auto simp: ready_def)
  moreover from this have "\<not> prefix d (butlast d)" "\<not> prefix (backup_name ts fs d) (butlast d)"
    using strict_prefix_butlast [of d] assms(2) by (auto simp: apart_def strict_prefix_def)
  ultimately show ?thesis using backup_destination_effect [OF assms] by auto
qed

lemma backup_loop_parents:
  assumes "\<And>d. d \<in> set ds \<Longrightarrow> ready ts fs d" "separate ts ds" "backup_loop ts ds g fs = (None, g', fs')" "d \<in> set ds"
  shows "look fs' (butlast d) = Some DirE"
  using assms
proof (induction ds arbitrary: g fs)
  case (Cons x ds)
  let ?n = "backup_name ts fs x"
  from Cons.prems(3) obtain g1 fs1 where b: "backup_destination ts x g fs = (None, g1, fs1)"
    and l: "backup_loop ts ds g1 fs1 = (None, g', fs')"
    by (auto split: prod.splits option.splits)
  have ap: "apart ?n x" by (rule separateD(2) [OF Cons.prems(2) _ _ backup_name_in]) auto
  note E = backup_destination_effect [OF Cons.prems(1) [of x] ap b, simplified]
  have f1: "framed [x] (planned ts fs) fs fs1"
    using E unfolding framed_def by (auto simp: planned_def)
  have R: "ready ts fs1 d'" if "d' \<in> set ds" for d'
    using ready_frame [OF Cons.prems(2) _ _ _ f1, of d'] E Cons.prems(1,2) that by (auto simp: separate_def)
  show ?case
  proof (cases "d = x")
    case True
    have f2: "framed ds (planned ts fs1) fs1 fs'"
      using backup_loop_effect [OF R separate_tl [OF Cons.prems(2)] l] by blast
    have ne: "x \<noteq> []" using Cons.prems(1) [of x] by (simp add: ready_def)
    have i: "x \<notin> set ds" using Cons.prems(2) by (simp add: separate_def)
    have ad: "apart x d'" if "d' \<in> set ds" for d'
      using separateD(1) [OF Cons.prems(2), of x d'] that i by auto
    have an: "apart x n" if "d' \<in> set ds" "planned ts fs1 d' = Some n" for d' n
      using apart_sym [OF separateD(2) [OF Cons.prems(2), of d' x n]] that planned_SomeD [OF that(2)] backup_name_in by simp
    show ?thesis
      using framed_dir [OF f2 _ ne] ad an backup_destination_parent [OF Cons.prems(1) [of x] ap b] True by simp
  next
    case False
    then show ?thesis using Cons.IH [OF R separate_tl [OF Cons.prems(2)] l] Cons.prems(4) by auto
  qed
qed simp

text \<open>A failed loop: some destinations were backed up, the next one was not.\<close>

lemma backup_loop_failed:
  "backup_loop ts ds g fs = (Some e, g', fs') \<Longrightarrow>
     \<exists>ds1 d ds2 g1 fs1. ds = ds1 @ d # ds2 \<and> backup_loop ts ds1 g fs = (None, g1, fs1) \<and>
       backup_destination ts d g1 fs1 = (Some e, g', fs')"
proof (induction ds arbitrary: g fs)
  case (Cons d ds)
  show ?case
  proof (cases "backup_destination ts d g fs")
    case (fields r g1 fs1)
    show ?thesis
    proof (cases r)
      case None
      then obtain ds1 d' ds2 g2 fs2 where "ds = ds1 @ d' # ds2" "backup_loop ts ds1 g1 fs1 = (None, g2, fs2)"
        "backup_destination ts d' g2 fs2 = (Some e, g', fs')"
        using Cons.IH [of g1 fs1] Cons.prems fields by auto
      then show ?thesis using fields None
        by (intro exI [of _ "d # ds1"] exI [of _ d'] exI [of _ ds2] exI [of _ g2] exI [of _ fs2]) simp
    next
      case (Some x)
      then show ?thesis using Cons.prems fields by (intro exI [of _ "[]"] exI [of _ d] exI [of _ ds] exI [of _ g] exI [of _ fs]) simp
    qed
  qed
qed simp

subsection \<open>Reverting\<close>

text \<open>One round of the loop of \<open>revert\<close>.\<close>

lemma revert_step:
  assumes "\<And>p. \<not> remove_fails (lf_faults fs) p" "d \<noteq> []" "\<And>s. look fs d = None \<Longrightarrow> look fs (d @ s) = None"
    "\<And>n. b = Some n \<Longrightarrow> look fs n \<noteq> None \<and> look fs (butlast d) = Some DirE \<and> apart n d \<and>
       \<not> rename_fails (lf_faults fs) n d"
  shows "\<exists>fs1. revert ((d, b) # ps) fs = revert ps fs1 \<and> lf_faults fs1 = lf_faults fs \<and>
    (\<forall>s. look fs1 (d @ s) = (case b of None \<Rightarrow> None | Some n \<Rightarrow> look fs (n @ s))) \<and>
    (\<forall>n s. b = Some n \<longrightarrow> look fs1 (n @ s) = None) \<and>
    (\<forall>q. \<not> prefix d q \<longrightarrow> (\<forall>n. b = Some n \<longrightarrow> \<not> prefix n q) \<longrightarrow> look fs1 q = look fs q)"
proof -
  define fs0 where "fs0 = (if path_exists fs d then snd (fs_remove d fs) else fs)"
  have l0: "look fs0 q = (if prefix d q then None else look fs q)" "lf_faults fs0 = lf_faults fs" for q
    using assms(1,3) unfolding fs0_def
    by (auto simp: path_exists_def fs_remove_def look_def look_remove elim!: prefixE)
  show ?thesis
  proof (cases b)
    case None
    then show ?thesis using l0 by (intro exI [of _ fs0]) (simp add: fs0_def Let_def)
  next
    case (Some n)
    with assms(4) have n: "look fs n \<noteq> None" "look fs (butlast d) = Some DirE" "apart n d" "\<not> rename_fails (lf_faults fs) n d" by auto
    have "look fs0 n \<noteq> None" "look fs0 (butlast d) = Some DirE" "look fs0 d = None"
      using n l0 strict_prefix_butlast [OF assms(2), of d] by (auto simp: apart_def strict_prefix_def)
    then have r: "fs_rename n d fs0 = (Ok (), fs0\<lparr>tree := move_tree n d (tree fs0)\<rparr>)"
      using l0(2) n(3,4) assms(2) by (auto simp: fs_rename_def can_replace_def apart_def)
    have m: "look (fs0\<lparr>tree := move_tree n d (tree fs0)\<rparr>) q =
        (if prefix d q then look fs0 (n @ drop (length d) q) else if prefix n q then None else look fs0 q)" for q
      using look_move [OF n(3), of "tree fs0"] by (simp add: look_def)
    have "\<not> prefix d (n @ s)" for s using apart_below [OF n(3)] by simp
    then show ?thesis using r l0 Some m
      by (intro exI [of _ "fs0\<lparr>tree := move_tree n d (tree fs0)\<rparr>"]) (simp add: fs0_def Let_def)
  qed
qed

text \<open>What \<open>revert\<close> does on destinations whose backups are in place.\<close>

lemma revert_effect:
  assumes "\<And>p. \<not> remove_fails (lf_faults fs) p" "distinct ds" "[] \<notin> set ds"
    "\<And>d s. d \<in> set ds \<Longrightarrow> look fs d = None \<Longrightarrow> look fs (d @ s) = None"
    "\<And>d n. d \<in> set ds \<Longrightarrow> bk d = Some n \<Longrightarrow> look fs n \<noteq> None \<and> look fs (butlast d) = Some DirE \<and> \<not> rename_fails (lf_faults fs) n d"
    "\<And>d d'. \<lbrakk>d \<in> set ds; d' \<in> set ds; d \<noteq> d'\<rbrakk> \<Longrightarrow> apart d d'"
    "\<And>d d' n. \<lbrakk>d \<in> set ds; d' \<in> set ds; bk d = Some n\<rbrakk> \<Longrightarrow> apart n d'"
    "\<And>d d' n n'. \<lbrakk>d \<in> set ds; d' \<in> set ds; d \<noteq> d'; bk d = Some n; bk d' = Some n'\<rbrakk> \<Longrightarrow> apart n n'"
  shows "\<forall>q. look (revert (map (\<lambda>d. (d, bk d)) ds) fs) q =
    (case find (\<lambda>d. prefix d q) ds of
       Some d \<Rightarrow> (case bk d of None \<Rightarrow> None | Some n \<Rightarrow> look fs (n @ drop (length d) q))
     | None \<Rightarrow> if \<exists>d \<in> set ds. \<exists>n. bk d = Some n \<and> prefix n q then None else look fs q)"
  using assms
proof (induction ds arbitrary: fs)
  case Nil
  then show ?case by simp
next
  case (Cons d ds)
  have pre: "d \<noteq> []" "\<And>s. look fs d = None \<Longrightarrow> look fs (d @ s) = None"
    "\<And>n. bk d = Some n \<Longrightarrow> look fs n \<noteq> None \<and> look fs (butlast d) = Some DirE \<and> apart n d \<and>
       \<not> rename_fails (lf_faults fs) n d"
    using Cons.prems(3) Cons.prems(4,5,7) [of d] by fastforce+
  from revert_step [OF Cons.prems(1) pre, where ps = "map (\<lambda>d. (d, bk d)) ds"]
  obtain fs1 where r: "revert ((d, bk d) # map (\<lambda>d. (d, bk d)) ds) fs = revert (map (\<lambda>d. (d, bk d)) ds) fs1"
    and f: "lf_faults fs1 = lf_faults fs"
    and under: "\<And>s. look fs1 (d @ s) = (case bk d of None \<Rightarrow> None | Some n \<Rightarrow> look fs (n @ s))"
    and gone: "\<And>n s. bk d = Some n \<Longrightarrow> look fs1 (n @ s) = None"
    and rest: "\<And>q. \<not> prefix d q \<Longrightarrow> (\<And>n. bk d = Some n \<Longrightarrow> \<not> prefix n q) \<Longrightarrow> look fs1 q = look fs q"
    by blast
  have keep: "look fs1 (r @ s) = look fs (r @ s)"
    if "apart r d" "\<And>n. bk d = Some n \<Longrightarrow> apart r n" for r s
    by (rule rest) (use that apart_below [of r _ "r @ s"] in auto)
  have ap: "apart d' d" "\<And>n. bk d = Some n \<Longrightarrow> apart d' n" if "d' \<in> set ds" for d'
    using that Cons.prems(2) Cons.prems(6) [of d' d] Cons.prems(7) [of d d', THEN apart_sym] by auto
  have apn: "apart n' d" "\<And>n. bk d = Some n \<Longrightarrow> apart n' n" if "d' \<in> set ds" "bk d' = Some n'" for d' n'
    using that Cons.prems(2) Cons.prems(7) [of d' d n'] Cons.prems(8) [of d' d n'] by auto
  have k: "look fs1 (d' @ s) = look fs (d' @ s)" if "d' \<in> set ds" for d' s
    using keep ap [OF that] by blast
  have kn: "look fs1 (n' @ s) = look fs (n' @ s)" if "d' \<in> set ds" "bk d' = Some n'" for d' n' s
    using keep apn [OF that] by blast
  have kb: "look fs1 (butlast d') = look fs (butlast d')" if "d' \<in> set ds" for d'
  proof (rule rest)
    have "d' \<noteq> []" using Cons.prems(3) that by auto
    then have "\<not> prefix r (butlast d')" if "apart d' r" for r
      using that strict_prefix_butlast [of d' r] by (auto simp: apart_def strict_prefix_def)
    with ap [OF that] show "\<not> prefix d (butlast d')" "\<And>n. bk d = Some n \<Longrightarrow> \<not> prefix n (butlast d')" by auto
  qed
  have I: "\<forall>q. look (revert (map (\<lambda>d. (d, bk d)) ds) fs1) q =
    (case find (\<lambda>d. prefix d q) ds of
       Some d \<Rightarrow> (case bk d of None \<Rightarrow> None | Some n \<Rightarrow> look fs1 (n @ drop (length d) q))
     | None \<Rightarrow> if \<exists>d \<in> set ds. \<exists>n. bk d = Some n \<and> prefix n q then None else look fs1 q)"
  proof (rule Cons.IH)
    show "\<not> remove_fails (lf_faults fs1) p" for p using Cons.prems(1) f by simp
    show "look fs1 (d' @ s) = None" if "d' \<in> set ds" "look fs1 d' = None" for d' s
      using that k [OF that(1), of "[]"] k Cons.prems(4) by simp
    show "look fs1 n \<noteq> None \<and> look fs1 (butlast d') = Some DirE \<and> \<not> rename_fails (lf_faults fs1) n d'" if "d' \<in> set ds" "bk d' = Some n" for d' n
      using that kn [OF that, of "[]"] kb [OF that(1)] Cons.prems(5) [of d' n] f by simp
    show "apart d1 d2" if "d1 \<in> set ds" "d2 \<in> set ds" "d1 \<noteq> d2" for d1 d2
      using Cons.prems(6) [of d1 d2] that by simp
    show "apart n d2" if "d1 \<in> set ds" "d2 \<in> set ds" "bk d1 = Some n" for d1 d2 n
      using Cons.prems(7) [of d1 d2 n] that by simp
    show "apart n n'" if "d1 \<in> set ds" "d2 \<in> set ds" "d1 \<noteq> d2" "bk d1 = Some n" "bk d2 = Some n'" for d1 d2 n n'
      using Cons.prems(8) [of d1 d2 n n'] that by simp
  qed (use Cons.prems(2,3) in auto)
  have notd: "\<not> prefix d' q" if "prefix d q" "d' \<in> set ds" for d' q
    using apart_below [OF apart_sym [OF ap(1) [OF that(2)]] that(1)] .
  have notn: "\<not> prefix n' q" if "prefix d q" "d' \<in> set ds" "bk d' = Some n'" for d' n' q
    using apart_below [OF apart_sym [OF apn(1) [OF that(2,3)]] that(1)] .
  have notd': "\<not> prefix d' q" if "prefix n q" "bk d = Some n" "d' \<in> set ds" for d' n q
    using apart_below [OF apart_sym [OF ap(2) [OF that(3,2)]] that(1)] .
  show ?case
  proof (intro allI)
    fix q
    consider (d) s where "q = d @ s" | (n) n s where "\<not> prefix d q" "bk d = Some n" "q = n @ s"
      | (else) "\<not> prefix d q" "\<And>n. bk d = Some n \<Longrightarrow> \<not> prefix n q"
      by (auto simp: prefix_def)
    then show "look (revert (map (\<lambda>d. (d, bk d)) (d # ds)) fs) q =
    (case find (\<lambda>d. prefix d q) (d # ds) of
       Some d \<Rightarrow> (case bk d of None \<Rightarrow> None | Some n \<Rightarrow> look fs (n @ drop (length d) q))
     | None \<Rightarrow> if \<exists>d \<in> set (d # ds). \<exists>n. bk d = Some n \<and> prefix n q then None else look fs q)"
    proof cases
      case d
      then have p: "prefix d q" by simp
      have "find (\<lambda>d. prefix d q) ds = None" using notd [OF p] by (auto simp: find_None_iff)
      moreover have "\<not> (\<exists>d \<in> set ds. \<exists>n. bk d = Some n \<and> prefix n q)" using notn [OF p] by blast
      ultimately have "look (revert (map (\<lambda>d. (d, bk d)) ds) fs1) q = look fs1 q" using I by auto
      then show ?thesis using d under r p by (cases "bk d") (simp_all del: revert.simps)
    next
      case n
      then have p: "prefix n q" by simp
      have f: "find (\<lambda>d. prefix d q) ds = None" using notd' [OF p n(2)] by (auto simp: find_None_iff)
      then have "look (revert (map (\<lambda>d. (d, bk d)) ds) fs1) q = None" using I gone [OF n(2)] n(3) by simp
      then show ?thesis using r f n(1,2) p by (auto simp del: revert.simps)
    next
      case else
      then have "look fs1 q = look fs q" using rest by blast
      moreover have "look fs1 (n @ s) = look fs (n @ s)" if "find (\<lambda>d. prefix d q) ds = Some d'" "bk d' = Some n" for d' n s
        using kn [OF _ that(2)] that(1) by (auto simp: find_Some_iff)
      ultimately show ?thesis using else r I by (auto split: option.splits simp del: revert.simps)
    qed
  qed
qed

section \<open>Properties\<close>

definition same_outside :: "path list \<Rightarrow> path list \<Rightarrow> local_fs \<Rightarrow> local_fs \<Rightarrow> bool" where
  "same_outside ds all fs fs' \<longleftrightarrow> (\<forall>q. (\<forall>d \<in> set ds. \<not> prefix d q) \<longrightarrow> look fs' q = look fs q \<or>
     look fs q = None \<and> look fs' q = Some DirE \<and> (\<exists>d \<in> set all. strict_prefix q d))"

text \<open>\<open>restored\<close>: everything is as before, up to new empty directories above missing destinations.\<close>

definition restored :: "path list \<Rightarrow> local_fs \<Rightarrow> local_fs \<Rightarrow> bool" where
  "restored ds fs fs' \<longleftrightarrow> (\<forall>q. look fs' q = look fs q \<or>
     look fs q = None \<and> look fs' q = Some DirE \<and> (\<exists>d \<in> set ds. strict_prefix q d))"

definition backupable :: "nat \<Rightarrow> path list \<Rightarrow> local_fs \<Rightarrow> bool" where
  "backupable ts ds fs \<longleftrightarrow> recoverable ts (lf_faults fs) \<and> tree_ok fs \<and> separate ts ds \<and>
     (\<forall>d \<in> set ds. d \<noteq> [] \<and> dev fs d = dev fs (butlast d) \<and> look fs (backup_name ts fs d) = None)"

lemma backupable_ready:
  "backupable ts ds fs \<Longrightarrow> d \<in> set ds \<Longrightarrow> ready ts fs d"
  by (auto simp: backupable_def ready_def tree_ok_def intro: tree_ok_below [unfolded tree_ok_def])

text \<open>The backups are in place, next to where the destinations were.\<close>

definition in_place :: "nat \<Rightarrow> local_fs \<Rightarrow> path list \<Rightarrow> local_fs \<Rightarrow> bool" where
  "in_place ts fs ds fs2 \<longleftrightarrow> (\<forall>d \<in> set ds. \<forall>n. planned ts fs d = Some n \<longrightarrow>
     (\<forall>s. look fs2 (n @ s) = look fs (d @ s)) \<and> look fs2 (butlast d) = Some DirE)"

lemma planned_names:
  assumes "planned ts fs d = Some n"
  shows "n = backup_name ts fs d" "look fs d \<noteq> None" "n \<in> set (backup_names ts d)"
  using planned_SomeD [OF assms] backup_name_in by auto

lemma in_place_outside:
  assumes "backupable ts all fs" "set ds \<subseteq> set all" "distinct ds"
    "backup_loop ts ds [] fs = (None, g, fs1)" "same_outside ds all fs1 fs2"
  shows "in_place ts fs ds fs2"
  unfolding in_place_def
proof (intro ballI allI impI conjI)
  fix d n
  assume d: "d \<in> set ds" "planned ts fs d = Some n"
  note n = planned_names [OF d(2)]
  have sepa: "separate ts all" and dne: "d \<noteq> []" using assms(1,2) d(1) by (auto simp: backupable_def)
  have sep: "separate ts ds" using separate_subset [OF sepa assms(2,3)] .
  have rd: "\<And>d. d \<in> set ds \<Longrightarrow> ready ts fs d" using backupable_ready [OF assms(1)] assms(2) by blast
  note E = backup_loop_effect [OF rd sep assms(4)]
  have ap: "apart n d'" if "d' \<in> set all" for d'
    using separateD(2) [OF sepa _ that n(3)] d(1) assms(2) by blast
  show "look fs2 (n @ s) = look fs (d @ s)" for s
  proof -
    have "\<not> prefix d' (n @ s)" if "d' \<in> set ds" for d'
      using apart_below [OF ap, of d' "n @ s"] that assms(2) by auto
    moreover have "\<not> strict_prefix (n @ s) d'" if "d' \<in> set all" for d'
      using ap [OF that] by (auto simp: apart_def strict_prefix_def dest: append_prefixD)
    ultimately show ?thesis using assms(5) E d n unfolding same_outside_def by metis
  qed
  have "\<not> prefix d' (butlast d)" if "d' \<in> set ds" for d'
    using strict_prefix_butlast [OF dne, of d'] separateD(1) [OF sep that d(1)]
    by (auto simp: apart_def strict_prefix_def)
  then show "look fs2 (butlast d) = Some DirE"
    using backup_loop_parents [OF rd sep assms(4) d(1)] assms(5) unfolding same_outside_def
    by (metis option.distinct(1))
qed

lemma revert_in_place:
  assumes "backupable ts all fs" "set ds \<subseteq> set all" "distinct ds" "in_place ts fs ds fs2"
    "tree_ok fs2" "lf_faults fs2 = lf_faults fs"
  shows "\<forall>q. look (revert (map (\<lambda>d. (d, planned ts fs d)) ds) fs2) q =
    (case find (\<lambda>d. prefix d q) ds of
       Some d \<Rightarrow> (case planned ts fs d of None \<Rightarrow> None | Some n \<Rightarrow> look fs2 (n @ drop (length d) q))
     | None \<Rightarrow> if \<exists>d \<in> set ds. \<exists>n. planned ts fs d = Some n \<and> prefix n q then None else look fs2 q)"
proof (rule revert_effect)
  let ?bk = "planned ts fs"
  have f: "recoverable ts (lf_faults fs)" and sep: "separate ts ds"
    using assms(1) separate_subset [OF _ assms(2,3)] by (auto simp: backupable_def)
  show "\<not> remove_fails (lf_faults fs2) p" for p using f assms(6) by (simp add: recoverable_def)
  show "[] \<notin> set ds" using assms(1,2) by (auto simp: backupable_def)
  show "look fs2 (d @ s) = None" if "look fs2 d = None" for d s
    using tree_ok_below [OF assms(5) that] by simp
  show "look fs2 n \<noteq> None \<and> look fs2 (butlast d) = Some DirE \<and> \<not> rename_fails (lf_faults fs2) n d"
    if "d \<in> set ds" "?bk d = Some n" for d n
  proof -
    have "\<forall>s. look fs2 (n @ s) = look fs (d @ s)" "look fs2 (butlast d) = Some DirE"
      using assms(4) that by (auto simp: in_place_def)
    from this(1) [rule_format, of "[]"] this(2) show ?thesis
      using planned_names [OF that(2)] f assms(6) by (simp add: recoverable_def)
  qed
  show "apart d1 d2" if "d1 \<in> set ds" "d2 \<in> set ds" "d1 \<noteq> d2" for d1 d2
    by (rule separateD(1) [OF sep that])
  show "apart n d2" if "d1 \<in> set ds" "d2 \<in> set ds" "?bk d1 = Some n" for d1 d2 n
    by (rule separateD(2) [OF sep that(1,2) planned_names(3) [OF that(3)]])
  show "apart n n'" if "d1 \<in> set ds" "d2 \<in> set ds" "d1 \<noteq> d2" "?bk d1 = Some n" "?bk d2 = Some n'" for d1 d2 n n'
    by (rule separateD(3) [OF sep that(1,2) planned_names(3) [OF that(4)] planned_names(3) [OF that(5)] that(3)])
qed (rule assms(3))

text \<open>Whatever happened below the destinations backed up so far, \<open>revert\<close> undoes it.\<close>

lemma revert_restores:
  assumes "backupable ts all fs" "set ds \<subseteq> set all" "distinct ds"
    "backup_loop ts ds [] fs = (None, g, fs1)" "same_outside ds all fs1 fs2" "tree_ok fs2" "lf_faults fs2 = lf_faults fs"
  shows "restored all fs (revert g fs2)"
  unfolding restored_def
proof (intro allI)
  fix q
  let ?bk = "planned ts fs"
  have T: "tree_ok fs" and free: "\<And>d. d \<in> set ds \<Longrightarrow> look fs (backup_name ts fs d) = None"
    and sep: "separate ts ds"
    using assms(1,2) separate_subset [OF _ assms(2,3)] by (auto simp: backupable_def)
  have rd: "\<And>d. d \<in> set ds \<Longrightarrow> ready ts fs d" using backupable_ready [OF assms(1)] assms(2) by blast
  from backup_loop_effect [OF rd sep assms(4)] have g: "g = map (\<lambda>d. (d, ?bk d)) ds" and fr: "framed ds ?bk fs fs1" by auto
  note ip = in_place_outside [OF assms(1-5)]
  note R = revert_in_place [OF assms(1-3) ip assms(6,7), folded g]
  show "look (revert g fs2) q = look fs q \<or>
    look fs q = None \<and> look (revert g fs2) q = Some DirE \<and> (\<exists>d \<in> set all. strict_prefix q d)"
  proof (cases "find (\<lambda>d. prefix d q) ds")
    case (Some d)
    then have d: "d \<in> set ds" "q = d @ drop (length d) q" by (auto simp: find_Some_iff prefix_def)
    show ?thesis
    proof (cases "?bk d")
      case None
      then have "look fs q = None"
        using tree_ok_below [OF T, of d q] d(2) by (metis planned_def option.distinct(1) prefixI)
      then show ?thesis using R Some None by simp
    next
      case (Some n)
      then have "look fs2 (n @ drop (length d) q) = look fs q" using ip d by (metis in_place_def)
      then show ?thesis using R \<open>find _ _ = _\<close> Some by simp
    qed
  next
    case None
    then have nd: "\<And>d. d \<in> set ds \<Longrightarrow> \<not> prefix d q" by (auto simp: find_None_iff)
    show ?thesis
    proof (cases "\<exists>d \<in> set ds. \<exists>n. ?bk d = Some n \<and> prefix n q")
      case True
      then have "look fs q = None" using free planned_names(1) tree_ok_below [OF T] by metis
      then show ?thesis using R None True by simp
    next
      case False
      then have "look (revert g fs2) q = look fs2 q" using R None by auto
      moreover have "look fs1 q = look fs q \<or>
          look fs q = None \<and> look fs1 q = Some DirE \<and> (\<exists>d \<in> set ds. strict_prefix q d)"
        using fr False nd unfolding framed_def by metis
      moreover have "look fs2 q = look fs1 q \<or>
          look fs1 q = None \<and> look fs2 q = Some DirE \<and> (\<exists>d \<in> set all. strict_prefix q d)"
        using assms(5) nd unfolding same_outside_def by blast
      ultimately show ?thesis using assms(2) by (metis subset_iff)
    qed
  qed
qed

text \<open>An error while the destinations are being backed up reverts everything.\<close>

lemma backup_destinations_failed:
  assumes "backupable ts ds fs" "backup_destinations ts ds fs = (Inl e, fs')"
  shows "restored ds fs fs'"
proof -
  obtain g fs1 where l: "backup_loop ts ds [] fs = (Some e, g, fs1)" and fs': "fs' = revert g fs1"
    using assms(2) by (auto simp: backup_destinations_def revert_guard_drop_def split: prod.splits option.splits)
  from backup_loop_failed [OF l] obtain ds1 d ds2 g1 fs0 where ds: "ds = ds1 @ d # ds2"
    and l1: "backup_loop ts ds1 [] fs = (None, g1, fs0)" and b: "backup_destination ts d g1 fs0 = (Some e, g, fs1)"
    by blast
  have sep: "separate ts ds" and T: "tree_ok fs" using assms(1) by (auto simp: backupable_def)
  have sep1': "distinct ds1" "d \<notin> set ds1" using sep ds by (auto simp: separate_def)
  have sep1: "separate ts ds1" by (rule separate_subset [OF sep]) (use sep1' ds in auto)
  have rd: "\<And>x. x \<in> set ds1 \<Longrightarrow> ready ts fs x" "ready ts fs d" using backupable_ready [OF assms(1)] ds by auto
  note E = backup_loop_effect [OF rd(1) sep1 l1]
  have rdd: "ready ts fs0 d"
    using ready_frame [OF sep, of ds1 d fs fs0] E rd(2) sep1'(2) ds by auto
  have ap: "apart (backup_name ts fs0 d) d" by (rule separateD(2) [OF sep _ _ backup_name_in]) (simp_all add: ds)
  note F = backup_destination_failed [OF rdd b]
  have "tree_ok fs1"
    using backup_destination_tree_ok [OF rdd ap backup_loop_tree_ok [OF rd(1) sep1 T l1] b] .
  moreover have "same_outside ds1 ds fs0 fs1" using F ds unfolding same_outside_def by auto
  ultimately show ?thesis
    using revert_restores [OF assms(1) _ sep1'(1) l1, of fs1] F E fs' ds by auto
qed

definition example_lfs :: "(path \<times> fs_entry) list \<Rightarrow> (path \<Rightarrow> nat) \<Rightarrow> local_fs" where
  "example_lfs t dv = \<lparr>tree = t, dev = dv, lf_faults = no_lfs_faults\<rparr>"

definition nested_fs :: local_fs where
  "nested_fs = example_lfs [([], DirE), ([''foo''], DirE), ([''foo'', ''a''], FileE ''x'')] (\<lambda>_. 0)"

text \<open>
  With nested destinations the original data is not recovered: the backup of \<open>foo/a\<close>
  is moved together with \<open>foo\<close>, so that reverting, in the order of the backups, leaves it under the
  name \<open>foo/a.bak\<close>.
\<close>

theorem nested_destinations_not_recovered:
  "case backup_destinations 7 [[''foo'', ''a''], [''foo'']] nested_fs of
     (Inr g, fs) \<Rightarrow>
       look (revert_guard_drop False g fs) [''foo'', ''a''] = None \<and>
       look (revert_guard_drop False g fs) [''foo'', ''a.bak''] = Some (FileE ''x'')
   | _ \<Rightarrow> False"
  by code_simp

definition mounted_fs :: local_fs where
  "mounted_fs = example_lfs [([], DirE), ([''mnt''], DirE), ([''mnt'', ''old''], FileE ''x'')] length"

text \<open>
  When the destination is a mount point only its children are backed up, and reverting
  does not delete what was extracted beside them: \<open>mnt/new\<close> stays.
\<close>

theorem mounted_destination_keeps_new_files:
  "case backup_destinations 7 [[''mnt'']] mounted_fs of
     (Inr g, fs) \<Rightarrow>
       (let fs' = revert_guard_drop False g (fs\<lparr>tree := ([''mnt'', ''new''], FileE ''y'') # tree fs\<rparr>)
        in look fs' [''mnt'', ''old''] = Some (FileE ''x'') \<and> look fs' [''mnt'', ''new''] = Some (FileE ''y''))
   | _ \<Rightarrow> False"
  by code_simp

end
