(* ===== verification/Restoration.thy ===== *)
theory Restoration
  imports Revert Verification
begin

text \<open>
  \<^verbatim>\<open>restoration.rs\<close>, \<open>restore\<close>, and the module \<open>restore\<close> of
  \<^verbatim>\<open>api/crates/backup/src/lib.rs\<close>.  The destinations are paths of a local file system
  (\<^const>\<open>look\<close>); \<open>tar::Entry::unpack_in\<close> is the parameter \<open>unpack\<close>, the directory given by
  \<open>TempDir::new\<close> the parameter \<open>tmp\<close>.  Events and statistics are left out.
\<close>

section \<open>Definitions\<close>

type_synonym unpacker = "tar_entry \<Rightarrow> path \<Rightarrow> local_fs \<Rightarrow> (anyhow + bool) \<times> local_fs"

record restoration_output =
  ro_version :: u8
  ro_additional :: "(path \<times> revert_paths) option"

text \<open>\<open>TempDir\<close>: created empty, deleted with its contents when dropped.\<close>

definition tempdir_new :: "anyhow + path \<Rightarrow> local_fs \<Rightarrow> (anyhow + path) \<times> local_fs" where
  "tempdir_new tmp fs =
     (case tmp of Inl e \<Rightarrow> (Err e, fs) | Inr t \<Rightarrow> (Ok t, fs\<lparr>tree := (t, DirE) # tree fs\<rparr>))"

definition tempdir_drop :: "path \<Rightarrow> local_fs \<Rightarrow> local_fs" where
  "tempdir_drop t fs = snd (fs_remove t fs)"

text \<open>The loop over the archive: the outcome, whether an entry went to the temporary directory.\<close>

fun extract_entries ::
  "unpacker \<Rightarrow> (string \<times> string) list \<Rightarrow> (string \<times> path) list \<Rightarrow> path \<Rightarrow> (anyhow + tar_entry) list \<Rightarrow> bool \<Rightarrow>
     local_fs \<Rightarrow> (restoration_error + bool) run \<times> local_fs" where
  "extract_entries unpack migrations path_mappings t [] partial fs = (Ret (Ok partial), fs)"
| "extract_entries unpack migrations path_mappings t (Inl e # es) partial fs =
     (Ret (Err (ExtractionFailed (ExtractionOther e))), fs)"
| "extract_entries unpack migrations path_mappings t (Inr entry # es) partial fs =
     (case map_path (te_path entry) migrations path_mappings of
        Panic \<Rightarrow> (Panic, fs)
      | Ret (new_path, dst_opt) \<Rightarrow>
          (let (dst, partial') = (case dst_opt of Some d \<Rightarrow> (d, partial) | None \<Rightarrow> (t, True)) in
           case unpack (entry\<lparr>te_path := new_path\<rparr>) dst fs of
             (Inl e, fs') \<Rightarrow> (Ret (Err (RestorationOther (context_msg ''Failed extracting'' e))), fs')
           | (Inr _, fs') \<Rightarrow> extract_entries unpack migrations path_mappings t es partial' fs'))"

text \<open>Dropping the temporary directory and the guard, in this order.\<close>

definition drop_restoration :: "path \<Rightarrow> bool \<Rightarrow> revert_paths \<Rightarrow> local_fs \<Rightarrow> local_fs" where
  "drop_restoration t is_defused g fs = revert_guard_drop is_defused g (tempdir_drop t fs)"

text \<open>The part of \<open>restore\<close> that runs once the destinations are backed up.\<close>

definition extract_archive ::
  "unpacker \<Rightarrow> anyhow + path \<Rightarrow> (string \<times> string) list \<Rightarrow> (string \<times> path) list \<Rightarrow> (anyhow + tar_entry) list \<Rightarrow> u8 \<Rightarrow>
     revert_paths \<Rightarrow> local_fs \<Rightarrow> (restoration_error + restoration_output) run \<times> local_fs" where
  "extract_archive unpack tmp migrations path_mappings es version g fs =
     (case tempdir_new tmp fs of
        (Inl e, fs1) \<Rightarrow>
          (Ret (Err (ExtractionFailed (ExtractionOther (context_msg ''Could not create temporary directory'' e)))),
           revert_guard_drop False g fs1)
      | (Inr t, fs1) \<Rightarrow>
          (case extract_entries unpack migrations path_mappings t es False fs1 of
             (Panic, fs2) \<Rightarrow> (Panic, drop_restoration t False g fs2)
           | (Ret (Inl e), fs2) \<Rightarrow> (Ret (Err e), drop_restoration t False g fs2)
           | (Ret (Inr partial), fs2) \<Rightarrow>
               if \<exists>(_, dst) \<in> set path_mappings. \<not> path_exists fs2 dst
               then (Ret (Err (ExtractionFailed (InvalidBackup [''Missing data'']))), drop_restoration t False g fs2)
               else if partial then (Ret (Ok \<lparr>ro_version = version, ro_additional = Some (t, g)\<rparr>), fs2)
               else (Ret (Ok \<lparr>ro_version = version, ro_additional = None\<rparr>), drop_restoration t True g fs2)))"

definition restore_migrations :: "archive_migration list \<Rightarrow> u8 \<Rightarrow> u8 \<Rightarrow> (string \<times> string) list" where
  "restore_migrations migrations from to =
     (if from < to then flatten (concat (map migrate_paths (filter_migrations migrations from to))) else [])"

text \<open>
  \<open>restore\<close>: \<open>file\<close> is the verified file (\<open>None\<close> when it cannot be opened), \<open>ts\<close> the current time
  (for names of backups).
\<close>

definition restore ::
  "'kp archive_lib \<Rightarrow> unpacker \<Rightarrow> nat \<Rightarrow> anyhow + path \<Rightarrow> bytes option \<Rightarrow> backup_id \<Rightarrow> path archive_blueprint \<Rightarrow>
     archive_migration list \<Rightarrow> 'kp pgp_decryption_context option \<Rightarrow> (u8 \<rightharpoonup> path archive_blueprint) \<Rightarrow>
     local_fs \<Rightarrow> (restoration_error + restoration_output) run \<times> local_fs" where
  "restore A unpack ts tmp file bid blueprint migrations ctx blueprints fs =
     (case file of
        None \<Rightarrow> (Ret (Err (RestorationOther [''Could not open backup file''])), fs)
      | Some contents \<Rightarrow>
          (case archive_reader A \<lparr>rd_data = contents, rd_fails = False\<rparr> bid ctx of
             Inl e \<Rightarrow> (Ret (Err (ExtractionFailed e)), fs)
           | Inr (r, _) \<Rightarrow>
               (case al_entries A r of
                  Inl e \<Rightarrow> (Ret (Err (RestorationOther e)), fs)
                | Inr es \<Rightarrow>
                    (case read_metadata A es 0 of
                       Inl e \<Rightarrow> (Ret (Err (ExtractionFailed e)), fs)
                     | Inr (version, rest, _) \<Rightarrow>
                         (case blueprints version of
                            None \<Rightarrow> (Ret (Err (ExtractionFailed (UnknownBackupVersion version))), fs)
                          | Some _ \<Rightarrow>
                              (let path_mappings = sort_longest_first (bp_paths blueprint) in
                               case backup_destinations ts (map snd path_mappings) fs of
                                 (Inl e, fs1) \<Rightarrow> (Ret (Err e), fs1)
                               | (Inr g, fs1) \<Rightarrow>
                                   extract_archive unpack tmp
                                     (restore_migrations migrations version (bp_version blueprint))
                                     path_mappings rest version g fs1))))))"

section \<open>What is known of the archive library\<close>

definition normal_name :: "string \<Rightarrow> bool" where
  "normal_name c \<longleftrightarrow> c \<noteq> [] \<and> c \<noteq> ''.'' \<and> c \<noteq> ''..'' \<and> CHR ''/'' \<notin> set c"

text \<open>
  \<open>unpack_in\<close> only writes below the directory it is given (which exists, or is created in an
  existing one), and an entry whose path is a single name only at that name.
\<close>

definition unpack_confined :: "unpacker \<Rightarrow> bool" where
  "unpack_confined unpack \<longleftrightarrow> (\<forall>e dst fs r fs'. unpack e dst fs = (r, fs') \<longrightarrow>
     lf_faults fs' = lf_faults fs \<and> (tree_ok fs \<longrightarrow> tree_ok fs') \<and>
     (look fs dst = Some DirE \<longrightarrow> look fs' dst = Some DirE) \<and>
     (look fs dst = Some DirE \<or> dst \<noteq> [] \<and> look fs (butlast dst) = Some DirE \<longrightarrow>
        (\<forall>q. \<not> prefix dst q \<longrightarrow> look fs' q = look fs q)) \<and>
     (look fs dst = Some DirE \<and> normal_name (te_path e) \<longrightarrow>
        (\<forall>q. \<not> prefix (dst @ [te_path e]) q \<longrightarrow> look fs' q = look fs q)))"

lemma unpack_confinedD:
  assumes "unpack_confined unpack" "unpack e dst fs = (r, fs')"
  shows "lf_faults fs' = lf_faults fs" "tree_ok fs \<Longrightarrow> tree_ok fs'" "look fs dst = Some DirE \<Longrightarrow> look fs' dst = Some DirE"
    "look fs dst = Some DirE \<or> dst \<noteq> [] \<and> look fs (butlast dst) = Some DirE \<Longrightarrow> \<not> prefix dst q \<Longrightarrow> look fs' q = look fs q"
    "look fs dst = Some DirE \<Longrightarrow> normal_name (te_path e) \<Longrightarrow> \<not> prefix (dst @ [te_path e]) q \<Longrightarrow> look fs' q = look fs q"
  using assms unfolding unpack_confined_def by blast+

lemma find_destination_cases:
  "find_destination maps p = Ret (np, d) \<Longrightarrow>
     d = None \<or> (\<exists>(prfx, dst) \<in> set maps. d = Some dst \<or> dst \<noteq> [] \<and> d = Some (butlast dst) \<and> np = last dst)"
  by (induction maps p rule: find_destination.induct) (auto split: prefix_match.splits if_splits)

section \<open>Extraction stays in the destinations and the temporary directory\<close>

text \<open>The state of an extraction: what it has not changed, and what it relies on.\<close>

definition extracting :: "path list \<Rightarrow> path \<Rightarrow> local_fs \<Rightarrow> local_fs \<Rightarrow> bool" where
  "extracting ds t fs0 fs \<longleftrightarrow> lf_faults fs = lf_faults fs0 \<and> tree_ok fs \<and> look fs t = Some DirE \<and>
     (\<forall>d \<in> set ds. look fs (butlast d) = Some DirE) \<and>
     (\<forall>q. \<not> prefix t q \<longrightarrow> (\<forall>d \<in> set ds. \<not> prefix d q) \<longrightarrow> look fs q = look fs0 q)"

definition places_ok :: "path list \<Rightarrow> path \<Rightarrow> bool" where
  "places_ok ds t \<longleftrightarrow> t \<noteq> [] \<and> (\<forall>d \<in> set ds. d \<noteq> [] \<and> normal_name (last d) \<and> apart t d \<and>
     (\<forall>d' \<in> set ds. d \<noteq> d' \<longrightarrow> apart d d'))"

lemma butlast_outside:
  assumes "d \<noteq> []" "r = d \<or> apart r d"
  shows "\<not> prefix r (butlast d)"
  using assms strict_prefix_butlast [of d r] by (auto simp: apart_def strict_prefix_def)

lemma extracting_step:
  assumes "extracting ds t fs0 fs" "places_ok ds t" "lf_faults fs' = lf_faults fs" "tree_ok fs'"
    "p = t \<or> p \<in> set ds" "\<And>q. \<not> prefix p q \<Longrightarrow> look fs' q = look fs q" "look fs' t = Some DirE"
  shows "extracting ds t fs0 fs'"
proof -
  have "\<not> prefix p (butlast d)" if "d \<in> set ds" for d
    using that assms(2,5) butlast_outside [of d p] unfolding places_ok_def by (metis apart_sym)
  then show ?thesis using assms unfolding extracting_def by metis
qed

text \<open>The place an entry is unpacked at.\<close>

lemma entry_place:
  assumes "find_destination maps p = Ret (np, d)" "dst = (case d of Some x \<Rightarrow> x | None \<Rightarrow> t)"
  obtains "dst = t" | x where "x \<in> set (map snd maps)" "dst = x"
    | x where "x \<in> set (map snd maps)" "x \<noteq> []" "dst = butlast x" "np = last x"
proof (cases d)
  case None
  then show ?thesis using that(1) assms(2) by simp
next
  case (Some y)
  with find_destination_cases [OF assms(1)] obtain prfx x where
    "(prfx, x) \<in> set maps" "y = x \<or> x \<noteq> [] \<and> y = butlast x \<and> np = last x" by auto
  then have "x \<in> set (map snd maps)" by force
  with \<open>y = x \<or> _\<close> show ?thesis using that(2,3) Some assms(2) by auto
qed

lemma unpack_entry_confined:
  assumes "unpack_confined unpack" "places_ok (map snd maps) t" "extracting (map snd maps) t fs0 fs"
    "find_destination maps p = Ret (np, d)" "te_path e = np"
    "unpack e (case d of Some x \<Rightarrow> x | None \<Rightarrow> t) fs = (r, fs')"
  shows "extracting (map snd maps) t fs0 fs'"
proof -
  note C = unpack_confinedD [OF assms(1,6)]
  have X: "tree_ok fs" "look fs t = Some DirE" "\<And>d. d \<in> set (map snd maps) \<Longrightarrow> look fs (butlast d) = Some DirE"
    using assms(3) by (auto simp: extracting_def)
  have step: "extracting (map snd maps) t fs0 fs'"
    if x: "x = t \<or> x \<in> set (map snd maps)" "\<And>q. \<not> prefix x q \<Longrightarrow> look fs' q = look fs q" "x = t \<longrightarrow> look fs' t = Some DirE" for x
  proof -
    have "\<not> prefix x t" if "x \<noteq> t" using that x(1) assms(2) by (auto simp: places_ok_def apart_def)
    then have "look fs' t = Some DirE" using x(2,3) X(2) by (cases "x = t") auto
    then show ?thesis using extracting_step [OF assms(3,2) C(1) C(2) x(1,2)] X(1) by simp
  qed
  have nn: "x \<noteq> []" "normal_name (last x)" if "x \<in> set (map snd maps)" for x
    using that assms(2) by (auto simp: places_ok_def)
  from entry_place [OF assms(4) refl, of t] show ?thesis
  proof cases
    case 1
    show ?thesis by (rule step [of t]) (use 1 C(3,4) X(2) in auto)
  next
    case (2 x)
    show ?thesis
    proof (rule step [of x])
      show "look fs' q = look fs q" if "\<not> prefix x q" for q
        using C(4) that 2(2) X(3) [OF 2(1)] nn(1) [OF 2(1)] by simp
      show "x = t \<longrightarrow> look fs' t = Some DirE" using 2 assms(2) by (auto simp: places_ok_def apart_def)
    qed (use 2 in simp)
  next
    case (3 x)
    show ?thesis
    proof (rule step [of x])
      show "look fs' q = look fs q" if "\<not> prefix x q" for q
        using C(5) [of q] that 3(2-4) X(3) [OF 3(1)] nn(2) [OF 3(1)] assms(5) by simp
      show "x = t \<longrightarrow> look fs' t = Some DirE" using 3 assms(2) by (auto simp: places_ok_def apart_def)
    qed (use 3 in simp)
  qed
qed

lemma extract_entries_confined:
  assumes "unpack_confined unpack" "places_ok (map snd maps) t"
    "extract_entries unpack migs maps t es partial fs = (r, fs')" "extracting (map snd maps) t fs0 fs"
  shows "extracting (map snd maps) t fs0 fs'"
  using assms(3,4)
proof (induction es arbitrary: partial fs)
  case (Cons x es)
  show ?case
  proof (cases x)
    case (Inl e)
    then show ?thesis using Cons.prems by simp
  next
    case (Inr entry)
    show ?thesis
    proof (cases "map_path (te_path entry) migs maps")
      case Panic
      then show ?thesis using Cons.prems Inr by simp
    next
      case (Ret pd)
      obtain np d where pd: "pd = (np, d)" by (cases pd)
      let ?dst = "case d of Some x \<Rightarrow> x | None \<Rightarrow> t"
      obtain r1 fs1 where u: "unpack (entry\<lparr>te_path := np\<rparr>) ?dst fs = (r1, fs1)" by (rule prod.exhaust)
      have "extracting (map snd maps) t fs0 fs1"
        using unpack_entry_confined [OF assms(1,2) Cons.prems(2) Ret [unfolded map_path_def pd] _ u] by simp
      then show ?thesis using Cons.prems(1) Cons.IH [of _ fs1] Inr Ret pd u
        by (cases r1; cases d) auto
    qed
  qed
qed simp

section \<open>Failures and successes\<close>

text \<open>
  Destinations that can be backed up, and a fresh temporary directory away from them and from
  their backups.
\<close>

definition restorable :: "nat \<Rightarrow> path list \<Rightarrow> anyhow + path \<Rightarrow> local_fs \<Rightarrow> bool" where
  "restorable ts ds tmp fs \<longleftrightarrow> backupable ts ds fs \<and>
     (case tmp of Inl _ \<Rightarrow> True
      | Inr t \<Rightarrow> places_ok ds t \<and> look fs t = None \<and> look fs (butlast t) = Some DirE \<and>
          (\<forall>d \<in> set ds. \<forall>n \<in> set (backup_names ts d). apart t n))"

lemma tempdir_start:
  assumes "restorable ts ds (Inr t) fs" "backup_loop ts ds [] fs = (None, g, fs1)"
  shows "extracting ds t fs1 (fs1\<lparr>tree := (t, DirE) # tree fs1\<rparr>) \<and> (\<forall>s. look fs1 (t @ s) = None)"
proof -
  have B: "backupable ts ds fs" and P: "places_ok ds t" and lt: "look fs t = None" "look fs (butlast t) = Some DirE"
    and apn: "\<And>d n. d \<in> set ds \<Longrightarrow> n \<in> set (backup_names ts d) \<Longrightarrow> apart t n"
    using assms(1) by (auto simp: restorable_def)
  have rd: "\<And>d. d \<in> set ds \<Longrightarrow> ready ts fs d" and sep: "separate ts ds" and T: "tree_ok fs"
    using backupable_ready [OF B] B by (auto simp: backupable_def)
  have f: "framed ds (planned ts fs) fs fs1" using backup_loop_effect [OF rd sep assms(2)] by blast
  have ap: "apart t d" "\<And>n. planned ts fs d = Some n \<Longrightarrow> apart t n" if "d \<in> set ds" for d
    using that P apn planned_SomeD backup_name_in unfolding places_ok_def by metis+
  have fresh: "look fs1 (t @ s) = None" for s
    using framed_region [OF f, of t s] ap tree_ok_below [OF T lt(1)] by simp
  have "look fs1 (butlast t) = Some DirE"
    using framed_dir [OF f lt(2)] ap P by (auto simp: places_ok_def)
  then have "tree_ok (fs1\<lparr>tree := (t, DirE) # tree fs1\<rparr>)"
    using tree_ok_add_dir backup_loop_tree_ok [OF rd sep T assms(2)] fresh [of "[]"] by simp
  then show ?thesis
    using fresh backup_loop_parents [OF rd sep assms(2)] unfolding extracting_def by (auto simp: look_def)
qed

text \<open>Dropping the temporary directory leaves changes below the destinations only.\<close>

lemma tempdir_drop_outside:
  assumes "extracting ds t fs1 fs2" "recoverable ts (lf_faults fs1)" "\<And>s. look fs1 (t @ s) = None" "t \<noteq> []"
  shows "same_outside ds ds fs1 (tempdir_drop t fs2) \<and> tree_ok (tempdir_drop t fs2) \<and>
    lf_faults (tempdir_drop t fs2) = lf_faults fs1 \<and>
    (\<forall>q. look (tempdir_drop t fs2) q = (if prefix t q then None else look fs2 q))"
proof -
  have d: "tempdir_drop t fs2 = fs2\<lparr>tree := remove_tree t (tree fs2)\<rparr>"
    using assms(1,2) by (simp add: tempdir_drop_def fs_remove_def extracting_def recoverable_def)
  have l: "look (tempdir_drop t fs2) q = (if prefix t q then None else look fs2 q)" for q
    unfolding d by (simp add: look_def look_remove)
  have "look fs1 q = None" if "prefix t q" for q using that assms(3) by (auto simp: prefix_def)
  moreover have "\<not> prefix t (butlast q)" if "\<not> prefix t q" "q \<noteq> []" for q
    using that strict_prefix_butlast [of q t] by (auto simp: strict_prefix_def)
  ultimately show ?thesis using l assms(1) unfolding same_outside_def tree_ok_def extracting_def
    by (auto simp: d)
qed

text \<open>Dropping the temporary directory and a guard that is not defused undoes everything.\<close>

lemma drop_undoes:
  assumes "restorable ts ds (Inr t) fs" "distinct ds" "backup_loop ts ds [] fs = (None, g, fs1)" "extracting ds t fs1 fs2"
  shows "restored ds fs (drop_restoration t False g fs2)"
proof -
  have B: "backupable ts ds fs" and t: "t \<noteq> []" and rec: "recoverable ts (lf_faults fs)"
    using assms(1) by (auto simp: restorable_def places_ok_def backupable_def)
  have E: "lf_faults fs1 = lf_faults fs"
    using backup_loop_effect [OF backupable_ready [OF B] _ assms(3)] B by (auto simp: backupable_def)
  have S: "\<And>s. look fs1 (t @ s) = None" using tempdir_start [OF assms(1,3)] by blast
  from tempdir_drop_outside [OF assms(4) _ S t, of ts] show ?thesis
    using revert_restores [OF B _ assms(2,3)] rec E by (simp add: drop_restoration_def revert_guard_drop_def)
qed

lemma extract_archive_failed:
  assumes "unpack_confined unpack" "restorable ts (map snd maps) tmp fs"
    "backup_loop ts (map snd maps) [] fs = (None, g, fs1)"
    "extract_archive unpack tmp migs maps es version g fs1 = (r, fs')" "\<nexists>out. r = Ret (Inr out)"
  shows "restored (map snd maps) fs fs'"
proof -
  let ?ds = "map snd maps"
  have B: "backupable ts ?ds fs" using assms(2) by (simp add: restorable_def)
  then have rd: "\<And>d. d \<in> set ?ds \<Longrightarrow> ready ts fs d" and sep: "separate ts ?ds" "distinct ?ds" and T: "tree_ok fs"
    and rec: "recoverable ts (lf_faults fs)"
    using backupable_ready [OF B] by (auto simp: backupable_def separate_def)
  have E: "lf_faults fs1 = lf_faults fs" using backup_loop_effect [OF rd sep(1) assms(3)] by simp
  have T1: "tree_ok fs1" using backup_loop_tree_ok [OF rd sep(1) T assms(3)] .
  have rev: "restored ?ds fs (revert g fs3)" if "same_outside ?ds ?ds fs1 fs3" "tree_ok fs3" "lf_faults fs3 = lf_faults fs" for fs3
    using revert_restores [OF B _ sep(2) assms(3) that] by simp
  show ?thesis
  proof (cases tmp)
    case (Inl e)
    then have "fs' = revert g fs1" using assms(4) by (auto simp: extract_archive_def tempdir_new_def revert_guard_drop_def)
    then show ?thesis using rev [of fs1] T1 E by (simp add: same_outside_def)
  next
    case (Inr t)
    have S: "extracting ?ds t fs1 (fs1\<lparr>tree := (t, DirE) # tree fs1\<rparr>)" using tempdir_start assms(2,3) Inr by blast
    have P: "places_ok ?ds t" using assms(2) Inr by (auto simp: restorable_def)
    obtain r2 fs2 where x: "extract_entries unpack migs maps t es False (fs1\<lparr>tree := (t, DirE) # tree fs1\<rparr>) = (r2, fs2)"
      by (rule prod.exhaust)
    have X: "extracting ?ds t fs1 fs2" using extract_entries_confined [OF assms(1) P x S] .
    have "fs' = drop_restoration t False g fs2"
      using assms(4,5) x Inr by (auto simp: extract_archive_def tempdir_new_def split: run.splits sum.splits if_splits)
    then show ?thesis using drop_undoes [OF _ sep(2) assms(3) X] assms(2) Inr by simp
  qed
qed

text \<open>
  The temporary directory of a partial restoration may also be dropped after the guard: the
  result is the same.
\<close>

lemma extracting_in_place:
  assumes "extracting ds t fs1 fs2" "backupable ts ds fs" "distinct ds" "backup_loop ts ds [] fs = (None, g, fs1)"
    "\<And>s. look fs1 (t @ s) = None" "t \<noteq> []" "\<And>d n. d \<in> set ds \<Longrightarrow> n \<in> set (backup_names ts d) \<Longrightarrow> apart t n"
  shows "in_place ts fs ds fs2 \<and> in_place ts fs ds (tempdir_drop t fs2)"
proof -
  have "lf_faults fs1 = lf_faults fs" "recoverable ts (lf_faults fs)"
    using backup_loop_effect [OF backupable_ready [OF assms(2)] _ assms(4)] assms(2) by (auto simp: backupable_def)
  then have D: "same_outside ds ds fs1 (tempdir_drop t fs2)" "\<And>q. look (tempdir_drop t fs2) q = (if prefix t q then None else look fs2 q)"
    using tempdir_drop_outside [OF assms(1) _ assms(5,6), of ts] by auto
  have ip: "in_place ts fs ds (tempdir_drop t fs2)" using in_place_outside [OF assms(2) _ assms(3,4) D(1)] by simp
  have "\<not> prefix t (n @ s)" if "d \<in> set ds" "planned ts fs d = Some n" for d n s
    using apart_below [of n t "n @ s"] apart_sym [OF assms(7) [OF that(1) planned_names(3) [OF that(2)]]] by simp
  moreover have "look fs2 (butlast d) = Some DirE" if "d \<in> set ds" for d using assms(1) that by (simp add: extracting_def)
  ultimately show ?thesis using ip D(2) unfolding in_place_def by auto
qed

lemma revert_faults: "lf_faults (revert g fs) = lf_faults fs"
  by (induction g fs rule: revert.induct) (auto simp: Let_def fs_remove_def fs_rename_def split: option.splits)

lemma drop_partial:
  assumes "restorable ts ds (Inr t) fs" "distinct ds" "backup_loop ts ds [] fs = (None, g, fs1)" "extracting ds t fs1 fs2"
  shows "restored ds fs (tempdir_drop t (revert g fs2))"
proof -
  have B: "backupable ts ds fs" and P: "places_ok ds t" "t \<noteq> []" and lt: "look fs t = None" and T: "tree_ok fs"
    and apn: "\<And>d n. d \<in> set ds \<Longrightarrow> n \<in> set (backup_names ts d) \<Longrightarrow> apart t n" and rec: "recoverable ts (lf_faults fs)"
    using assms(1) by (auto simp: restorable_def places_ok_def backupable_def)
  have E: "lf_faults fs1 = lf_faults fs" "g = map (\<lambda>d. (d, planned ts fs d)) ds"
    using backup_loop_effect [OF backupable_ready [OF B] _ assms(3)] B by (auto simp: backupable_def)
  have S: "\<And>s. look fs1 (t @ s) = None" using tempdir_start [OF assms(1,3)] by blast
  note D = tempdir_drop_outside [OF assms(4), of ts, unfolded E(1), OF rec S P(2)]
  note ip = extracting_in_place [OF assms(4) B assms(2,3) S P(2) apn]
  have X: "tree_ok fs2" "lf_faults fs2 = lf_faults fs" using assms(4) E by (auto simp: extracting_def)
  note R2 = revert_in_place [OF B _ assms(2) conjunct1 [OF ip] X, folded E(2), simplified]
  note R3 = revert_in_place [OF B _ assms(2) conjunct2 [OF ip], folded E(2), simplified]
  have nt: "\<not> prefix t (n @ s)" if "d \<in> set ds" "planned ts fs d = Some n" for d n s
    using apart_below [of n t "n @ s"] apart_sym [OF apn [OF that(1) planned_names(3) [OF that(2)]]] by simp
  have dt: "look (tempdir_drop t fs2) q = look fs2 q" if "\<not> prefix t q" for q using D that by simp
  have same: "look (revert g fs2) q = look (revert g (tempdir_drop t fs2)) q" if q: "\<not> prefix t q" for q
  proof (cases "find (\<lambda>d. prefix d q) ds")
    case None
    then show ?thesis using R2 R3 D E(1) dt [OF q] by auto
  next
    case (Some d)
    then have "d \<in> set ds" by (auto simp: find_Some_iff)
    then have "look (tempdir_drop t fs2) (n @ s) = look fs2 (n @ s)" if "planned ts fs d = Some n" for n s
      using dt nt that by blast
    then show ?thesis using R2 R3 D E(1) Some by (simp split: option.splits)
  qed
  have "find (\<lambda>d. prefix d t) ds = None" using P(1) by (auto simp: find_None_iff places_ok_def apart_def)
  moreover have "\<not> prefix n t" if "d \<in> set ds" "planned ts fs d = Some n" for d n
    using nt [OF that, of "[]"] apn [OF that(1) planned_names(3) [OF that(2)]] by (auto simp: apart_def)
  ultimately have "look (revert g fs2) t = Some DirE" using R2 assms(4) by (auto simp: extracting_def)
  then have "look (tempdir_drop t (revert g fs2)) q = (if prefix t q then None else look (revert g fs2) q)" for q
    using rec X(2) revert_faults [of g fs2] by (simp add: tempdir_drop_def fs_remove_def recoverable_def look_def look_remove)
  moreover have "restored ds fs (revert g (tempdir_drop t fs2))"
    using revert_restores [OF B _ assms(2,3)] D E(1) by simp
  ultimately show ?thesis using same tree_ok_below [OF T lt] unfolding restored_def by auto
qed

text \<open>What deleting the backups does.\<close>

lemma remove_tree_ok: "tree_ok fs \<Longrightarrow> tree_ok (fs\<lparr>tree := remove_tree p (tree fs)\<rparr>)"
  using strict_prefix_butlast by (auto simp: tree_ok_def look_def look_remove strict_prefix_def split: if_splits)

lemma remove_backups_effect:
  assumes "tree_ok fs" "\<And>p. \<not> remove_fails (lf_faults fs) p"
  shows "look (remove_backups (map (\<lambda>d. (d, bk d)) ds) fs) q =
    (if \<exists>d \<in> set ds. \<exists>n. bk d = Some n \<and> prefix n q then None else look fs q)"
  using assms
proof (induction ds arbitrary: fs)
  case (Cons d ds)
  show ?case
  proof (cases "bk d")
    case None
    then show ?thesis using Cons by simp
  next
    case (Some n)
    define fs1 where "fs1 = (if path_exists fs n then snd (fs_remove n fs) else fs)"
    have l: "look fs1 q = (if prefix n q then None else look fs q)" for q
      using Cons.prems tree_ok_below [OF Cons.prems(1), of n q] unfolding fs1_def
      by (auto simp: path_exists_def fs_remove_def look_def look_remove)
    have "tree_ok fs1" "lf_faults fs1 = lf_faults fs" unfolding fs1_def
      using Cons.prems remove_tree_ok by (auto simp: fs_remove_def)
    then show ?thesis using Cons.IH [of fs1] Cons.prems(2) Some l by (auto simp: fs1_def [symmetric])
  qed
qed simp

text \<open>A replaced state: the destinations are there, the rest is as before.\<close>

definition replaced :: "path list \<Rightarrow> local_fs \<Rightarrow> local_fs \<Rightarrow> bool" where
  "replaced ds fs fs' \<longleftrightarrow> (\<forall>d \<in> set ds. path_exists fs' d) \<and>
     (\<forall>q. (\<forall>d \<in> set ds. \<not> prefix d q) \<longrightarrow> look fs' q = look fs q \<or>
        look fs q = None \<and> look fs' q = Some DirE \<and> (\<exists>d \<in> set ds. strict_prefix q d))"

text \<open>Dropping the temporary directory and a defused guard keeps what was extracted.\<close>

lemma drop_replaces:
  assumes "restorable ts ds (Inr t) fs" "backup_loop ts ds [] fs = (None, g, fs1)" "extracting ds t fs1 fs2"
    "\<And>d. d \<in> set ds \<Longrightarrow> look fs2 d \<noteq> None"
  shows "replaced ds fs (drop_restoration t True g fs2)"
proof -
  let ?bk = "planned ts fs" and ?fs3 = "tempdir_drop t fs2" and ?fs' = "drop_restoration t True g fs2"
  have B: "backupable ts ds fs" and P: "places_ok ds t" "t \<noteq> []" using assms(1) by (auto simp: restorable_def places_ok_def)
  then have rd: "\<And>d. d \<in> set ds \<Longrightarrow> ready ts fs d" and sep: "separate ts ds" and T: "tree_ok fs"
    and rec: "recoverable ts (lf_faults fs)" and free: "\<And>d. d \<in> set ds \<Longrightarrow> look fs (backup_name ts fs d) = None"
    using backupable_ready [OF B] by (auto simp: backupable_def)
  from backup_loop_effect [OF rd sep assms(2)] have E: "lf_faults fs1 = lf_faults fs" "g = map (\<lambda>d. (d, ?bk d)) ds"
    "framed ds ?bk fs fs1" by auto
  have S: "\<And>s. look fs1 (t @ s) = None" using tempdir_start [OF assms(1,2)] by blast
  have fs': "?fs' = remove_backups g ?fs3" by (simp add: drop_restoration_def revert_guard_drop_def)
  note D = tempdir_drop_outside [OF assms(3), of ts, unfolded E(1), OF rec S P(2)]
  have L: "look ?fs' q = (if \<exists>d \<in> set ds. \<exists>n. ?bk d = Some n \<and> prefix n q then None else look ?fs3 q)" for q
    unfolding fs' by (unfold E(2), rule remove_backups_effect) (use D rec in \<open>auto simp: recoverable_def\<close>)
  have "path_exists ?fs' d" if d: "d \<in> set ds" for d
  proof -
    have "\<not> prefix n d" if "d' \<in> set ds" "?bk d' = Some n" for d' n
      using separateD(2) [OF sep that(1) d, of n] planned_SomeD [OF that(2)] backup_name_in by (auto simp: apart_def)
    moreover have "\<not> prefix t d" using P d by (auto simp: places_ok_def apart_def)
    ultimately show ?thesis using L D assms(4) [OF d] by (auto simp: path_exists_def)
  qed
  moreover have "look ?fs' q = look fs q \<or> look fs q = None \<and> look ?fs' q = Some DirE \<and> (\<exists>d \<in> set ds. strict_prefix q d)"
    if q: "\<And>d. d \<in> set ds \<Longrightarrow> \<not> prefix d q" for q
  proof (cases "\<exists>d \<in> set ds. \<exists>n. ?bk d = Some n \<and> prefix n q")
    case True
    then have "look fs q = None" using free tree_ok_below [OF T] planned_SomeD by metis
    then show ?thesis using L True by simp
  next
    case False
    then have "look ?fs' q = look ?fs3 q" using L by auto
    moreover have "look fs1 q = look fs q \<or> look fs q = None \<and> look fs1 q = Some DirE \<and> (\<exists>d \<in> set ds. strict_prefix q d)"
      using E(3) False q unfolding framed_def by metis
    ultimately show ?thesis using D q unfolding same_outside_def by metis
  qed
  ultimately show ?thesis unfolding replaced_def by blast
qed

lemma extract_archive_done:
  assumes "unpack_confined unpack" "restorable ts (map snd maps) tmp fs"
    "backup_loop ts (map snd maps) [] fs = (None, g, fs1)"
    "extract_archive unpack tmp migs maps es version g fs1 = (Ret (Inr out), fs')"
  obtains t fs2 where "tmp = Inr t" "extracting (map snd maps) t fs1 fs2" "\<And>d. d \<in> set (map snd maps) \<Longrightarrow> look fs2 d \<noteq> None"
    "ro_additional out = None \<and> fs' = drop_restoration t True g fs2 \<or> ro_additional out = Some (t, g) \<and> fs' = fs2"
proof -
  let ?ds = "map snd maps"
  obtain t where t: "tmp = Inr t" using assms(4) by (cases tmp) (auto simp: extract_archive_def tempdir_new_def)
  have S: "extracting ?ds t fs1 (fs1\<lparr>tree := (t, DirE) # tree fs1\<rparr>)" using tempdir_start assms(2,3) t by blast
  have P: "places_ok ?ds t" using assms(2) t by (auto simp: restorable_def)
  obtain r2 fs2 where x: "extract_entries unpack migs maps t es False (fs1\<lparr>tree := (t, DirE) # tree fs1\<rparr>) = (r2, fs2)"
    by (rule prod.exhaust)
  have X: "extracting ?ds t fs1 fs2" using extract_entries_confined [OF assms(1) P x S] .
  show ?thesis
    by (rule that [OF t X])
      (use assms(4) x t in \<open>auto simp: extract_archive_def tempdir_new_def path_exists_def split: run.splits sum.splits if_splits\<close>)
qed

section \<open>Properties\<close>

lemma restore_cases:
  assumes "restore A unpack ts tmp file bid blueprint migs ctx blueprints fs = (r, fs')"
    "maps = sort_longest_first (bp_paths blueprint)"
  obtains e where "r = Ret (Inl e)" "fs' = fs"
  | e where "backup_destinations ts (map snd maps) fs = (Inl e, fs')" "r = Ret (Inl e)"
  | g fs1 migs' es version where "backup_loop ts (map snd maps) [] fs = (None, g, fs1)"
      "extract_archive unpack tmp migs' maps es version g fs1 = (r, fs')"
  using assms unfolding restore_def
  by (auto simp: Let_def backup_destinations_def split: option.splits sum.splits prod.splits)

lemma restore_failed:
  assumes "unpack_confined unpack" "restorable ts (map snd (sort_longest_first (bp_paths blueprint))) tmp fs"
    "restore A unpack ts tmp file bid blueprint migs ctx blueprints fs = (r, fs')" "\<nexists>out. r = Ret (Inr out)"
  shows "restored (map snd (sort_longest_first (bp_paths blueprint))) fs fs'"
  using restore_cases [OF assms(3) refl]
proof cases
  case (1 e)
  then show ?thesis by (simp add: restored_def)
next
  case (2 e)
  then show ?thesis using backup_destinations_failed assms(2) unfolding restorable_def by blast
next
  case (3 g fs1 migs' es version)
  then show ?thesis using extract_archive_failed [OF assms(1,2)] assms(4) by blast
qed

text \<open>A restoration that succeeds, in full or with data left to the caller.\<close>

lemma restore_done:
  assumes "unpack_confined unpack" "restorable ts (map snd (sort_longest_first (bp_paths blueprint))) tmp fs"
    "restore A unpack ts tmp file bid blueprint migs ctx blueprints fs = (Ret (Inr out), fs')"
    "ds = map snd (sort_longest_first (bp_paths blueprint))"
  obtains t g fs1 fs2 where "tmp = Inr t" "distinct ds" "backup_loop ts ds [] fs = (None, g, fs1)" "extracting ds t fs1 fs2"
    "\<And>d. d \<in> set ds \<Longrightarrow> look fs2 d \<noteq> None"
    "ro_additional out = None \<and> fs' = drop_restoration t True g fs2 \<or> ro_additional out = Some (t, g) \<and> fs' = fs2"
  using restore_cases [OF assms(3) refl]
proof cases
  case (3 g fs1 migs' es version)
  from extract_archive_done [OF assms(1,2) 3] obtain t fs2 where x: "tmp = Inr t" "extracting ds t fs1 fs2"
    "\<And>d. d \<in> set ds \<Longrightarrow> look fs2 d \<noteq> None"
    "ro_additional out = None \<and> fs' = drop_restoration t True g fs2 \<or> ro_additional out = Some (t, g) \<and> fs' = fs2"
    unfolding assms(4) by metis
  have "distinct ds" using assms(2,4) by (auto simp: restorable_def backupable_def separate_def)
  with x 3(1) show ?thesis using that assms(4) by blast
qed auto

lemma restore_partial:
  assumes "unpack_confined unpack" "restorable ts (map snd (sort_longest_first (bp_paths blueprint))) tmp fs"
    "restore A unpack ts tmp file bid blueprint migs ctx blueprints fs = (Ret (Inr out), fs')"
    "ro_additional out = Some (t, g)"
  shows "restored (map snd (sort_longest_first (bp_paths blueprint))) fs (tempdir_drop t (revert g fs'))"
proof -
  from restore_done [OF assms(1-3) refl] assms(4) obtain fs1 where
    "tmp = Inr t" "distinct (map snd (sort_longest_first (bp_paths blueprint)))"
    "backup_loop ts (map snd (sort_longest_first (bp_paths blueprint))) [] fs = (None, g, fs1)"
    "extracting (map snd (sort_longest_first (bp_paths blueprint))) t fs1 fs'" by auto
  then show ?thesis using drop_partial assms(2) by blast
qed


text \<open>An example: the archive replaces the directory \<open>d\<close> by a file, or has an unreadable entry.\<close>

definition example_unpack :: unpacker where
  "example_unpack e dst fs =
     (if look fs dst = Some DirE \<and> normal_name (te_path e) \<and> look fs (dst @ [te_path e]) = None
      then (Ok True, fs\<lparr>tree := (dst @ [te_path e], FileE (te_data e)) # tree fs\<rparr>) else (Err [''unpack''], fs))"

lemma example_unpack_confined: "unpack_confined example_unpack"
  unfolding unpack_confined_def example_unpack_def
  by (auto simp: look_def tree_ok_def prefix_def split: if_splits)

definition example_restore_lib :: "unit archive_lib" where
  "example_restore_lib = \<lparr>al_decrypt = (\<lambda>_ _ r. Ok (r, None)), al_zstd = Ok,
     al_entries = (\<lambda>r. Ok [Ok \<lparr>te_path = ''metadata.json'', te_data = [], te_size = None\<rparr>,
        if rd_data r = ''bad'' then Err [''io''] else Ok \<lparr>te_path = ''foo'', te_data = ''new'', te_size = None\<rparr>]),
     al_metadata = (\<lambda>d. Ok 1)\<rparr>"

definition example_tree :: local_fs where
  "example_tree = example_lfs [([], DirE), ([''d''], DirE), ([''d'', ''x''], FileE ''old'')] (\<lambda>_. 0)"

definition example_blueprint :: "path archive_blueprint" where
  "example_blueprint = \<lparr>bp_version = 1, bp_paths = [(''foo'', [''d''])]\<rparr>"

definition plain_id :: backup_id where
  "plain_id = \<lparr>id_prefix = ''p'', created_at = \<lparr>unix_timestamp = 1, nanosecond = 0\<rparr>, description = ''d'', extensions = [''tar'']\<rparr>"

definition example_restore :: "bytes \<Rightarrow> (restoration_error + restoration_output) run \<times> local_fs" where
  "example_restore contents =
     restore example_restore_lib example_unpack 7 (Inr [''tmp'']) (Some contents)
       plain_id example_blueprint [] None [1 \<mapsto> example_blueprint] example_tree"

lemma example_dsts: "map snd (sort_longest_first (bp_paths example_blueprint)) = [[''d'']]"
  by (simp add: sort_longest_first_def example_blueprint_def)

lemma example_restorable: "restorable 7 [[''d'']] (Inr [''tmp'']) example_tree"
proof -
  have t: "tree_ok example_tree"
    unfolding tree_ok_def by (auto simp: look_def example_tree_def example_lfs_def split: if_splits)
  have d: "dec 7 = ''7''" by code_simp
  show ?thesis using t
    by (simp add: restorable_def backupable_def recoverable_def example_tree_def example_lfs_def no_lfs_faults_def
        separate_def backup_names_def with_added_extension_def apart_def backup_name_def Let_def path_exists_def
        look_def places_ok_def normal_name_def d)
qed




end
