(* ===== verification/Backup_Service.thy ===== *)
theory Backup_Service
  imports Restoration Backup_Create Cache_Guards
begin

text \<open>
  The modules \<open>read\<close> and \<open>restore\<close> of \<^verbatim>\<open>api/crates/backup/src/lib.rs\<close>: listing backups, their
  details, download links and restorations, on top of the stores, the verification, the archive
  reader and the restoration.  A record \<open>service\<close> holds what these functions read of
  \<open>BackupService\<close>.
\<close>

section \<open>Definitions\<close>

record ('s, 'w, 'k, 'kw, 'c, 'p, 'v, 'kp) service =
  svc_ids :: id_lib
  svc_store :: "('s, 'w) object_store"
  svc_verifier :: "('k, 'kw, 'c, 'p, 'v) verifier"
  svc_archive :: "'kp archive_lib"
  svc_decryption :: "'kp pgp_decryption_context option"
  svc_blueprints :: "u8 \<rightharpoonup> path archive_blueprint"
  svc_migrations :: "archive_migration list"
  svc_url_max_ttl :: nat

record 'm backup_dto =
  dto_id :: backup_id
  dto_description :: string
  dto_metadata :: 'm

record backup_metadata_full =
  bf_created_at :: utc_datetime
  bf_size_bytes :: u64
  bf_is_intact :: bool
  bf_is_signed :: bool
  bf_known_signing_keys :: "(string \<times> bool) list"
  bf_is_encrypted :: bool
  bf_encryption_key :: "string option"
  bf_is_encryption_valid :: "bool option"
  bf_can_be_restored :: bool

subsection \<open>Listing\<close>

text \<open>\<open>is_backup\<close>: by the text after the last dot (the whole name if it has none).\<close>

definition is_backup :: "object_metadata \<Rightarrow> bool" where
  "is_backup metadata = (last (split_on CHR ''.'' (file_name metadata)) \<notin> {''sha256'', ''blake3'', ''sig''})"

fun list_dtos :: "id_lib \<Rightarrow> bool \<Rightarrow> string list \<Rightarrow> object_metadata list \<Rightarrow> backup_metadata_partial backup_dto list" where
  "list_dtos ids mandatory checks [] = []"
| "list_dtos ids mandatory checks (backup # backups) =
     (let signed = (file_name backup @ ''.sig'') \<in> set checks in
      case backup_id_parse ids (file_name backup) of
        Inl e \<Rightarrow> list_dtos ids mandatory checks backups
      | Inr bid \<Rightarrow>
          \<lparr>dto_id = bid, dto_description = description bid,
           dto_metadata = \<lparr>bm_created_at = created_at bid, bm_size_bytes = size_bytes backup, bm_is_signed = signed,
             bm_is_encrypted = ends_with (file_name backup) ''.pgp'',
             bm_can_be_restored = (\<not> mandatory \<or> signed)\<rparr>\<rparr> # list_dtos ids mandatory checks backups)"

definition list_backups ::
  "('s, 'w, 'k, 'kw, 'c, 'p, 'v, 'kp) service \<Rightarrow> 's \<Rightarrow> anyhow + backup_metadata_partial backup_dto list" where
  "list_backups sv s =
     (let V = svc_verifier sv in
      try_bind (store_list_all (svc_store sv) s) (\<lambda>objects.
      case filter is_backup objects of
        [] \<Rightarrow> Ok []
      | oldest # newer \<Rightarrow>
          try_bind (os_list_all_after (v_check_store V) (file_name oldest) (v_checks V)) (\<lambda>after.
          let checks = map file_name (filter (\<lambda>m. \<not> is_backup m) after)
          in Ok (list_dtos (svc_ids sv) (v_mandatory V) checks (rev (oldest # newer))))))"

subsection \<open>Details\<close>

text \<open>Opening a file of the cache directory.\<close>

definition open_file :: "cache_state \<Rightarrow> string \<Rightarrow> bytes option" where
  "open_file w path =
     (if open_fails (faults (cache_files w)) path then None else fs_abs (cache_files w) path)"

fun read_object_message :: "read_object_error \<Rightarrow> anyhow" where
  "read_object_message (ObjectNotFound e) = e"
| "read_object_message (ReadOther e) = e"

definition get_details ::
  "('s, 'w, 'k, 'kw, 'c, 'p, 'v, 'kp) service \<Rightarrow> 's \<Rightarrow> backup_id \<Rightarrow> cache_state \<Rightarrow>
     (anyhow + backup_metadata_full backup_dto) run \<times> cache_state" where
  "get_details sv s bid w =
     (case backup_id_fmt (svc_ids sv) bid of
        Panic \<Rightarrow> (Panic, w)
      | Ret oid \<Rightarrow>
          (case download_backup_and_check_integrity (svc_verifier sv) (svc_store sv) s oid (created_at bid)
                  verification_report_default w of
             (Panic, _, w1) \<Rightarrow> (Panic, w1)
           | (Ret verification_result, report, w1) \<Rightarrow>
               (let (can_restore, encryption_valid, used, w2) =
                  (case verification_result of
                     Inr path \<Rightarrow>
                       (let (r, used) = get_metadata (svc_archive sv) (open_file w1 path) bid (svc_decryption sv) (svc_blueprints sv)
                        in (is_ok r, Some (is_ok r), used, drop_guard path w1))
                   | Inl _ \<Rightarrow> (False, None, None, w1))
                in (Ret (try_bind (map_err read_object_message (os_metadata (svc_store sv) oid s)) (\<lambda>metadata.
                     Ok \<lparr>dto_id = bid, dto_description = description bid,
                         dto_metadata = \<lparr>bf_created_at = created_at bid, bf_size_bytes = size_bytes metadata,
                           bf_is_intact = is_intact report, bf_is_signed = is_signed report,
                           bf_known_signing_keys =
                             map (\<lambda>k. (cert_fingerprint k, is_valid k)) (vr_known_signing_keys report),
                           bf_is_encrypted = (''pgp'' \<in> set (extensions bid)),
                           bf_encryption_key = map_option fst used,
                           bf_is_encryption_valid = encryption_valid,
                           bf_can_be_restored = can_restore\<rparr>\<rparr>)), w2))))"

text \<open>\<open>get_download_url\<close>: the lifetime is clamped to the configured maximum.\<close>

definition get_download_url ::
  "('s, 'w, 'k, 'kw, 'c, 'p, 'v, 'kp) service \<Rightarrow> 's \<Rightarrow> backup_id \<Rightarrow> nat \<Rightarrow> (anyhow + string) run" where
  "get_download_url sv s bid ttl =
     (let ttl' = min (max ttl 0) (svc_url_max_ttl sv) in
      case backup_id_fmt (svc_ids sv) bid of
        Panic \<Rightarrow> Panic
      | Ret oid \<Rightarrow> Ret (os_download_url (svc_store sv) oid ttl' s))"

subsection \<open>Restoration\<close>

text \<open>The messages of errors turned into \<open>anyhow::Error\<close>.\<close>

fun verification_message :: "verification_error \<Rightarrow> anyhow" where
  "verification_message (BackupNotFound e) = context_msg ''Backup not found'' e"
| "verification_message (InvalidSignature e) = e"
| "verification_message BackupNotSigned = [''Backup not signed (but signing is mandatory per configuration).'']"
| "verification_message (InvalidChecksum e) = e"
| "verification_message (VerificationOther e) = e"

fun extraction_message :: "extraction_error \<Rightarrow> anyhow" where
  "extraction_message (InvalidBackup e) = context_msg ''Invalid backup'' e"
| "extraction_message (UnknownBackupVersion v) = [''Unknown backup version'']"
| "extraction_message (ExtractionOther e) = e"

fun restoration_message :: "restoration_error \<Rightarrow> anyhow" where
  "restoration_message (PathBackupFailed p e) = context_msg ''Could not backup path before restoration'' e"
| "restoration_message (ExtractionFailed e) = context_msg ''Extraction failed'' (extraction_message e)"
| "restoration_message (FoundUnexpectedData ps) = [''Found unexpected data. This is a logic error.'']"
| "restoration_message (RestorationOther e) = e"

text \<open>
  \<open>restore_backup_partial\<close>: both calls add a context, so that every error is an \<open>Other\<close>; the
  verified file is released at the end.
\<close>

definition restore_backup_partial ::
  "('s, 'w, 'k, 'kw, 'c, 'p, 'v, 'kp) service \<Rightarrow> unpacker \<Rightarrow> nat \<Rightarrow> anyhow + path \<Rightarrow> 's \<Rightarrow> backup_id \<Rightarrow>
     path archive_blueprint \<Rightarrow> cache_state \<Rightarrow> local_fs \<Rightarrow>
     (restoration_error + verification_report \<times> restoration_output) run \<times> cache_state \<times> local_fs" where
  "restore_backup_partial sv unpack ts tmp s bid blueprint w fs =
     (case backup_id_fmt (svc_ids sv) bid of
        Panic \<Rightarrow> (Panic, w, fs)
      | Ret oid \<Rightarrow>
          (case download_backup_and_check_integrity (svc_verifier sv) (svc_store sv) s oid (created_at bid)
                  verification_report_default w of
             (Panic, _, w1) \<Rightarrow> (Panic, w1, fs)
           | (Ret (Inl e), _, w1) \<Rightarrow>
               (Ret (Err (RestorationOther (context_msg ''Failed downloading backup or checking integrity''
                  (verification_message e)))), w1, fs)
           | (Ret (Inr path), report, w1) \<Rightarrow>
               (case restore (svc_archive sv) unpack ts tmp (open_file w1 path) bid blueprint (svc_migrations sv)
                       (svc_decryption sv) (svc_blueprints sv) fs of
                  (Panic, fs1) \<Rightarrow> (Panic, drop_guard path w1, fs1)
                | (Ret (Inl e), fs1) \<Rightarrow>
                    (Ret (Err (RestorationOther (context_msg ''Failed restoring backup'' (restoration_message e)))),
                     drop_guard path w1, fs1)
                | (Ret (Inr out), fs1) \<Rightarrow> (Ret (Ok (report, out)), drop_guard path w1, fs1))))"

text \<open>
  \<open>restore_backup\<close>: unexpected data is an error; the guard is dropped first, then the
  temporary directory.
\<close>

definition restore_backup ::
  "('s, 'w, 'k, 'kw, 'c, 'p, 'v, 'kp) service \<Rightarrow> unpacker \<Rightarrow> nat \<Rightarrow> anyhow + path \<Rightarrow> 's \<Rightarrow> backup_id \<Rightarrow>
     path archive_blueprint \<Rightarrow> cache_state \<Rightarrow> local_fs \<Rightarrow>
     (restoration_error + verification_report \<times> restoration_output) run \<times> cache_state \<times> local_fs" where
  "restore_backup sv unpack ts tmp s bid blueprint w fs =
     (case restore_backup_partial sv unpack ts tmp s bid blueprint w fs of
        (Panic, w1, fs1) \<Rightarrow> (Panic, w1, fs1)
      | (Ret (Inl e), w1, fs1) \<Rightarrow> (Ret (Err e), w1, fs1)
      | (Ret (Inr (report, out)), w1, fs1) \<Rightarrow>
          (case ro_additional out of
             None \<Rightarrow> (Ret (Ok (report, out)), w1, fs1)
           | Some (t, g) \<Rightarrow>
               (let unexpected = (if list_fails (lf_faults fs1) t then [] else dir_children fs1 t)
                in (Ret (Err (FoundUnexpectedData unexpected)), w1, tempdir_drop t (revert_guard_drop False g fs1)))))"

section \<open>Listing, against the contract of the stores\<close>

lemma split_on_ne: "split_on c xs \<noteq> []"
  by (induction xs) (auto split: list.splits)

lemma last_split_on: "c \<notin> set ys \<Longrightarrow> last (split_on c (xs @ c # ys)) = ys"
proof (induction xs)
  case Nil
  have "split_on c ys = [ys]" using Nil by (induction ys) auto
  then show ?case by simp
next
  case (Cons x xs)
  have "length (split_on c (xs @ c # ys)) \<ge> 2"
    by (induction xs) (auto split: list.splits simp: split_on_ne Suc_le_eq)
  with Cons show ?case by (auto split: list.splits)
qed

lemma less_append: "xs < xs @ y # ys" for xs :: string
  by (induction xs) auto

lemma signature_not_backup: "\<not> is_backup \<lparr>file_name = n @ ''.sig'', size_bytes = k\<rparr>"
  using last_split_on [of "CHR ''.''" "''sig''" n] by (simp add: is_backup_def)

lemma object_meta_simps [simp]: "file_name (object_meta k c) = k"
  by (simp add: object_meta_def)

text \<open>What a listing shows of one backup; \<open>has_sig\<close> says which object keys have a signature.\<close>

definition dto_of :: "id_lib \<Rightarrow> bool \<Rightarrow> (string \<Rightarrow> bool) \<Rightarrow> object_metadata \<Rightarrow> backup_metadata_partial backup_dto option" where
  "dto_of ids mandatory has_sig m =
     (case backup_id_parse ids (file_name m) of
        Inl _ \<Rightarrow> None
      | Inr bid \<Rightarrow>
          Some \<lparr>dto_id = bid, dto_description = description bid,
            dto_metadata = \<lparr>bm_created_at = created_at bid, bm_size_bytes = size_bytes m, bm_is_signed = has_sig (file_name m),
              bm_is_encrypted = ends_with (file_name m) ''.pgp'',
              bm_can_be_restored = (\<not> mandatory \<or> has_sig (file_name m))\<rparr>\<rparr>)"

lemma list_dtos_map_filter:
  assumes "\<And>m. m \<in> set ms \<Longrightarrow> (file_name m @ ''.sig'' \<in> set checks) = has_sig (file_name m)"
  shows "list_dtos ids mandatory checks ms = List.map_filter (dto_of ids mandatory has_sig) ms"
  using assms
  by (induction ms) (auto simp: dto_of_def Let_def map_filter_simps split: sum.splits)

text \<open>A backup store and a check store that meet the contract.\<close>

locale backup_listing =
  backups: object_store_contract S abs inv + checks: object_store_contract C cabs cinv
  for S :: "('s, 'w) object_store" and abs :: "'s \<Rightarrow> string \<rightharpoonup> bytes" and inv :: "'s \<Rightarrow> bool"
    and C :: "('k, 'kw) object_store" and cabs :: "'k \<Rightarrow> string \<rightharpoonup> bytes" and cinv :: "'k \<Rightarrow> bool"
begin

lemma signature_listed:
  assumes "lists_exactly (\<lambda>k. p < k) (cabs c) ms" "p \<le> n"
  shows "(n @ ''.sig'' \<in> set (map file_name (filter (\<lambda>m. \<not> is_backup m) ms))) = (cabs c (n @ ''.sig'') \<noteq> None)"
proof -
  have "p < n @ ''.sig''" using assms(2) less_append [of n "CHR ''.''" "''sig''"] by (rule le_less_trans)
  moreover have "\<not> is_backup (object_meta (n @ ''.sig'') b)" for b
    using signature_not_backup by (simp add: object_meta_def)
  moreover have "set ms = {object_meta k b | k b. cabs c k = Some b \<and> p < k}"
    using assms(1) by (simp add: lists_exactly_def)
  then have "(n @ ''.sig'' \<in> set (map file_name (filter (\<lambda>m. \<not> is_backup m) ms))) \<longleftrightarrow>
      (\<exists>b. cabs c (n @ ''.sig'') = Some b \<and> p < n @ ''.sig'' \<and> \<not> is_backup (object_meta (n @ ''.sig'') b))"
    by (auto simp: image_iff) (metis object_meta_simps)
  ultimately show ?thesis by simp
qed

lemma list_backups_spec:
  assumes "inv s" "cinv (v_checks (svc_verifier sv))" "svc_store sv = S" "v_check_store (svc_verifier sv) = C"
  shows "\<exists>ms. lists_exactly (\<lambda>k. k \<noteq> []) (abs s) ms \<and>
    list_backups sv s = Ok (List.map_filter
      (dto_of (svc_ids sv) (v_mandatory (svc_verifier sv))
         (\<lambda>n. cabs (v_checks (svc_verifier sv)) (n @ ''.sig'') \<noteq> None)) (rev (filter is_backup ms)))"
proof -
  let ?V = "svc_verifier sv"
  obtain ms where l: "store_list_all S s = Ok ms" and ms: "lists_exactly (\<lambda>k. k \<noteq> []) (abs s) ms"
    using backups.list_all_lists [OF assms(1)] by blast
  show ?thesis
  proof (cases "filter is_backup ms")
    case Nil
    then show ?thesis using l ms assms by (auto simp: list_backups_def Let_def map_filter_simps)
  next
    case (Cons oldest newer)
    obtain after where a: "os_list_all_after C (file_name oldest) (v_checks ?V) = Ok after"
      "lists_exactly (\<lambda>k. file_name oldest < k) (cabs (v_checks ?V)) after"
      using checks.after_lists [OF assms(2)] by blast
    have "sorted_wrt (<) (map file_name (filter is_backup ms))"
      using ms sorted_wrt_filter unfolding lists_exactly_def sorted_wrt_map by blast
    then have "file_name oldest \<le> file_name m" if "m \<in> set (oldest # newer)" for m
      using that Cons by (auto simp: less_imp_le)
    then have "list_dtos (svc_ids sv) (v_mandatory ?V) (map file_name (filter (\<lambda>m. \<not> is_backup m) after)) (rev (oldest # newer)) =
      List.map_filter (dto_of (svc_ids sv) (v_mandatory ?V) (\<lambda>n. cabs (v_checks ?V) (n @ ''.sig'') \<noteq> None)) (rev (oldest # newer))"
      using signature_listed [OF a(2)] by (intro list_dtos_map_filter) auto
    then show ?thesis using l ms a Cons assms by (auto simp: list_backups_def Let_def)
  qed
qed

end

interpretation fs_listing: backup_listing "fs_object_store st" fs_abs fs_good "fs_object_store st'" fs_abs fs_good for st st'
  by unfold_locales

section \<open>Properties\<close>

text \<open>An example service, with one signed backup of contents \<open>c\<close>.\<close>

definition example_dir_of :: "bytes \<Rightarrow> fs_dir" where
  "example_dir_of c = \<lparr>files = [(''p-0000000001-d.tar'', c)], faults = no_faults\<rparr>"

definition example_svc :: "(fs_dir, string, fs_dir, string, unit, unit, unit, unit) service" where
  "example_svc = \<lparr>svc_ids = rfc_lib, svc_store = example_store,
     svc_verifier = (example_verifier True [GoodChecksum ''c'' ''k''])
       \<lparr>v_checks := \<lparr>files = [(''p-0000000001-d.tar.sig'', ''s'')], faults = no_faults\<rparr>\<rparr>,
     svc_archive = example_restore_lib, svc_decryption = None, svc_blueprints = [1 \<mapsto> example_blueprint],
     svc_migrations = [], svc_url_max_ttl = 300\<rparr>"

lemma plain_key: "backup_id_fmt rfc_lib plain_id = Ret ''p-0000000001-d.tar''"
  by code_simp

definition svc_download where
  "svc_download c = download_backup_and_check_integrity (svc_verifier example_svc) example_store (example_dir_of c)
     ''p-0000000001-d.tar'' (created_at plain_id) verification_report_default (run_cache run_init)"

lemmas svc_eval = svc_download_def example_svc_def example_dir_of_def download_eval open_file_def fs_abs_def

lemma svc_download_ok:
  "fst (svc_download ''ok'') = Ret (Ok ''p-0000000001-d.tar'') \<and>
   open_file (snd (snd (svc_download ''ok''))) ''p-0000000001-d.tar'' = Some ''ok''"
  by (simp add: svc_eval)

lemma svc_download_bad:
  "fst (svc_download ''bad'') = Ret (Ok ''p-0000000001-d.tar'') \<and>
   open_file (snd (snd (svc_download ''bad''))) ''p-0000000001-d.tar'' = Some ''bad''"
  by (simp add: svc_eval)

definition example_restore_backup where
  "example_restore_backup c =
     restore_backup example_svc example_unpack 7 (Inr [''tmp'']) (example_dir_of c) plain_id example_blueprint
       (run_cache run_init) example_tree"

lemma example_restore_backup_eq:
  assumes "fst (svc_download c) = Ret (Ok p)" "open_file (snd (snd (svc_download c))) p = Some c"
    "\<And>out. fst (example_restore c) = Ret (Inr out) \<Longrightarrow> ro_additional out = None"
  shows "snd (snd (example_restore_backup c)) = snd (example_restore c) \<and>
    ((\<exists>x. fst (example_restore_backup c) = Ret (Inr x)) = (\<exists>x. fst (example_restore c) = Ret (Inr x)))"
proof -
  obtain rep w where d: "svc_download c = (Ret (Ok p), rep, w)" using assms(1) by (cases "svc_download c") auto
  obtain r fs where e: "example_restore c = (r, fs)" by (rule prod.exhaust)
  have "svc_ids example_svc = rfc_lib" "svc_store example_svc = example_store" "svc_archive example_svc = example_restore_lib"
    "svc_decryption example_svc = None" "svc_blueprints example_svc = [1 \<mapsto> example_blueprint]" "svc_migrations example_svc = []"
    by (simp_all add: example_svc_def)
  then show ?thesis
    using d e assms(2,3) plain_key unfolding example_restore_backup_def restore_backup_def restore_backup_partial_def
      svc_download_def example_restore_def
    by (simp split: run.splits sum.splits)
qed

definition plain_example :: fs_store where
  "plain_example = \<lparr>directory = ''/d'', overwrite = False, mode = 0x180\<rparr>"

definition example_dto :: "bool \<Rightarrow> bool \<Rightarrow> backup_metadata_partial backup_dto" where
  "example_dto signed' mandatory = \<lparr>dto_id = plain_id, dto_description = ''d'',
     dto_metadata = \<lparr>bm_created_at = created_at plain_id, bm_size_bytes = 2, bm_is_signed = signed', bm_is_encrypted = False,
       bm_can_be_restored = (\<not> mandatory \<or> signed')\<rparr>\<rparr>"

lemma plain_parse: "backup_id_parse rfc_lib ''p-0000000001-d.tar'' = Ok plain_id"
proof -
  have "valid_id plain_id" by (simp add: valid_id_def plain_id_def)
  from backup_id_parse_fmt [OF rfc_lib_laws this plain_key] show ?thesis by (simp add: plain_id_def)
qed

lemma single_listing:
  assumes "lists_exactly (\<lambda>k. k \<noteq> []) (fs_abs (example_dir_of ''ok'')) ms"
  shows "List.map_filter (dto_of rfc_lib mandatory has_sig) (rev (filter is_backup ms)) =
    [example_dto (has_sig ''p-0000000001-d.tar'') mandatory]"
proof -
  let ?m = "object_meta ''p-0000000001-d.tar'' ''ok''"
  have "set ms = {?m}" using assms by (auto simp: lists_exactly_def example_dir_of_def fs_abs_def split: if_splits)
  moreover have "distinct ms" using assms unfolding lists_exactly_def strict_sorted_iff distinct_map by blast
  ultimately have "ms = [?m]" by (cases ms; cases "tl ms") auto
  moreover have "is_backup ?m" by code_simp
  ultimately show ?thesis using plain_parse
    by (simp add: map_filter_simps dto_of_def object_meta_def example_dto_def plain_id_def ends_with_def starts_with_def)
qed

text \<open>
  C16. With file system stores the list of backups is exact: exactly the objects that are not
  checks and whose name parses, the latest name first, each with its size, marked as signed
  exactly if the check store has its signature, and as restorable unless signing is mandatory
  and it is not signed.
\<close>

theorem list_backups_exact:
  assumes "fs_good s" "fs_good (v_checks (svc_verifier sv))" "svc_store sv = fs_object_store st"
    "v_check_store (svc_verifier sv) = fs_object_store st'"
  shows "\<exists>ms. lists_exactly (\<lambda>k. k \<noteq> []) (fs_abs s) ms \<and>
    list_backups sv s = Ok (List.map_filter
      (dto_of (svc_ids sv) (v_mandatory (svc_verifier sv))
         (\<lambda>n. fs_abs (v_checks (svc_verifier sv)) (n @ ''.sig'') \<noteq> None)) (rev (filter is_backup ms)))"
  by (rule fs_listing.list_backups_spec [OF assms])

theorem list_backups_exact_witness:
  "list_backups example_svc (example_dir_of ''ok'') = Ok [example_dto True True]"
proof -
  have g: "fs_good (example_dir_of ''ok'')" "fs_good (v_checks (svc_verifier example_svc))"
    "svc_store example_svc = fs_object_store plain_example" "v_check_store (svc_verifier example_svc) = fs_object_store plain_example"
    by (simp_all add: fs_good_def fs_wf_def example_dir_of_def example_svc_def example_verifier_def example_store_def plain_example_def)
  show ?thesis using list_backups_exact [OF g] single_listing
    by (auto simp: example_svc_def example_verifier_def fs_abs_def)
qed

text \<open>
  C1. Only verified bytes are restored: if a restoration changes the file system in any way,
  then it ran on bytes that carry an accepted signature or, when signing is not mandatory, that
  match a stored digest.
\<close>

theorem restore_backup_only_verified:
  assumes "run_ok \<lparr>run_cache = w, run_readers = rs, run_held = hs, run_leaked = ls\<rparr>"
    "restore_backup sv unpack ts tmp s bid blueprint w fs = (r, w', fs')" "fs' \<noteq> fs"
  shows "\<exists>oid d r1 fs1. backup_id_fmt (svc_ids sv) bid = Ret oid \<and> verified (svc_verifier sv) oid (created_at bid) d \<and>
    restore (svc_archive sv) unpack ts tmp (Some d) bid blueprint (svc_migrations sv) (svc_decryption sv)
      (svc_blueprints sv) fs = (r1, fs1) \<and>
    (fs' = fs1 \<or> (\<exists>t g. fs' = tempdir_drop t (revert g fs1)))"
proof -
  obtain oid where oid: "backup_id_fmt (svc_ids sv) bid = Ret oid"
    using assms(2,3) by (cases "backup_id_fmt (svc_ids sv) bid") (auto simp: restore_backup_def restore_backup_partial_def)
  obtain vr rep w1 where d: "download_backup_and_check_integrity (svc_verifier sv) (svc_store sv) s oid (created_at bid)
      verification_report_default w = (vr, rep, w1)" by (rule prod_cases3)
  obtain path where vr: "vr = Ret (Inr path)"
    using assms(2,3) oid d by (auto simp: restore_backup_def restore_backup_partial_def split: run.splits sum.splits)
  obtain x where x: "fs_abs (cache_files w1) path = Some x" "verified (svc_verifier sv) oid (created_at bid) x"
    using download_Ok [OF assms(1) d [unfolded vr]] by blast
  obtain r1 fs1 where rs: "restore (svc_archive sv) unpack ts tmp (open_file w1 path) bid blueprint (svc_migrations sv)
      (svc_decryption sv) (svc_blueprints sv) fs = (r1, fs1)" by (rule prod.exhaust)
  have out: "fs' = fs1 \<or> (\<exists>t g. fs' = tempdir_drop t (revert g fs1))"
    using assms(2) oid d vr rs
    by (auto simp: restore_backup_def restore_backup_partial_def revert_guard_drop_def Let_def
        split: run.splits sum.splits option.splits)
  have "open_file w1 path = Some x"
  proof (rule ccontr)
    assume "open_file w1 path \<noteq> Some x"
    then have "open_file w1 path = None" using x(1) by (auto simp: open_file_def split: if_splits)
    then have "fs1 = fs" "\<exists>e. r1 = Ret (Inl e)" using rs by (auto simp: restore_def)
    then show False using assms(2,3) oid d vr rs by (auto simp: restore_backup_def restore_backup_partial_def)
  qed
  then have "restore (svc_archive sv) unpack ts tmp (Some x) bid blueprint (svc_migrations sv) (svc_decryption sv)
      (svc_blueprints sv) fs = (r1, fs1)" using rs by simp
  then show ?thesis using oid x(2) out by blast
qed

theorem restore_backup_only_verified_witness:
  "\<exists>oid d. backup_id_fmt rfc_lib plain_id = Ret oid \<and> verified (svc_verifier example_svc) oid (created_at plain_id) d \<and>
     snd (snd (example_restore_backup ''ok'')) \<noteq> example_tree"
proof -
  have "fst (example_restore ''ok'') = Ret (Inr \<lparr>ro_version = 1, ro_additional = None\<rparr>)" by code_simp
  then have e: "snd (snd (example_restore_backup ''ok'')) = snd (example_restore ''ok'')"
    using example_restore_backup_eq [of "''ok''"] svc_download_ok by simp
  have "look (snd (example_restore ''ok'')) [''d''] = Some (FileE ''new'')" by code_simp
  moreover have "look example_tree [''d''] = Some DirE" by code_simp
  ultimately have ne: "snd (snd (example_restore_backup ''ok'')) \<noteq> example_tree" using e by auto
  obtain r w' where "restore_backup example_svc example_unpack 7 (Inr [''tmp'']) (example_dir_of ''ok'') plain_id example_blueprint
      (run_cache run_init) example_tree = (r, w', snd (snd (example_restore_backup ''ok'')))"
    by (metis example_restore_backup_def prod.collapse)
  from restore_backup_only_verified [OF run_init_ok this ne] ne show ?thesis
    by (auto simp: example_svc_def)
qed

text \<open>A partial restoration through the service.\<close>

lemma restore_backup_partial_cases:
  assumes "restore_backup_partial sv unpack ts tmp s bid blueprint w fs = (r, w', fs')"
  obtains "fs' = fs" "\<nexists>x. r = Ret (Inr x)"
  | f r1 where "restore (svc_archive sv) unpack ts tmp f bid blueprint (svc_migrations sv) (svc_decryption sv)
      (svc_blueprints sv) fs = (r1, fs')" "\<And>report out. r = Ret (Inr (report, out)) \<Longrightarrow> r1 = Ret (Inr out)"
      "(\<nexists>x. r = Ret (Inr x)) \<Longrightarrow> (\<nexists>out. r1 = Ret (Inr out))"
proof (cases "backup_id_fmt (svc_ids sv) bid")
  case Panic
  then show ?thesis using assms that(1) by (auto simp: restore_backup_partial_def)
next
  case (Ret oid)
  obtain vr rep w1 where d: "download_backup_and_check_integrity (svc_verifier sv) (svc_store sv) s oid (created_at bid)
      verification_report_default w = (vr, rep, w1)" by (rule prod_cases3)
  show ?thesis
  proof (cases "\<exists>path. vr = Ret (Inr path)")
    case False
    then show ?thesis using assms Ret d that(1)
      by (auto simp: restore_backup_partial_def split: run.splits sum.splits)
  next
    case True
    then obtain path where vr: "vr = Ret (Inr path)" by blast
    obtain r1 fs1 where rs: "restore (svc_archive sv) unpack ts tmp (open_file w1 path) bid blueprint (svc_migrations sv)
        (svc_decryption sv) (svc_blueprints sv) fs = (r1, fs1)" by (rule prod.exhaust)
    then have "fs' = fs1" "\<And>report out. r = Ret (Inr (report, out)) \<Longrightarrow> r1 = Ret (Inr out)"
      "(\<nexists>x. r = Ret (Inr x)) \<Longrightarrow> (\<nexists>out. r1 = Ret (Inr out))"
      using assms Ret d vr by (auto simp: restore_backup_partial_def split: run.splits sum.splits)
    then show ?thesis using that(2) rs by blast
  qed
qed

lemma restore_backup_partial_failed:
  assumes "unpack_confined unpack" "restorable ts (map snd (sort_longest_first (bp_paths blueprint))) tmp fs"
    "restore_backup_partial sv unpack ts tmp s bid blueprint w fs = (r, w', fs')" "\<nexists>x. r = Ret (Inr x)"
  shows "restored (map snd (sort_longest_first (bp_paths blueprint))) fs fs'"
  using assms(3)
proof (cases rule: restore_backup_partial_cases)
  case 1
  then show ?thesis by (simp add: restored_def)
next
  case (2 f r1)
  then show ?thesis using restore_failed [OF assms(1,2) 2(1)] assms(4) by blast
qed



lemma stored_check_exists:
  assumes "fs_good (v_checks V)" "v_check_store V = fs_object_store st" "stored_check V key n data"
  shows "fs_abs (v_checks V) key \<noteq> None"
  using assms fs.metadata_None [OF assms(1), of key st] unfolding stored_check_def reader_if_not_too_large_def
  by (cases "fs_abs (v_checks V) key") auto

text \<open>A backup without a stored signature is refused when signing is mandatory.\<close>

lemma unsigned_refused:
  assumes "run_ok \<lparr>run_cache = w, run_readers = rs, run_held = hs, run_leaked = ls\<rparr>" "v_mandatory (svc_verifier sv)"
    "fs_good (v_checks (svc_verifier sv))" "v_check_store (svc_verifier sv) = fs_object_store st'"
    "backup_id_fmt (svc_ids sv) bid = Ret oid" "fs_abs (v_checks (svc_verifier sv)) (oid @ ''.sig'') = None"
    "restore_backup sv unpack ts tmp s bid blueprint w fs = (r, w', fs')"
  shows "(\<nexists>x. r = Ret (Inr x)) \<and> fs' = fs"
proof -
  let ?V = "svc_verifier sv"
  obtain vr rep w1 where d: "download_backup_and_check_integrity ?V (svc_store sv) s oid (created_at bid)
      verification_report_default w = (vr, rep, w1)" by (rule prod_cases3)
  have "\<not> verified ?V oid (created_at bid) x" for x
    using assms(2,6) stored_check_exists [OF assms(3,4)] unfolding verified_def signature_verified_def by blast
  then have "vr \<noteq> Ret (Inr path)" for path using download_Ok [OF assms(1), of ?V "svc_store sv" s oid] d by blast
  then show ?thesis using assms(5,7) d
    by (auto simp: restore_backup_def restore_backup_partial_def split: run.splits sum.splits)
qed

text \<open>
  The listing is right about what cannot be restored: a backup it shows as not restorable
  is refused by \<open>restore_backup\<close>, which then changes nothing.  The names of the stored
  objects are assumed to be as \<open>create_backup\<close> writes them.
\<close>

theorem not_restorable_refused:
  assumes "run_ok \<lparr>run_cache = w, run_readers = rs, run_held = hs, run_leaked = ls\<rparr>"
    "fs_good s" "fs_good (v_checks (svc_verifier sv))" "svc_store sv = fs_object_store st"
    "v_check_store (svc_verifier sv) = fs_object_store st'"
    "\<And>k bid. fs_abs s k \<noteq> None \<Longrightarrow> backup_id_parse (svc_ids sv) k = Ok bid \<Longrightarrow> backup_id_fmt (svc_ids sv) bid = Ret k"
    "list_backups sv s = Ok dtos" "dto \<in> set dtos" "\<not> bm_can_be_restored (dto_metadata dto)"
    "restore_backup sv unpack ts tmp s (dto_id dto) blueprint w fs = (r, w', fs')"
  shows "(\<nexists>x. r = Ret (Inr x)) \<and> fs' = fs"
proof -
  let ?V = "svc_verifier sv" and ?sig = "\<lambda>n. fs_abs (v_checks (svc_verifier sv)) (n @ ''.sig'') \<noteq> None"
  obtain ms where ms: "lists_exactly (\<lambda>k. k \<noteq> []) (fs_abs s) ms"
    and l: "dtos = List.map_filter (dto_of (svc_ids sv) (v_mandatory ?V) ?sig) (rev (filter is_backup ms))"
    using fs_listing.list_backups_spec [OF assms(2-5)] assms(7) by auto
  then obtain m where m: "m \<in> set ms" "dto_of (svc_ids sv) (v_mandatory ?V) ?sig m = Some dto"
    using assms(8) by (auto simp: map_filter_def)
  then have p: "backup_id_parse (svc_ids sv) (file_name m) = Ok (dto_id dto)" "v_mandatory ?V" "\<not> ?sig (file_name m)"
    using assms(9) by (auto simp: dto_of_def split: sum.splits)
  have "fs_abs s (file_name m) \<noteq> None" using ms m(1) by (auto simp: lists_exactly_def)
  then have "backup_id_fmt (svc_ids sv) (dto_id dto) = Ret (file_name m)" using assms(6) p(1) by blast
  from unsigned_refused [OF assms(1) p(2) assms(3,5) this _ assms(10)] p(3) show ?thesis by simp
qed

text \<open>The example service without its signature.\<close>

definition unsigned_svc :: "(fs_dir, string, fs_dir, string, unit, unit, unit, unit) service" where
  "unsigned_svc = example_svc\<lparr>svc_verifier := (svc_verifier example_svc)\<lparr>v_checks := \<lparr>files = [], faults = no_faults\<rparr>\<rparr>\<rparr>"

theorem not_restorable_refused_witness:
  "snd (snd (restore_backup unsigned_svc example_unpack 7 (Inr [''tmp'']) (example_dir_of ''ok'') plain_id example_blueprint
     (run_cache run_init) example_tree)) = example_tree"
proof -
  have g: "fs_good (example_dir_of ''ok'')" "fs_good (v_checks (svc_verifier unsigned_svc))"
    "svc_store unsigned_svc = fs_object_store plain_example" "v_check_store (svc_verifier unsigned_svc) = fs_object_store plain_example"
    by (simp_all add: fs_good_def fs_wf_def example_dir_of_def example_svc_def unsigned_svc_def example_verifier_def
        example_store_def plain_example_def)
  have ids: "svc_ids unsigned_svc = rfc_lib" by (simp add: unsigned_svc_def example_svc_def)
  let ?dto = "example_dto False True"
  have can: "backup_id_fmt (svc_ids unsigned_svc) bid = Ret k"
    if "fs_abs (example_dir_of ''ok'') k \<noteq> None" "backup_id_parse (svc_ids unsigned_svc) k = Ok bid" for k bid
    using that plain_key plain_parse ids by (auto simp: fs_abs_def example_dir_of_def split: if_splits)
  have l: "list_backups unsigned_svc (example_dir_of ''ok'') = Ok [?dto]"
    using fs_listing.list_backups_spec [OF g] single_listing
    by (auto simp: ids unsigned_svc_def example_svc_def example_verifier_def fs_abs_def)
  have d: "dto_id ?dto = plain_id" "\<not> bm_can_be_restored (dto_metadata ?dto)" by (simp_all add: example_dto_def)
  obtain r w' fs' where rb: "restore_backup unsigned_svc example_unpack 7 (Inr [''tmp'']) (example_dir_of ''ok'') (dto_id ?dto)
     example_blueprint (run_cache run_init) example_tree = (r, w', fs')" by (rule prod_cases3)
  from not_restorable_refused [OF run_init_ok g can l _ d(2) rb] rb d(1) show ?thesis by simp
qed

text \<open>
  What \<open>get_details\<close> reports as restorable has been verified, and is an archive of a known
  version that the configured keys open.
\<close>

theorem get_details_sound:
  assumes "run_ok \<lparr>run_cache = w, run_readers = rs, run_held = hs, run_leaked = ls\<rparr>"
    "get_details sv s bid w = (Ret (Ok dto), w')" "bf_can_be_restored (dto_metadata dto)"
  shows "bf_is_intact (dto_metadata dto) \<and>
    (\<exists>oid d used blueprint version. backup_id_fmt (svc_ids sv) bid = Ret oid \<and> verified (svc_verifier sv) oid (created_at bid) d \<and>
       get_metadata (svc_archive sv) (Some d) bid (svc_decryption sv) (svc_blueprints sv) = (Ok (blueprint, version), used) \<and>
       svc_blueprints sv version = Some blueprint)"
proof -
  obtain oid where oid: "backup_id_fmt (svc_ids sv) bid = Ret oid"
    using assms(2) by (cases "backup_id_fmt (svc_ids sv) bid") (auto simp: get_details_def)
  obtain vr rep w1 where d: "download_backup_and_check_integrity (svc_verifier sv) (svc_store sv) s oid (created_at bid)
      verification_report_default w = (vr, rep, w1)" by (rule prod_cases3)
  obtain path where vr: "vr = Ret (Inr path)"
    using assms(2,3) oid d by (auto simp: get_details_def try_bind_eq_Ok split: run.splits sum.splits)
  obtain x where x: "is_intact rep" "fs_abs (cache_files w1) path = Some x" "verified (svc_verifier sv) oid (created_at bid) x"
    using download_Ok [OF assms(1) d [unfolded vr]] by blast
  obtain m used where gm: "get_metadata (svc_archive sv) (open_file w1 path) bid (svc_decryption sv) (svc_blueprints sv) = (m, used)"
    by (rule prod.exhaust)
  have r: "is_ok m" "bf_is_intact (dto_metadata dto)"
    using assms(2,3) oid d vr gm x(1) by (auto simp: get_details_def try_bind_eq_Ok)
  then obtain blueprint version where m: "m = Ok (blueprint, version)" by (cases m) (auto simp: is_ok_def)
  have o: "open_file w1 path = Some x"
    using x(2) gm m by (cases "open_fails (faults (cache_files w1)) path") (auto simp: open_file_def get_metadata_def)
  have "svc_blueprints sv version = Some blueprint"
    using get_metadata_blueprint gm m o by metis
  then show ?thesis using r(2) oid x(3) gm m o by auto
qed

theorem get_details_sound_witness:
  "\<exists>dto w'. get_details example_svc (example_dir_of ''ok'') plain_id (run_cache run_init) = (Ret (Ok dto), w') \<and>
     bf_is_intact (dto_metadata dto) \<and> (\<exists>d. verified (svc_verifier example_svc) ''p-0000000001-d.tar'' (created_at plain_id) d)"
proof -
  obtain rep w1 where d: "svc_download ''ok'' = (Ret (Ok ''p-0000000001-d.tar''), rep, w1)"
    and o: "open_file w1 ''p-0000000001-d.tar'' = Some ''ok''"
    using svc_download_ok by (cases "svc_download ''ok''") auto
  have "is_ok (fst (get_metadata example_restore_lib (Some ''ok'') plain_id None [1 \<mapsto> example_blueprint]))" by code_simp
  moreover have "os_metadata example_store ''p-0000000001-d.tar'' (example_dir_of ''ok'') =
      Ok \<lparr>file_name = ''p-0000000001-d.tar'', size_bytes = 2\<rparr>"
    by (simp add: example_store_def fs_object_store_def fs_metadata_def stat_len_def example_dir_of_def no_faults_def)
  ultimately have "\<exists>dto w'. get_details example_svc (example_dir_of ''ok'') plain_id (run_cache run_init) = (Ret (Ok dto), w') \<and>
      bf_can_be_restored (dto_metadata dto)"
    using d o plain_key unfolding get_details_def svc_download_def
    by (auto simp: example_svc_def split: prod.splits)
  then obtain dto w' where g: "get_details example_svc (example_dir_of ''ok'') plain_id (run_cache run_init) = (Ret (Ok dto), w')"
    "bf_can_be_restored (dto_metadata dto)" by blast
  from get_details_sound [OF run_init_ok g] g plain_key show ?thesis by (auto simp: example_svc_def)
qed

end
