(* ===== verification/S3_Store.thy ===== *)
theory S3_Store
  imports Object_Store Backup_Service
begin

text \<open>
  \<^verbatim>\<open>api/crates/backup/src/stores/s3.rs\<close>: objects in an S3 bucket.  The client of the AWS SDK
  is the record \<open>s3_client\<close> of its requests over a bucket state \<open>'b\<close>; the laws used of it are
  \<open>serves\<close> (paged listings) and \<open>multipart_laws\<close>.
\<close>

section \<open>The client\<close>

type_synonym i32 = "32 word"

record s3_page =
  pg_contents :: "(string option \<times> int option) list"
  pg_truncated :: "bool option"
  pg_next :: "string option"

datatype s3_head_error = ServiceNotFound | HeadOther anyhow

record 'b s3_client =
  s3_create_multipart :: "string \<Rightarrow> 'b \<Rightarrow> (anyhow + string option) \<times> 'b"
  s3_upload_part :: "string \<Rightarrow> string \<Rightarrow> i32 \<Rightarrow> bytes \<Rightarrow> 'b \<Rightarrow> (anyhow + string option) \<times> 'b"
  s3_complete :: "string \<Rightarrow> string \<Rightarrow> (i32 \<times> string) list \<Rightarrow> 'b \<Rightarrow> (anyhow + unit) \<times> 'b"
  s3_put_retention :: "string \<times> nat \<Rightarrow> string \<Rightarrow> 'b \<Rightarrow> (anyhow + unit) \<times> 'b"
  s3_put_legal_hold :: "string \<Rightarrow> string \<Rightarrow> 'b \<Rightarrow> (anyhow + unit) \<times> 'b"
  s3_list :: "string \<Rightarrow> string option \<Rightarrow> 'b \<Rightarrow> anyhow + s3_page"
  s3_head :: "string \<Rightarrow> 'b \<Rightarrow> s3_head_error + int option"
  s3_presign :: "string \<Rightarrow> nat \<Rightarrow> 'b \<Rightarrow> anyhow + string"
  s3_delete_object :: "string \<Rightarrow> 'b \<Rightarrow> (anyhow + bool option) \<times> 'b"
  s3_delete_objects :: "string list \<Rightarrow> 'b \<Rightarrow> (anyhow + (string option \<times> bool option) list \<times> anyhow list) \<times> 'b"
  s3_get :: "string \<Rightarrow> 'b \<Rightarrow> anyhow + (anyhow + bytes) list"

section \<open>The store\<close>

text \<open>Durations in seconds; the lock mode and the legal hold status are the strings S3 uses.\<close>

record s3_object_lock_config =
  ol_mode :: string
  ol_duration :: nat

record storage_s3_config =
  s3c_bucket_name :: string
  s3c_region :: string
  s3c_endpoint_url :: string
  s3c_access_key :: string
  s3c_secret_key :: string
  s3c_session_token :: "string option"
  s3c_prefix :: "string option"
  s3c_force_path_style :: "bool option"
  s3c_object_lock :: "s3_object_lock_config option"
  s3c_legal_hold :: "string option"

record s3_store =
  s3_bucket :: string
  s3_prefix :: string
  s3_object_lock :: "s3_object_lock_config option"
  s3_legal_hold :: "string option"

text \<open>
  \<open>from_config\<close>; \<open>from_conf\<close> makes a client of the region, the endpoint, the credentials and the
  addressing style, for the requests on a bucket.
\<close>

definition s3_from_config ::
  "(string \<Rightarrow> string \<Rightarrow> string \<times> string \<times> string option \<Rightarrow> bool option \<Rightarrow> string \<Rightarrow> 'b s3_client) \<Rightarrow>
     storage_s3_config \<Rightarrow> 'b s3_client \<times> s3_store" where
  "s3_from_config from_conf config =
     (let creds = (s3c_access_key config, s3c_secret_key config, s3c_session_token config)
      in (from_conf (s3c_region config) (s3c_endpoint_url config) creds (s3c_force_path_style config) (s3c_bucket_name config),
         \<lparr>s3_bucket = s3c_bucket_name config,
          s3_prefix = (case s3c_prefix config of Some p \<Rightarrow> p | None \<Rightarrow> []),
          s3_object_lock = s3c_object_lock config, s3_legal_hold = s3c_legal_hold config\<rparr>))"

definition saturating_i64_to_u64 :: "int \<Rightarrow> u64" where
  "saturating_i64_to_u64 value = of_int (max value 0)"

text \<open>The objects of a page; the \<open>unwrap\<close> of the prefix panics.\<close>

fun page_objects :: "string \<Rightarrow> (string option \<times> int option) list \<Rightarrow> object_metadata list run" where
  "page_objects pfx [] = Ret []"
| "page_objects pfx ((Some key, Some sz) # objs) =
     (case strip_prefix pfx key of
        None \<Rightarrow> Panic
      | Some name \<Rightarrow>
          (case page_objects pfx objs of
             Panic \<Rightarrow> Panic
           | Ret ms \<Rightarrow> Ret (\<lparr>file_name = name, size_bytes = saturating_i64_to_u64 sz\<rparr> # ms)))"
| "page_objects pfx (_ # objs) = page_objects pfx objs"

text \<open>The loop over the pages, \<open>None\<close> if it never ends.\<close>

partial_function (option) s3_list_loop ::
  "'b s3_client \<Rightarrow> string \<Rightarrow> string \<Rightarrow> 'b \<Rightarrow> string option \<Rightarrow> object_metadata list \<Rightarrow> (anyhow + object_metadata list) run option" where
  "s3_list_loop C pfx p b continuation_token results =
     (case s3_list C (pfx @ p) continuation_token b of
        Inl e \<Rightarrow> Some (Ret (Err (context_msg ''Failed listing S3 objects'' e)))
      | Inr resp \<Rightarrow>
          (case page_objects pfx (pg_contents resp) of
             Panic \<Rightarrow> Some Panic
           | Ret ms \<Rightarrow>
               if pg_truncated resp = Some True then s3_list_loop C pfx p b (pg_next resp) (results @ ms)
               else Some (Ret (Ok (results @ ms)))))"

definition s3_find :: "'b s3_client \<Rightarrow> s3_store \<Rightarrow> string \<Rightarrow> 'b \<Rightarrow> (anyhow + object_metadata list) run option" where
  "s3_find C st p b = s3_list_loop C (s3_prefix st) p b None []"

definition s3_list_all_after :: "'b s3_client \<Rightarrow> s3_store \<Rightarrow> string \<Rightarrow> 'b \<Rightarrow> (anyhow + object_metadata list) run option" where
  "s3_list_all_after C st p b = s3_list_loop C (s3_prefix st) p b None []"

text \<open>\<open>exists_\<close>: every error of the request counts as a missing object.\<close>

definition s3_head_exists :: "'b s3_client \<Rightarrow> s3_store \<Rightarrow> string \<Rightarrow> 'b \<Rightarrow> read_object_error + int option" where
  "s3_head_exists C st key b =
     (case s3_head C (s3_prefix st @ key) b of
        Inr output \<Rightarrow> Ok output
      | Inl ServiceNotFound \<Rightarrow> Err (ObjectNotFound [''not found''])
      | Inl (HeadOther e) \<Rightarrow> Err (ObjectNotFound e))"

definition s3_exists :: "'b s3_client \<Rightarrow> s3_store \<Rightarrow> string \<Rightarrow> 'b \<Rightarrow> anyhow + bool" where
  "s3_exists C st key b =
     (case s3_head_exists C st key b of
        Inr _ \<Rightarrow> Ok True
      | Inl (ObjectNotFound _) \<Rightarrow> Ok False
      | Inl (ReadOther e) \<Rightarrow> Err e)"

definition s3_metadata :: "'b s3_client \<Rightarrow> s3_store \<Rightarrow> string \<Rightarrow> 'b \<Rightarrow> (read_object_error + object_metadata) run" where
  "s3_metadata C st key b =
     (case s3_head C (s3_prefix st @ key) b of
        Inl e \<Rightarrow> Ret (Err (ObjectNotFound (context_msg ''Failed getting S3 object metadata''
                   (case e of ServiceNotFound \<Rightarrow> [''not found''] | HeadOther e' \<Rightarrow> e'))))
      | Inr None \<Rightarrow> Panic
      | Inr (Some n) \<Rightarrow> Ret (Ok \<lparr>file_name = key, size_bytes = saturating_i64_to_u64 n\<rparr>))"

definition s3_download_url :: "'b s3_client \<Rightarrow> s3_store \<Rightarrow> string \<Rightarrow> nat \<Rightarrow> 'b \<Rightarrow> anyhow + string" where
  "s3_download_url C st key ttl b = s3_presign C (s3_prefix st @ key) ttl b"

definition s3_delete :: "'b s3_client \<Rightarrow> s3_store \<Rightarrow> string \<Rightarrow> 'b \<Rightarrow> (anyhow + deleted_state) \<times> 'b" where
  "s3_delete C st key b =
     (case s3_delete_object C (s3_prefix st @ key) b of
        (Inl e, b') \<Rightarrow> (Err (context_msg ''Failed deleting S3 object'' e), b')
      | (Inr marker, b') \<Rightarrow> (Ok (if marker = Some True then MarkedForDeletion else Deleted), b'))"

text \<open>The loop over what was deleted.\<close>

fun sort_deleted :: "string \<Rightarrow> (string option \<times> bool option) list \<Rightarrow> bulk_delete_output \<Rightarrow> bulk_delete_output run" where
  "sort_deleted pfx [] out = Ret out"
| "sort_deleted pfx ((key, marker) # objs) out =
     (case strip_prefix pfx (case key of Some k \<Rightarrow> k | None \<Rightarrow> []) of
        None \<Rightarrow> Panic
      | Some name \<Rightarrow>
          sort_deleted pfx objs
            (if marker = Some True then out\<lparr>marked_for_deletion := marked_for_deletion out @ [name]\<rparr>
             else out\<lparr>deleted := deleted out @ [name]\<rparr>))"

text \<open>\<open>delete_all\<close> reads a single page.\<close>

definition s3_delete_all :: "'b s3_client \<Rightarrow> s3_store \<Rightarrow> string \<Rightarrow> 'b \<Rightarrow> (anyhow + bulk_delete_output) run \<times> 'b" where
  "s3_delete_all C st p b =
     (case s3_list C (s3_prefix st @ p) None b of
        Inl e \<Rightarrow> (Ret (Err e), b)
      | Inr objects \<Rightarrow>
          (let identifiers = List.map_filter fst (pg_contents objects) in
           if identifiers = [] then (Ret (Ok bulk_delete_default), b)
           else (case s3_delete_objects C identifiers b of
                   (Inl e, b') \<Rightarrow> (Ret (Err e), b')
                 | (Inr (dels, errs), b') \<Rightarrow>
                     (case sort_deleted (s3_prefix st) dels bulk_delete_default of
                        Panic \<Rightarrow> (Panic, b')
                      | Ret out \<Rightarrow>
                          (Ret (Ok (out\<lparr>errors := errors out @ map (context_msg ''Object not deleted'') errs\<rparr>)), b')))))"

section \<open>The writer\<close>

definition UPLOAD_PART_SIZE :: nat where
  "UPLOAD_PART_SIZE = 8 * 1024 * 1024"

record s3_writer =
  sw_key :: string
  sw_upload_id :: string
  sw_buf :: bytes
  sw_parts :: "(i32 \<times> string) list"
  sw_part_number :: i32
  sw_put_retention :: "(string \<times> nat) option"
  sw_put_legal_hold :: "string option"

text \<open>\<open>now + duration\<close> panics beyond what a \<open>SystemTime\<close> holds.\<close>

definition retention_request :: "nat \<Rightarrow> s3_object_lock_config \<Rightarrow> (string \<times> nat) run" where
  "retention_request now lock =
     (if now + ol_duration lock < 2 ^ 63 then Ret (ol_mode lock, now + ol_duration lock) else Panic)"

definition s3_writer_new :: "'b s3_client \<Rightarrow> s3_store \<Rightarrow> nat \<Rightarrow> string \<Rightarrow> 'b \<Rightarrow> (anyhow + s3_writer) run \<times> 'b" where
  "s3_writer_new C st now key b =
     (case s3_create_multipart C (s3_prefix st @ key) b of
        (Inl e, b') \<Rightarrow> (Ret (Err (context_msg ''Failed creating S3 multipart upload'' e)), b')
      | (Inr upload_id, b') \<Rightarrow>
          (case (case s3_object_lock st of
                   None \<Rightarrow> Ret None
                 | Some lock \<Rightarrow> (case retention_request now lock of Panic \<Rightarrow> Panic | Ret q \<Rightarrow> Ret (Some q))) of
             Panic \<Rightarrow> (Panic, b')
           | Ret retention \<Rightarrow>
               (case upload_id of
                  None \<Rightarrow> (Panic, b')
                | Some uid \<Rightarrow>
                    (Ret (Ok \<lparr>sw_key = s3_prefix st @ key, sw_upload_id = uid, sw_buf = [], sw_parts = [], sw_part_number = 1,
                       sw_put_retention = retention, sw_put_legal_hold = s3_legal_hold st\<rparr>), b'))))"

definition flush_part :: "'b s3_client \<Rightarrow> s3_writer \<Rightarrow> 'b \<Rightarrow> (anyhow + unit) run \<times> s3_writer \<times> 'b" where
  "flush_part C w b =
     (if sw_buf w = [] then (Ret (Ok ()), w, b)
      else (case s3_upload_part C (sw_key w) (sw_upload_id w) (sw_part_number w) (sw_buf w) b of
              (Inl e, b') \<Rightarrow> (Ret (Err (context_msg ''S3 multipart upload flush failed'' e)), w, b')
            | (Inr None, b') \<Rightarrow> (Panic, w, b')
            | (Inr (Some e_tag), b') \<Rightarrow>
                (Ret (Ok ()), w\<lparr>sw_parts := sw_parts w @ [(sw_part_number w, e_tag)],
                   sw_part_number := sw_part_number w + 1, sw_buf := []\<rparr>, b')))"

definition s3_write :: "'b s3_client \<Rightarrow> bytes \<Rightarrow> s3_writer \<Rightarrow> 'b \<Rightarrow> (anyhow + nat) run \<times> s3_writer \<times> 'b" where
  "s3_write C buf w b =
     (let w1 = w\<lparr>sw_buf := sw_buf w @ buf\<rparr> in
      if UPLOAD_PART_SIZE \<le> length (sw_buf w1)
      then (case flush_part C w1 b of
              (Panic, w2, b') \<Rightarrow> (Panic, w2, b')
            | (Ret (Inl e), w2, b') \<Rightarrow> (Ret (Err e), w2, b')
            | (Ret (Inr _), w2, b') \<Rightarrow> (Ret (Ok (length buf)), w2, b'))
      else (Ret (Ok (length buf)), w1, b))"

text \<open>\<open>complete\<close>: the last part, the object, then retention and legal hold.\<close>

definition optional_request ::
  "'q option \<Rightarrow> string \<Rightarrow> ('q \<Rightarrow> string \<Rightarrow> 'b \<Rightarrow> (anyhow + unit) \<times> 'b) \<Rightarrow> string \<Rightarrow> 'b \<Rightarrow> (anyhow + unit) \<times> 'b" where
  "optional_request req msg send key b =
     (case req of
        None \<Rightarrow> (Ok (), b)
      | Some q \<Rightarrow> (case send q key b of (Inl e, b') \<Rightarrow> (Err (context_msg msg e), b') | (Inr u, b') \<Rightarrow> (Ok u, b')))"

definition complete :: "'b s3_client \<Rightarrow> s3_writer \<Rightarrow> 'b \<Rightarrow> (anyhow + unit) run \<times> 'b" where
  "complete C w b =
     (case flush_part C w b of
        (Panic, _, b1) \<Rightarrow> (Panic, b1)
      | (Ret (Inl e), _, b1) \<Rightarrow> (Ret (Err e), b1)
      | (Ret (Inr _), w1, b1) \<Rightarrow>
          (case s3_complete C (sw_key w1) (sw_upload_id w1) (sw_parts w1) b1 of
             (Inl e, b2) \<Rightarrow> (Ret (Err (context_msg ''S3 multipart upload complete failed'' e)), b2)
           | (Inr _, b2) \<Rightarrow>
               (case optional_request (sw_put_retention w1) ''Failed adding S3 object retention metadata''
                       (s3_put_retention C) (sw_key w1) b2 of
                  (Inl e, b3) \<Rightarrow> (Ret (Err e), b3)
                | (Inr _, b3) \<Rightarrow>
                    (case optional_request (sw_put_legal_hold w1) ''Failed adding S3 object legal hold metadata''
                            (s3_put_legal_hold C) (sw_key w1) b3 of
                       (Inl e, b4) \<Rightarrow> (Ret (Err e), b4)
                     | (Inr _, b4) \<Rightarrow> (Ret (Ok ()), b4)))))"

definition s3_flush :: "'b s3_client \<Rightarrow> s3_writer \<Rightarrow> 'b \<Rightarrow> (anyhow + unit) run \<times> s3_writer \<times> 'b" where
  "s3_flush C w b = flush_part C w b"

definition s3_finalize :: "'b s3_client \<Rightarrow> s3_writer \<Rightarrow> 'b \<Rightarrow> (anyhow + unit) run \<times> 'b" where
  "s3_finalize C w b = complete C w b"

section \<open>The reader\<close>

record s3_reader =
  sr_key :: string
  sr_stream :: "(anyhow + bytes) list option"
  sr_buf :: bytes

definition s3_reader_new :: "'b s3_client \<Rightarrow> s3_store \<Rightarrow> string \<Rightarrow> 'b \<Rightarrow> read_object_error + s3_reader" where
  "s3_reader_new C st key b =
     try_bind (s3_head_exists C st key b) (\<lambda>_. Ok \<lparr>sr_key = s3_prefix st @ key, sr_stream = None, sr_buf = []\<rparr>)"

definition ensure_stream :: "'b s3_client \<Rightarrow> s3_reader \<Rightarrow> 'b \<Rightarrow> anyhow + s3_reader \<times> (anyhow + bytes) list" where
  "ensure_stream C r b =
     (case sr_stream r of
        Some s \<Rightarrow> Ok (r, s)
      | None \<Rightarrow>
          try_bind (map_err (context_msg ''Failed to open S3 object for reading'') (s3_get C (sr_key r) b)) (\<lambda>s.
          Ok (r\<lparr>sr_stream := Some s\<rparr>, s)))"

text \<open>One \<open>read\<close> into a buffer of length \<open>n\<close>.\<close>

definition s3_read :: "'b s3_client \<Rightarrow> nat \<Rightarrow> s3_reader \<Rightarrow> 'b \<Rightarrow> (anyhow + bytes) \<times> s3_reader" where
  "s3_read C n r b =
     (if sr_buf r \<noteq> [] then (Ok (take n (sr_buf r)), r\<lparr>sr_buf := drop n (sr_buf r)\<rparr>)
      else (case ensure_stream C r b of
              Inl e \<Rightarrow> (Err e, r)
            | Inr (r1, s) \<Rightarrow>
                (case s of
                   [] \<Rightarrow> (Ok [], r1)
                 | Inl e # s' \<Rightarrow> (Err e, r1\<lparr>sr_stream := Some s'\<rparr>)
                 | Inr chunk # s' \<Rightarrow>
                     (Ok (take n chunk), r1\<lparr>sr_stream := Some s', sr_buf := drop n chunk\<rparr>))))"

text \<open>
  Reading to the end, as the callers do: a read of zero bytes is the end of the object.  Each
  other read leaves fewer bytes in the buffer and the stream.
\<close>

definition chunks_length :: "(anyhow + bytes) list \<Rightarrow> nat" where
  "chunks_length s = sum_list (map (\<lambda>c. case c of Inr x \<Rightarrow> length x | Inl _ \<Rightarrow> 0) s)"

definition s3_remaining :: "'b s3_client \<Rightarrow> s3_reader \<Rightarrow> 'b \<Rightarrow> nat" where
  "s3_remaining C r b = length (sr_buf r) +
     (case sr_stream r of
        Some s \<Rightarrow> chunks_length s
      | None \<Rightarrow> (case s3_get C (sr_key r) b of Inr s \<Rightarrow> chunks_length s | Inl _ \<Rightarrow> 0))"

lemma s3_read_remaining:
  assumes "s3_read C n r b = (Ok out, r')" "out \<noteq> []"
  shows "s3_remaining C r' b < s3_remaining C r b"
proof (cases "sr_buf r = []")
  case False
  then have "0 < n" "r' = r\<lparr>sr_buf := drop n (sr_buf r)\<rparr>" using assms by (auto simp: s3_read_def)
  then show ?thesis using False by (cases "sr_stream r") (auto simp: s3_remaining_def)
next
  case True
  then obtain r1 chunk s' where e: "ensure_stream C r b = Ok (r1, Ok chunk # s')"
    and o: "out = take n chunk" "r' = r1\<lparr>sr_stream := Some s', sr_buf := drop n chunk\<rparr>"
    using assms by (auto simp: s3_read_def split: sum.splits list.splits)
  have "s3_remaining C r b = chunks_length (Ok chunk # s')"
    using e True by (auto simp: ensure_stream_def s3_remaining_def try_bind_eq_Ok split: option.splits)
  then show ?thesis using o assms(2) by (auto simp: s3_remaining_def chunks_length_def)
qed

function s3_read_to_end :: "'b s3_client \<Rightarrow> nat \<Rightarrow> s3_reader \<Rightarrow> 'b \<Rightarrow> anyhow + bytes" where
  "s3_read_to_end C n r b =
     (case s3_read C n r b of
        (Inl e, _) \<Rightarrow> Err e
      | (Inr out, r') \<Rightarrow>
          if out = [] then Ok []
          else (case s3_read_to_end C n r' b of Inl e \<Rightarrow> Err e | Inr rest \<Rightarrow> Ok (out @ rest)))"
  by auto
termination
  by (relation "measure (\<lambda>(C, n, r, b). s3_remaining C r b)") (auto intro: s3_read_remaining [OF sym])

declare s3_read_to_end.simps [simp del]

section \<open>Listings\<close>

text \<open>
  The bucket serves the objects \<open>objs\<close> (in order) in pages: each page but the last is marked as
  truncated and gives the token of the next one.
\<close>

definition served :: "(string \<times> bytes) list \<Rightarrow> (string option \<times> int option) list" where
  "served objs = map (\<lambda>(k, c). (Some k, Some (int (length c)))) objs"

inductive serves :: "'b s3_client \<Rightarrow> 'b \<Rightarrow> string \<Rightarrow> string option \<Rightarrow> (string \<times> bytes) list \<Rightarrow> bool"
  for C :: "'b s3_client" and b :: 'b and pfx :: string where
  serves_last: "s3_list C pfx tok b = Ok \<lparr>pg_contents = served objs, pg_truncated = tr, pg_next = nx\<rparr> \<Longrightarrow> tr \<noteq> Some True \<Longrightarrow>
    serves C b pfx tok objs"
| serves_more: "s3_list C pfx tok b = Ok \<lparr>pg_contents = served objs, pg_truncated = Some True, pg_next = Some tok'\<rparr> \<Longrightarrow>
    serves C b pfx (Some tok') rest \<Longrightarrow> serves C b pfx tok (objs @ rest)"

lemma saturating_length: "saturating_i64_to_u64 (int n) = of_nat n"
  by (simp add: saturating_i64_to_u64_def)

lemma page_objects_served:
  "page_objects pfx (served (map (\<lambda>(k, c). (pfx @ k, c)) objs)) = Ret (map (\<lambda>(k, c). object_meta k c) objs)"
  by (induction objs) (auto simp: served_def object_meta_def saturating_length)

text \<open>The loop ends, and collects the pages.\<close>

lemma s3_list_loop_serves:
  assumes "serves C b (pfx @ p) tok objs'" "objs' = map (\<lambda>(k, c). (pfx @ k, c)) objs"
  shows "s3_list_loop C pfx p b tok acc = Some (Ret (Ok (acc @ map (\<lambda>(k, c). object_meta k c) objs)))"
  using assms
proof (induction arbitrary: objs acc)
  case (serves_last tok os tr nx)
  then show ?case by (subst s3_list_loop.simps) (simp add: page_objects_served)
next
  case (serves_more tok os tok' rest)
  obtain o1 o2 where o: "objs = o1 @ o2" "os = map (\<lambda>(k, c). (pfx @ k, c)) o1" "rest = map (\<lambda>(k, c). (pfx @ k, c)) o2"
    using serves_more.prems [symmetric] unfolding map_eq_append_conv by auto
  show ?case using serves_more(1) serves_more.IH [OF o(3)] o
    by (subst s3_list_loop.simps) (simp add: page_objects_served)
qed

text \<open>The bucket holds the objects \<open>m\<close>, and serves those with a given prefix in order.\<close>

definition bucket :: "'b s3_client \<Rightarrow> 'b \<Rightarrow> (string \<rightharpoonup> bytes) \<Rightarrow> bool" where
  "bucket C b m \<longleftrightarrow> (\<forall>p. \<exists>objs. serves C b p None objs \<and> sorted_wrt (<) (map fst objs) \<and>
     set objs = {(k, c). m k = Some c \<and> starts_with k p})"

lemma append_less_cancel: "pfx @ a < pfx @ b \<longleftrightarrow> a < b" for a b pfx :: string
  by (induction pfx) auto

lemma starts_with_append: "starts_with (pfx @ k) (pfx @ p) \<longleftrightarrow> starts_with k p"
  by (induction pfx) (auto simp: starts_with_def)

lemma strip_objects:
  assumes "\<forall>x \<in> set objs'. \<exists>k c. x = (pfx @ k, c)"
  obtains objs :: "(string \<times> bytes) list" where "objs' = map (\<lambda>(k, c). (pfx @ k, c)) objs"
proof
  show "objs' = map (\<lambda>(k, c). (pfx @ k, c)) (map (\<lambda>(k, c). (drop (length pfx) k, c)) objs')"
    using assms by (auto simp: map_idI [symmetric] intro!: map_idI [symmetric])
qed

lemma bucket_listing:
  assumes "bucket C b m"
  shows "\<exists>ms. s3_list_loop C pfx p b None [] = Some (Ret (Ok ms)) \<and> lists_exactly (\<lambda>k. starts_with k p) (\<lambda>k. m (pfx @ k)) ms"
proof -
  obtain objs' where o: "serves C b (pfx @ p) None objs'" "sorted_wrt (<) (map fst objs')"
    "set objs' = {(k, c). m k = Some c \<and> starts_with k (pfx @ p)}"
    using assms unfolding bucket_def by blast
  have pre: "\<exists>k'. k = pfx @ k'" if "starts_with k (pfx @ p)" for k
    using that by (auto simp: starts_with_iff)
  then have "\<forall>x \<in> set objs'. \<exists>k c. x = (pfx @ k, c)" using o(3) by auto
  then obtain objs where objs: "objs' = map (\<lambda>(k, c). (pfx @ k, c)) objs"
    by (rule strip_objects)
  let ?ms = "map (\<lambda>(k, c). object_meta k c) objs"
  have "sorted_wrt (<) (map fst objs)" using o(2) unfolding objs
    by (simp add: sorted_wrt_map case_prod_beta comp_def append_less_cancel)
  then have "sorted_wrt (<) (map file_name ?ms)" by (simp add: sorted_wrt_map case_prod_beta object_meta_def)
  moreover have "set ?ms = {object_meta k c | k c. m (pfx @ k) = Some c \<and> starts_with k p}"
  proof -
    have "(pfx @ k, c) \<in> set objs' \<longleftrightarrow> m (pfx @ k) = Some c \<and> starts_with k p" for k c
      using o(3) by (simp add: starts_with_append)
    moreover have "(pfx @ k, c) \<in> set objs' \<longleftrightarrow> (k, c) \<in> set objs" for k c unfolding objs by force
    ultimately have "(k, c) \<in> set objs \<longleftrightarrow> m (pfx @ k) = Some c \<and> starts_with k p" for k c by simp
    then show ?thesis by (force simp: image_iff)
  qed
  ultimately show ?thesis using s3_list_loop_serves [OF o(1) objs, of "[]"] unfolding lists_exactly_def by auto
qed

section \<open>Uploads\<close>

text \<open>
  What S3 documents of multipart uploads; \<open>up b key uid\<close> are the parts received so far (number,
  tag and body), \<open>obj b\<close> the objects.  Completing an upload with all its parts, in increasing
  order, makes their concatenation the object.
\<close>

type_synonym part = "i32 \<times> string \<times> bytes"

definition part_id :: "part \<Rightarrow> i32 \<times> string" where
  "part_id p = (fst p, fst (snd p))"

definition part_body :: "part \<Rightarrow> bytes" where
  "part_body p = snd (snd p)"

definition multipart_laws ::
  "'b s3_client \<Rightarrow> ('b \<Rightarrow> string \<Rightarrow> string \<Rightarrow> part list) \<Rightarrow> ('b \<Rightarrow> string \<rightharpoonup> bytes) \<Rightarrow> bool" where
  "multipart_laws C up obj \<longleftrightarrow>
     (\<forall>key b uid b'. s3_create_multipart C key b = (Ok (Some uid), b') \<longrightarrow> up b' key uid = [] \<and> obj b' = obj b) \<and>
     (\<forall>key uid n body b tag b'. s3_upload_part C key uid n body b = (Ok (Some tag), b') \<longrightarrow>
        up b' key uid = up b key uid @ [(n, tag, body)] \<and> obj b' = obj b) \<and>
     (\<forall>key uid b b'. s3_complete C key uid (map part_id (up b key uid)) b = (Ok (), b') \<longrightarrow>
        sorted_wrt (<) (map (\<lambda>p. sint (fst p)) (up b key uid)) \<longrightarrow>
        obj b' = (obj b)(key \<mapsto> concat (map part_body (up b key uid)))) \<and>
     (\<forall>q key b r b'. s3_put_retention C q key b = (r, b') \<longrightarrow> obj b' = obj b) \<and>
     (\<forall>q key b r b'. s3_put_legal_hold C q key b = (r, b') \<longrightarrow> obj b' = obj b)"

lemma multipart_upload:
  assumes "multipart_laws C up obj" "s3_upload_part C key uid n body b = (Ok (Some tag), b')"
  shows "up b' key uid = up b key uid @ [(n, tag, body)]" "obj b' = obj b"
  using assms by (auto simp: multipart_laws_def)

lemma multipart_complete:
  assumes "multipart_laws C up obj" "s3_complete C key uid (map part_id (up b key uid)) b = (Ok (), b')"
    "sorted_wrt (<) (map (\<lambda>p. sint (fst p)) (up b key uid))"
  shows "obj b' = (obj b)(key \<mapsto> concat (map part_body (up b key uid)))"
  using assms by (simp add: multipart_laws_def)

text \<open>Successive writes, all successful.\<close>

fun s3_writes :: "'b s3_client \<Rightarrow> bytes list \<Rightarrow> s3_writer \<Rightarrow> 'b \<Rightarrow> (anyhow + s3_writer) run \<times> 'b" where
  "s3_writes C [] w b = (Ret (Ok w), b)"
| "s3_writes C (buf # bufs) w b =
     (case s3_write C buf w b of
        (Panic, _, b') \<Rightarrow> (Panic, b')
      | (Ret (Inl e), _, b') \<Rightarrow> (Ret (Err e), b')
      | (Ret (Inr _), w', b') \<Rightarrow> s3_writes C bufs w' b')"

text \<open>
  A writer has received \<open>data\<close>: its parts are those of the upload, numbered from 1, and the
  parts with its buffer are the data.
\<close>

definition writing :: "('b \<Rightarrow> string \<Rightarrow> string \<Rightarrow> part list) \<Rightarrow> s3_writer \<Rightarrow> 'b \<Rightarrow> bytes \<Rightarrow> bool" where
  "writing up w b data \<longleftrightarrow> (let ps = up b (sw_key w) (sw_upload_id w) in
     sw_parts w = map part_id ps \<and> map fst ps = map (\<lambda>i. of_nat (Suc i)) [0..<length ps] \<and>
     sw_part_number w = of_nat (Suc (length ps)) \<and> concat (map part_body ps) @ sw_buf w = data)"

lemma flush_part_writing:
  assumes "multipart_laws C up obj" "writing up w b data" "flush_part C w b = (Ret (Ok ()), w', b')"
  shows "writing up w' b' data \<and> obj b' = obj b \<and> sw_buf w' = [] \<and> sw_key w' = sw_key w \<and> sw_upload_id w' = sw_upload_id w \<and>
    (\<exists>new. up b' (sw_key w) (sw_upload_id w) = up b (sw_key w) (sw_upload_id w) @ new \<and> length new \<le> 1 \<and>
       (\<forall>p \<in> set new. part_body p = sw_buf w))"
proof (cases "sw_buf w = []")
  case True
  then show ?thesis using assms(2,3) by (auto simp: flush_part_def)
next
  case False
  then obtain tag where t: "s3_upload_part C (sw_key w) (sw_upload_id w) (sw_part_number w) (sw_buf w) b = (Ok (Some tag), b')"
    and w': "w' = w\<lparr>sw_parts := sw_parts w @ [(sw_part_number w, tag)], sw_part_number := sw_part_number w + 1, sw_buf := []\<rparr>"
    using assms(3) by (auto simp: flush_part_def split: prod.splits sum.splits option.splits)
  have u: "up b' (sw_key w) (sw_upload_id w) = up b (sw_key w) (sw_upload_id w) @ [(sw_part_number w, tag, sw_buf w)]"
    "obj b' = obj b" using multipart_upload [OF assms(1) t] by simp_all
  show ?thesis using assms(2) u w' False
    by (auto simp: writing_def Let_def part_id_def part_body_def)
qed

lemma s3_write_writing:
  assumes "multipart_laws C up obj" "writing up w b data" "s3_write C buf w b = (Ret (Ok n), w', b')"
    "\<forall>p \<in> set (up b (sw_key w) (sw_upload_id w)). UPLOAD_PART_SIZE \<le> length (part_body p)"
  shows "writing up w' b' (data @ buf) \<and> obj b' = obj b \<and> sw_key w' = sw_key w \<and> sw_upload_id w' = sw_upload_id w \<and>
    (\<forall>p \<in> set (up b' (sw_key w) (sw_upload_id w)). UPLOAD_PART_SIZE \<le> length (part_body p)) \<and>
    length (up b' (sw_key w) (sw_upload_id w)) \<le> Suc (length (up b (sw_key w) (sw_upload_id w))) \<and>
    sw_put_retention w' = sw_put_retention w"
proof -
  let ?w1 = "w\<lparr>sw_buf := sw_buf w @ buf\<rparr>"
  have w1: "writing up ?w1 b (data @ buf)" using assms(2) by (auto simp: writing_def Let_def)
  show ?thesis
  proof (cases "UPLOAD_PART_SIZE \<le> length (sw_buf ?w1)")
    case True
    then have f: "flush_part C ?w1 b = (Ret (Ok ()), w', b')"
      using assms(3) by (auto simp: s3_write_def Let_def split: run.splits sum.splits prod.splits)
    have r: "sw_put_retention w' = sw_put_retention w"
      using f by (auto simp: flush_part_def split: if_splits prod.splits sum.splits option.splits)
    note F = flush_part_writing [OF assms(1) w1 f]
    obtain new where new: "up b' (sw_key w) (sw_upload_id w) = up b (sw_key w) (sw_upload_id w) @ new" "length new \<le> 1"
      "\<forall>p \<in> set new. part_body p = sw_buf ?w1" using F by auto
    then have "\<forall>p \<in> set (up b' (sw_key w) (sw_upload_id w)). UPLOAD_PART_SIZE \<le> length (part_body p)"
      using assms(4) True by auto
    then show ?thesis using F new(1,2) r by simp
  next
    case False
    then show ?thesis using assms(3,4) w1 by (auto simp: s3_write_def Let_def)
  qed
qed

lemma s3_writes_writing:
  assumes "multipart_laws C up obj" "writing up w b data" "s3_writes C bufs w b = (Ret (Ok w'), b')"
    "\<forall>p \<in> set (up b (sw_key w) (sw_upload_id w)). UPLOAD_PART_SIZE \<le> length (part_body p)"
  shows "writing up w' b' (data @ concat bufs) \<and> obj b' = obj b \<and> sw_key w' = sw_key w \<and> sw_upload_id w' = sw_upload_id w \<and>
    (\<forall>p \<in> set (up b' (sw_key w) (sw_upload_id w)). UPLOAD_PART_SIZE \<le> length (part_body p)) \<and>
    length (up b' (sw_key w) (sw_upload_id w)) \<le> length bufs + length (up b (sw_key w) (sw_upload_id w))"
  using assms(2-4)
proof (induction bufs arbitrary: w b data)
  case (Cons buf bufs)
  then obtain n w1 b1 where s: "s3_write C buf w b = (Ret (Ok n), w1, b1)" and r: "s3_writes C bufs w1 b1 = (Ret (Ok w'), b')"
    by (auto split: prod.splits run.splits sum.splits)
  note W = s3_write_writing [OF assms(1) Cons.prems(1) s Cons.prems(3)]
  have "writing up w1 b1 (data @ buf)" "\<forall>p \<in> set (up b1 (sw_key w1) (sw_upload_id w1)). UPLOAD_PART_SIZE \<le> length (part_body p)"
    using W by auto
  from Cons.IH [OF this(1) r this(2)] W show ?case by simp
qed simp

lemma sint_numbers:
  assumes "n < 2 ^ 31"
  shows "sint (of_nat n :: i32) = int n"
  using assms by (simp add: signed_of_nat signed_take_bit_int_eq_self)

lemma numbered_sorted:
  assumes "map fst ps = map (\<lambda>i. of_nat (Suc i)) [0..<length ps]" "length ps < 2 ^ 31 - 1"
  shows "sorted_wrt (<) (map (\<lambda>p :: part. sint (fst p)) ps)"
proof -
  have "map (\<lambda>p. sint (fst p)) ps = map sint (map fst ps)" by simp
  also have "\<dots> = map (\<lambda>i. int (Suc i)) [0..<length ps]"
    unfolding assms(1) map_map comp_def using assms(2) by (intro map_cong refl sint_numbers) auto
  finally show ?thesis by (simp add: sorted_wrt_map sorted_wrt_upt)
qed

text \<open>A finished upload.\<close>

lemma complete_object:
  assumes "multipart_laws C up obj" "writing up w b data" "complete C w b = (Ret (Ok ()), b')"
    "length (up b (sw_key w) (sw_upload_id w)) < 2 ^ 31 - 2"
  shows "obj b' = (obj b)(sw_key w \<mapsto> data)"
proof -
  obtain w1 b1 where f: "flush_part C w b = (Ret (Ok ()), w1, b1)"
    using assms(3) by (auto simp: complete_def split: prod.splits run.splits sum.splits)
  note F = flush_part_writing [OF assms(1,2) f]
  let ?ps = "up b1 (sw_key w) (sw_upload_id w)"
  have ps: "sw_parts w1 = map part_id ?ps" "map fst ?ps = map (\<lambda>i. of_nat (Suc i)) [0..<length ?ps]"
    "concat (map part_body ?ps) = data" using F by (auto simp: writing_def Let_def)
  have len: "length ?ps < 2 ^ 31 - 1" using F assms(4) by auto
  obtain b2 where c: "s3_complete C (sw_key w) (sw_upload_id w) (map part_id ?ps) b1 = (Ok (), b2)" and o: "obj b' = obj b2"
  proof -
    have keep: "obj b4 = obj b3" if "optional_request req msg (s3_put_retention C) key b3 = (r, b4)" for req msg key b3 r b4
      using that assms(1) unfolding multipart_laws_def optional_request_def
      by (auto split: option.splits prod.splits sum.splits)
    have keep': "obj b4 = obj b3" if "optional_request req msg (s3_put_legal_hold C) key b3 = (r, b4)" for req msg key b3 r b4
      using that assms(1) unfolding multipart_laws_def optional_request_def
      by (auto split: option.splits prod.splits sum.splits)
    show ?thesis using assms(3) f F ps(1) that keep keep'
      by (auto simp: complete_def split: prod.splits sum.splits)
  qed
  have "obj b2 = (obj b1)(sw_key w \<mapsto> concat (map part_body ?ps))"
    using multipart_complete [OF assms(1) c numbered_sorted [OF ps(2) len]] .
  then show ?thesis using o F ps(3) by simp
qed

lemma s3_read_to_end_stream:
  assumes "0 < n" "sr_stream r = Some (map Inr chunks)"
  shows "s3_read_to_end C n r b = Ok (sr_buf r @ concat (takeWhile (\<lambda>c. c \<noteq> []) chunks))"
  using assms(2)
proof (induction "s3_remaining C r b" arbitrary: r chunks rule: less_induct)
  case less
  show ?case
  proof (cases "sr_buf r = []")
    case False
    let ?r = "r\<lparr>sr_buf := drop n (sr_buf r)\<rparr>"
    have rd: "s3_read C n r b = (Ok (take n (sr_buf r)), ?r)" using False by (simp add: s3_read_def)
    have ne: "take n (sr_buf r) \<noteq> []" using False assms(1) by simp
    have "s3_read_to_end C n ?r b = Ok (sr_buf ?r @ concat (takeWhile (\<lambda>c. c \<noteq> []) chunks))"
      using less.hyps [OF s3_read_remaining [OF rd ne]] less.prems by simp
    then show ?thesis using rd ne by (subst s3_read_to_end.simps) (simp add: append_assoc [symmetric] del: append_assoc take_eq_Nil)
  next
    case True
    show ?thesis
    proof (cases chunks)
      case Nil
      then show ?thesis using True less.prems
        by (subst s3_read_to_end.simps) (simp add: s3_read_def ensure_stream_def)
    next
      case (Cons c cs)
      let ?r = "r\<lparr>sr_stream := Some (map Inr cs), sr_buf := drop n c\<rparr>"
      have rd: "s3_read C n r b = (Ok (take n c), ?r)"
        using True less.prems Cons by (simp add: s3_read_def ensure_stream_def)
      show ?thesis
      proof (cases "c = []")
        case True
        then show ?thesis using rd Cons \<open>sr_buf r = []\<close> by (subst s3_read_to_end.simps) simp
      next
        case False
        then have ne: "take n c \<noteq> []" using assms(1) by simp
        have "s3_read_to_end C n ?r b = Ok (drop n c @ concat (takeWhile (\<lambda>c. c \<noteq> []) cs))"
          using less.hyps [OF s3_read_remaining [OF rd ne]] by simp
        then show ?thesis using rd ne False Cons True
          by (subst s3_read_to_end.simps) (simp add: append_assoc [symmetric] del: append_assoc take_eq_Nil)
      qed
    qed
  qed
qed

section \<open>A bucket in memory\<close>

text \<open>
  A client that satisfies the laws: the objects in the order of their keys, and the parts of the
  upload in progress.
\<close>

type_synonym mem_bucket = "(string \<times> bytes) list \<times> part list"

definition mem_complete :: "string \<Rightarrow> string \<Rightarrow> (i32 \<times> string) list \<Rightarrow> mem_bucket \<Rightarrow> (anyhow + unit) \<times> mem_bucket" where
  "mem_complete key uid ids b =
     (if ids = map part_id (snd b) then (Ok (), AList.update key (concat (map part_body (snd b))) (fst b), [])
      else (Err [''InvalidPart''], b))"

definition mem_client :: "mem_bucket s3_client" where
  "mem_client = \<lparr>
     s3_create_multipart = \<lambda>key b. (Ok (Some ''upload''), fst b, []),
     s3_upload_part = \<lambda>key uid n body b. (Ok (Some ''tag''), fst b, snd b @ [(n, ''tag'', body)]),
     s3_complete = mem_complete,
     s3_put_retention = \<lambda>q key b. (Ok (), b),
     s3_put_legal_hold = \<lambda>q key b. (Ok (), b),
     s3_list = \<lambda>p tok b. Ok \<lparr>pg_contents = served (filter (\<lambda>(k, c). starts_with k p) (fst b)), pg_truncated = Some False, pg_next = None\<rparr>,
     s3_head = \<lambda>key b. (case map_of (fst b) key of None \<Rightarrow> Err ServiceNotFound | Some c \<Rightarrow> Ok (Some (int (length c)))),
     s3_presign = \<lambda>key ttl b. Ok (''https://s3/'' @ key),
     s3_delete_object = \<lambda>key b. (Ok None, AList.delete key (fst b), snd b),
     s3_delete_objects = \<lambda>keys b. (Ok (map (\<lambda>k. (Some k, None)) keys, []), filter (\<lambda>(k, c). k \<notin> set keys) (fst b), snd b),
     s3_get = \<lambda>key b. (case map_of (fst b) key of None \<Rightarrow> Err [''NoSuchKey''] | Some c \<Rightarrow> Ok [Ok c, Ok [], Ok c])\<rparr>"

lemma mem_multipart: "multipart_laws mem_client (\<lambda>b key uid. snd b) (\<lambda>b. map_of (fst b))"
  by (auto simp: multipart_laws_def mem_client_def mem_complete_def update_conv')

lemma mem_bucket:
  assumes "sorted_wrt (<) (map fst objs)"
  shows "bucket mem_client (objs, ps) (map_of objs)"
  unfolding bucket_def
proof
  fix p
  let ?objs = "filter (\<lambda>(k, c). starts_with k p) objs"
  have d: "distinct (map fst objs)" using assms by (simp add: strict_sorted_iff)
  have "serves mem_client (objs, ps) p None ?objs"
    by (rule serves_last [where tr = "Some False"]) (simp_all add: mem_client_def)
  moreover have "sorted_wrt (<) (map fst ?objs)" using assms by (simp add: sorted_wrt_map sorted_wrt_filter)
  moreover have "set ?objs = {(k, c). map_of objs k = Some c \<and> starts_with k p}" using d by auto
  ultimately show "\<exists>os. serves mem_client (objs, ps) p None os \<and> sorted_wrt (<) (map fst os) \<and>
    set os = {(k, c). map_of objs k = Some c \<and> starts_with k p}" by blast
qed

section \<open>Properties\<close>

definition example_s3 :: s3_store where
  "example_s3 = \<lparr>s3_bucket = ''b'', s3_prefix = ''p/'', s3_object_lock = Some \<lparr>ol_mode = ''GOVERNANCE'', ol_duration = 7\<rparr>,
     s3_legal_hold = None\<rparr>"

text \<open>
  C17. An upload that succeeds stores exactly the bytes written, in the order written, under the
  key of the object, and changes no other object; while writing, only parts of at least 8 MiB
  are sent (S3 refuses smaller parts except for the last one).
\<close>

theorem s3_upload_exact:
  assumes "multipart_laws C up obj" "s3_writer_new C st now key b = (Ret (Ok w), b1)"
    "s3_writes C bufs w b1 = (Ret (Ok w'), b2)" "s3_finalize C w' b2 = (Ret (Ok ()), b3)" "length bufs < 2 ^ 31 - 2"
  shows "obj b3 = (obj b)(s3_prefix st @ key \<mapsto> concat bufs) \<and>
    (\<forall>p \<in> set (up b2 (sw_key w) (sw_upload_id w)). UPLOAD_PART_SIZE \<le> length (part_body p))"
proof -
  obtain uid where c: "s3_create_multipart C (s3_prefix st @ key) b = (Ok (Some uid), b1)"
    and w: "sw_key w = s3_prefix st @ key" "sw_upload_id w = uid" "sw_buf w = []" "sw_parts w = []" "sw_part_number w = 1"
    using assms(2) by (auto simp: s3_writer_new_def split: prod.splits sum.splits option.splits run.splits)
  have u: "up b1 (sw_key w) uid = []" "obj b1 = obj b" using assms(1) c w(1) unfolding multipart_laws_def by simp_all
  then have "writing up w b1 []" using w by (simp add: writing_def)
  from s3_writes_writing [OF assms(1) this assms(3)] u w
  have W: "writing up w' b2 (concat bufs)" "obj b2 = obj b" "sw_key w' = s3_prefix st @ key" "sw_upload_id w' = uid"
    "\<forall>p \<in> set (up b2 (sw_key w) uid). UPLOAD_PART_SIZE \<le> length (part_body p)" "length (up b2 (sw_key w) uid) \<le> length bufs"
    by auto
  from complete_object [OF assms(1) W(1) assms(4) [unfolded s3_finalize_def]] W w assms(5) show ?thesis by simp
qed

theorem s3_upload_exact_witness:
  "\<exists>w b1 w' b2 b3. s3_writer_new mem_client example_s3 5 ''k'' ([], []) = (Ret (Ok w), b1) \<and>
     s3_writes mem_client [''ab'', ''c''] w b1 = (Ret (Ok w'), b2) \<and> s3_finalize mem_client w' b2 = (Ret (Ok ()), b3) \<and>
     map_of (fst b3) = [''p/k'' \<mapsto> ''abc'']"
proof -
  obtain w b1 where 1: "s3_writer_new mem_client example_s3 5 ''k'' ([], []) = (Ret (Ok w), b1)"
    "w = \<lparr>sw_key = ''p/k'', sw_upload_id = ''upload'', sw_buf = [], sw_parts = [], sw_part_number = 1,
       sw_put_retention = Some (''GOVERNANCE'', 12), sw_put_legal_hold = None\<rparr>" "b1 = ([], [])"
    by (simp add: s3_writer_new_def retention_request_def example_s3_def mem_client_def)
  have 2: "s3_writes mem_client [''ab'', ''c''] w b1 = (Ret (Ok (w\<lparr>sw_buf := ''abc''\<rparr>)), b1)"
    using 1 by (simp add: s3_write_def UPLOAD_PART_SIZE_def)
  have 3: "\<exists>b3. s3_finalize mem_client (w\<lparr>sw_buf := ''abc''\<rparr>) b1 = (Ret (Ok ()), b3)"
    using 1 by (simp add: s3_finalize_def complete_def flush_part_def mem_client_def mem_complete_def optional_request_def part_id_def)
  then obtain b3 where 3: "s3_finalize mem_client (w\<lparr>sw_buf := ''abc''\<rparr>) b1 = (Ret (Ok ()), b3)" ..
  have "map_of (fst b3) = [''p/k'' \<mapsto> ''abc'']" using s3_upload_exact [OF mem_multipart 1(1) 2 3] by (simp add: example_s3_def)
  then show ?thesis using 1(1) 2 3 by blast
qed

text \<open>
  \<open>list_all_after\<close> of the S3 store ends, and does not list what comes after the given name
  but what starts with it.
\<close>

theorem s3_list_all_after_by_prefix:
  assumes "bucket C b m"
  shows "\<exists>ms. s3_list_all_after C st p b = Some (Ret (Ok ms)) \<and>
    lists_exactly (\<lambda>k. starts_with k p) (\<lambda>k. m (s3_prefix st @ k)) ms"
  unfolding s3_list_all_after_def by (rule bucket_listing [OF assms])

theorem s3_list_all_after_by_prefix_witness:
  "\<exists>ms. s3_list_all_after mem_client example_s3 ''a'' ([(''p/a'', ''1''), (''p/ab'', ''2''), (''p/b'', ''3'')], []) = Some (Ret (Ok ms)) \<and>
     lists_exactly (\<lambda>k. starts_with k ''a'') (\<lambda>k. map_of [(''p/a'', ''1''), (''p/ab'', ''2''), (''p/b'', ''3'')] (''p/'' @ k)) ms"
proof -
  have "bucket mem_client ([(''p/a'', ''1''), (''p/ab'', ''2''), (''p/b'', ''3'')], []) (map_of [(''p/a'', ''1''), (''p/ab'', ''2''), (''p/b'', ''3'')])"
    by (rule mem_bucket) (simp add: less_char_def)
  from s3_list_all_after_by_prefix [OF this, of example_s3 "''a''"] show ?thesis by (simp add: example_s3_def)
qed

text \<open>
  Reading an object to the end terminates and gives the chunks of the response, but only up
  to the first empty one: an empty chunk in the stream is taken for the end of the object.
\<close>

theorem s3_read_to_first_empty_chunk:
  assumes "0 < n" "s3_reader_new C st key b = Ok r" "s3_get C (s3_prefix st @ key) b = Ok (map Inr chunks)"
  shows "s3_read_to_end C n r b = Ok (concat (takeWhile (\<lambda>c. c \<noteq> []) chunks))"
proof -
  have r: "sr_key r = s3_prefix st @ key" "sr_stream r = None" "sr_buf r = []"
    using assms(2) by (auto simp: s3_reader_new_def try_bind_eq_Ok)
  have "s3_read C n r b = s3_read C n (r\<lparr>sr_stream := Some (map Inr chunks)\<rparr>) b"
    using r assms(3) by (simp add: s3_read_def ensure_stream_def)
  then have "s3_read_to_end C n r b = s3_read_to_end C n (r\<lparr>sr_stream := Some (map Inr chunks)\<rparr>) b"
    by (subst (1 2) s3_read_to_end.simps) simp
  then show ?thesis using s3_read_to_end_stream [OF assms(1), of "r\<lparr>sr_stream := Some (map Inr chunks)\<rparr>" chunks C b] r by simp
qed

theorem s3_read_to_first_empty_chunk_witness:
  "\<exists>r. s3_reader_new mem_client example_s3 ''k'' ([(''p/k'', ''abc'')], []) = Ok r \<and>
     s3_get mem_client ''p/k'' ([(''p/k'', ''abc'')], []) = Ok (map Inr [''abc'', [], ''abc'']) \<and>
     s3_read_to_end mem_client 2 r ([(''p/k'', ''abc'')], []) = Ok ''abc''"
proof -
  have 1: "s3_reader_new mem_client example_s3 ''k'' ([(''p/k'', ''abc'')], []) = Ok \<lparr>sr_key = ''p/k'', sr_stream = None, sr_buf = []\<rparr>"
    by (simp add: s3_reader_new_def s3_head_exists_def mem_client_def example_s3_def)
  have 2: "s3_get mem_client ''p/k'' ([(''p/k'', ''abc'')], []) = Ok (map Inr [''abc'', [], ''abc''])"
    by (simp add: mem_client_def)
  show ?thesis using s3_read_to_first_empty_chunk [OF _ 1, of 2 "[''abc'', [], ''abc'']"] 1 2 by (simp add: example_s3_def)
qed

end
