(* ===== verification/Figment.thy ===== *)
theory Figment
  imports Prelude "HOL-Library.Sublist" "HOL-Library.AList"
begin

text \<open>
  Configuration values and what the configuration code uses of the library \<open>figment\<close>: the record
  \<open>figment_lib\<close> of its operations over configurations \<open>'f\<close>, with the laws \<open>figment_laws\<close> it
  documents (a merged value takes precedence, a joined one does not, dictionaries are combined
  key by key).  A dotted key is the list of its components.  \<open>tree_lib\<close> is an instance in
  memory.
\<close>

section \<open>Values\<close>

datatype cfg_value = CNull | CBool bool | CNum int | CStr string | CArr "cfg_value list" | CDict "(string \<times> cfg_value) list"

type_synonym cfg_key = "string list"

fun value_at :: "cfg_key \<Rightarrow> cfg_value \<Rightarrow> cfg_value option" where
  "value_at [] v = Some v"
| "value_at (k # ks) (CDict kvs) = (case map_of kvs k of None \<Rightarrow> None | Some v \<Rightarrow> value_at ks v)"
| "value_at (k # ks) _ = None"

fun is_dict :: "cfg_value \<Rightarrow> bool" where
  "is_dict (CDict _) = True"
| "is_dict _ = False"

section \<open>The library\<close>

text \<open>
  \<open>extract_inner\<close> at the types used, \<open>merge\<close> and \<open>join\<close> of a value serialized under a key,
  \<open>focus\<close>, \<open>extract\<close>, \<open>Figment::from(Serialized::defaults(..))\<close> and \<open>join\<close> of configurations.
\<close>

record 'f figment_lib =
  fg_value :: "cfg_key \<Rightarrow> 'f \<Rightarrow> anyhow + cfg_value"
  fg_bool :: "cfg_key \<Rightarrow> 'f \<Rightarrow> anyhow + bool"
  fg_string :: "cfg_key \<Rightarrow> 'f \<Rightarrow> anyhow + string"
  fg_merge :: "cfg_key \<Rightarrow> cfg_value \<Rightarrow> 'f \<Rightarrow> 'f"
  fg_join :: "cfg_key \<Rightarrow> cfg_value \<Rightarrow> 'f \<Rightarrow> 'f"
  fg_tables :: "cfg_key \<Rightarrow> 'f \<Rightarrow> anyhow + (string \<times> (string \<times> cfg_value) list) list"
  fg_focus :: "string \<Rightarrow> 'f \<Rightarrow> 'f"
  fg_extract :: "'f \<Rightarrow> anyhow + cfg_value"
  fg_defaults :: "cfg_value \<Rightarrow> 'f"
  fg_join_figment :: "'f \<Rightarrow> 'f \<Rightarrow> 'f"

definition overlaps :: "cfg_key \<Rightarrow> cfg_key \<Rightarrow> bool" where
  "overlaps k q \<longleftrightarrow> prefix k q \<or> prefix q k"

lemma overlaps_simps [simp]:
  "overlaps [] q" "overlaps k []" "overlaps (a # k) (b # q) \<longleftrightarrow> a = b \<and> overlaps k q"
  by (auto simp: overlaps_def)

definition figment_laws :: "'f figment_lib \<Rightarrow> bool" where
  "figment_laws F \<longleftrightarrow>
     (\<forall>k p f v. fg_value F (k @ p) f = Ok v \<longleftrightarrow> (\<exists>d. fg_value F k f = Ok d \<and> value_at p d = Some v)) \<and>
     (\<forall>k p f v s. value_at p v = Some s \<longrightarrow> \<not> is_dict s \<longrightarrow> fg_value F (k @ p) (fg_merge F k v f) = Ok s) \<and>
     (\<forall>k q f v x. \<not> overlaps k q \<longrightarrow> fg_value F q (fg_merge F k v f) = Ok x \<longleftrightarrow> fg_value F q f = Ok x) \<and>
     (\<forall>k q f v x. \<not> overlaps k q \<longrightarrow> fg_value F q (fg_join F k v f) = Ok x \<longleftrightarrow> fg_value F q f = Ok x) \<and>
     (\<forall>k p f v s. fg_value F (k @ p) f = Ok s \<longrightarrow> \<not> is_dict s \<longrightarrow> fg_value F (k @ p) (fg_join F k v f) = Ok s) \<and>
     (\<forall>k f s. fg_string F k f = Ok s \<longleftrightarrow> fg_value F k f = Ok (CStr s))"

lemma figment_coherent:
  assumes "figment_laws F"
  shows "fg_value F (k @ p) f = Ok v \<longleftrightarrow> (\<exists>d. fg_value F k f = Ok d \<and> value_at p d = Some v)"
  using assms by (simp add: figment_laws_def)

lemma figment_merge_leaf:
  assumes "figment_laws F" "value_at p v = Some s" "\<not> is_dict s"
  shows "fg_value F (k @ p) (fg_merge F k v f) = Ok s"
  using assms by (simp add: figment_laws_def)

lemma figment_merge_frame:
  assumes "figment_laws F" "\<not> overlaps k q"
  shows "fg_value F q (fg_merge F k v f) = Ok x \<longleftrightarrow> fg_value F q f = Ok x"
  using assms by (simp add: figment_laws_def)

lemma figment_join_frame:
  assumes "figment_laws F" "\<not> overlaps k q"
  shows "fg_value F q (fg_join F k v f) = Ok x \<longleftrightarrow> fg_value F q f = Ok x"
  using assms by (simp add: figment_laws_def)

lemma figment_join_keeps:
  assumes "figment_laws F" "fg_value F (k @ p) f = Ok s" "\<not> is_dict s"
  shows "fg_value F (k @ p) (fg_join F k v f) = Ok s"
  using assms by (simp add: figment_laws_def)

lemma figment_string:
  assumes "figment_laws F"
  shows "fg_string F k f = Ok s \<longleftrightarrow> fg_value F k f = Ok (CStr s)"
  using assms by (simp add: figment_laws_def)

text \<open>The helper \<open>FigmentExt::remove\<close>: a key is overridden with null.\<close>

definition fg_remove :: "'f figment_lib \<Rightarrow> cfg_key \<Rightarrow> 'f \<Rightarrow> 'f" where
  "fg_remove F key f = fg_merge F key CNull f"

lemma figment_remove_frame:
  assumes "figment_laws F" "\<not> overlaps k q"
  shows "fg_value F q (fg_remove F k f) = Ok x \<longleftrightarrow> fg_value F q f = Ok x"
  unfolding fg_remove_def by (rule figment_merge_frame [OF assms])

section \<open>An instance\<close>

text \<open>Merging trees: the second takes precedence, dictionaries are combined.\<close>

fun merge_value :: "cfg_value \<Rightarrow> cfg_value \<Rightarrow> cfg_value" where
  "merge_value (CDict xs) (CDict ys) =
     CDict (map (\<lambda>(k, v). (k, case map_of xs k of None \<Rightarrow> v | Some u \<Rightarrow> merge_value u v)) ys @ xs)"
| "merge_value _ b = b"

fun wrap :: "cfg_key \<Rightarrow> cfg_value \<Rightarrow> cfg_value" where
  "wrap [] v = v"
| "wrap (k # ks) v = CDict [(k, wrap ks v)]"

fun as_dict :: "cfg_value \<Rightarrow> (string \<times> cfg_value) list option" where
  "as_dict (CDict kvs) = Some kvs"
| "as_dict _ = None"

definition tables_of :: "cfg_value \<Rightarrow> anyhow + (string \<times> (string \<times> cfg_value) list) list" where
  "tables_of v = (case as_dict v of
     None \<Rightarrow> Err [''invalid type'']
   | Some kvs \<Rightarrow>
       if list_all (\<lambda>(k, t). as_dict t \<noteq> None) kvs then Ok (map (\<lambda>(k, t). (k, the (as_dict t))) kvs) else Err [''invalid type''])"

definition tree_lib :: "cfg_value figment_lib" where
  "tree_lib = \<lparr>
     fg_value = (\<lambda>k f. case value_at k f of None \<Rightarrow> Err [''missing field''] | Some v \<Rightarrow> Ok v),
     fg_bool = (\<lambda>k f. case value_at k f of Some (CBool b) \<Rightarrow> Ok b | _ \<Rightarrow> Err [''invalid type'']),
     fg_string = (\<lambda>k f. case value_at k f of Some (CStr s) \<Rightarrow> Ok s | _ \<Rightarrow> Err [''invalid type'']),
     fg_merge = (\<lambda>k v f. merge_value f (wrap k v)),
     fg_join = (\<lambda>k v f. merge_value (wrap k v) f),
     fg_tables = (\<lambda>k f. case value_at k f of None \<Rightarrow> Err [''missing field''] | Some v \<Rightarrow> tables_of v),
     fg_focus = (\<lambda>k f. case value_at [k] f of Some v \<Rightarrow> v | None \<Rightarrow> CDict []),
     fg_extract = Ok, fg_defaults = id, fg_join_figment = (\<lambda>f g. merge_value g f)\<rparr>"

lemma merge_value_scalar [simp]:
  "\<not> is_dict a \<Longrightarrow> merge_value a b = b" "\<not> is_dict b \<Longrightarrow> merge_value a b = b"
  by (cases a; cases b; simp)+

lemma map_of_merged:
  "map_of (map (\<lambda>(k, v). (k, f k v)) ys @ xs) k = (case map_of ys k of None \<Rightarrow> map_of xs k | Some v \<Rightarrow> Some (f k v))"
  by (induction ys) auto

lemma value_at_merge_dict:
  "value_at (k # ks) (merge_value f (CDict ys)) =
     (case map_of ys k of None \<Rightarrow> value_at (k # ks) f
      | Some v \<Rightarrow> value_at ks (case f of CDict xs \<Rightarrow> (case map_of xs k of None \<Rightarrow> v | Some u \<Rightarrow> merge_value u v) | _ \<Rightarrow> v))"
  by (cases f) (auto simp: map_of_merged simp del: map_of_append split: option.splits)

lemma value_at_append: "value_at (k @ p) f = (case value_at k f of None \<Rightarrow> None | Some d \<Rightarrow> value_at p d)"
  by (induction k f rule: value_at.induct) (auto split: option.splits)

lemma value_at_merge_leaf:
  assumes "value_at p v = Some s" "\<not> is_dict s"
  shows "value_at p (merge_value f v) = Some s"
  using assms(1)
proof (induction p arbitrary: v f)
  case Nil
  then show ?case using assms(2) by simp
next
  case (Cons k p)
  then obtain kvs u where "v = CDict kvs" "map_of kvs k = Some u" "value_at p u = Some s"
    by (cases v) (auto split: option.splits)
  with Cons.IH show ?case by (auto simp: value_at_merge_dict split: option.splits cfg_value.splits)
qed

lemma value_at_wrap: "value_at (k @ p) (wrap k v) = value_at p v"
  by (induction k) auto

lemma value_at_merge_wrap:
  assumes "value_at p v = Some s" "\<not> is_dict s"
  shows "value_at (k @ p) (merge_value f (wrap k v)) = Some s"
  using value_at_merge_leaf [of "k @ p" "wrap k v" s] assms by (simp add: value_at_wrap)

lemma value_at_wrap_none: "\<not> overlaps k q \<Longrightarrow> value_at q (wrap k v) = None"
proof (induction k arbitrary: q)
  case (Cons a k)
  then show ?case by (cases q) auto
qed simp

lemma value_at_merge_frame: "\<not> overlaps k q \<Longrightarrow> value_at q (merge_value f (wrap k v)) = value_at q f"
proof (induction k arbitrary: q f)
  case (Cons a k)
  then obtain b q' where q: "q = b # q'" by (cases q) auto
  show ?case using Cons value_at_wrap_none [of k q' v] unfolding q
    by (cases f) (auto simp: value_at_merge_dict simp del: merge_value.simps split: option.splits)
qed simp

lemma value_at_join_frame: "\<not> overlaps k q \<Longrightarrow> value_at q (merge_value (wrap k v) f) = value_at q f"
proof (induction k arbitrary: q f)
  case (Cons a k)
  then obtain b q' where q: "q = b # q'" by (cases q) auto
  show ?case
  proof (cases f)
    case (CDict ys)
    then show ?thesis using Cons value_at_wrap_none [of k q' v] unfolding q
      by (auto simp: value_at_merge_dict simp del: merge_value.simps split: option.splits)
  qed simp_all
qed simp

lemma tree_laws: "figment_laws tree_lib"
proof -
  have fv: "fg_value tree_lib k f = Ok v \<longleftrightarrow> value_at k f = Some v" for k f v
    by (auto simp: tree_lib_def split: option.splits)
  have fm: "fg_merge tree_lib k v f = merge_value f (wrap k v)" "fg_join tree_lib k v f = merge_value (wrap k v) f" for k v f
    by (simp_all add: tree_lib_def)
  have fs: "fg_string tree_lib k f = Ok v \<longleftrightarrow> value_at k f = Some (CStr v)" for k f v
    by (auto simp: tree_lib_def split: option.splits cfg_value.splits)
  have app: "value_at (k @ p) f = Some v \<longleftrightarrow> (\<exists>d. value_at k f = Some d \<and> value_at p d = Some v)" for k p f v
    by (auto simp: value_at_append split: option.splits)
  show ?thesis unfolding figment_laws_def fv fm fs
    using app value_at_merge_wrap value_at_merge_frame value_at_join_frame value_at_merge_leaf by simp
qed

end
