(* ===== verification/Backup_Defaults.thy ===== *)
theory Backup_Defaults
  imports Figment
begin

text \<open>
  \<open>default_config_static\<close> and \<open>with_dynamic_defaults\<close> of \<^verbatim>\<open>api/crates/backup/src/config.rs\<close>: the
  defaults of the configuration of backups that depend on other keys.
\<close>

section \<open>Dynamic defaults\<close>

text \<open>The static defaults, with every feature enabled.\<close>

definition fs_defaults :: cfg_value where
  "fs_defaults = CDict [(''fs'', CDict [(''overwrite'', CBool False), (''mode'', CNum 384)])]"

definition default_config_static :: "string \<Rightarrow> cfg_value" where
  "default_config_static cache_dir = CDict
     [(''compression'', CDict [(''algorithm'', CStr ''zstd''), (''zstd'', CDict [(''compression_level'', CNum 3)])]),
      (''hashing'', CDict [(''algorithm'', CStr ''BLAKE3'')]),
      (''signing'', CDict [(''pgp'', CDict [(''enabled'', CBool False)])]),
      (''encryption'', CDict [(''mode'', CStr ''off'')]),
      (''download'', CDict [(''url_max_ttl'', CStr ''PT5M'')]),
      (''caching'', CDict [(''cache_dir'', CStr cache_dir)]),
      (''storage'', CDict [(''backups'', fs_defaults), (''checks'', fs_defaults)])]"

text \<open>A value moved to other keys: merged there, then removed.\<close>

definition move_default :: "'f figment_lib \<Rightarrow> cfg_key \<Rightarrow> cfg_key list \<Rightarrow> 'f \<Rightarrow> 'f" where
  "move_default F src dsts f =
     (case fg_value F src f of
        Inl _ \<Rightarrow> f
      | Inr v \<Rightarrow> fg_remove F src (fold (\<lambda>dst. fg_merge F dst v) dsts f))"

definition signing_defaults :: "'f figment_lib \<Rightarrow> 'f \<Rightarrow> anyhow + 'f" where
  "signing_defaults F f =
     (let signing_enabled_opt = (case fg_bool F [''signing'', ''enabled''] f of Inl _ \<Rightarrow> None | Inr b \<Rightarrow> Some b) in
      if signing_enabled_opt = Some False then Ok (fg_remove F [''signing''] f)
      else try_bind (fg_bool F [''signing'', ''pgp'', ''enabled''] f) (\<lambda>signing_pgp_enabled.
        let f1 = (if \<not> signing_pgp_enabled then fg_remove F [''signing'', ''pgp''] f else f);
            should = (case signing_enabled_opt of Some b \<Rightarrow> b | None \<Rightarrow> False) \<or> signing_pgp_enabled
        in Ok (fg_join F [''signing'', ''mandatory''] (CBool should) f1)))"

definition encryption_defaults :: "'f figment_lib \<Rightarrow> 'f \<Rightarrow> 'f" where
  "encryption_defaults F f =
     (if fg_bool F [''encryption'', ''enabled''] f = Ok False
      then fg_merge F [''encryption'', ''mode''] (CStr ''off'') f else f)"

definition provider_defaults :: "'f figment_lib \<Rightarrow> string \<Rightarrow> 'f \<Rightarrow> 'f" where
  "provider_defaults F provider f =
     move_default F [''storage'', provider] [[''storage'', ''backups'', provider], [''storage'', ''checks'', provider]]
       (move_default F [provider] [[''storage'', provider]] f)"

definition with_dynamic_defaults :: "'f figment_lib \<Rightarrow> 'f \<Rightarrow> anyhow + 'f" where
  "with_dynamic_defaults F f =
     try_bind (signing_defaults F f) (\<lambda>f1.
     let f2 = encryption_defaults F f1;
         f3 = fold (provider_defaults F) [''s3'', ''fs''] f2;
         f4 = move_default F [''storage'', ''provider'']
                [[''storage'', ''backups'', ''provider''], [''storage'', ''checks'', ''provider'']] f3
     in Ok (move_default F [''pgp''] [[''encryption'', ''pgp''], [''signing'', ''pgp'']] f4))"

section \<open>Moved defaults\<close>

lemma move_default_frame:
  assumes "figment_laws F" "\<not> overlaps src q" "\<forall>dst \<in> set dsts. \<not> overlaps dst q"
  shows "fg_value F q (move_default F src dsts f) = Ok x \<longleftrightarrow> fg_value F q f = Ok x"
proof -
  have "fg_value F q (fold (\<lambda>dst. fg_merge F dst v) dsts f) = Ok x \<longleftrightarrow> fg_value F q f = Ok x" for v
    using assms(3) by (induction dsts arbitrary: f) (simp_all add: figment_merge_frame [OF assms(1)])
  then show ?thesis by (auto simp: move_default_def figment_remove_frame [OF assms(1,2)] split: sum.splits)
qed

text \<open>A value moved away prevails at its destinations.\<close>

lemma fold_merge_leaf:
  assumes "figment_laws F" "value_at p v = Some s" "\<not> is_dict s" "dst \<in> set dsts"
    "\<forall>d \<in> set dsts. d \<noteq> dst \<longrightarrow> \<not> overlaps d (dst @ p)"
  shows "fg_value F (dst @ p) (fold (\<lambda>dst. fg_merge F dst v) dsts f) = Ok s"
  using assms(4,5)
proof (induction dsts arbitrary: f rule: rev_induct)
  case (snoc d ds)
  show ?case
  proof (cases "d = dst")
    case True
    then show ?thesis using figment_merge_leaf [OF assms(1,2,3)] by simp
  next
    case False
    then show ?thesis using snoc by (simp add: figment_merge_frame [OF assms(1)])
  qed
qed simp

lemma move_default_leaf:
  assumes "figment_laws F" "fg_value F (src @ p) f = Ok s" "\<not> is_dict s" "dst \<in> set dsts"
    "\<forall>d \<in> set dsts. d \<noteq> dst \<longrightarrow> \<not> overlaps d (dst @ p)" "\<not> overlaps src (dst @ p)"
  shows "fg_value F (dst @ p) (move_default F src dsts f) = Ok s"
proof -
  obtain v where v: "fg_value F src f = Ok v" "value_at p v = Some s"
    using assms(2) figment_coherent [OF assms(1)] by blast
  then show ?thesis using fold_merge_leaf [OF assms(1) v(2) assms(3-5)]
    by (simp add: move_default_def figment_remove_frame [OF assms(1,6)])
qed

lemma signing_defaults_frame:
  assumes "figment_laws F" "signing_defaults F f = Ok f1" "q = k # ks" "k \<noteq> ''signing''"
  shows "fg_value F q f1 = Ok x \<longleftrightarrow> fg_value F q f = Ok x"
  using assms(2-4)
  by (auto simp: signing_defaults_def Let_def figment_remove_frame [OF assms(1)] figment_join_frame [OF assms(1)]
      try_bind_eq_Ok split: if_splits)

lemma encryption_defaults_frame:
  assumes "figment_laws F" "q = k # ks" "k \<noteq> ''encryption''"
  shows "fg_value F q (encryption_defaults F f) = Ok x \<longleftrightarrow> fg_value F q f = Ok x"
  using assms(2,3) by (simp add: encryption_defaults_def figment_merge_frame [OF assms(1)])

lemma provider_defaults_frame:
  assumes "figment_laws F" "q = k # ks" "k \<noteq> ''storage''" "k \<noteq> provider"
  shows "fg_value F q (provider_defaults F provider f) = Ok x \<longleftrightarrow> fg_value F q f = Ok x"
  using assms(2-4) by (simp add: provider_defaults_def move_default_frame [OF assms(1)])

lemma provider_s3_leaf:
  assumes "figment_laws F" "fg_value F (''s3'' # p) f = Ok s" "\<not> is_dict s" "side \<in> {''backups'', ''checks''}"
  shows "fg_value F ([''storage'', side, ''s3''] @ p) (provider_defaults F ''s3'' f) = Ok s"
proof -
  have 1: "fg_value F ([''storage'', ''s3''] @ p) (move_default F [''s3''] [[''storage'', ''s3'']] f) = Ok s"
    by (rule move_default_leaf [OF assms(1)]) (use assms(2,3) in auto)
  show ?thesis unfolding provider_defaults_def
    by (rule move_default_leaf [OF assms(1) 1 assms(3)]) (use assms(4) in auto)
qed

section \<open>Properties\<close>

text \<open>
  Global sections win over specific ones: whatever \<open>storage.backups.s3\<close> or
  \<open>storage.checks.s3\<close> sets, a key of the global \<open>s3\<close> section replaces it, and a key of the
  global \<open>pgp\<close> section is set for signing, even when signing with OpenPGP is disabled.
\<close>

theorem global_sections_override:
  assumes "figment_laws F" "with_dynamic_defaults F f = Ok f'" "\<not> is_dict s"
  shows "(fg_value F (''s3'' # p) f = Ok s \<longrightarrow>
      fg_value F ([''storage'', ''backups'', ''s3''] @ p) f' = Ok s \<and> fg_value F ([''storage'', ''checks'', ''s3''] @ p) f' = Ok s) \<and>
    (fg_value F (''pgp'' # p) f = Ok s \<longrightarrow>
      fg_value F ([''encryption'', ''pgp''] @ p) f' = Ok s \<and> fg_value F ([''signing'', ''pgp''] @ p) f' = Ok s)"
proof -
  obtain f1 where f1: "signing_defaults F f = Ok f1"
    and f': "f' = move_default F [''pgp''] [[''encryption'', ''pgp''], [''signing'', ''pgp'']]
        (move_default F [''storage'', ''provider''] [[''storage'', ''backups'', ''provider''], [''storage'', ''checks'', ''provider'']]
          (provider_defaults F ''fs'' (provider_defaults F ''s3'' (encryption_defaults F f1))))"
    using assms(2) by (auto simp: with_dynamic_defaults_def Let_def try_bind_eq_Ok)
  note sig = signing_defaults_frame [OF assms(1) f1 refl] and enc = encryption_defaults_frame [OF assms(1) refl]
  note frames = move_default_frame [OF assms(1)] provider_defaults_frame [OF assms(1) refl] enc sig
  have "fg_value F ([''storage'', side, ''s3''] @ p) f' = Ok s"
    if "fg_value F (''s3'' # p) f = Ok s" "side \<in> {''backups'', ''checks''}" for side
  proof -
    have "fg_value F (''s3'' # p) (encryption_defaults F f1) = Ok s" using that(1) by (simp add: frames)
    from provider_s3_leaf [OF assms(1) this assms(3) that(2)] that(2) show ?thesis
      by (auto simp: f' provider_defaults_def [of F "''fs''"] frames)
  qed
  moreover have "fg_value F (dst @ p) f' = Ok s" if "fg_value F (''pgp'' # p) f = Ok s" "dst \<in> {[''encryption'', ''pgp''], [''signing'', ''pgp'']}" for dst
    unfolding f' by (rule move_default_leaf [OF assms(1) _ assms(3)]) (use that in \<open>auto simp: frames\<close>)
  ultimately show ?thesis by blast
qed

theorem global_sections_override_witness:
  "\<exists>f'. with_dynamic_defaults tree_lib (CDict
       [(''signing'', CDict [(''pgp'', CDict [(''enabled'', CBool False)])]),
        (''s3'', CDict [(''region'', CStr ''a'')]), (''pgp'', CDict [(''tsk'', CStr ''k'')]),
        (''storage'', CDict [(''backups'', CDict [(''s3'', CDict [(''region'', CStr ''b'')])])])]) = Ok f' \<and>
     fg_value tree_lib [''storage'', ''backups'', ''s3'', ''region''] f' = Ok (CStr ''a'') \<and>
     fg_value tree_lib [''signing'', ''pgp'', ''tsk''] f' = Ok (CStr ''k'')"
proof -
  let ?f = "CDict
       [(''signing'', CDict [(''pgp'', CDict [(''enabled'', CBool False)])]),
        (''s3'', CDict [(''region'', CStr ''a'')]), (''pgp'', CDict [(''tsk'', CStr ''k'')]),
        (''storage'', CDict [(''backups'', CDict [(''s3'', CDict [(''region'', CStr ''b'')])])])]"
  have "is_ok (signing_defaults tree_lib ?f)" by (simp add: signing_defaults_def tree_lib_def)
  then obtain f' where f': "with_dynamic_defaults tree_lib ?f = Ok f'"
    by (cases "signing_defaults tree_lib ?f") (auto simp: with_dynamic_defaults_def Let_def)
  have "fg_value tree_lib (''s3'' # [''region'']) ?f = Ok (CStr ''a'')" "fg_value tree_lib (''pgp'' # [''tsk'']) ?f = Ok (CStr ''k'')"
    by (simp_all add: tree_lib_def)
  then show ?thesis using f' global_sections_override [OF tree_laws f', of "CStr ''a''" "[''region'']"]
      global_sections_override [OF tree_laws f', of "CStr ''k''" "[''tsk'']"] by auto
qed

end
