(* ===== verification/Backup_Config.thy ===== *)
theory Backup_Config
  imports Backup_Service S3_Store
begin

text \<open>
  \<^verbatim>\<open>api/crates/backup/src/config.rs\<close> and the constructors of \<open>BackupService\<close> in
  \<^verbatim>\<open>api/crates/backup/src/lib.rs\<close>: the configuration of backups and the service made of it.  Deserialization (\<open>serde\<close>) is left out.
\<close>

section \<open>The configuration\<close>

record signing_pgp_config =
  spc_tsk :: string
  spc_passphrases :: "string \<rightharpoonup> string"
  spc_additional_trusted_issuers :: "string list"

record signing_config =
  sc_mandatory :: bool
  sc_pgp :: "signing_pgp_config option"

record encryption_pgp_config =
  epc_tsk :: string
  epc_passphrases :: "string \<rightharpoonup> string"
  epc_additional_decryption_keys :: "string list"
  epc_additional_recipients :: "string list"

datatype encryption_config = EncryptionOff | EncryptionPgp encryption_pgp_config

datatype storage_subconfig = StorageS3 storage_s3_config | StorageFs storage_fs_config

record storage_config =
  stc_backups :: storage_subconfig
  stc_checks :: storage_subconfig

record caching_config =
  cc_cache_dir :: string
  cc_max_backup_cache_size :: "bytes_amount option"

record backup_config =
  bc_compression :: compression_config
  bc_hashing :: hashing_algorithm
  bc_signing :: signing_config
  bc_encryption :: encryption_config
  bc_storage :: storage_config
  bc_url_max_ttl :: nat
  bc_caching :: caching_config

section \<open>The service\<close>

datatype 'b any_store = S3Box "'b s3_client \<times> s3_store" | FsBox fs_store

record ('kp, 'p, 'b) built_service =
  bs_contexts :: "'kp backup_service"
  bs_verification :: "('kp pgp_cert, 'p) pgp_verification_context option"
  bs_decryption :: "'kp pgp_decryption_context option"
  bs_backup_store :: "'b any_store"
  bs_check_store :: "'b any_store"
  bs_max_cache :: "u64 option"
  bs_cache_dir :: string
  bs_ttl :: nat
  bs_blueprints :: "u8 \<rightharpoonup> path archive_blueprint"
  bs_migrations :: "archive_migration list"

fun try_map :: "('a \<Rightarrow> 'e + 'b) \<Rightarrow> 'a list \<Rightarrow> 'e + 'b list" where
  "try_map f [] = Ok []"
| "try_map f (x # xs) = try_bind (f x) (\<lambda>y. try_bind (try_map f xs) (\<lambda>ys. Ok (y # ys)))"

definition build_store ::
  "(string \<Rightarrow> string \<Rightarrow> string \<times> string \<times> string option \<Rightarrow> bool option \<Rightarrow> string \<Rightarrow> 'b s3_client) \<Rightarrow>
     storage_subconfig \<Rightarrow> anyhow + 'b any_store" where
  "build_store from_conf sub =
     (case sub of
        StorageS3 config \<Rightarrow> Ok (S3Box (s3_from_config from_conf config))
      | StorageFs config \<Rightarrow> try_bind (try_from_config config 0x180) (\<lambda>st. Ok (FsBox st)))"

definition encryption_context ::
  "(string \<Rightarrow> anyhow + 'kp pgp_cert) \<Rightarrow> encryption_config \<Rightarrow> anyhow + 'kp pgp_cert list option" where
  "encryption_context get_pgp_cert config =
     (case config of
        EncryptionOff \<Rightarrow> Ok None
      | EncryptionPgp pgp \<Rightarrow>
          try_bind (get_pgp_cert (epc_tsk pgp)) (\<lambda>cert.
          try_bind (try_map get_pgp_cert (epc_additional_recipients pgp)) (\<lambda>certs. Ok (Some (cert # certs)))))"

definition signing_context ::
  "(string \<Rightarrow> anyhow + 'kp pgp_cert) \<Rightarrow> signing_config \<Rightarrow> anyhow + 'kp pgp_signing_context option" where
  "signing_context get_pgp_cert config =
     (case sc_pgp config of
        None \<Rightarrow> Ok None
      | Some pgp \<Rightarrow>
          try_bind (get_pgp_cert (spc_tsk pgp)) (\<lambda>cert.
          Ok (Some \<lparr>psc_tsk = cert, psc_passphrases = spc_passphrases pgp\<rparr>)))"

definition verification_context ::
  "(string \<Rightarrow> anyhow + 'kp pgp_cert) \<Rightarrow> 'p \<Rightarrow> signing_config \<Rightarrow> anyhow + ('kp pgp_cert, 'p) pgp_verification_context option" where
  "verification_context get_pgp_cert policy config =
     (case sc_pgp config of
        None \<Rightarrow> Ok None
      | Some pgp \<Rightarrow>
          try_bind (get_pgp_cert (spc_tsk pgp)) (\<lambda>cert. Ok (Some \<lparr>pvc_certs = [cert], pvc_policy = policy\<rparr>)))"

definition decryption_context ::
  "(string \<Rightarrow> anyhow + 'kp pgp_cert) \<Rightarrow> encryption_config \<Rightarrow> anyhow + 'kp pgp_decryption_context option" where
  "decryption_context get_pgp_cert config =
     (case config of
        EncryptionOff \<Rightarrow> Ok None
      | EncryptionPgp pgp \<Rightarrow>
          try_bind (get_pgp_cert (epc_tsk pgp)) (\<lambda>cert.
          Ok (Some \<lparr>pdc_tsks = [cert], pdc_passphrases = epc_passphrases pgp\<rparr>)))"

definition from_config_custom ::
  "backup_config \<Rightarrow> (u8 \<rightharpoonup> path archive_blueprint) \<Rightarrow> archive_migration list \<Rightarrow>
     (string \<Rightarrow> anyhow + 'kp pgp_cert) \<Rightarrow> 'p \<Rightarrow>
     (string \<Rightarrow> string \<Rightarrow> string \<times> string \<times> string option \<Rightarrow> bool option \<Rightarrow> string \<Rightarrow> 'b s3_client) \<Rightarrow>
     anyhow + ('kp, 'p, 'b) built_service" where
  "from_config_custom config blueprints migrations get_pgp_cert policy from_conf =
     try_bind (encryption_context get_pgp_cert (bc_encryption config)) (\<lambda>encryption.
     try_bind (signing_context get_pgp_cert (bc_signing config)) (\<lambda>signing.
     try_bind (verification_context get_pgp_cert policy (bc_signing config)) (\<lambda>verification.
     try_bind (decryption_context get_pgp_cert (bc_encryption config)) (\<lambda>decryption.
     try_bind (build_store from_conf (stc_backups (bc_storage config))) (\<lambda>backup_store.
     try_bind (build_store from_conf (stc_checks (bc_storage config))) (\<lambda>check_store.
     Ok \<lparr>bs_contexts = \<lparr>sv_compression = bc_compression config, sv_hashing = bc_hashing config, sv_encryption = encryption,
            sv_signing_mandatory = sc_mandatory (bc_signing config), sv_signing = signing\<rparr>,
         bs_verification = verification, bs_decryption = decryption, bs_backup_store = backup_store,
         bs_check_store = check_store, bs_max_cache = cached_store_new (cc_max_backup_cache_size (bc_caching config)),
         bs_cache_dir = cc_cache_dir (bc_caching config), bs_ttl = bc_url_max_ttl config,
         bs_blueprints = blueprints, bs_migrations = migrations\<rparr>))))))"

section \<open>Properties\<close>

text \<open>
  The keys of a service: its own certificate is a recipient of every encrypted backup and the
  only one tried for decryption; signatures are checked against the certificate used to sign and
  no other.  The additional decryption keys and trusted issuers of the configuration are not
  used.
\<close>

theorem from_config_keys:
  assumes "from_config_custom config blueprints migrations get_pgp_cert policy from_conf = Ok sv"
  shows "(case bc_encryption config of
        EncryptionOff \<Rightarrow> sv_encryption (bs_contexts sv) = None \<and> bs_decryption sv = None
      | EncryptionPgp pgp \<Rightarrow> \<exists>cert certs. get_pgp_cert (epc_tsk pgp) = Ok cert \<and>
          try_map get_pgp_cert (epc_additional_recipients pgp) = Ok certs \<and>
          sv_encryption (bs_contexts sv) = Some (cert # certs) \<and>
          bs_decryption sv = Some \<lparr>pdc_tsks = [cert], pdc_passphrases = epc_passphrases pgp\<rparr>) \<and>
    (case sc_pgp (bc_signing config) of
        None \<Rightarrow> sv_signing (bs_contexts sv) = None \<and> bs_verification sv = None
      | Some pgp \<Rightarrow> \<exists>cert. get_pgp_cert (spc_tsk pgp) = Ok cert \<and>
          sv_signing (bs_contexts sv) = Some \<lparr>psc_tsk = cert, psc_passphrases = spc_passphrases pgp\<rparr> \<and>
          bs_verification sv = Some \<lparr>pvc_certs = [cert], pvc_policy = policy\<rparr>) \<and>
    sv_signing_mandatory (bs_contexts sv) = sc_mandatory (bc_signing config)"
  using assms
  by (auto simp: from_config_custom_def encryption_context_def signing_context_def verification_context_def
      decryption_context_def try_bind_eq_Ok split: encryption_config.splits option.splits)

theorem from_config_keys_witness:
  "\<exists>sv. from_config_custom \<lparr>bc_compression = CompressionOff, bc_hashing = Blake3,
      bc_signing = \<lparr>sc_mandatory = True, sc_pgp = Some \<lparr>spc_tsk = ''a'', spc_passphrases = Map.empty, spc_additional_trusted_issuers = [''b'']\<rparr>\<rparr>,
      bc_encryption = EncryptionOff,
      bc_storage = \<lparr>stc_backups = StorageFs \<lparr>cfg_directory = ''/b'', cfg_overwrite = False, cfg_mode = 0x180\<rparr>,
        stc_checks = StorageFs \<lparr>cfg_directory = ''/c'', cfg_overwrite = False, cfg_mode = 0x180\<rparr>\<rparr>,
      bc_url_max_ttl = 300, bc_caching = \<lparr>cc_cache_dir = ''/tmp'', cc_max_backup_cache_size = None\<rparr>\<rparr>
      Map.empty [] (\<lambda>f. Ok \<lparr>cert_fpr = f, cert_is_tsk = True, cert_keys = [] :: unit pgp_key list\<rparr>) () (\<lambda>_ _ _ _ _. mem_client) = Ok sv \<and>
    bs_verification sv = Some \<lparr>pvc_certs = [\<lparr>cert_fpr = ''a'', cert_is_tsk = True, cert_keys = []\<rparr>], pvc_policy = ()\<rparr>"
proof -
  let ?c = "\<lparr>bc_compression = CompressionOff, bc_hashing = Blake3,
      bc_signing = \<lparr>sc_mandatory = True, sc_pgp = Some \<lparr>spc_tsk = ''a'', spc_passphrases = Map.empty, spc_additional_trusted_issuers = [''b'']\<rparr>\<rparr>,
      bc_encryption = EncryptionOff,
      bc_storage = \<lparr>stc_backups = StorageFs \<lparr>cfg_directory = ''/b'', cfg_overwrite = False, cfg_mode = 0x180\<rparr>,
        stc_checks = StorageFs \<lparr>cfg_directory = ''/c'', cfg_overwrite = False, cfg_mode = 0x180\<rparr>\<rparr>,
      bc_url_max_ttl = 300, bc_caching = \<lparr>cc_cache_dir = ''/tmp'', cc_max_backup_cache_size = None\<rparr>\<rparr>"
  let ?g = "\<lambda>f. Ok \<lparr>cert_fpr = f, cert_is_tsk = True, cert_keys = [] :: unit pgp_key list\<rparr>"
  have "is_ok (from_config_custom ?c Map.empty [] ?g () (\<lambda>_ _ _ _ _. mem_client))"
    by (simp add: from_config_custom_def encryption_context_def signing_context_def verification_context_def
        decryption_context_def build_store_def try_from_config_def validate_mode_def is_ok_def)
  then obtain sv where sv: "from_config_custom ?c Map.empty [] ?g () (\<lambda>_ _ _ _ _. mem_client) = Ok sv"
    by (auto simp: is_ok_def split: sum.splits)
  show ?thesis using from_config_keys [OF sv] sv by simp
qed

end
