(* ===== verification/Api_Errors.thy ===== *)
theory Api_Errors
  imports Prelude
begin

text \<open>
  \<^verbatim>\<open>api/src/errors.rs\<close>, \<^verbatim>\<open>api/src/responders.rs\<close> and the caller of \<^verbatim>\<open>api/src/models/mod.rs\<close>: the
  errors of the HTTP API.  Release build: a violated debug assertion is only logged; the random
  error id of a logged error is the parameter \<open>error_id\<close>.
\<close>

section \<open>Errors\<close>

record api_error =
  ae_kind :: string
  ae_code :: string
  ae_status :: nat
  ae_message :: string
  ae_description :: string

definition is_upper_snake_case :: "char \<Rightarrow> bool" where
  "is_upper_snake_case b \<longleftrightarrow> (CHR ''A'' \<le> b \<and> b \<le> CHR ''Z'') \<or> b = CHR ''_'' \<or> (CHR ''0'' \<le> b \<and> b \<le> CHR ''9'')"

definition error_new :: "string \<Rightarrow> string \<Rightarrow> nat \<Rightarrow> string \<Rightarrow> string \<Rightarrow> api_error" where
  "error_new kind code status message description =
     \<lparr>ae_kind = kind, ae_code = code, ae_status = status, ae_message = message, ae_description = description\<rparr>"

text \<open>The assertions of \<open>Error::new\<close>.\<close>

definition error_checks :: "string \<Rightarrow> string \<Rightarrow> string \<Rightarrow> string \<Rightarrow> bool" where
  "error_checks kind code message description \<longleftrightarrow>
     kind \<noteq> [] \<and> list_all is_upper_snake_case kind \<and> ends_with kind ''_ERROR'' \<and>
     code \<noteq> [] \<and> list_all is_upper_snake_case code \<and>
     message \<noteq> [] \<and> \<not> ends_with message ''.'' \<and> description \<noteq> []"

definition auto_log :: "string \<Rightarrow> string \<Rightarrow> string" where
  "auto_log error_id public_description = public_description @ '' (logged as error_id='' @ error_id @ '')''"

definition internal_server_error :: "string \<Rightarrow> string \<Rightarrow> string \<Rightarrow> api_error" where
  "internal_server_error error_id code public_description =
     error_new ''INTERNAL_ERROR'' code 500 ''Internal server error'' (auto_log error_id public_description)"

definition unauthorized :: "string \<Rightarrow> api_error" where
  "unauthorized description = error_new ''AUTH_ERROR'' ''UNAUTHORIZED'' 401 ''Unauthorized'' description"

definition forbidden :: "string \<Rightarrow> api_error" where
  "forbidden description = error_new ''AUTH_ERROR'' ''FORBIDDEN'' 403 ''Forbidden'' description"

definition too_early :: "string \<Rightarrow> string \<Rightarrow> string \<Rightarrow> api_error" where
  "too_early code message description = error_new ''LIFECYCLE_ERROR'' code 425 message description"

definition service_unavailable :: "string \<Rightarrow> string \<Rightarrow> string \<Rightarrow> api_error" where
  "service_unavailable code message description = error_new ''LIFECYCLE_ERROR'' code 503 message description"

definition service_unavailable_err :: "string \<Rightarrow> string \<Rightarrow> string \<Rightarrow> string \<Rightarrow> api_error" where
  "service_unavailable_err error_id code message public_description =
     error_new ''LIFECYCLE_ERROR'' code 503 message (auto_log error_id public_description)"

definition too_late :: "string \<Rightarrow> string \<Rightarrow> string \<Rightarrow> api_error" where
  "too_late code message description = error_new ''LIFECYCLE_ERROR'' code 410 message description"

definition conflict_error :: "string \<Rightarrow> string \<Rightarrow> string \<Rightarrow> api_error" where
  "conflict_error code message description = error_new ''CONFLICT_ERROR'' code 409 message description"

definition validation_error :: "string \<Rightarrow> string \<Rightarrow> string \<Rightarrow> api_error" where
  "validation_error code message description = error_new ''VALIDATION_ERROR'' code 400 message description"

definition unsupported_media_type :: "string \<Rightarrow> string \<Rightarrow> string \<Rightarrow> api_error" where
  "unsupported_media_type code message description = error_new ''VALIDATION_ERROR'' code 415 message description"

definition configuration_error :: "string \<Rightarrow> string \<Rightarrow> string \<Rightarrow> api_error" where
  "configuration_error code message description = error_new ''CONFIGURATION_ERROR'' code 503 message description"

text \<open>\<open>no_context\<close> of \<^verbatim>\<open>api/src/util/mod.rs\<close>.\<close>

definition no_context :: "string \<Rightarrow> api_error" where
  "no_context error_id = internal_server_error error_id ''INTERNAL_ERROR'' ''Internal error''"

lemmas error_defs = internal_server_error_def unauthorized_def forbidden_def too_early_def service_unavailable_def
  service_unavailable_err_def too_late_def conflict_error_def validation_error_def unsupported_media_type_def
  configuration_error_def error_new_def no_context_def

section \<open>Responses\<close>

text \<open>A response: its status, the error of its body if any, and its \<open>Retry-After\<close> headers.\<close>

record response =
  rs_status :: nat
  rs_error :: "api_error option"
  rs_retry_after :: "nat list"

definition into_response :: "api_error \<Rightarrow> response" where
  "into_response e = \<lparr>rs_status = ae_status e, rs_error = Some e, rs_retry_after = []\<rparr>"

definition ok_response :: response where
  "ok_response = \<lparr>rs_status = 200, rs_error = None, rs_retry_after = []\<rparr>"

definition retry_after :: "nat \<Rightarrow> response \<Rightarrow> response" where
  "retry_after seconds r = r\<lparr>rs_retry_after := rs_retry_after r @ [seconds]\<rparr>"

section \<open>Callers\<close>

record caller_info =
  ci_jid :: string
  ci_primary_role :: string

definition check_is_admin :: "caller_info \<Rightarrow> api_error + unit" where
  "check_is_admin caller =
     (if ci_primary_role caller \<in> {''prosody:admin'', ''prosody:operator''} then Ok ()
      else Err (forbidden ''Only admins can do that.''))"

end
