(* ===== verification/App_Config.thy ===== *)
theory App_Config
  imports Backup_Defaults Archiving
begin

text \<open>
  \<^verbatim>\<open>api/src/app_config.rs\<close>: the configuration of the server, its dynamic defaults, the presets of
  the analytics section and the validation of changes at run time, with the blueprints of
  backups (\<^verbatim>\<open>api/src/router/backups.rs\<close>).  URLs and JIDs are strings, durations seconds.  The
  type of the backups section is the parameter \<open>'b\<close>.
\<close>

section \<open>The configuration\<close>

datatype log_level = LogTrace | LogDebug | LogInfo | LogWarn | LogError
datatype log_format = LogFull | LogCompact | LogJson | LogPretty
datatype log_timer = TimerNone | TimerTime | TimerUptime

record log_config =
  lc_level :: log_level
  lc_format :: log_format
  lc_timer :: log_timer
  lc_with_file :: bool
  lc_with_target :: bool
  lc_with_thread_ids :: bool
  lc_with_line_number :: bool
  lc_with_span_events :: bool
  lc_with_thread_names :: bool
  lc_opentelemetry_enabled :: bool

record server_config =
  srv_domain :: string
  srv_local_hostname :: string
  srv_http_port :: nat
  srv_log_level :: log_level

record server_api_config =
  sac_address :: string
  sac_port :: nat

record service_account_config =
  sa_xmpp_node :: string
  sa_password :: "string option"

record 'b app_config =
  ac_token_ttl :: nat
  ac_oauth2_registration_key :: string
  ac_dashboard_url :: string
  ac_log :: log_config
  ac_auto_update_enabled :: "bool option"
  ac_server :: server_config
  ac_backups :: "'b option"
  ac_server_api :: server_api_config
  ac_prose_workspace :: service_account_config
  ac_main_team_name :: string

definition socket_address :: "server_api_config \<Rightarrow> string \<times> nat" where
  "socket_address c = (sac_address c, sac_port c)"

definition workspace_jid :: "'b app_config \<Rightarrow> string \<times> string" where
  "workspace_jid config = (sa_xmpp_node (ac_prose_workspace config), srv_domain (ac_server config))"

section \<open>Changes at run time\<close>

text \<open>The logging options that need a restart.\<close>

definition static_log_config :: "log_config \<Rightarrow> log_config" where
  "static_log_config c = c\<lparr>lc_level := LogInfo\<rparr>"

text \<open>The result, and the warnings logged.\<close>

definition validate_config_changes :: "'b app_config \<Rightarrow> 'b app_config \<Rightarrow> (anyhow + unit) \<times> string list" where
  "validate_config_changes old_config new_config =
     (if srv_domain (ac_server new_config) \<noteq> srv_domain (ac_server old_config)
      then (Err [''Once set, the server domain cannot be changed.''], [])
      else (Ok (),
        (if socket_address (ac_server_api new_config) \<noteq> socket_address (ac_server_api old_config)
         then [''The Prose Pod Server API address cannot be changed at runtime.''] else []) @
        (if static_log_config (ac_log new_config) \<noteq> static_log_config (ac_log old_config)
         then [''Logging configuration keys related to formatting need a restart to be applied.''] else [])))"

section \<open>Backed up paths\<close>

definition BACKUPS_VERSION :: u8 where
  "BACKUPS_VERSION = 1"

definition BACKUP_BLUEPRINTS :: "u8 \<rightharpoonup> string archive_blueprint" where
  "BACKUP_BLUEPRINTS = [1 \<mapsto> blueprint_new 1
     [(''prose-pod-server-data'', ''/var/lib/prose-pod-server''),
      (''prosody-data'', ''/var/lib/prosody''),
      (''prose-config'', ''/etc/prose''),
      (''prosody-config'', ''/etc/prosody'')]]"

fun ensure_not_in_paths :: "string \<Rightarrow> (string \<times> string) list \<Rightarrow> anyhow + unit" where
  "ensure_not_in_paths dir [] = Ok ()"
| "ensure_not_in_paths dir ((_, backed_up_path) # paths) =
     (let pfx = (if ends_with backed_up_path ''/'' then butlast backed_up_path else backed_up_path) in
      case strip_prefix pfx dir of
        None \<Rightarrow> ensure_not_in_paths dir paths
      | Some rest \<Rightarrow>
          if rest = [] \<or> rest = ''/'' then Err [''Cannot use dir as backup storage as it is itself backed up.'']
          else if starts_with rest ''/'' then Err [''Cannot use dir as backup storage as its parent is backed up.'']
          else ensure_not_in_paths dir paths)"

definition ensure_not_in_backed_up_path :: "string \<Rightarrow> string archive_blueprint \<Rightarrow> anyhow + unit" where
  "ensure_not_in_backed_up_path dir blueprint = ensure_not_in_paths dir (bp_paths blueprint)"

section \<open>Analytics presets\<close>

text \<open>A preset is removed when it is used, so that a cycle of references ends.\<close>

function get_preset ::
  "'f figment_lib \<Rightarrow> string \<Rightarrow> (string \<times> (string \<times> cfg_value) list) list \<Rightarrow> string list \<Rightarrow> anyhow + 'f" where
  "get_preset F preset_name presets stack =
     (case map_of presets preset_name of
        Some preset \<Rightarrow>
          (case map_of preset ''inherits'' of
             Some (CStr inherited) \<Rightarrow>
               try_bind (get_preset F inherited (AList.delete preset_name presets) (stack @ [preset_name])) (\<lambda>inherited_preset.
               Ok (fg_join_figment F (fg_defaults F (CDict (AList.delete ''inherits'' preset))) inherited_preset))
           | Some _ \<Rightarrow> Err [''Invalid preset: `inherits` should be a string.'']
           | None \<Rightarrow> Ok (fg_defaults F (CDict preset)))
      | None \<Rightarrow>
          if stack = [] then Err [''Invalid preset'', preset_name]
          else Err [''Invalid preset'', preset_name, ''inherited by'', join '' -> '' stack])"
  by pat_completeness auto

lemma delete_shorter: "map_of xs k = Some v \<Longrightarrow> length (AList.delete k xs) < length xs"
  by (induction xs) (auto simp: AList.delete_eq less_Suc_eq_le split: if_splits)

termination get_preset
  by (relation "measure (\<lambda>(F, n, presets, stack). length presets)") (auto intro: delete_shorter)

declare get_preset.simps [simp del]

definition apply_analytics_preset :: "'f figment_lib \<Rightarrow> string \<Rightarrow> 'f \<Rightarrow> anyhow + 'f" where
  "apply_analytics_preset F preset_name figment =
     (let presets = (case fg_tables F [''vendor_analytics'', ''presets''] figment of Inl _ \<Rightarrow> [] | Inr ts \<Rightarrow> ts) in
      try_bind (get_preset F preset_name presets []) (\<lambda>f.
      try_bind (fg_extract F f) (\<lambda>preset.
      Ok (fg_join F [''vendor_analytics''] preset figment))))"

section \<open>Dynamic defaults\<close>

text \<open>\<open>PodAddress\<close>, all fields absent by default.\<close>

record pod_address =
  pa_domain :: "string option"
  pa_ipv4 :: "string option"
  pa_ipv6 :: "string option"

definition pod_address_default :: pod_address where
  "pod_address_default = \<lparr>pa_domain = None, pa_ipv4 = None, pa_ipv6 = None\<rparr>"

definition pod_address_field :: "'f figment_lib \<Rightarrow> string \<Rightarrow> 'f \<Rightarrow> anyhow + string option" where
  "pod_address_field F field f =
     (case fg_value F [''pod'', ''address'', field] f of
        Inl _ \<Rightarrow> Ok None
      | Inr CNull \<Rightarrow> Ok None
      | Inr (CStr s) \<Rightarrow> Ok (Some s)
      | Inr _ \<Rightarrow> Err [''invalid type''])"

definition pod_address_of :: "'f figment_lib \<Rightarrow> 'f \<Rightarrow> pod_address" where
  "pod_address_of F f =
     (case try_bind (pod_address_field F ''domain'' f) (\<lambda>domain.
           try_bind (pod_address_field F ''ipv4'' f) (\<lambda>ipv4.
           try_bind (pod_address_field F ''ipv6'' f) (\<lambda>ipv6.
           Ok \<lparr>pa_domain = domain, pa_ipv4 = ipv4, pa_ipv6 = ipv6\<rparr>))) of
        Inl (_ :: anyhow) \<Rightarrow> pod_address_default
      | Inr address \<Rightarrow> address)"

definition address_defaults :: "'f figment_lib \<Rightarrow> string \<Rightarrow> 'f \<Rightarrow> 'f" where
  "address_defaults F server_domain f =
     (let address = pod_address_of F f in
      if pa_ipv4 address = None \<and> pa_ipv6 address = None then
        (let default_server_domain = ''prose.'' @ server_domain;
             f1 = fg_join F [''pod'', ''address'', ''domain''] (CStr default_server_domain) f;
             pod_domain = (case pa_domain address of None \<Rightarrow> default_server_domain | Some name \<Rightarrow> name)
         in fg_join F [''dashboard'', ''url''] (CStr (''https://admin.'' @ pod_domain)) f1)
      else f)"

definition check_storage :: "'f figment_lib \<Rightarrow> string \<Rightarrow> 'f \<Rightarrow> string archive_blueprint \<Rightarrow> anyhow + unit" where
  "check_storage F side f blueprint =
     (case fg_string F [''backups'', ''storage'', side, ''fs'', ''directory''] f of
        Inl _ \<Rightarrow> Ok ()
      | Inr dir \<Rightarrow> ensure_not_in_backed_up_path dir blueprint)"

definition app_dynamic_defaults :: "'f figment_lib \<Rightarrow> 'f \<Rightarrow> (anyhow + 'f) run" where
  "app_dynamic_defaults F f0 =
     (case fg_string F [''server'', ''domain''] f0 of
        Inl e \<Rightarrow> Ret (Err e)
      | Inr server_domain \<Rightarrow>
          (let f1 = address_defaults F server_domain f0 in
           case try_bind (with_dynamic_defaults F (fg_focus F ''backups'' f1)) (fg_extract F) of
             Inl e \<Rightarrow> Ret (Err e)
           | Inr backups_value \<Rightarrow>
               (let f2 = fg_merge F [''backups''] backups_value (fg_merge F [''backups''] CNull f1) in
                case BACKUP_BLUEPRINTS BACKUPS_VERSION of
                  None \<Rightarrow> Panic
                | Some blueprint \<Rightarrow>
                    Ret (try_bind (check_storage F ''backups'' f2 blueprint) (\<lambda>_.
                         try_bind (check_storage F ''checks'' f2 blueprint) (\<lambda>_.
                         try_bind (case fg_string F [''vendor_analytics'', ''preset''] f2 of
                                     Inl _ \<Rightarrow> Ok f2
                                   | Inr preset_name \<Rightarrow> apply_analytics_preset F preset_name f2) (\<lambda>f3.
                         try_bind (apply_analytics_preset F ''default'' f3) (\<lambda>f4.
                         Ok (fg_merge F [''vendor_analytics'', ''presets''] CNull f4)))))))))"

section \<open>Lemmas\<close>

text \<open>\<open>dir\<close> is, as a text, the backed up path \<open>p\<close> or below it.\<close>

definition below_path :: "string \<Rightarrow> string \<Rightarrow> bool" where
  "below_path dir p \<longleftrightarrow> (let q = (if ends_with p ''/'' then butlast p else p) in dir = q \<or> starts_with dir (q @ ''/''))"

lemma ensure_not_in_paths_iff:
  "ensure_not_in_paths dir ps = Ok () \<longleftrightarrow> (\<forall>(k, p) \<in> set ps. \<not> below_path dir p)"
proof (induction ps)
  case (Cons kp ps)
  obtain k p where kp: "kp = (k, p)" by (cases kp)
  define q where "q = (if ends_with p ''/'' then butlast p else p)"
  have b: "below_path dir p \<longleftrightarrow> dir = q \<or> starts_with dir (q @ ''/'')" by (simp add: below_path_def q_def Let_def)
  show ?case
  proof (cases "strip_prefix q dir")
    case None
    then have "\<not> below_path dir p" unfolding b by (auto simp: starts_with_iff) (metis append_Nil2 option.distinct(1) strip_prefix_append)+
    then show ?thesis using Cons.IH None by (simp add: kp q_def Let_def)
  next
    case (Some rest)
    then have d: "dir = q @ rest" by (simp add: strip_prefix_eq_Some)
    then have "below_path dir p \<longleftrightarrow> rest = [] \<or> starts_with rest ''/''" unfolding b by (auto simp: starts_with_iff)
    then show ?thesis using Cons.IH Some by (auto simp: kp q_def Let_def starts_with_iff)
  qed
qed simp

text \<open>The presets that \<open>get_preset\<close> combines, in order of precedence.\<close>

inductive inherits_chain :: "(string \<times> (string \<times> cfg_value) list) list \<Rightarrow> string \<Rightarrow> string list \<Rightarrow> bool" for presets where
  chain_last: "map_of presets n = Some preset \<Longrightarrow> map_of preset ''inherits'' = None \<Longrightarrow> inherits_chain presets n [n]"
| chain_step: "map_of presets n = Some preset \<Longrightarrow> map_of preset ''inherits'' = Some (CStr m) \<Longrightarrow>
    inherits_chain presets m ns \<Longrightarrow> inherits_chain presets n (n # ns)"

definition preset_values :: "(string \<times> (string \<times> cfg_value) list) list \<Rightarrow> string \<Rightarrow> cfg_value" where
  "preset_values presets n = CDict (AList.delete ''inherits'' (the (map_of presets n)))"

lemma inherits_chain_delete:
  assumes "inherits_chain (AList.delete k presets) n ns"
  shows "inherits_chain presets n ns \<and> k \<notin> set ns"
  using assms
proof (induction rule: inherits_chain.induct)
  case (chain_last n preset)
  then have "map_of presets n = Some preset" "n \<noteq> k" by (auto simp: delete_conv' split: if_splits)
  then show ?case using inherits_chain.chain_last chain_last.hyps(2) by auto
next
  case (chain_step n preset m ns)
  then have "map_of presets n = Some preset" "n \<noteq> k" by (auto simp: delete_conv' split: if_splits)
  then show ?case using inherits_chain.chain_step chain_step by auto
qed

lemma inherits_chain_restrict:
  assumes "inherits_chain presets n ns" "k \<notin> set ns"
  shows "inherits_chain (AList.delete k presets) n ns"
  using assms
proof (induction rule: inherits_chain.induct)
  case (chain_last n preset)
  then have "map_of (AList.delete k presets) n = Some preset" by (simp add: delete_conv')
  then show ?case using inherits_chain.chain_last chain_last.hyps(2) by blast
next
  case (chain_step n preset m ns)
  then have "map_of (AList.delete k presets) n = Some preset" by (auto simp: delete_conv')
  then show ?case using inherits_chain.chain_step chain_step by auto
qed

inductive_cases inherits_chainE: "inherits_chain presets n ns"

lemma inherits_chain_functional:
  assumes "inherits_chain presets n ns" "inherits_chain presets n ms"
  shows "ns = ms"
  using assms
proof (induction arbitrary: ms rule: inherits_chain.induct)
  case (chain_last n preset)
  show ?case using chain_last.prems by (rule inherits_chainE) (use chain_last.hyps in simp_all)
next
  case (chain_step n preset m ns)
  show ?case using chain_step.prems
  proof (rule inherits_chainE)
    fix preset' m' ns' assume "ms = n # ns'" "map_of presets n = Some preset'" "map_of preset' ''inherits'' = Some (CStr m')"
      "inherits_chain presets m' ns'"
    with chain_step.hyps chain_step.IH show "n # ns = ms" by simp
  qed (use chain_step.hyps in simp)
qed

lemma inherits_chain_ne: "inherits_chain presets n ns \<Longrightarrow> \<exists>ms. ns = n # ms"
  by (erule inherits_chainE) simp_all

lemma inherits_chain_member:
  assumes "inherits_chain presets n ns" "k \<in> set ns"
  shows "\<exists>ms. inherits_chain presets k ms \<and> length ms \<le> length ns"
  using assms
proof (induction rule: inherits_chain.induct)
  case (chain_last n preset)
  then show ?case using inherits_chain.chain_last [OF chain_last.hyps] by auto
next
  case (chain_step n preset m ns)
  then show ?case using inherits_chain.chain_step [OF chain_step.hyps] by (cases "k = n") (auto intro: le_SucI)
qed

lemma inherits_chain_distinct:
  assumes "inherits_chain presets n (n # ns)"
  shows "n \<notin> set ns"
proof
  assume n: "n \<in> set ns"
  show False using assms
  proof (rule inherits_chainE)
    fix preset m ns' assume "n # ns = n # ns'" "inherits_chain presets m ns'"
    then obtain ms where "inherits_chain presets n ms" "length ms \<le> length ns"
      using inherits_chain_member [of presets m ns' n] n by auto
    then show False using inherits_chain_functional [OF assms, of ms] by auto
  qed (use n in simp)
qed

lemma delete_absent: "map_of xs k = None \<Longrightarrow> AList.delete k xs = xs"
  by (induction xs) (auto split: if_splits)

lemma get_preset_chain:
  "get_preset F n presets stack = Ok f \<longleftrightarrow>
     (\<exists>ns. inherits_chain presets n ns \<and>
        f = foldr (\<lambda>m g. fg_join_figment F (fg_defaults F (preset_values presets m)) g) (butlast ns)
              (fg_defaults F (preset_values presets (last ns))))"
proof (induction F n presets stack arbitrary: f rule: get_preset.induct)
  case (1 F n presets stack)
  show ?case
  proof (cases "map_of presets n")
    case None
    then have "\<not> inherits_chain presets n ns" for ns by (auto elim: inherits_chainE)
    with None show ?thesis by (subst get_preset.simps) simp
  next
    case (Some preset)
    show ?thesis
    proof (cases "map_of preset ''inherits''")
      case None
      have "inherits_chain presets n ns \<longleftrightarrow> ns = [n]" for ns
        using inherits_chain.chain_last [OF Some None] inherits_chain_functional by blast
      then show ?thesis using Some None by (subst get_preset.simps) (auto simp: preset_values_def delete_absent)
    next
      case (Some v)
      note inh = Some
      show ?thesis
      proof (cases "\<exists>m. v = CStr m")
        case False
        then have "\<not> inherits_chain presets n ns" for ns
          using inh \<open>map_of presets n = Some preset\<close> by (auto elim: inherits_chainE)
        with False inh \<open>map_of presets n = Some preset\<close> show ?thesis
          by (subst get_preset.simps) (auto split: cfg_value.splits)
      next
        case True
        then obtain m where m: "map_of preset ''inherits'' = Some (CStr m)" using inh by blast
        let ?d = "AList.delete n presets"
        have ch: "inherits_chain presets n ns \<longleftrightarrow> (\<exists>ms. ns = n # ms \<and> inherits_chain ?d m ms)" for ns
        proof
          assume c: "inherits_chain presets n ns"
          then obtain ms where ns: "ns = n # ms" "inherits_chain presets m ms"
            using m \<open>map_of presets n = Some preset\<close> by (auto elim: inherits_chainE)
          then show "\<exists>ms. ns = n # ms \<and> inherits_chain ?d m ms"
            using inherits_chain_restrict inherits_chain_distinct c by blast
        qed (use inherits_chain_delete inherits_chain.chain_step [OF \<open>map_of presets n = Some preset\<close> m] in blast)
        have pv: "preset_values ?d k = preset_values presets k" if "inherits_chain ?d m ms" "k \<in> set ms" for ms k
          using inherits_chain_delete [OF that(1)] that(2) by (auto simp: preset_values_def delete_conv')
        have fold: "foldr (\<lambda>k g. fg_join_figment F (fg_defaults F (preset_values ?d k)) g) (butlast ms) (fg_defaults F (preset_values ?d (last ms))) =
            foldr (\<lambda>k g. fg_join_figment F (fg_defaults F (preset_values presets k)) g) (butlast ms) (fg_defaults F (preset_values presets (last ms)))"
          if "inherits_chain ?d m ms" for ms
          using pv [OF that] inherits_chain_ne [OF that] by (auto intro!: foldr_cong dest: in_set_butlastD)
        have ne: "inherits_chain ?d m ms \<Longrightarrow> ms \<noteq> []" for ms using inherits_chain_ne by blast
        have "get_preset F n presets stack = Ok f \<longleftrightarrow> (\<exists>g. get_preset F m ?d (stack @ [n]) = Ok g \<and>
            f = fg_join_figment F (fg_defaults F (preset_values presets n)) g)"
          using m \<open>map_of presets n = Some preset\<close>
          by (subst get_preset.simps) (auto simp: try_bind_eq_Ok preset_values_def)
        also have "\<dots> \<longleftrightarrow> (\<exists>ms. inherits_chain ?d m ms \<and> f = fg_join_figment F (fg_defaults F (preset_values presets n))
            (foldr (\<lambda>k g. fg_join_figment F (fg_defaults F (preset_values presets k)) g) (butlast ms) (fg_defaults F (preset_values presets (last ms)))))"
          unfolding 1 [OF \<open>map_of presets n = Some preset\<close> m refl] using fold by (metis (no_types, lifting))
        also have "\<dots> \<longleftrightarrow> (\<exists>ns. inherits_chain presets n ns \<and>
            f = foldr (\<lambda>m g. fg_join_figment F (fg_defaults F (preset_values presets m)) g) (butlast ns)
              (fg_defaults F (preset_values presets (last ns))))"
          unfolding ch using ne by auto
        finally show ?thesis .
      qed
    qed
  qed
qed

lemma apply_analytics_preset_frame:
  assumes "figment_laws F" "apply_analytics_preset F n f = Ok f'" "k \<noteq> ''vendor_analytics''"
  shows "fg_string F (k # ks) f' = Ok x \<longleftrightarrow> fg_string F (k # ks) f = Ok x"
  using assms(2,3)
  by (auto simp: apply_analytics_preset_def Let_def try_bind_eq_Ok figment_string [OF assms(1)] figment_join_frame [OF assms(1)])

lemma check_storage_Ok:
  assumes "check_storage F side f blueprint = Ok ()" "fg_string F [''backups'', ''storage'', side, ''fs'', ''directory''] f = Ok dir"
  shows "\<forall>(k, p) \<in> set (bp_paths blueprint). \<not> below_path dir p"
  using assms by (simp add: check_storage_def ensure_not_in_backed_up_path_def ensure_not_in_paths_iff)

section \<open>Properties\<close>

text \<open>
  C27. A configuration is accepted only if the directories where backups and integrity checks are
  stored are, as written, neither a backed up directory nor below one: a restoration would delete
  them.
\<close>

theorem storage_outside_backed_up_paths:
  assumes "figment_laws F" "app_dynamic_defaults F f = Ret (Ok f')" "BACKUP_BLUEPRINTS BACKUPS_VERSION = Some blueprint"
    "side \<in> {''backups'', ''checks''}" "fg_string F [''backups'', ''storage'', side, ''fs'', ''directory''] f' = Ok dir"
  shows "\<forall>(k, p) \<in> set (bp_paths blueprint). \<not> below_path dir p"
proof -
  obtain f2 f3 f4 where c: "check_storage F ''backups'' f2 blueprint = Ok ()" "check_storage F ''checks'' f2 blueprint = Ok ()"
    and f3: "(case fg_string F [''vendor_analytics'', ''preset''] f2 of Inl _ \<Rightarrow> Ok f2
              | Inr preset_name \<Rightarrow> apply_analytics_preset F preset_name f2) = Ok f3"
    and f4: "apply_analytics_preset F ''default'' f3 = Ok f4"
    and f': "f' = fg_merge F [''vendor_analytics'', ''presets''] CNull f4"
    using assms(2,3) by (auto simp: app_dynamic_defaults_def Let_def try_bind_eq_Ok split: sum.splits)
  note frame = apply_analytics_preset_frame [OF assms(1)]
  have "fg_string F [''backups'', ''storage'', side, ''fs'', ''directory''] f4 = Ok dir"
    using assms(5) unfolding f' by (simp add: figment_string [OF assms(1)] figment_merge_frame [OF assms(1)])
  then have d: "fg_string F [''backups'', ''storage'', side, ''fs'', ''directory''] f2 = Ok dir"
    using frame [OF f4, of "''backups''"] frame [of _ f2 f3 "''backups''"] f3 by (auto split: sum.splits)
  have "check_storage F side f2 blueprint = Ok ()" using c assms(4) by auto
  from check_storage_Ok [OF this d] show ?thesis .
qed

definition example_app_config :: cfg_value where
  "example_app_config = CDict
     [(''server'', CDict [(''domain'', CStr ''d'')]),
      (''backups'', CDict [(''signing'', CDict [(''pgp'', CDict [(''enabled'', CBool False)])]),
         (''storage'', CDict [(''backups'', CDict [(''fs'', CDict [(''directory'', CStr ''/backups'')])])])]),
      (''vendor_analytics'', CDict [(''presets'', CDict [(''default'', CDict [(''enabled'', CBool True)])])])]"

lemma example_app_config_ok:
  "case app_dynamic_defaults tree_lib example_app_config of
     Ret (Inr f') \<Rightarrow> fg_string tree_lib [''backups'', ''storage'', ''backups'', ''fs'', ''directory''] f' = Ok ''/backups''
   | _ \<Rightarrow> False"
  by code_simp

theorem storage_outside_backed_up_paths_witness:
  "\<not> below_path ''/backups'' ''/var/lib/prosody'' \<and> below_path ''/var/lib/prosody/backups'' ''/var/lib/prosody''"
proof -
  obtain f' where "app_dynamic_defaults tree_lib example_app_config = Ret (Ok f')"
     "fg_string tree_lib [''backups'', ''storage'', ''backups'', ''fs'', ''directory''] f' = Ok ''/backups''"
    using example_app_config_ok by (auto split: run.splits sum.splits)
  from storage_outside_backed_up_paths [OF tree_laws this(1) _ _ this(2)]
  have "\<not> below_path ''/backups'' ''/var/lib/prosody''"
    by (simp add: BACKUP_BLUEPRINTS_def BACKUPS_VERSION_def blueprint_new_def)
  moreover have "below_path ''/var/lib/prosody/backups'' ''/var/lib/prosody''" by code_simp
  ultimately show ?thesis ..
qed

text \<open>
  Analytics presets: looking up a preset ends for every table of presets, and succeeds exactly
  if following \<open>inherits\<close> ends at a preset without it; the result joins the presets on the way,
  the nearest taking precedence.  A cycle of references, a missing preset or an \<open>inherits\<close> that
  is not a string is an error.
\<close>

theorem get_preset_exact:
  "get_preset F n presets stack = Ok f \<longleftrightarrow>
     (\<exists>ns. inherits_chain presets n ns \<and>
        f = foldr (\<lambda>m g. fg_join_figment F (fg_defaults F (preset_values presets m)) g) (butlast ns)
              (fg_defaults F (preset_values presets (last ns))))"
  by (rule get_preset_chain)

text \<open>Changes of the configuration at run time: the domain is fixed.\<close>

theorem validate_config_changes_domain:
  "fst (validate_config_changes old new) = Ok () \<longleftrightarrow> srv_domain (ac_server new) = srv_domain (ac_server old)"
  by (simp add: validate_config_changes_def)

end
