(* ===== verification/Prosody_Process.thy ===== *)
theory Prosody_Process
  imports Prelude
begin

text \<open>
  \<^verbatim>\<open>api/crates/prosody-child-process/src/prosody_child_process.rs\<close>: the child process that runs
  Prosody, over the set \<open>live\<close> of the processes of the operating system, and the parsing of its log
  lines.  What the operating system answers to a call is the record \<open>os\<close>.  Release build: a debug
  panic is only logged.
\<close>

section \<open>Processes\<close>

record os =
  os_spawn :: "anyhow + nat"
  os_early_exit :: "(anyhow + string) option"
  os_pid_known :: bool
  os_kill :: "anyhow + unit"
  os_wait :: "anyhow + unit"
  os_log_join :: "anyhow + unit"
  os_sighup :: "anyhow + unit"

record prosody_child_process =
  pp_handle :: "nat option"
  pp_envs :: "(string \<times> string) list"

definition prosody_new :: prosody_child_process where
  "prosody_new = \<lparr>pp_handle = None, pp_envs = []\<rparr>"

definition set_env :: "string \<Rightarrow> string \<Rightarrow> prosody_child_process \<Rightarrow> prosody_child_process" where
  "set_env key v p = p\<lparr>pp_envs := (key, v) # filter (\<lambda>(k, _). k \<noteq> key) (pp_envs p)\<rparr>"

definition prosody_env :: "prosody_child_process \<Rightarrow> string \<Rightarrow> string \<Rightarrow> prosody_child_process" where
  "prosody_env p key v = set_env key v p"

text \<open>
  \<open>start\<close>: a process that exits within 250 ms is a failure.  The child of an earlier handle is not
  killed.
\<close>

definition prosody_start ::
  "os \<Rightarrow> prosody_child_process \<Rightarrow> nat set \<Rightarrow> (anyhow + unit) \<times> prosody_child_process \<times> nat set" where
  "prosody_start sys p live =
     (case os_spawn sys of
        Inl e \<Rightarrow> (Err (context_msg ''Failed spawning prosody'' e), p, live)
      | Inr pid \<Rightarrow>
          (case os_early_exit sys of
             Some (Inr status) \<Rightarrow> (Err [''Prosody did not start successfully: Exited early''], p, live)
           | Some (Inl e) \<Rightarrow> (Err (context_msg ''Failed waiting for Prosody exit'' e), p, insert pid live)
           | None \<Rightarrow> (Ok (), p\<lparr>pp_handle := Some pid\<rparr>, insert pid live)))"

text \<open>\<open>stop_\<close>: kill, wait, then join the task that reads the log.\<close>

definition stop_handle :: "os \<Rightarrow> nat \<Rightarrow> nat set \<Rightarrow> (anyhow + unit) \<times> nat set" where
  "stop_handle sys pid live =
     (case os_kill sys of
        Inl e \<Rightarrow> (Err e, live)
      | Inr _ \<Rightarrow> (try_bind (os_wait sys) (\<lambda>_. os_log_join sys), live - {pid}))"

definition prosody_stop ::
  "os \<Rightarrow> prosody_child_process \<Rightarrow> nat set \<Rightarrow> (anyhow + unit) \<times> prosody_child_process \<times> nat set" where
  "prosody_stop sys p live =
     (case pp_handle p of
        None \<Rightarrow> (Ok (), p, live)
      | Some pid \<Rightarrow> (let (r, live') = stop_handle sys pid live in (r, p\<lparr>pp_handle := None\<rparr>, live')))"

definition prosody_reload ::
  "os \<Rightarrow> prosody_child_process \<Rightarrow> nat set \<Rightarrow> (anyhow + unit) \<times> prosody_child_process \<times> nat set" where
  "prosody_reload sys p live =
     (case pp_handle p of
        None \<Rightarrow> prosody_start sys p live
      | Some pid \<Rightarrow> if \<not> os_pid_known sys then prosody_start sys p live else (os_sighup sys, p, live))"

definition prosody_restart ::
  "os \<Rightarrow> os \<Rightarrow> prosody_child_process \<Rightarrow> nat set \<Rightarrow> (anyhow + unit) \<times> prosody_child_process \<times> nat set" where
  "prosody_restart sys1 sys2 p live =
     (case prosody_stop sys1 p live of
        (Inl e, p', live') \<Rightarrow> (Err e, p', live')
      | (Inr _, p', live') \<Rightarrow> prosody_start sys2 p' live')"

definition prosody_drop :: "os \<Rightarrow> prosody_child_process \<Rightarrow> nat set \<Rightarrow> nat set" where
  "prosody_drop sys p live = (case pp_handle p of None \<Rightarrow> live | Some pid \<Rightarrow> snd (stop_handle sys pid live))"

section \<open>Log lines\<close>

datatype log_record =
    Unparsed string
  | UnparsedRest string string
  | Logged string string string

definition is_ascii_whitespace :: "char \<Rightarrow> bool" where
  "is_ascii_whitespace c \<longleftrightarrow> c \<in> {CHR '' '', CHR 0x09, CHR 0x0A, CHR 0x0C, CHR 0x0D}"

fun split_once_by :: "(char \<Rightarrow> bool) \<Rightarrow> string \<Rightarrow> (string \<times> string) option" where
  "split_once_by P [] = None"
| "split_once_by P (c # cs) =
     (if P c then Some ([], cs) else map_option (\<lambda>(a, b). (c # a, b)) (split_once_by P cs))"

text \<open>The level: an unknown one is kept in the message.\<close>

definition log_record_of :: "string \<Rightarrow> string \<Rightarrow> string \<Rightarrow> log_record" where
  "log_record_of module level message =
     (if level \<in> {''debug'', ''info'', ''warn'', ''error''} then Logged module level message
      else Logged module ''info'' (''['' @ level @ ''] '' @ message))"

definition parse_log_line :: "string \<Rightarrow> log_record" where
  "parse_log_line line =
     (case split_once_by is_ascii_whitespace line of
        None \<Rightarrow> Unparsed line
      | Some (module, r) \<Rightarrow>
          (let rest = dropWhile is_ascii_whitespace r in
           case split_once_by (\<lambda>c. c = CHR 0x09) rest of
             None \<Rightarrow> UnparsedRest module rest
           | Some (level, message) \<Rightarrow> log_record_of module level message))"

section \<open>Lemmas\<close>

lemma split_once_by_append:
  "list_all (\<lambda>c. \<not> P c) a \<Longrightarrow> P c \<Longrightarrow> split_once_by P (a @ c # b) = Some (a, b)"
  by (induction a) auto

text \<open>What a handle controls: the process it names, if it was started, is live until it is stopped.\<close>

definition handle_live :: "prosody_child_process \<Rightarrow> nat set \<Rightarrow> bool" where
  "handle_live p live \<longleftrightarrow> (\<forall>pid. pp_handle p = Some pid \<longrightarrow> pid \<in> live)"

lemma start_handle_live:
  "prosody_start sys p live = (r, p', live') \<Longrightarrow> handle_live p live \<Longrightarrow> handle_live p' live'"
  by (auto simp: prosody_start_def handle_live_def split: sum.splits option.splits)

lemma stop_handle_none: "prosody_stop sys p live = (r, p', live') \<Longrightarrow> pp_handle p' = None"
  by (auto simp: prosody_stop_def split: option.splits prod.splits)

lemma stop_ok_live:
  "prosody_stop sys p live = (Ok (), p', live') \<Longrightarrow> live' = live - set_option (pp_handle p)"
  by (auto simp: prosody_stop_def stop_handle_def split: option.splits prod.splits sum.splits)

section \<open>Properties\<close>

text \<open>
  A restart that succeeds leaves exactly one Prosody: the old process is gone, the new one is the
  one of the handle, and no other process is touched.
\<close>

theorem restart_replaces:
  assumes "prosody_restart sys1 sys2 p live = (Ok (), p', live')" "os_spawn sys2 = Ok pid"
  shows "pp_handle p' = Some pid \<and> live' = insert pid (live - set_option (pp_handle p))"
proof -
  obtain p1 live1 where s: "prosody_stop sys1 p live = (Ok (), p1, live1)" and r: "prosody_start sys2 p1 live1 = (Ok (), p', live')"
    using assms(1) by (auto simp: prosody_restart_def split: prod.splits sum.splits)
  have "live1 = live - set_option (pp_handle p)" by (rule stop_ok_live [OF s])
  with r assms(2) show ?thesis by (auto simp: prosody_start_def split: option.splits sum.splits)
qed

text \<open>
  Log lines: a line of a module, any white space, a known level, a tab and a message is parsed into
  these three parts.
\<close>

theorem parse_log_line_roundtrip:
  assumes "list_all (\<lambda>c. \<not> is_ascii_whitespace c) module" "is_ascii_whitespace s" "list_all is_ascii_whitespace spaces"
    "level \<in> {''debug'', ''info'', ''warn'', ''error''}"
  shows "parse_log_line (module @ s # spaces @ level @ CHR 0x09 # message) = Logged module level message"
proof -
  have l: "level \<noteq> []" "\<not> is_ascii_whitespace (hd level)" "list_all (\<lambda>c. c \<noteq> CHR 0x09) level"
    using assms(4) by (auto simp: is_ascii_whitespace_def)
  have "dropWhile is_ascii_whitespace (spaces @ level @ CHR 0x09 # message) = level @ CHR 0x09 # message"
    using assms(3) l(1,2) by (cases level) (simp_all add: list_all_iff)
  then show ?thesis using assms(4) split_once_by_append [OF assms(1,2)] split_once_by_append [of "\<lambda>c. c = CHR 0x09" level] l(3)
    by (simp add: parse_log_line_def log_record_of_def)
qed

theorem parse_log_line_roundtrip_witness:
  "parse_log_line (''c2s'' @ CHR '' '' # ''  '' @ ''info'' @ CHR 0x09 # ''Client connected'') =
     Logged ''c2s'' ''info'' ''Client connected''"
  by (rule parse_log_line_roundtrip) (simp_all add: is_ascii_whitespace_def)

end
