(* ===== verification/App_State.thy ===== *)
theory App_State
  imports Api_Errors App_Config
begin

text \<open>
  \<^verbatim>\<open>api/src/state.rs\<close>, \<^verbatim>\<open>api/src/router/mod.rs\<close> and \<^verbatim>\<open>api/src/router/health.rs\<close>: the states of the
  server, the conversions between them, the router of each state and its health.  A state is a
  pair of a frontend and a backend state; the combinations with a router are those that implement
  \<open>AppStateTrait\<close>.  The tracing handles, the same in all frontend states, are left out.  An
  operational backend is known by the Prosody instance it holds and whether it has a backup
  service.
\<close>

section \<open>States\<close>

datatype 'b frontend =
    FrontendRunning "'b app_config"
  | FrontendRunningWithMisconfiguration "'b app_config" api_error
  | FrontendMisconfigured api_error
  | FrontendRestarting

record operational =
  op_prosody :: nat
  op_backup_service :: bool

datatype backend =
    BackendStarting
  | BackendStartFailed api_error
  | BackendRunning operational
  | BackendRestarting
  | BackendRestartFailed api_error
  | BackendUndergoingFactoryReset
  | BackendUndergoingBackup
  | BackendUndergoingRestore
  | BackendStopped

type_synonym 'b app_state = "'b frontend \<times> backend"

text \<open>\<open>Operational::backup_service\<close>.\<close>

definition backup_service_of :: "operational \<Rightarrow> api_error + unit" where
  "backup_service_of op =
     (if op_backup_service op then Ok ()
      else Err (configuration_error ''MISSING_CONFIG'' ''Missing configuration'' ''Backups configuration not initialized.''))"

section \<open>Conversions\<close>

text \<open>
  The \<open>From\<close> implementations, \<open>None\<close> where there is none.  The target is given by an example
  state.
\<close>

fun running_config :: "'b frontend \<Rightarrow> 'b app_config option" where
  "running_config (FrontendRunning c) = Some c"
| "running_config (FrontendRunningWithMisconfiguration c _) = Some c"
| "running_config _ = None"

definition frontend_restarting :: "'b frontend \<Rightarrow> 'b frontend" where
  "frontend_restarting f = FrontendRestarting"

definition frontend_misconfigured :: "'b frontend \<Rightarrow> api_error \<Rightarrow> 'b frontend" where
  "frontend_misconfigured f e = FrontendMisconfigured e"

fun frontend_running_with_misconfiguration :: "'b frontend \<Rightarrow> api_error \<Rightarrow> 'b frontend option" where
  "frontend_running_with_misconfiguration (FrontendRunning c) e = Some (FrontendRunningWithMisconfiguration c e)"
| "frontend_running_with_misconfiguration _ e = None"

text \<open>\<open>(F, &Error)\<close> into \<open>F\<close>: the error is discarded.\<close>

fun frontend_keep :: "'b frontend \<Rightarrow> api_error \<Rightarrow> 'b frontend option" where
  "frontend_keep (FrontendRunning c) e = Some (FrontendRunning c)"
| "frontend_keep (FrontendRunningWithMisconfiguration c e0) e = Some (FrontendRunningWithMisconfiguration c e0)"
| "frontend_keep (FrontendMisconfigured e0) e = Some (FrontendMisconfigured e)"
| "frontend_keep FrontendRestarting e = None"

fun into_starting :: "backend \<Rightarrow> backend option" where
  "into_starting BackendStarting = Some BackendStarting"
| "into_starting BackendStopped = Some BackendStarting"
| "into_starting (BackendStartFailed _) = Some BackendStarting"
| "into_starting BackendUndergoingFactoryReset = Some BackendStarting"
| "into_starting _ = None"

fun into_restarting :: "backend \<Rightarrow> backend option" where
  "into_restarting BackendRestarting = Some BackendRestarting"
| "into_restarting (BackendRestartFailed _) = Some BackendRestarting"
| "into_restarting BackendStopped = Some BackendRestarting"
| "into_restarting BackendUndergoingBackup = Some BackendRestarting"
| "into_restarting BackendUndergoingRestore = Some BackendRestarting"
| "into_restarting _ = None"

fun into_stopped :: "backend \<Rightarrow> backend option" where
  "into_stopped BackendStopped = Some BackendStopped"
| "into_stopped BackendUndergoingFactoryReset = Some BackendStopped"
| "into_stopped BackendUndergoingRestore = Some BackendStopped"
| "into_stopped _ = None"

fun into_start_failed :: "backend \<Rightarrow> api_error \<Rightarrow> backend option" where
  "into_start_failed BackendStarting e = Some (BackendStartFailed e)"
| "into_start_failed _ e = None"

fun into_restart_failed :: "backend \<Rightarrow> api_error \<Rightarrow> backend option" where
  "into_restart_failed BackendRestarting e = Some (BackendRestartFailed e)"
| "into_restart_failed _ e = None"

section \<open>Health\<close>

fun backend_health :: "backend \<Rightarrow> response" where
  "backend_health (BackendRunning _) = ok_response"
| "backend_health BackendStopped =
     into_response (service_unavailable ''SERVER_STOPPED'' ''Prose Server stopped'' ''Contact an administrator to fix this.'')"
| "backend_health BackendStarting =
     retry_after 1 (into_response (too_early ''SERVER_STARTING'' ''A moment please'' ''Your Prose Server is starting.''))"
| "backend_health (BackendStartFailed e) = into_response e"
| "backend_health BackendRestarting =
     retry_after 1 (into_response (too_early ''SERVER_RESTARTING'' ''A moment please'' ''Your Prose Server is restarting.''))"
| "backend_health (BackendRestartFailed e) = into_response e"
| "backend_health BackendUndergoingFactoryReset =
     retry_after 15 (into_response (service_unavailable ''FACTORY_RESET_IN_PROGRESS'' ''Factory reset in progress''
       ''Come back in a few moments to find your brand-new Prose Workspace.''))"
| "backend_health BackendUndergoingBackup =
     retry_after 10 (into_response (service_unavailable ''BACKUP_IN_PROGRESS'' ''Backup in progress''
       ''Your Prose Workspace will restart shortly.''))"
| "backend_health BackendUndergoingRestore =
     retry_after 10 (into_response (service_unavailable ''BACKUP_RESTORE_IN_PROGRESS'' ''Backup restoration in progress''
       ''Your Prose Workspace will restart shortly.''))"

fun frontend_health :: "'b frontend \<Rightarrow> response" where
  "frontend_health (FrontendRunning _) = ok_response"
| "frontend_health (FrontendRunningWithMisconfiguration _ e) = into_response e"
| "frontend_health (FrontendMisconfigured e) = into_response e"
| "frontend_health FrontendRestarting =
     retry_after 15 (into_response (service_unavailable ''FACTORY_RESET_IN_PROGRESS'' ''Factory reset in progress''
       ''Come back in a few moments to find your brand-new Prose Workspace.''))"

section \<open>Routers\<close>

datatype meth = GET | POST | PUT | PATCH | DELETE | ANY

datatype handler =
    FrontendReload | BackendReload | BackendRestart | Reload | FactoryReset | InitConfig
  | StartAgain | StartRetry | RestartAgain | RestartRetry
  | PostBackups | GetBackups | GetBackup | DeleteBackup | RestoreBackup | BackupDownloadUrl
  | FrontendHealth | BackendHealth
  | OtherHandler string

type_synonym routes = "(meth \<times> string \<times> handler) list"

record router =
  rt_routes :: routes
  rt_fallback :: "handler option"

definition base_routes :: routes where
  "base_routes =
     [(GET, ''/frontend/health'', FrontendHealth), (GET, ''/backend/health'', BackendHealth),
      (GET, ''/config-health'', FrontendHealth), (GET, ''/health'', BackendHealth)]"

definition with_base_routes :: "router \<Rightarrow> router" where
  "with_base_routes r = r\<lparr>rt_routes := rt_routes r @ base_routes\<rparr>"

definition workspace_router :: routes where
  "workspace_router =
     [(PUT, ''/workspace-init'', OtherHandler ''init_workspace''),
      (GET, ''/workspace'', OtherHandler ''get_workspace''), (PATCH, ''/workspace'', OtherHandler ''patch_workspace''),
      (GET, ''/workspace/name'', OtherHandler ''get_workspace_name''), (PUT, ''/workspace/name'', OtherHandler ''set_workspace_name''),
      (GET, ''/workspace/accent-color'', OtherHandler ''get_workspace_accent_color''),
      (PUT, ''/workspace/accent-color'', OtherHandler ''set_workspace_accent_color''),
      (GET, ''/workspace/icon'', OtherHandler ''get_workspace_icon''), (PUT, ''/workspace/icon'', OtherHandler ''set_workspace_icon'')]"

definition operational_routes :: routes where
  "operational_routes =
     [(PUT, ''/init/first-account'', OtherHandler ''init_first_account''),
      (GET, ''/users-util/stats'', OtherHandler ''users_stats''),
      (GET, ''/users-util/admin-jids'', OtherHandler ''list_admin_jids''),
      (GET, ''/users-util/self'', OtherHandler ''self_user_info''),
      (GET, ''/invitations-util/stats'', OtherHandler ''invitations_stats''),
      (POST, ''/lifecycle/frontend-reload'', FrontendReload),
      (POST, ''/lifecycle/backend-reload'', BackendReload),
      (POST, ''/lifecycle/backend-restart'', BackendRestart),
      (POST, ''/lifecycle/reload'', Reload),
      (POST, ''/lifecycle/factory-reset'', FactoryReset),
      (POST, ''/v1/backups'', PostBackups), (GET, ''/v1/backups'', GetBackups),
      (GET, ''/v1/backups/{backup_id}'', GetBackup), (DELETE, ''/v1/backups/{backup_id}'', DeleteBackup),
      (PUT, ''/v1/backups/{backup_id}/restore'', RestoreBackup),
      (GET, ''/v1/backups/{backup_id}/download-url'', BackupDownloadUrl),
      (POST, ''/cloud-api-proxy/v1/analytics/event'', OtherHandler ''proxy_analytics_event''),
      (ANY, ''/cloud-api-proxy/v1/analytics/event'', OtherHandler ''proxy_cloud_api''),
      (ANY, ''/cloud-api-proxy/{*path}'', OtherHandler ''proxy_cloud_api''),
      (ANY, ''/prose-files-proxy/{*path}'', OtherHandler ''proxy_prose_files'')] @ workspace_router"

text \<open>The implementations of \<open>AppStateTrait\<close>: the name of the state and its router.\<close>

fun app_state_impl :: "'b app_state \<Rightarrow> (string \<times> router) option" where
  "app_state_impl (FrontendRunning _, BackendRunning _) =
     Some (''Operational'', \<lparr>rt_routes = operational_routes, rt_fallback = None\<rparr>)"
| "app_state_impl (FrontendRunning _, BackendStarting) =
     Some (''Starting'', \<lparr>rt_routes = [(POST, ''/lifecycle/backend-restart'', StartAgain)], rt_fallback = Some BackendHealth\<rparr>)"
| "app_state_impl (FrontendRunning _, BackendRestarting) =
     Some (''Restarting'', \<lparr>rt_routes = [(POST, ''/lifecycle/backend-restart'', RestartAgain)], rt_fallback = Some BackendHealth\<rparr>)"
| "app_state_impl (FrontendRunning _, BackendRestartFailed _) =
     Some (''Restart failed'', \<lparr>rt_routes = [(POST, ''/lifecycle/backend-restart'', RestartRetry)], rt_fallback = Some BackendHealth\<rparr>)"
| "app_state_impl (FrontendRunningWithMisconfiguration _ _, BackendRunning _) =
     Some (''Running with misconfiguration'', \<lparr>rt_routes = [(POST, ''/lifecycle/reload'', Reload)], rt_fallback = Some FrontendHealth\<rparr>)"
| "app_state_impl (FrontendRestarting, BackendUndergoingFactoryReset) =
     Some (''Undergoing factory reset'', \<lparr>rt_routes = [], rt_fallback = Some FrontendHealth\<rparr>)"
| "app_state_impl (FrontendRunning _, BackendUndergoingBackup) =
     Some (''Undergoing backup'', \<lparr>rt_routes = [], rt_fallback = Some FrontendHealth\<rparr>)"
| "app_state_impl (FrontendRunning _, BackendUndergoingRestore) =
     Some (''Undergoing restore'', \<lparr>rt_routes = [], rt_fallback = Some FrontendHealth\<rparr>)"
| "app_state_impl (FrontendMisconfigured _, BackendStopped) =
     Some (''Configuration needed'', \<lparr>rt_routes = [(POST, ''/lifecycle/reload'', InitConfig)], rt_fallback = Some FrontendHealth\<rparr>)"
| "app_state_impl (FrontendRunning _, BackendStartFailed _) =
     Some (''Start failed'', \<lparr>rt_routes = [(POST, ''/lifecycle/backend-restart'', StartRetry)], rt_fallback = Some BackendHealth\<rparr>)"
| "app_state_impl _ = None"

definition has_router :: "'b app_state \<Rightarrow> bool" where
  "has_router s = (app_state_impl s \<noteq> None)"

text \<open>
  \<open>validate_config_changes\<close> of the states: against the configuration in use, where there is one
  and neither a backup nor a restoration is running.
\<close>

fun state_validate_config_changes :: "'b app_state \<Rightarrow> 'b app_config \<Rightarrow> anyhow + unit" where
  "state_validate_config_changes (FrontendRunning c, BackendUndergoingBackup) new = Ok ()"
| "state_validate_config_changes (FrontendRunning c, BackendUndergoingRestore) new = Ok ()"
| "state_validate_config_changes (FrontendRunning c, _) new = fst (validate_config_changes c new)"
| "state_validate_config_changes (FrontendRunningWithMisconfiguration c _, _) new = fst (validate_config_changes c new)"
| "state_validate_config_changes _ new = Ok ()"

fun prosody_weak :: "'b app_state \<Rightarrow> nat option" where
  "prosody_weak (FrontendRunning _, BackendRunning op) = Some (op_prosody op)"
| "prosody_weak (FrontendRunningWithMisconfiguration _ _, BackendRunning op) = Some (op_prosody op)"
| "prosody_weak _ = None"

text \<open>The handler of a request: a path matches a route as written, or with \<open>{backup_id}\<close> for one segment.\<close>

fun match_segments :: "string list \<Rightarrow> string list \<Rightarrow> bool" where
  "match_segments [] [] = True"
| "match_segments (r # rs) (p # ps) =
     (if r = ''{*path}'' then rs = [] \<and> (p # ps) \<noteq> [[]]
      else (r = p \<or> (starts_with r ''{'' \<and> p \<noteq> [])) \<and> match_segments rs ps)"
| "match_segments _ _ = False"

definition path_matches :: "string \<Rightarrow> string \<Rightarrow> bool" where
  "path_matches route p = match_segments (split_on CHR ''/'' route) (split_on CHR ''/'' p)"

datatype dispatched = Handle handler | NotFound | MethodNotAllowed

definition dispatch :: "'b app_state \<Rightarrow> meth \<Rightarrow> string \<Rightarrow> dispatched" where
  "dispatch s m p =
     (case app_state_impl s of
        None \<Rightarrow> NotFound
      | Some (_, r) \<Rightarrow>
          (let rt = with_base_routes r;
               exact = filter (\<lambda>(_, q, _). q = p) (rt_routes rt);
               matching = (if exact \<noteq> [] then exact else filter (\<lambda>(_, q, _). path_matches q p) (rt_routes rt))
           in case filter (\<lambda>(m', _, _). m' = m \<or> m' = ANY) matching of
                (_, _, h) # _ \<Rightarrow> Handle h
              | [] \<Rightarrow> if matching \<noteq> [] then MethodNotAllowed
                      else (case rt_fallback rt of Some h \<Rightarrow> Handle h | None \<Rightarrow> NotFound)))"

section \<open>The context\<close>

text \<open>What the hot-swappable router serves, and the Prosody to stop at the end.\<close>

record 'b app_context =
  ctx_published :: "'b app_state option"
  ctx_prosody :: "nat option"

definition app_context_new :: "'b app_context" where
  "app_context_new = \<lparr>ctx_published = None, ctx_prosody = None\<rparr>"

definition set_state :: "'b app_state \<Rightarrow> 'b app_context \<Rightarrow> 'b app_context" where
  "set_state s ctx = ctx\<lparr>ctx_published := Some s, ctx_prosody := prosody_weak s\<rparr>"

end
