(* ===== verification/Lifecycle.thy ===== *)
theory Lifecycle
  imports App_State
begin

text \<open>
  The handlers that change the state of the server: \<^verbatim>\<open>api/src/router/lifecycle/\<close>, the state
  transitions of \<^verbatim>\<open>api/src/startup.rs\<close>, the start in \<^verbatim>\<open>api/src/lib.rs\<close> and the parts of
  \<^verbatim>\<open>api/src/router/backups.rs\<close> that stop and restart the backend.  A handler run is its result and the
  list of its effects (states published, Prosody instances started and stopped, work on files); what
  the calls it makes answer is the record \<open>outcomes\<close>.  Requests served one after the other are the
  steps of a transition system (\<open>api_step\<close>); \<open>Api_Runs\<close> has what holds along its runs, and the
  interleaved ones.
\<close>

section \<open>Effects\<close>

datatype 'b effect =
    Publish "'b app_state"
  | StartProsody nat
  | StopProsody nat
  | ReloadProsody nat
  | BackupWork
  | RestoreWork
  | ResetFiles

text \<open>How bootstrapping ends: a failure before or after Prosody was started.\<close>

datatype boot = BootOk | BootFailsEarly anyhow | BootFailsLate anyhow

record 'b outcomes =
  oc_config :: "anyhow + 'b app_config"
  oc_instance :: nat
  oc_boot :: boot
  oc_stop :: "anyhow + unit"
  oc_reload :: "anyhow + unit"
  oc_load_modules :: "anyhow + unit"
  oc_paths :: "anyhow + unit"
  oc_empty :: "anyhow + unit"
  oc_create :: "api_error + unit"
  oc_restore :: "api_error + unit"
  oc_error_id :: string

type_synonym ('b, 'a) prog = "'a \<times> 'b effect list"

definition then_do :: "('b, 'a) prog \<Rightarrow> ('a \<Rightarrow> ('b, 'c) prog) \<Rightarrow> ('b, 'c) prog" where
  "then_do p f = (let (a, es) = p; (c, es') = f a in (c, es @ es'))"

text \<open>\<open>new_state\<close>: the state is published and returned.\<close>

definition new_state :: "'b app_state \<Rightarrow> ('b, 'b app_state) prog" where
  "new_state s = (s, [Publish s])"

section \<open>Bootstrapping\<close>

text \<open>
  The process of a bootstrap that fails after Prosody was started is stopped when it is dropped.
\<close>

definition run_bootstrap :: "'b outcomes \<Rightarrow> 'b app_config \<Rightarrow> ('b, anyhow + backend) prog" where
  "run_bootstrap oc config =
     (case oc_boot oc of
        BootFailsEarly e \<Rightarrow> (Err e, [])
      | BootFailsLate e \<Rightarrow> (Err e, [StartProsody (oc_instance oc), StopProsody (oc_instance oc)])
      | BootOk \<Rightarrow>
          (Ok (BackendRunning \<lparr>op_prosody = oc_instance oc, op_backup_service = (ac_backups config \<noteq> None)\<rparr>),
           [StartProsody (oc_instance oc)]))"

definition try_bootstrapping :: "'b outcomes \<Rightarrow> 'b app_state \<Rightarrow> ('b, ('b app_state \<times> anyhow) + 'b app_state) prog" where
  "try_bootstrapping oc s =
     then_do (run_bootstrap oc (the (running_config (fst s)))) (\<lambda>r.
       case r of
         Inr backend \<Rightarrow> then_do (new_state (fst s, backend)) (\<lambda>s'. (Ok s', []))
       | Inl e \<Rightarrow> (Err (s, context_msg ''Bootstrapping failed'' e), []))"

definition do_bootstrapping :: "'b outcomes \<Rightarrow> 'b app_state \<Rightarrow> ('b, api_error + 'b app_state) prog" where
  "do_bootstrapping oc s =
     then_do (try_bootstrapping oc s) (\<lambda>r.
       case r of
         Inr s' \<Rightarrow> (Ok s', [])
       | Inl (s', e) \<Rightarrow>
           (let err = internal_server_error (oc_error_id oc) ''START_FAILED''
                  ''Something went wrong while starting your Prose Server. Contact an administrator to fix this.''
            in then_do (new_state (the (frontend_keep (fst s') err), the (into_start_failed (snd s') err))) (\<lambda>_. (Err err, []))))"

section \<open>Restarting the backend\<close>

definition set_backend_restarting :: "'b app_state \<Rightarrow> ('b, 'b app_state) prog" where
  "set_backend_restarting s = new_state (fst s, the (into_restarting (snd s)))"

definition set_backend_starting :: "'b app_state \<Rightarrow> ('b, 'b app_state) prog" where
  "set_backend_starting s = new_state (fst s, the (into_starting (snd s)))"

definition do_restart_backend :: "'b outcomes \<Rightarrow> 'b app_state \<Rightarrow> ('b, api_error + 'b app_state) prog" where
  "do_restart_backend oc s =
     then_do (set_backend_restarting s) (\<lambda>s1.
     then_do (try_bootstrapping oc s1) (\<lambda>r.
       case r of
         Inr s' \<Rightarrow> (Ok s', [])
       | Inl (s', e) \<Rightarrow>
           (let err = internal_server_error (oc_error_id oc) ''RESTART_FAILED''
                  ''Something went wrong while restarting your Prose Server. Contact an administrator to fix this.''
            in then_do (new_state (the (frontend_keep (fst s') err), the (into_restart_failed (snd s') err))) (\<lambda>_. (Err err, [])))))"

text \<open>The result of a handler.\<close>

definition unit_result :: "('b, api_error + 'a) prog \<Rightarrow> ('b, (api_error + unit) run) prog" where
  "unit_result p = (Ret (case fst p of Inl e \<Rightarrow> Err e | Inr _ \<Rightarrow> Ok ()), snd p)"

definition backend_start_again :: "'b outcomes \<Rightarrow> 'b app_state \<Rightarrow> ('b, (api_error + unit) run) prog" where
  "backend_start_again oc s = unit_result (do_bootstrapping oc s)"

definition backend_start_retry :: "'b outcomes \<Rightarrow> 'b app_state \<Rightarrow> ('b, (api_error + unit) run) prog" where
  "backend_start_retry oc s =
     then_do (new_state (fst s, the (into_starting (snd s)))) (\<lambda>s1. unit_result (do_bootstrapping oc s1))"

text \<open>Stopping Prosody, with \<open>unwrap\<close>.\<close>

definition stop_or_panic ::
  "'b outcomes \<Rightarrow> operational \<Rightarrow> ('b, (api_error + unit) run) prog \<Rightarrow> ('b, (api_error + unit) run) prog" where
  "stop_or_panic oc op p =
     (case oc_stop oc of Inl _ \<Rightarrow> (Panic, []) | Inr _ \<Rightarrow> then_do ((), [StopProsody (op_prosody op)]) (\<lambda>_. p))"

definition backend_restart :: "'b outcomes \<Rightarrow> 'b frontend \<Rightarrow> operational \<Rightarrow> ('b, (api_error + unit) run) prog" where
  "backend_restart oc f op =
     stop_or_panic oc op (unit_result (do_restart_backend oc (f, BackendRestarting)))"

definition backend_restart_again :: "'b outcomes \<Rightarrow> 'b app_state \<Rightarrow> ('b, (api_error + unit) run) prog" where
  "backend_restart_again oc s = unit_result (do_restart_backend oc s)"

definition backend_restart_retry :: "'b outcomes \<Rightarrow> 'b app_state \<Rightarrow> ('b, (api_error + unit) run) prog" where
  "backend_restart_retry oc s =
     then_do (set_backend_restarting s) (\<lambda>s1. unit_result (do_restart_backend oc s1))"

section \<open>Reloading\<close>

text \<open>An error while Prosody gets ready is only logged.\<close>

definition do_reload_backend :: "'b outcomes \<Rightarrow> 'b app_state \<Rightarrow> operational \<Rightarrow> ('b, api_error + 'b app_state) prog" where
  "do_reload_backend oc s op =
     (case oc_reload oc of
        Inl _ \<Rightarrow> (Err (no_context (oc_error_id oc)), [])
      | Inr _ \<Rightarrow>
          (case oc_load_modules oc of
             Inl _ \<Rightarrow> (Err (no_context (oc_error_id oc)), [ReloadProsody (op_prosody op)])
           | Inr _ \<Rightarrow> (Ok s, [ReloadProsody (op_prosody op)])))"

definition backend_reload :: "'b outcomes \<Rightarrow> 'b frontend \<Rightarrow> operational \<Rightarrow> ('b, (api_error + unit) run) prog" where
  "backend_reload oc f op = unit_result (do_reload_backend oc (f, BackendRunning op) op)"

text \<open>The update of the tracing configuration cannot fail.\<close>

definition reload_frontend :: "'b outcomes \<Rightarrow> 'b app_state \<Rightarrow> anyhow + 'b frontend" where
  "reload_frontend oc s =
     try_bind (oc_config oc) (\<lambda>config.
     try_bind (state_validate_config_changes s config) (\<lambda>_. Ok (FrontendRunning config)))"

definition try_reload_frontend :: "'b outcomes \<Rightarrow> 'b app_state \<Rightarrow> backend \<Rightarrow> ('b, ('b app_state \<times> anyhow) + 'b app_state) prog" where
  "try_reload_frontend oc s b2 =
     (case reload_frontend oc s of
        Inr f \<Rightarrow> then_do (new_state (f, b2)) (\<lambda>s'. (Ok s', []))
      | Inl e \<Rightarrow> (Err (s, context_msg ''Frontend reload failed'' e), []))"

definition bad_configuration :: "'b outcomes \<Rightarrow> api_error" where
  "bad_configuration oc = service_unavailable_err (oc_error_id oc) ''BAD_CONFIGURATION'' ''Bad configuration''
     ''Your Prose Server configuration is incorrect. Contact an administrator to fix this.''"

text \<open>With the backend state after a success, and the state after a failure.\<close>

definition do_reload_frontend ::
  "'b outcomes \<Rightarrow> 'b app_state \<Rightarrow> backend \<Rightarrow> (api_error \<Rightarrow> 'b app_state) \<Rightarrow> ('b, api_error + 'b app_state) prog" where
  "do_reload_frontend oc s success failure =
     then_do (try_reload_frontend oc s success) (\<lambda>r.
       case r of
         Inr s' \<Rightarrow> then_do (new_state s') (\<lambda>s'. (Ok s', []))
       | Inl (_, e) \<Rightarrow>
           (let err = bad_configuration oc in then_do (new_state (failure err)) (\<lambda>_. (Err err, []))))"

definition frontend_reload :: "'b outcomes \<Rightarrow> 'b frontend \<Rightarrow> operational \<Rightarrow> ('b, (api_error + unit) run) prog" where
  "frontend_reload oc f op =
     unit_result (do_reload_frontend oc (f, BackendRunning op) (BackendRunning op)
       (\<lambda>e. (the (frontend_running_with_misconfiguration f e), BackendRunning op)))"

definition reload_handler :: "'b outcomes \<Rightarrow> 'b frontend \<Rightarrow> operational \<Rightarrow> ('b, (api_error + unit) run) prog" where
  "reload_handler oc f op =
     then_do (do_reload_frontend oc (f, BackendRunning op) (BackendRunning op)
                (\<lambda>e. (the (frontend_keep f e), BackendRunning op))) (\<lambda>r.
       case r of
         Inl e \<Rightarrow> (Ret (Err e), [])
       | Inr s' \<Rightarrow> unit_result (do_reload_backend oc s' op))"

definition do_init_config :: "'b outcomes \<Rightarrow> 'b app_state \<Rightarrow> ('b, api_error + 'b app_state) prog" where
  "do_init_config oc s =
     then_do (do_reload_frontend oc s (the (into_starting (snd s)))
                (\<lambda>e. (the (frontend_keep (fst s) e), BackendStopped))) (\<lambda>r.
       case r of
         Inl e \<Rightarrow> (Err e, [])
       | Inr s1 \<Rightarrow> then_do (set_backend_starting s1) (\<lambda>s2. do_bootstrapping oc s2))"

definition init_config :: "'b outcomes \<Rightarrow> 'b app_state \<Rightarrow> ('b, (api_error + unit) run) prog" where
  "init_config oc s = unit_result (do_init_config oc s)"

section \<open>Factory reset\<close>

text \<open>The paths are read first; then Prosody is stopped, the directories emptied, the file reset.\<close>

definition factory_reset_work :: "'b outcomes \<Rightarrow> operational \<Rightarrow> ('b, anyhow + unit) prog" where
  "factory_reset_work oc op =
     (case oc_paths oc of
        Inl e \<Rightarrow> (Err e, [])
      | Inr _ \<Rightarrow>
          (case oc_stop oc of
             Inl e \<Rightarrow> (Err e, [])
           | Inr _ \<Rightarrow> (oc_empty oc, [StopProsody (op_prosody op), ResetFiles])))"

definition do_factory_reset :: "'b outcomes \<Rightarrow> 'b frontend \<Rightarrow> operational \<Rightarrow> ('b, api_error + 'b app_state) prog" where
  "do_factory_reset oc f op =
     then_do (new_state (frontend_restarting f, BackendUndergoingFactoryReset)) (\<lambda>s1.
     then_do (factory_reset_work oc op) (\<lambda>r.
       case r of
         Inl e \<Rightarrow>
           (Err (internal_server_error (oc_error_id oc) ''FACTORY_RESET_FAILED''
              ''Something went wrong while resetting your Prose Server. Contact an administrator to fix this.''), [])
       | Inr _ \<Rightarrow>
           then_do (try_reload_frontend oc s1 (the (into_starting (snd s1)))) (\<lambda>r.
             case r of
               Inr s2 \<Rightarrow> do_bootstrapping oc s2
             | Inl (s2, e) \<Rightarrow>
                 then_do (new_state (frontend_misconfigured (fst s2) (bad_configuration oc), the (into_stopped (snd s2))))
                   (\<lambda>s3. (Ok s3, [])))))"

definition factory_reset :: "'b outcomes \<Rightarrow> 'b frontend \<Rightarrow> operational \<Rightarrow> ('b, (api_error + unit) run) prog" where
  "factory_reset oc f op = unit_result (do_factory_reset oc f op)"

section \<open>Backups\<close>

text \<open>
  \<open>post_backups_\<close> and \<open>put_backup_restore_\<close>, for an admin with a valid request: \<open>with_backend\<close> does
  not publish the state.
\<close>

definition post_backups :: "'b outcomes \<Rightarrow> 'b frontend \<Rightarrow> operational \<Rightarrow> ('b, (api_error + unit) run) prog" where
  "post_backups oc f op =
     (case backup_service_of op of
        Inl e \<Rightarrow> (Ret (Err e), [])
      | Inr _ \<Rightarrow>
          stop_or_panic oc op
            (then_do ((), [BackupWork]) (\<lambda>_.
             then_do (do_restart_backend oc (f, BackendUndergoingBackup)) (\<lambda>_. (Ret (oc_create oc), [])))))"

definition put_backup_restore :: "'b outcomes \<Rightarrow> 'b frontend \<Rightarrow> operational \<Rightarrow> ('b, (api_error + unit) run) prog" where
  "put_backup_restore oc f op =
     (case backup_service_of op of
        Inl e \<Rightarrow> (Ret (Err e), [])
      | Inr _ \<Rightarrow>
          stop_or_panic oc op
            (then_do ((), [RestoreWork]) (\<lambda>_.
             then_do (do_restart_backend oc (f, BackendUndergoingRestore)) (\<lambda>_. (Ret (oc_restore oc), [])))))"

section \<open>Requests\<close>

text \<open>
  A handler runs on the state its router was made for; the others do not change it.
\<close>

definition run_handler :: "'b outcomes \<Rightarrow> handler \<Rightarrow> 'b app_state \<Rightarrow> ('b, (api_error + unit) run) prog" where
  "run_handler oc h s =
     (case snd s of
        BackendRunning op \<Rightarrow>
          (case h of
             FrontendReload \<Rightarrow> frontend_reload oc (fst s) op
           | BackendReload \<Rightarrow> backend_reload oc (fst s) op
           | BackendRestart \<Rightarrow> backend_restart oc (fst s) op
           | Reload \<Rightarrow> reload_handler oc (fst s) op
           | FactoryReset \<Rightarrow> factory_reset oc (fst s) op
           | PostBackups \<Rightarrow> post_backups oc (fst s) op
           | RestoreBackup \<Rightarrow> put_backup_restore oc (fst s) op
           | _ \<Rightarrow> (Ret (Ok ()), []))
      | _ \<Rightarrow>
          (case h of
             StartAgain \<Rightarrow> backend_start_again oc s
           | StartRetry \<Rightarrow> backend_start_retry oc s
           | RestartAgain \<Rightarrow> backend_restart_again oc s
           | RestartRetry \<Rightarrow> backend_restart_retry oc s
           | InitConfig \<Rightarrow> init_config oc s
           | _ \<Rightarrow> (Ret (Ok ()), [])))"

definition serve :: "'b outcomes \<Rightarrow> meth \<Rightarrow> string \<Rightarrow> 'b app_state \<Rightarrow> ('b, (api_error + unit) run) prog" where
  "serve oc m p s = (case dispatch s m p of Handle h \<Rightarrow> run_handler oc h s | _ \<Rightarrow> (Ret (Ok ()), []))"

text \<open>\<open>AppContext::reload\<close>, on SIGHUP: a request to the router.\<close>

definition sighup :: "'b outcomes \<Rightarrow> 'b app_state \<Rightarrow> ('b, (api_error + unit) run) prog" where
  "sighup oc s = serve oc POST ''/lifecycle/reload'' s"

text \<open>\<open>startup\<close>: a failure ends the server.\<close>

definition startup :: "'b outcomes \<Rightarrow> 'b app_state \<Rightarrow> ('b, anyhow + unit) prog" where
  "startup oc s =
     then_do (try_bootstrapping oc s) (\<lambda>r.
       case r of Inr _ \<Rightarrow> (Ok (), []) | Inl (_, e) \<Rightarrow> (Err (context_msg ''Startup failed'' e), []))"

section \<open>The transition system\<close>

record 'b world =
  wl_ctx :: "'b app_context"
  wl_live :: "nat set"

fun exec_effect :: "'b effect \<Rightarrow> 'b world \<Rightarrow> 'b world" where
  "exec_effect (Publish s) w = w\<lparr>wl_ctx := set_state s (wl_ctx w)\<rparr>"
| "exec_effect (StartProsody i) w = w\<lparr>wl_live := insert i (wl_live w)\<rparr>"
| "exec_effect (StopProsody i) w = w\<lparr>wl_live := wl_live w - {i}\<rparr>"
| "exec_effect (ReloadProsody i) w = w\<lparr>wl_live := insert i (wl_live w)\<rparr>"
| "exec_effect _ w = w"

definition exec_effects :: "'b effect list \<Rightarrow> 'b world \<Rightarrow> 'b world" where
  "exec_effects es w = fold exec_effect es w"

definition published :: "'b world \<Rightarrow> 'b app_state option" where
  "published w = ctx_published (wl_ctx w)"

text \<open>
  When a request is done, the last reference to an operational backend that is not published is
  dropped, which stops its Prosody.
\<close>

definition release :: "'b world \<Rightarrow> 'b world" where
  "release w = w\<lparr>wl_live := wl_live w \<inter> set_option (ctx_prosody (wl_ctx w))\<rparr>"

definition init_world :: "'b app_config \<Rightarrow> 'b world" where
  "init_world config =
     \<lparr>wl_ctx = set_state (FrontendRunning config, BackendStarting) app_context_new, wl_live = {}\<rparr>"

definition fresh_instance :: "'b outcomes \<Rightarrow> 'b world \<Rightarrow> bool" where
  "fresh_instance oc w \<longleftrightarrow> oc_instance oc \<notin> wl_live w \<and> ctx_prosody (wl_ctx w) \<noteq> Some (oc_instance oc)"

inductive api_step :: "'b world \<Rightarrow> 'b world \<Rightarrow> bool" where
  request: "published w = Some s \<Longrightarrow> fresh_instance oc w \<Longrightarrow> serve oc m p s = (r, es) \<Longrightarrow>
    api_step w (release (exec_effects es w))"
| started: "published w = Some (f, BackendStarting) \<Longrightarrow> fresh_instance oc w \<Longrightarrow>
    startup oc (f, BackendStarting) = (Ok (), es) \<Longrightarrow> api_step w (release (exec_effects es w))"

inductive api_reach :: "'b app_config \<Rightarrow> 'b world \<Rightarrow> bool" for config where
  reach_init: "api_reach config (init_world config)"
| reach_step: "api_reach config w \<Longrightarrow> api_step w w' \<Longrightarrow> api_reach config w'"

lemmas lifecycle_defs = then_do_def new_state_def run_bootstrap_def try_bootstrapping_def do_bootstrapping_def
  set_backend_restarting_def set_backend_starting_def do_restart_backend_def unit_result_def backend_start_again_def
  backend_start_retry_def stop_or_panic_def backend_restart_def backend_restart_again_def backend_restart_retry_def
  do_reload_backend_def backend_reload_def try_reload_frontend_def do_reload_frontend_def frontend_reload_def
  reload_handler_def do_init_config_def init_config_def factory_reset_work_def do_factory_reset_def factory_reset_def
  post_backups_def put_backup_restore_def frontend_restarting_def frontend_misconfigured_def Let_def

section \<open>What a request can do\<close>

definition operational_handlers :: "handler set" where
  "operational_handlers = (\<lambda>(m, p, h). h) ` set operational_routes"

lemma dispatch_route:
  assumes "dispatch s m p = Handle h"
  obtains n r where "app_state_impl s = Some (n, r)"
    "h \<in> (\<lambda>(m, p, h). h) ` set (rt_routes r) \<union> {FrontendHealth, BackendHealth}"
proof -
  obtain n r where r: "app_state_impl s = Some (n, r)" using assms by (auto simp: dispatch_def split: option.splits)
  have fb: "set_option (rt_fallback r) \<subseteq> {FrontendHealth, BackendHealth}"
    using r by (cases s rule: app_state_impl.cases) auto
  have "h \<in> (\<lambda>(m, p, h). h) ` set (rt_routes (with_base_routes r)) \<union> set_option (rt_fallback r)"
  proof -
    let ?rt = "with_base_routes r"
    let ?m = "if filter (\<lambda>(_, q, _). q = p) (rt_routes ?rt) \<noteq> [] then filter (\<lambda>(_, q, _). q = p) (rt_routes ?rt)
      else filter (\<lambda>(_, q, _). path_matches q p) (rt_routes ?rt)"
    have sub: "set (filter (\<lambda>(m', _, _). m' = m \<or> m' = ANY) ?m) \<subseteq> set (rt_routes ?rt)" by auto
    show ?thesis
    proof (cases "filter (\<lambda>(m', _, _). m' = m \<or> m' = ANY) ?m")
      case Nil
      then show ?thesis using assms r by (auto simp: dispatch_def Let_def with_base_routes_def split: if_splits option.splits)
    next
      case (Cons x xs)
      obtain a b c where x: "x = (a, b, c)" by (cases x)
      have "h = c" using assms r Cons x by (simp add: dispatch_def Let_def)
      moreover have "x \<in> set (rt_routes ?rt)" using sub Cons by simp
      ultimately show ?thesis using x by force
    qed
  qed
  then have "h \<in> (\<lambda>(m, p, h). h) ` set (rt_routes r) \<union> {FrontendHealth, BackendHealth}"
    using fb by (auto simp: with_base_routes_def base_routes_def)
  with r that show ?thesis by blast
qed

lemma serve_cases:
  assumes "serve oc m p s = (r, es)"
  obtains (quiet) "es = []"
    | (operational) c op h where "s = (FrontendRunning c, BackendRunning op)"
        "h \<in> {FrontendReload, BackendReload, BackendRestart, Reload, FactoryReset, PostBackups, RestoreBackup}" "run_handler oc h s = (r, es)"
        "dispatch s m p = Handle h"
    | (misconfigured) c e op where "s = (FrontendRunningWithMisconfiguration c e, BackendRunning op)" "reload_handler oc (fst s) op = (r, es)"
    | (starting) c where "s = (FrontendRunning c, BackendStarting)" "backend_start_again oc s = (r, es)"
    | (start_failed) c e where "s = (FrontendRunning c, BackendStartFailed e)" "backend_start_retry oc s = (r, es)"
    | (restarting) c where "s = (FrontendRunning c, BackendRestarting)" "backend_restart_again oc s = (r, es)"
    | (restart_failed) c e where "s = (FrontendRunning c, BackendRestartFailed e)" "backend_restart_retry oc s = (r, es)"
    | (stopped) e where "s = (FrontendMisconfigured e, BackendStopped)" "init_config oc s = (r, es)"
proof (cases "dispatch s m p")
  case (Handle h)
  then have run: "run_handler oc h s = (r, es)" using assms by (simp add: serve_def)
  from Handle obtain n rt where rt: "app_state_impl s = Some (n, rt)"
    and h: "h \<in> (\<lambda>(m, p, h). h) ` set (rt_routes rt) \<union> {FrontendHealth, BackendHealth}" by (rule dispatch_route)
  show ?thesis
  proof (cases s rule: app_state_impl.cases)
    case (1 c op)
    show ?thesis
    proof (cases "h \<in> {FrontendReload, BackendReload, BackendRestart, Reload, FactoryReset, PostBackups, RestoreBackup}")
      case True
      with 1 run Handle that(2) show ?thesis by blast
    next
      case False
      with 1 run have "es = []" by (auto simp: run_handler_def split: handler.splits)
      then show ?thesis by (rule that(1))
    qed
  qed (use rt h run that in \<open>auto simp: run_handler_def\<close>)
qed (use assms that(1) in \<open>simp_all add: serve_def\<close>)

text \<open>The states a request publishes have a router; those of a backup and of a restoration are not among them.\<close>

definition good_state :: "'b app_state \<Rightarrow> bool" where
  "good_state s \<longleftrightarrow> has_router s \<and> snd s \<notin> {BackendUndergoingBackup, BackendUndergoingRestore}"

definition publications :: "'b effect list \<Rightarrow> 'b app_state set" where
  "publications es = {s. Publish s \<in> set es}"

lemma publications_simps [simp]:
  "publications [] = {}" "publications (Publish s # es) = insert s (publications es)"
  "publications (StartProsody i # es) = publications es" "publications (StopProsody i # es) = publications es"
  "publications (ReloadProsody i # es) = publications es" "publications (BackupWork # es) = publications es"
  "publications (RestoreWork # es) = publications es" "publications (ResetFiles # es) = publications es"
  "publications (es @ es') = publications es \<union> publications es'"
  by (auto simp: publications_def)

lemma bootstrapping_publications:
  "publications (snd (try_bootstrapping oc (FrontendRunning c, b))) \<subseteq> {s. \<exists>op. s = (FrontendRunning c, BackendRunning op)}"
  by (auto simp: try_bootstrapping_def run_bootstrap_def then_do_def new_state_def split: boot.splits)

lemma do_bootstrapping_publications:
  "publications (snd (do_bootstrapping oc (FrontendRunning c, BackendStarting))) \<subseteq>
     {s. \<exists>op. s = (FrontendRunning c, BackendRunning op)} \<union> {s. \<exists>e. s = (FrontendRunning c, BackendStartFailed e)}"
  by (auto simp: do_bootstrapping_def try_bootstrapping_def run_bootstrap_def then_do_def new_state_def Let_def split: boot.splits)

lemma do_restart_publications:
  assumes "into_restarting b = Some BackendRestarting"
  shows "publications (snd (do_restart_backend oc (FrontendRunning c, b))) \<subseteq>
     {s. \<exists>op. s = (FrontendRunning c, BackendRunning op)} \<union> {s. \<exists>e. s = (FrontendRunning c, BackendRestartFailed e)} \<union>
     {(FrontendRunning c, BackendRestarting)}"
  using assms
  by (auto simp: do_restart_backend_def set_backend_restarting_def try_bootstrapping_def run_bootstrap_def then_do_def
      new_state_def Let_def split: boot.splits)

lemma publications_then_do: "publications (snd (then_do p f)) = publications (snd p) \<union> publications (snd (f (fst p)))"
  by (simp add: then_do_def Let_def split: prod.splits)

lemma publications_parts [simp]:
  "publications (snd (new_state s)) = {s}" "publications (snd (unit_result p)) = publications (snd p)"
  "publications (snd (stop_or_panic oc op q)) = (case oc_stop oc of Inl _ \<Rightarrow> {} | Inr _ \<Rightarrow> publications (snd q))"
  by (auto simp: new_state_def unit_result_def stop_or_panic_def publications_then_do split: sum.splits)

lemma fst_then_do: "fst (then_do p f) = fst (f (fst p))"
  by (simp add: then_do_def Let_def split: prod.splits)

lemma fst_new_state [simp]: "fst (new_state s) = s"
  by (simp add: new_state_def)

lemma try_reload_frontend_eq:
  "try_reload_frontend oc s b2 =
     (case reload_frontend oc s of
        Inr f \<Rightarrow> (Ok (f, b2), [Publish (f, b2)])
      | Inl e \<Rightarrow> (Err (s, context_msg ''Frontend reload failed'' e), []))"
  by (simp add: try_reload_frontend_def then_do_def new_state_def Let_def split: sum.splits)

lemma do_reload_frontend_eq:
  "do_reload_frontend oc s b2 fail =
     (case reload_frontend oc s of
        Inr f \<Rightarrow> (Ok (f, b2), [Publish (f, b2), Publish (f, b2)])
      | Inl _ \<Rightarrow> (Err (bad_configuration oc), [Publish (fail (bad_configuration oc))]))"
  by (simp add: do_reload_frontend_def try_reload_frontend_def then_do_def new_state_def Let_def split: sum.splits)

lemma reload_frontend_running: "reload_frontend oc s = Ok f \<Longrightarrow> \<exists>c. f = FrontendRunning c \<and> oc_config oc = Ok c"
  by (auto simp: reload_frontend_def try_bind_eq_Ok)

lemma do_reload_backend_publications [simp]: "publications (snd (do_reload_backend oc s op)) = {}"
  by (simp add: do_reload_backend_def split: sum.splits)

lemma into_simps: "into_restarting BackendRestarting = Some BackendRestarting"
  "into_restarting BackendUndergoingBackup = Some BackendRestarting" "into_restarting BackendUndergoingRestore = Some BackendRestarting"
  by simp_all

lemma good_states [simp]:
  "good_state (FrontendRunning c, BackendRunning op)" "good_state (FrontendRunning c, BackendStarting)"
  "good_state (FrontendRunning c, BackendRestarting)" "good_state (FrontendRunning c, BackendRestartFailed e)"
  "good_state (FrontendRunning c, BackendStartFailed e)" "good_state (FrontendRunningWithMisconfiguration c e, BackendRunning op)"
  "good_state (FrontendRestarting, BackendUndergoingFactoryReset)" "good_state (FrontendMisconfigured e, BackendStopped)"
  by (simp_all add: good_state_def has_router_def)

lemma do_bootstrapping_good: "publications (snd (do_bootstrapping oc (FrontendRunning c, BackendStarting))) \<subseteq> Collect good_state"
  using do_bootstrapping_publications [of oc c] by auto

lemma do_restart_good:
  assumes "into_restarting b = Some BackendRestarting"
  shows "publications (snd (do_restart_backend oc (FrontendRunning c, b))) \<subseteq> Collect good_state"
  using do_restart_publications [OF assms, of oc c] by auto

lemma do_factory_reset_good: "publications (snd (do_factory_reset oc f op)) \<subseteq> Collect good_state"
proof -
  have boot: "publications (snd (do_bootstrapping oc (g, BackendStarting))) \<subseteq> Collect good_state"
    if "reload_frontend oc s1 = Ok g" for g s1
    using do_bootstrapping_good reload_frontend_running [OF that] by auto
  have work: "publications (snd (factory_reset_work oc op)) = {}" by (simp add: factory_reset_work_def split: sum.splits)
  show ?thesis
    using boot
    by (auto simp: do_factory_reset_def publications_then_do fst_then_do work try_reload_frontend_eq frontend_restarting_def
        frontend_misconfigured_def split: sum.splits dest: reload_frontend_running)
qed

lemma serve_publishes_good:
  assumes "serve oc m p s = (r, es)"
  shows "publications es \<subseteq> Collect good_state"
  using assms
proof (cases rule: serve_cases)
  case (operational c op h)
  have "publications (snd (run_handler oc h s)) \<subseteq> Collect good_state"
  proof -
    have "publications (snd (frontend_reload oc (FrontendRunning c) op)) \<subseteq> Collect good_state"
      "publications (snd (reload_handler oc (FrontendRunning c) op)) \<subseteq> Collect good_state"
      by (auto simp: frontend_reload_def reload_handler_def do_reload_frontend_eq publications_then_do split: sum.splits
          dest: reload_frontend_running)
    moreover have "publications (snd (factory_reset oc (FrontendRunning c) op)) \<subseteq> Collect good_state"
      using do_factory_reset_good by (simp add: factory_reset_def)
    moreover have "publications (snd (backend_restart oc (FrontendRunning c) op)) \<subseteq> Collect good_state"
      "publications (snd (post_backups oc (FrontendRunning c) op)) \<subseteq> Collect good_state"
      "publications (snd (put_backup_restore oc (FrontendRunning c) op)) \<subseteq> Collect good_state"
      using do_restart_good [OF into_simps(1), of oc c] do_restart_good [OF into_simps(2), of oc c] do_restart_good [OF into_simps(3), of oc c]
      by (auto simp: backend_restart_def post_backups_def put_backup_restore_def publications_then_do split: sum.splits)
    moreover have "publications (snd (backend_reload oc (FrontendRunning c) op)) = {}" by (simp add: backend_reload_def)
    ultimately show ?thesis using operational(1,2) by (auto simp: run_handler_def)
  qed
  with operational(3) show ?thesis by simp
next
  case (misconfigured c e op)
  have "publications (snd (reload_handler oc (fst s) op)) \<subseteq> Collect good_state"
    using misconfigured(1) by (auto simp: reload_handler_def do_reload_frontend_eq publications_then_do split: sum.splits
          dest: reload_frontend_running)
  with misconfigured(2) show ?thesis by simp
next
  case (starting c)
  then show ?thesis using do_bootstrapping_good [of oc c] by (simp add: backend_start_again_def flip: surjective_pairing) (metis snd_conv publications_parts(2))
next
  case (start_failed c e)
  have "publications (snd (backend_start_retry oc s)) \<subseteq> Collect good_state"
    using start_failed(1) do_bootstrapping_good [of oc c] by (auto simp: backend_start_retry_def publications_then_do new_state_def)
  with start_failed(2) show ?thesis by simp
next
  case (restarting c)
  have "publications (snd (backend_restart_again oc s)) \<subseteq> Collect good_state"
    using restarting(1) do_restart_good [OF into_simps(1), of oc c] by (simp add: backend_restart_again_def)
  with restarting(2) show ?thesis by simp
next
  case (restart_failed c e)
  have "publications (snd (backend_restart_retry oc s)) \<subseteq> Collect good_state"
    using restart_failed(1) do_restart_good [OF into_simps(1), of oc c]
    by (auto simp: backend_restart_retry_def publications_then_do set_backend_restarting_def new_state_def)
  with restart_failed(2) show ?thesis by simp
next
  case (stopped e)
  have "publications (snd (do_bootstrapping oc (g, BackendStarting))) \<subseteq> Collect good_state" if "reload_frontend oc s = Ok g" for g
    using do_bootstrapping_good reload_frontend_running [OF that] by auto
  then have "publications (snd (init_config oc s)) \<subseteq> Collect good_state"
    using stopped(1) by (auto simp: init_config_def do_init_config_def do_reload_frontend_eq publications_then_do
        set_backend_starting_def new_state_def split: sum.splits dest: reload_frontend_running)
  with stopped(2) show ?thesis by simp
qed simp

section \<open>Executions\<close>

fun last_published :: "'b effect list \<Rightarrow> 'b app_state \<Rightarrow> 'b app_state" where
  "last_published [] s = s"
| "last_published (Publish s' # es) s = last_published es s'"
| "last_published (_ # es) s = last_published es s"

lemma last_published_in: "P s \<Longrightarrow> publications es \<subseteq> Collect P \<Longrightarrow> P (last_published es s)"
proof (induction es arbitrary: s)
  case (Cons e es)
  then show ?case by (cases e) auto
qed simp

lemma exec_effects_simps [simp]:
  "exec_effects [] w = w" "exec_effects (e # es) w = exec_effects es (exec_effect e w)"
  by (simp_all add: exec_effects_def)

lemma published_exec_effect:
  "published (exec_effect e w) = (case e of Publish s \<Rightarrow> Some s | _ \<Rightarrow> published w)"
  by (cases e) (simp_all add: published_def set_state_def)

lemma published_exec:
  "published w = Some s \<Longrightarrow> published (exec_effects es w) = Some (last_published es s)"
proof (induction es arbitrary: w s)
  case (Cons e es)
  then show ?case by (cases e) (simp_all add: published_def set_state_def)
qed simp

lemma published_release [simp]: "published (release w) = published w"
  by (simp add: published_def release_def)

text \<open>The context remembers the Prosody of the published state.\<close>

definition ctx_ok :: "'b world \<Rightarrow> bool" where
  "ctx_ok w \<longleftrightarrow> ctx_prosody (wl_ctx w) = Option.bind (published w) prosody_weak"

lemma ctx_ok_exec_effect: "ctx_ok w \<Longrightarrow> ctx_ok (exec_effect e w)"
  by (cases e) (simp_all add: ctx_ok_def published_def set_state_def)

lemma ctx_ok_exec: "ctx_ok w \<Longrightarrow> ctx_ok (exec_effects es w)"
  by (induction es arbitrary: w) (simp_all add: ctx_ok_exec_effect)

lemma ctx_ok_release [simp]: "ctx_ok (release w) = ctx_ok w"
  by (simp add: ctx_ok_def published_def release_def)

text \<open>The Prosody instances after the effects.\<close>

fun live_after :: "'b effect list \<Rightarrow> nat set \<Rightarrow> nat set" where
  "live_after [] L = L"
| "live_after (StartProsody i # es) L = live_after es (insert i L)"
| "live_after (ReloadProsody i # es) L = live_after es (insert i L)"
| "live_after (StopProsody i # es) L = live_after es (L - {i})"
| "live_after (_ # es) L = live_after es L"

lemma wl_live_exec: "wl_live (exec_effects es w) = live_after es (wl_live w)"
proof (induction es arbitrary: w)
  case (Cons e es)
  then show ?case by (cases e) simp_all
qed simp

text \<open>A request that leaves an operational backend leaves its Prosody running.\<close>

lemma bootstrapping_live:
  "prosody_weak (last_published (snd (try_bootstrapping oc (FrontendRunning c, b))) s) = Some i \<Longrightarrow> prosody_weak s = None \<Longrightarrow>
     i \<in> live_after (snd (try_bootstrapping oc (FrontendRunning c, b))) L"
  by (auto simp: try_bootstrapping_def run_bootstrap_def then_do_def new_state_def split: boot.splits)

lemma serve_live:
  assumes "serve oc m p s = (r, es)" "set_option (prosody_weak s) \<subseteq> L" "prosody_weak (last_published es s) = Some i"
  shows "i \<in> live_after es L"
proof -
  note defs = lifecycle_defs reload_frontend_def try_bind_def backup_service_of_def
  show ?thesis using assms(1)
  proof (cases rule: serve_cases)
    case quiet
    then show ?thesis using assms(2,3) by auto
  next
    case (operational c op h)
    then have es: "es = snd (run_handler oc h (FrontendRunning c, BackendRunning op))" and L: "op_prosody op \<in> L" using assms(2) by simp_all
    consider "h = FrontendReload" | "h = BackendReload" | "h = BackendRestart" | "h = Reload" | "h = FactoryReset" | "h = PostBackups"
      | "h = RestoreBackup" using operational(2) by blast
    then show ?thesis using assms(3) L operational(1) unfolding es
      by cases (auto simp: run_handler_def defs split: sum.splits boot.splits if_splits)
  next
    case (misconfigured c e op)
    then show ?thesis using assms(3,2) by (auto simp: defs split: sum.splits boot.splits)
  next
    case (stopped e)
    then show ?thesis using assms(3) by (auto simp: defs split: sum.splits boot.splits)
  qed (use assms(3) in \<open>auto simp: defs split: boot.splits\<close>)
qed

lemma startup_live:
  "startup oc (FrontendRunning c, BackendStarting) = (Ok (), es) \<Longrightarrow>
     es = [StartProsody (oc_instance oc), Publish (FrontendRunning c,
       BackendRunning \<lparr>op_prosody = oc_instance oc, op_backup_service = (ac_backups c \<noteq> None)\<rparr>)]"
  by (auto simp: startup_def lifecycle_defs split: boot.splits)

end
