(* ===== verification/Api_Runs.thy ===== *)
theory Api_Runs
  imports Lifecycle
begin

text \<open>
  Runs of the API server of \<^verbatim>\<open>api/src/lib.rs\<close>, \<^verbatim>\<open>api/src/state.rs\<close> and \<^verbatim>\<open>api/src/router/\<close>: which states are
  published, which Prosody instances run, how the server recovers, and what interleaved requests can
  do to each other.
\<close>

section \<open>Interleaved requests\<close>

text \<open>
  The requests in progress are the effects they have still to do.  A request is accepted on the state
  published at that moment; then the effects of all requests happen in any order that keeps the order
  within each request.  The first task is \<open>startup\<close>, which runs while the server already listens.
\<close>

inductive conc_step :: "'b world \<times> 'b effect list list \<Rightarrow> 'b world \<times> 'b effect list list \<Rightarrow> bool" where
  accept: "published w = Some s \<Longrightarrow> serve oc m p s = (r, es) \<Longrightarrow> conc_step (w, ps) (w, ps @ [es])"
| advance: "i < length ps \<Longrightarrow> ps ! i = e # es \<Longrightarrow> conc_step (w, ps) (exec_effect e w, ps[i := es])"

inductive conc_reach :: "'b app_config \<Rightarrow> 'b world \<times> 'b effect list list \<Rightarrow> bool" for config where
  conc_init: "conc_reach config (init_world config, [snd (startup oc (FrontendRunning config, BackendStarting))])"
| conc_next: "conc_reach config x \<Longrightarrow> conc_step x y \<Longrightarrow> conc_reach config y"

lemma startup_good: "publications (snd (startup oc (FrontendRunning c, BackendStarting))) \<subseteq> Collect good_state"
  using bootstrapping_publications [of oc c BackendStarting] by (auto simp: startup_def publications_then_do split: sum.splits)

lemma published_init [simp]: "published (init_world config) = Some (FrontendRunning config, BackendStarting)"
  by (simp add: published_def init_world_def set_state_def)

definition conc_good :: "'b world \<times> 'b effect list list \<Rightarrow> bool" where
  "conc_good x \<longleftrightarrow> (\<exists>s. published (fst x) = Some s \<and> good_state s) \<and> (\<forall>es\<in>set (snd x). publications es \<subseteq> Collect good_state)"

lemma conc_good_step: "conc_step x y \<Longrightarrow> conc_good x \<Longrightarrow> conc_good y"
proof (induction rule: conc_step.induct)
  case (accept w s oc m p r es ps)
  then show ?case using serve_publishes_good [OF accept(2)] by (auto simp: conc_good_def)
next
  case (advance i ps e es w)
  then have e: "publications (e # es) \<subseteq> Collect good_state" unfolding conc_good_def by (metis nth_mem snd_conv)
  have es: "publications es \<subseteq> Collect good_state" using e by (cases e) auto
  have "\<exists>s. published (exec_effect e w) = Some s \<and> good_state s"
    unfolding published_exec_effect using advance.prems e by (cases e) (auto simp: conc_good_def)
  moreover have "publications es' \<subseteq> Collect good_state" if "es' \<in> set (ps[i := es])" for es'
    using that set_update_subset_insert [of ps i es] es advance.prems unfolding conc_good_def by fastforce
  ultimately show ?case by (simp add: conc_good_def)
qed

text \<open>
  C23. Whatever requests are accepted and however their work interleaves, the state the server publishes
  is one that has a router, and it is never that of a backup or of a restoration in progress.
\<close>

theorem published_state_good:
  assumes "conc_reach config (w, ps)"
  shows "\<exists>s. published w = Some s \<and> has_router s \<and> snd s \<noteq> BackendUndergoingBackup \<and> snd s \<noteq> BackendUndergoingRestore"
proof -
  have "conc_good x" if "conc_reach config x" for x
    using that
  proof induction
    case (conc_init oc)
    then show ?case using startup_good [of oc config] by (simp add: conc_good_def good_state_def has_router_def)
  qed (rule conc_good_step)
  from this [OF assms] show ?thesis by (auto simp: conc_good_def good_state_def)
qed

text \<open>A server with backups, and what it answers itself.\<close>

definition demo_config :: "unit app_config" where
  "demo_config = \<lparr>ac_token_ttl = 300, ac_oauth2_registration_key = ''key'', ac_dashboard_url = ''https://d.org'',
     ac_log = \<lparr>lc_level = LogInfo, lc_format = LogFull, lc_timer = TimerTime, lc_with_file = False, lc_with_target = False,
       lc_with_thread_ids = False, lc_with_line_number = False, lc_with_span_events = False, lc_with_thread_names = False,
       lc_opentelemetry_enabled = False\<rparr>,
     ac_auto_update_enabled = None,
     ac_server = \<lparr>srv_domain = ''d.org'', srv_local_hostname = ''prose-pod-server'', srv_http_port = 5280, srv_log_level = LogInfo\<rparr>,
     ac_backups = Some (), ac_server_api = \<lparr>sac_address = ''0.0.0.0'', sac_port = 8080\<rparr>,
     ac_prose_workspace = \<lparr>sa_xmpp_node = ''prose-workspace'', sa_password = None\<rparr>, ac_main_team_name = ''Team''\<rparr>"

definition all_well :: "'b app_config \<Rightarrow> nat \<Rightarrow> 'b outcomes" where
  "all_well config i = \<lparr>oc_config = Ok config, oc_instance = i, oc_boot = BootOk, oc_stop = Ok (), oc_reload = Ok (),
     oc_load_modules = Ok (), oc_paths = Ok (), oc_empty = Ok (), oc_create = Ok (), oc_restore = Ok (), oc_error_id = ''id''\<rparr>"

theorem published_state_good_witness:
  "conc_reach demo_config (init_world demo_config, [snd (startup (all_well demo_config 0) (FrontendRunning demo_config, BackendStarting))]) \<and>
   (\<exists>s. published (init_world demo_config) = Some s \<and> has_router s \<and> snd s \<noteq> BackendUndergoingBackup \<and> snd s \<noteq> BackendUndergoingRestore)"
  using published_state_good [OF conc_init [of demo_config "all_well demo_config 0"]]
    conc_init [of demo_config "all_well demo_config 0"] by simp

definition running_with :: "'b app_config \<Rightarrow> nat \<Rightarrow> 'b app_state" where
  "running_with config i = (FrontendRunning config, BackendRunning \<lparr>op_prosody = i, op_backup_service = (ac_backups config \<noteq> None)\<rparr>)"

lemma startup_all_well:
  "snd (startup (all_well config i) (FrontendRunning config, BackendStarting)) = [StartProsody i, Publish (running_with config i)]"
  by (simp add: startup_def lifecycle_defs all_well_def running_with_def)

lemma dispatch_running: "dispatch (running_with config i) POST ''/v1/backups'' = Handle PostBackups"
  by (simp add: dispatch_def running_with_def operational_routes_def with_base_routes_def base_routes_def workspace_router_def)

lemma serve_backup:
  "ac_backups config \<noteq> None \<Longrightarrow> serve (all_well config j) POST ''/v1/backups'' (running_with config i) =
     (Ret (Ok ()), [StopProsody i, BackupWork, Publish (FrontendRunning config, BackendRestarting), StartProsody j, Publish (running_with config j)])"
  unfolding serve_def dispatch_running
  by (simp add: run_handler_def running_with_def lifecycle_defs all_well_def backup_service_of_def)

text \<open>One request goes on for a while.\<close>

lemma conc_run:
  "conc_reach config (w, ps) \<Longrightarrow> i < length ps \<Longrightarrow> ps ! i = es @ es' \<Longrightarrow> conc_reach config (exec_effects es w, ps[i := es'])"
proof (induction es arbitrary: w ps)
  case Nil
  then show ?case by simp (metis list_update_id)
next
  case (Cons e es)
  have "conc_reach config (exec_effect e w, ps[i := es @ es'])"
    using conc_next [OF Cons.prems(1) conc_step.advance [of i ps e "es @ es'"]] Cons.prems(2,3) by simp
  from Cons.IH [OF this] Cons.prems(2) show ?case by simp
qed

lemma conc_accept:
  "conc_reach config (w, ps) \<Longrightarrow> published w = Some s \<Longrightarrow> serve oc m p s = (r, es) \<Longrightarrow> ps' = ps @ [es] \<Longrightarrow> conc_reach config (w, ps')"
  by (auto intro: conc_next conc_step.accept)

text \<open>
  C24. The backup endpoint does not exclude itself: once the server with a backups configuration has
  started, a second \<^verbatim>\<open>POST /v1/backups\<close> is accepted while the first is about to archive, and it then
  archives while the Prosody that the first has restarted is running and writing.
\<close>

theorem backups_not_exclusive:
  assumes "ac_backups config \<noteq> None"
  shows "\<exists>w rest. conc_reach config (w, [[], [], BackupWork # rest]) \<and> published w = Some (running_with config 1) \<and> wl_live w = {1}"
proof -
  let ?s = "\<lambda>i. running_with config i" and ?r = "(FrontendRunning config, BackendRestarting)"
  let ?b = "\<lambda>j. [BackupWork, Publish ?r, StartProsody j, Publish (?s j)]"
  let ?w1 = "exec_effects [StartProsody 0, Publish (?s 0)] (init_world config)"
  have r1: "conc_reach config (?w1, [[]])"
    using conc_run [OF conc_init [of config "all_well config 0", unfolded startup_all_well], of 0 _ "[]"] by simp
  have pub: "published ?w1 = Some (?s 0)" by (simp add: published_def set_state_def)
  note backup = serve_backup [OF assms, of _ 0]
  have "conc_reach config (?w1, [[], StopProsody 0 # ?b 1, StopProsody 0 # ?b 2])"
    by (rule conc_accept [OF conc_accept [OF r1 pub backup [of 1] refl] pub backup [of 2]]) simp
  from conc_run [OF this, of 2 "[StopProsody 0]" "?b 2"]
  have "conc_reach config (exec_effects [StopProsody 0] ?w1, [[], StopProsody 0 # ?b 1, ?b 2])" by simp
  from conc_run [OF this, of 1 "StopProsody 0 # ?b 1" "[]"]
  have "conc_reach config (exec_effects (StopProsody 0 # ?b 1) (exec_effects [StopProsody 0] ?w1), [[], [], ?b 2])" by simp
  then show ?thesis
    by (intro exI conjI, assumption) (simp_all add: published_def set_state_def init_world_def)
qed

theorem backups_not_exclusive_witness:
  "ac_backups demo_config \<noteq> None \<and>
   (\<exists>w rest. conc_reach demo_config (w, [[], [], BackupWork # rest]) \<and> published w = Some (running_with demo_config 1) \<and> wl_live w = {1})"
  using backups_not_exclusive [of demo_config] by (simp add: demo_config_def)

section \<open>Requests one after the other\<close>

lemma released_live:
  assumes "wl_live w = set_option (ctx_prosody (wl_ctx w))" "ctx_ok w" "published w = Some s"
    and "\<And>i. prosody_weak (last_published es s) = Some i \<Longrightarrow> i \<in> live_after es (set_option (prosody_weak s))"
  defines "w' \<equiv> release (exec_effects es w)"
  shows "wl_live w' = set_option (ctx_prosody (wl_ctx w'))" "ctx_ok w'"
proof -
  let ?v = "exec_effects es w"
  have ok: "ctx_ok ?v" using assms(2) by (rule ctx_ok_exec)
  then show "ctx_ok w'" by (simp add: w'_def)
  have "ctx_prosody (wl_ctx ?v) = prosody_weak (last_published es s)"
    using ok published_exec [OF assms(3), of es] by (simp add: ctx_ok_def)
  moreover have "wl_live w = set_option (prosody_weak s)" using assms(1-3) by (simp add: ctx_ok_def)
  ultimately have "set_option (ctx_prosody (wl_ctx ?v)) \<subseteq> wl_live ?v"
    using assms(4) by (cases "prosody_weak (last_published es s)") (auto simp: wl_live_exec)
  then show "wl_live w' = set_option (ctx_prosody (wl_ctx w'))" by (auto simp: w'_def release_def)
qed

lemma reach_good_live:
  "api_reach config w \<Longrightarrow>
     (\<exists>s. published w = Some s \<and> good_state s) \<and> ctx_ok w \<and> wl_live w = set_option (ctx_prosody (wl_ctx w))"
proof (induction rule: api_reach.induct)
  case reach_init
  show ?case by (simp add: ctx_ok_def) (simp add: init_world_def set_state_def app_context_new_def)
next
  case (reach_step w w')
  from reach_step(2) show ?case
  proof cases
    case (request s oc m p r es)
    have "good_state s" using reach_step.IH request(2) by simp
    then have "good_state (last_published es s)" using serve_publishes_good [OF request(4)] by (rule last_published_in)
    moreover have "i \<in> live_after es (set_option (prosody_weak s))" if "prosody_weak (last_published es s) = Some i" for i
      using serve_live [OF request(4) subset_refl that] .
    note released_live [OF _ _ request(2) this]
    ultimately show ?thesis using reach_step.IH request(1) published_exec [OF request(2), of es] by auto
  next
    case (started f oc es)
    then obtain c where f: "f = FrontendRunning c" using reach_step.IH by (cases f) (auto simp: good_state_def has_router_def)
    note es = startup_live [OF started(4) [unfolded f]]
    have "prosody_weak (last_published es (f, BackendStarting)) = Some i \<Longrightarrow> i \<in> live_after es (set_option (prosody_weak (f, BackendStarting)))" for i
      by (simp add: es)
    note released_live [OF _ _ started(2) this]
    moreover have "good_state (last_published es (f, BackendStarting))" by (simp add: es)
    ultimately show ?thesis using reach_step.IH started(1) published_exec [OF started(2), of es] by auto
  qed
qed


lemma reach_started:
  "api_reach config (release (exec_effects [StartProsody i, Publish (running_with config i)] (init_world config)))"
proof -
  have "startup (all_well config i) (FrontendRunning config, BackendStarting) = (Ok (), [StartProsody i, Publish (running_with config i)])"
    by (simp add: startup_def lifecycle_defs all_well_def running_with_def)
  moreover have "fresh_instance (all_well config i) (init_world config)"
    by (simp add: fresh_instance_def init_world_def set_state_def app_context_new_def)
  ultimately show ?thesis by (intro reach_step [OF reach_init] started) simp_all
qed


section \<open>Recovery\<close>

text \<open>The request that brings a state back to an operational one.\<close>

definition recovery_path :: "'b app_state \<Rightarrow> string" where
  "recovery_path s =
     (case snd s of BackendRunning _ \<Rightarrow> ''/lifecycle/reload'' | BackendStopped \<Rightarrow> ''/lifecycle/reload'' | _ \<Rightarrow> ''/lifecycle/backend-restart'')"

text \<open>
  C26. From every state the server publishes, apart from that of a factory reset, one request is enough
  to make it operational, once the configuration is valid (and keeps the domain in use) and Prosody can
  be started, stopped and reloaded: \<^verbatim>\<open>POST /lifecycle/reload\<close> where Prosody runs or the configuration is
  missing, \<^verbatim>\<open>POST /lifecycle/backend-restart\<close> elsewhere.
\<close>

theorem recovers_on_request:
  assumes "good_state s" "s \<noteq> (FrontendRestarting, BackendUndergoingFactoryReset)"
    and "oc_boot oc = BootOk" "oc_stop oc = Ok ()" "oc_reload oc = Ok ()" "oc_load_modules oc = Ok ()" "oc_config oc = Ok c"
    and "\<forall>c0. running_config (fst s) = Some c0 \<longrightarrow> srv_domain (ac_server c) = srv_domain (ac_server c0)"
  shows "\<exists>es c' op. serve oc POST (recovery_path s) s = (Ret (Ok ()), es) \<and> last_published es s = (FrontendRunning c', BackendRunning op)"
  using assms
  by (cases s rule: app_state_impl.cases)
    (simp_all add: serve_def dispatch_def operational_routes_def with_base_routes_def base_routes_def recovery_path_def
      run_handler_def lifecycle_defs reload_frontend_def try_bind_def validate_config_changes_def good_state_def has_router_def)

theorem recovers_on_request_witness:
  "let s = (FrontendRunning demo_config, BackendRestartFailed (no_context ''id'')) in
     \<exists>es c' op. serve (all_well demo_config 3) POST ''/lifecycle/backend-restart'' s = (Ret (Ok ()), es) \<and>
       last_published es s = (FrontendRunning c', BackendRunning op)"
  using recovers_on_request [of "(FrontendRunning demo_config, BackendRestartFailed (no_context ''id''))" "all_well demo_config 3" demo_config]
  by (simp add: all_well_def recovery_path_def)

section \<open>Factory reset\<close>

lemma serve_undergoing_reset: "snd (serve oc m p (FrontendRestarting, BackendUndergoingFactoryReset)) = []"
proof -
  obtain r es where s: "serve oc m p (FrontendRestarting, BackendUndergoingFactoryReset) = (r, es)" by fastforce
  from s have "es = []" by (cases rule: serve_cases) simp_all
  with s show ?thesis by simp
qed

lemma reset_stuck:
  assumes "api_step\<^sup>*\<^sup>* w w'" "published w = Some (FrontendRestarting, BackendUndergoingFactoryReset)" "wl_live w = {}"
  shows "published w' = Some (FrontendRestarting, BackendUndergoingFactoryReset) \<and> wl_live w' = {}"
  using assms
proof (induction rule: rtranclp_induct)
  case (step v w')
  from step(2) show ?case
  proof cases
    case (request s oc m p r es)
    then have "es = []" using step.IH step.prems serve_undergoing_reset [of oc m p] by simp
    then show ?thesis using step.IH step.prems request(1) by (simp add: release_def published_def)
  qed (use step in simp)
qed simp

text \<open>
  When a factory reset fails after Prosody was stopped, nothing brings the server back: after any
  further requests the state is still that of the factory reset, with no Prosody running.
\<close>

theorem failed_factory_reset_is_final:
  assumes "api_reach config w" "published w = Some (FrontendRunning c, BackendRunning op)"
    and "oc_paths oc = Ok ()" "oc_stop oc = Ok ()" "oc_empty oc = Err e" "fresh_instance oc w"
  shows "\<exists>err es. serve oc POST ''/lifecycle/factory-reset'' (FrontendRunning c, BackendRunning op) = (Ret (Err err), es) \<and>
    (\<forall>w'. api_step\<^sup>*\<^sup>* (release (exec_effects es w)) w' \<longrightarrow>
      published w' = Some (FrontendRestarting, BackendUndergoingFactoryReset) \<and> wl_live w' = {})"
proof -
  let ?s = "(FrontendRestarting, BackendUndergoingFactoryReset)"
  let ?es = "[Publish ?s, StopProsody (op_prosody op), ResetFiles]"
  have "\<exists>err. serve oc POST ''/lifecycle/factory-reset'' (FrontendRunning c, BackendRunning op) = (Ret (Err err), ?es)"
    using assms by (simp add: serve_def dispatch_def operational_routes_def with_base_routes_def base_routes_def workspace_router_def
        run_handler_def lifecycle_defs)
  moreover have "published (release (exec_effects ?es w)) = Some ?s" by (simp add: published_def release_def set_state_def)
  moreover have "wl_live (release (exec_effects ?es w)) = {}" by (simp add: release_def set_state_def)
  ultimately show ?thesis using reset_stuck by blast
qed

theorem failed_factory_reset_is_final_witness:
  "let w = release (exec_effects [StartProsody 7, Publish (running_with demo_config 7)] (init_world demo_config));
       oc = (all_well demo_config 8)\<lparr>oc_empty := Err [''Directory not empty'']\<rparr>
   in \<exists>err es. serve oc POST ''/lifecycle/factory-reset'' (running_with demo_config 7) = (Ret (Err err), es) \<and>
     (\<forall>w'. api_step\<^sup>*\<^sup>* (release (exec_effects es w)) w' \<longrightarrow>
       published w' = Some (FrontendRestarting, BackendUndergoingFactoryReset) \<and> wl_live w' = {})"
proof -
  let ?w = "release (exec_effects [StartProsody 7, Publish (running_with demo_config 7)] (init_world demo_config))"
  let ?oc = "(all_well demo_config 8)\<lparr>oc_empty := Err [''Directory not empty'']\<rparr>"
  have "published ?w = Some (running_with demo_config 7)" by (simp add: published_def release_def set_state_def)
  moreover have "fresh_instance ?oc ?w"
    by (simp add: fresh_instance_def all_well_def init_world_def set_state_def app_context_new_def release_def running_with_def)
  ultimately show ?thesis
    unfolding Let_def running_with_def
    using failed_factory_reset_is_final [OF reach_started [of demo_config 7, unfolded running_with_def], of _ _ ?oc]
    by (simp add: all_well_def)
qed

section \<open>Reloading the configuration\<close>

text \<open>
  A SIGHUP that finds a bad configuration answers an error and publishes the running state again as
  it was: the server does not say that it runs with a misconfiguration.
\<close>

theorem sighup_hides_bad_configuration:
  assumes "oc_config oc = Err e \<or> (oc_config oc = Ok c' \<and> srv_domain (ac_server c') \<noteq> srv_domain (ac_server c))"
  shows "sighup oc (FrontendRunning c, BackendRunning op) =
    (Ret (Err (bad_configuration oc)), [Publish (FrontendRunning c, BackendRunning op)])"
  using assms
  by (auto simp: sighup_def serve_def dispatch_def operational_routes_def with_base_routes_def base_routes_def workspace_router_def
      run_handler_def reload_handler_def do_reload_frontend_eq reload_frontend_def try_bind_def validate_config_changes_def then_do_def)

theorem sighup_hides_bad_configuration_witness:
  "sighup ((all_well demo_config 1)\<lparr>oc_config := Err [''missing server.domain'']\<rparr>) (running_with demo_config 0) =
     (Ret (Err (bad_configuration (all_well demo_config 1))), [Publish (running_with demo_config 0)])"
  using sighup_hides_bad_configuration [of "(all_well demo_config 1)\<lparr>oc_config := Err [''missing server.domain'']\<rparr>"
      "[''missing server.domain'']" demo_config demo_config]
  by (simp add: all_well_def running_with_def bad_configuration_def)

text \<open>The configuration of the states a request publishes, where the one it is served in has one.\<close>

definition keeps_domain :: "'b app_config \<Rightarrow> 'b app_state \<Rightarrow> bool" where
  "keeps_domain c s \<longleftrightarrow> (case running_config (fst s) of Some c' \<Rightarrow> srv_domain (ac_server c') = srv_domain (ac_server c) | None \<Rightarrow> False)"

lemma keeps_domain_same [simp]: "keeps_domain c (FrontendRunning c, b)" "keeps_domain c (FrontendRunningWithMisconfiguration c e, b)"
  by (simp_all add: keeps_domain_def)

lemma restart_keeps_domain:
  "into_restarting b = Some BackendRestarting \<Longrightarrow> publications (snd (do_restart_backend oc (FrontendRunning c, b))) \<subseteq> Collect (keeps_domain c)"
  using do_restart_publications [of b oc c] by auto

lemma bootstrapping_keeps_domain:
  "publications (snd (do_bootstrapping oc (FrontendRunning c, BackendStarting))) \<subseteq> Collect (keeps_domain c)"
  using do_bootstrapping_publications [of oc c] by auto

lemma reload_keeps_domain:
  "reload_frontend oc (f, b) = Ok g \<Longrightarrow> b \<noteq> BackendUndergoingBackup \<Longrightarrow> b \<noteq> BackendUndergoingRestore \<Longrightarrow> running_config f = Some c \<Longrightarrow>
     keeps_domain c (g, b')"
  by (cases f; cases b) (auto simp: reload_frontend_def try_bind_eq_Ok keeps_domain_def validate_config_changes_def split: if_splits)

lemmas reload_running = reload_keeps_domain [of _ "FrontendRunning c" "BackendRunning op" _ c for c op, simplified]
  reload_keeps_domain [of _ "FrontendRunningWithMisconfiguration c e" "BackendRunning op" _ c for c e op, simplified]

text \<open>
  The server domain of a running server never changes: every state published by a request, other than a
  factory reset, has a configuration with the domain of the configuration the request was served with.
\<close>

theorem domain_never_changes:
  assumes "serve oc m p s = (r, es)" "running_config (fst s) = Some c" "dispatch s m p \<noteq> Handle FactoryReset" "Publish s' \<in> set es"
  shows "\<exists>c'. running_config (fst s') = Some c' \<and> srv_domain (ac_server c') = srv_domain (ac_server c)"
proof -
  note defs = publications_then_do do_reload_frontend_eq
  have "publications es \<subseteq> Collect (keeps_domain c)"
    using assms(1)
  proof (cases rule: serve_cases)
    case (operational c1 op h)
    then have c: "c1 = c" and h: "h \<noteq> FactoryReset" using assms(2,3) by auto
    have "publications (snd (run_handler oc h (FrontendRunning c, BackendRunning op))) \<subseteq> Collect (keeps_domain c)"
      using operational(2) h restart_keeps_domain [OF into_simps(1), of oc c] restart_keeps_domain [OF into_simps(2), of oc c]
        restart_keeps_domain [OF into_simps(3), of oc c]
      by (auto simp: run_handler_def frontend_reload_def reload_handler_def backend_reload_def backend_restart_def post_backups_def
          put_backup_restore_def defs split: sum.splits dest: reload_running)
    then show ?thesis using operational(1,3) c by simp
  next
    case (misconfigured c1 e op)
    have "publications (snd (reload_handler oc (FrontendRunningWithMisconfiguration c e) op)) \<subseteq> Collect (keeps_domain c)"
      by (auto simp: reload_handler_def defs split: sum.splits dest: reload_running)
    then show ?thesis using misconfigured assms(2) by simp
  next
    case (starting c1)
    have "publications (snd (backend_start_again oc (FrontendRunning c, BackendStarting))) \<subseteq> Collect (keeps_domain c)"
      using bootstrapping_keeps_domain [of oc c] by (simp add: backend_start_again_def)
    then show ?thesis using starting assms(2) by simp
  next
    case (start_failed c1 e)
    have "publications (snd (backend_start_retry oc (FrontendRunning c, BackendStartFailed e))) \<subseteq> Collect (keeps_domain c)"
      using bootstrapping_keeps_domain [of oc c] by (auto simp: backend_start_retry_def defs new_state_def)
    then show ?thesis using start_failed assms(2) by simp
  next
    case (restarting c1)
    have "publications (snd (backend_restart_again oc (FrontendRunning c, BackendRestarting))) \<subseteq> Collect (keeps_domain c)"
      using restart_keeps_domain [OF into_simps(1), of oc c] by (simp add: backend_restart_again_def)
    then show ?thesis using restarting assms(2) by simp
  next
    case (restart_failed c1 e)
    have "publications (snd (backend_restart_retry oc (FrontendRunning c, BackendRestartFailed e))) \<subseteq> Collect (keeps_domain c)"
      using restart_keeps_domain [OF into_simps(1), of oc c]
      by (auto simp: backend_restart_retry_def defs set_backend_restarting_def new_state_def)
    then show ?thesis using restart_failed assms(2) by simp
  qed (use assms(2) in simp_all)
  then show ?thesis using assms(4) by (auto simp: publications_def keeps_domain_def split: option.splits)
qed

theorem domain_never_changes_witness:
  "let s = running_with demo_config 0; es = snd (serve (all_well demo_config 1) POST ''/v1/backups'' s) in
     Publish (running_with demo_config 1) \<in> set es \<and>
     (\<exists>c'. running_config (fst (running_with demo_config 1)) = Some c' \<and> srv_domain (ac_server c') = ''d.org'')"
proof -
  have backups: "ac_backups demo_config \<noteq> None" and dom: "srv_domain (ac_server demo_config) = ''d.org''"
    and config: "running_config (fst (running_with demo_config 0)) = Some demo_config"
    by (simp_all add: demo_config_def running_with_def)
  have "dispatch (running_with demo_config 0) POST ''/v1/backups'' \<noteq> Handle FactoryReset" by (simp add: dispatch_running)
  from domain_never_changes [OF serve_backup [OF backups, of 1 0] config this, of "running_with demo_config 1"] show ?thesis
    by (simp add: serve_backup [OF backups] dom)
qed

end
