(* ===== verification/Prosody_Shell.thy ===== *)
theory Prosody_Shell
  imports Prosody_Process
begin

text \<open>
  \<^verbatim>\<open>api/crates/prosodyctl/src/prosody_shell.rs\<close>: the commands sent to \<^verbatim>\<open>prosodyctl shell\<close> and the reading
  of its answers.  The process is the parameter \<open>shell_proc\<close> over its own state.  Release build: an
  unexpected line is only logged.  A command may read for ever, when lines without a result keep
  coming within the timeout: an operation that does not return is \<open>None\<close>.
\<close>

section \<open>The process\<close>

datatype next_line = NLine string | NEof | NTimeout | NIoError anyhow

record 's shell_proc =
  sh_spawn :: "'s \<Rightarrow> (anyhow + unit) \<times> 's"
  sh_write :: "string \<Rightarrow> 's \<Rightarrow> (anyhow + unit) \<times> 's"
  sh_next :: "nat \<Rightarrow> 's \<Rightarrow> next_line \<times> 's"

text \<open>\<open>handle\<close> is whether there is one.\<close>

record 's prosody_shell =
  ps_handle :: bool
  ps_proc :: 's

record prosody_response =
  pr_lines :: "string list"
  pr_result :: "string + string"

definition shell_new :: "'s \<Rightarrow> 's prosody_shell" where
  "shell_new s = \<lparr>ps_handle = False, ps_proc = s\<rparr>"

definition DEFAULT_TIMEOUT :: nat where "DEFAULT_TIMEOUT = 5000"
definition LONG_TIMEOUT :: nat where "LONG_TIMEOUT = 30000"
definition MAX_COMMAND_LENGTH :: nat where "MAX_COMMAND_LENGTH = 1024"

text \<open>Operations on the shell: not returning, panicking, failing and succeeding.\<close>

type_synonym ('s, 'e, 'a) shell_op = "'s prosody_shell \<Rightarrow> (('e + 'a) run \<times> 's prosody_shell) option"

definition op_ret :: "'e + 'a \<Rightarrow> ('s, 'e, 'a) shell_op" where
  "op_ret r sh = Some (Ret r, sh)"

text \<open>\<open>op_then\<close> is the \<open>?\<close> operator after a call, with \<open>f\<close> on the error.\<close>

definition op_then :: "('s, 'e, 'a) shell_op \<Rightarrow> ('e \<Rightarrow> 'd) \<Rightarrow> ('a \<Rightarrow> ('s, 'd, 'b) shell_op) \<Rightarrow> ('s, 'd, 'b) shell_op" where
  "op_then m f k sh =
     (case m sh of
        None \<Rightarrow> None
      | Some (Panic, sh') \<Rightarrow> Some (Panic, sh')
      | Some (Ret (Inl e), sh') \<Rightarrow> Some (Ret (Err (f e)), sh')
      | Some (Ret (Inr a), sh') \<Rightarrow> k a sh')"

section \<open>Commands\<close>

definition index_of :: "char \<Rightarrow> string \<Rightarrow> nat option" where
  "index_of c s = (if c \<in> set s then Some (length (takeWhile (\<lambda>d. d \<noteq> c) s)) else None)"

fun contains :: "string \<Rightarrow> string \<Rightarrow> bool" where
  "contains p [] = (p = [])"
| "contains p (c # cs) = (starts_with (c # cs) p \<or> contains p cs)"

definition command_name :: "string \<Rightarrow> string run" where
  "command_name command =
     (let marker =
        (case index_of CHR ''('' command of
           Some i \<Rightarrow> Ret i
         | None \<Rightarrow>
             (case index_of CHR ''['' command of
                Some i \<Rightarrow> Ret i
              | None \<Rightarrow>
                  if contains ''require'' command then Ret (length command)
                  else if contains [CHR 0x22] command then Panic
                  else Ret (length command)))
      in case marker of
           Panic \<Rightarrow> Panic
         | Ret i \<Rightarrow>
             if \<not> starts_with command ''>'' \<and> (case index_of CHR '' '' command of Some j \<Rightarrow> \<not> i < j | None \<Rightarrow> False) then Panic
             else Ret (take i command))"

text \<open>The pieces of the \<open>format!\<close> strings: an argument between quotes, as it is, and a call.\<close>

definition lua_str :: "string \<Rightarrow> string" where
  "lua_str s = [CHR 0x22] @ s @ [CHR 0x22]"

definition lua_call :: "string \<Rightarrow> string list \<Rightarrow> string" where
  "lua_call f args = f @ ''('' @ join '', '' args @ '')''"

definition lua_bool :: "bool \<Rightarrow> string" where
  "lua_bool b = (if b then ''true'' else ''false'')"

section \<open>Answers\<close>

datatype response_line = ResultLine "string + string" | LogLine string | SkippedLine | AbortLine

definition after_prefix :: "string \<Rightarrow> string \<Rightarrow> string" where
  "after_prefix s p = drop (length p) s"

definition parse_response_line :: "string \<Rightarrow> response_line" where
  "parse_response_line full_line =
     (let line = (if starts_with full_line ''prosody> '' then after_prefix full_line ''prosody> '' else full_line) in
      if starts_with line ''** '' then ResultLine (Err (after_prefix line ''** ''))
      else if starts_with line ''! Error: '' then ResultLine (Err (after_prefix line ''! Error: ''))
      else if starts_with line ''! '' then ResultLine (Err (after_prefix line ''! ''))
      else if starts_with line ''| OK: '' then ResultLine (Ok (after_prefix line ''| OK: ''))
      else if starts_with line ''| Result: '' then ResultLine (Ok (after_prefix line ''| Result: ''))
      else if starts_with line ''| '' then LogLine (after_prefix line ''| '')
      else if contains (''warn'' @ [CHR 0x09]) line then SkippedLine
      else if contains (''error'' @ [CHR 0x09]) line then AbortLine
      else SkippedLine)"

partial_function (option) read_response ::
  "'s shell_proc \<Rightarrow> nat \<Rightarrow> string list \<Rightarrow> 's \<Rightarrow> ((anyhow + prosody_response) \<times> 's) option" where
  "read_response P timeout ls s =
     (case sh_next P timeout s of
        (n, s') \<Rightarrow>
          (case n of
             NTimeout \<Rightarrow> Some (Err [''Timeout''], s')
           | NIoError e \<Rightarrow> Some (Err (context_msg ''I/O error'' e), s')
           | NEof \<Rightarrow> Some (Err [''Got no result line.''], s')
           | NLine line \<Rightarrow>
               (case parse_response_line line of
                  ResultLine r \<Rightarrow> Some (Ok \<lparr>pr_lines = ls, pr_result = r\<rparr>, s')
                | LogLine l \<Rightarrow> read_response P timeout (ls @ [l]) s'
                | SkippedLine \<Rightarrow> read_response P timeout ls s'
                | AbortLine \<Rightarrow> Some (Err [''Prosody error''], s'))))"

text \<open>\<open>ProsodyShellHandle::exec_with_timeout\<close>, on the state of the process.\<close>

definition handle_exec ::
  "'s shell_proc \<Rightarrow> string \<Rightarrow> nat \<Rightarrow> 's \<Rightarrow> ((anyhow + prosody_response) run \<times> 's) option" where
  "handle_exec P command timeout s =
     (if command = [] \<or> \<not> length command < MAX_COMMAND_LENGTH \<or> command_name command = Panic then Some (Panic, s)
      else
        (case sh_write P (if ends_with command [CHR 0x0A] then command else command @ [CHR 0x0A]) s of
           (Inl e, s') \<Rightarrow> Some (Ret (Err e), s')
         | (Inr _, s') \<Rightarrow> map_option (\<lambda>(r, s''). (Ret r, s'')) (read_response P timeout [] s')))"

text \<open>\<open>ProsodyShellHandle::new\<close>.\<close>

definition shell_imports :: "string list" where
  "shell_imports =
     [''> it = require'' @ lua_str ''prosody.util.iterators'',
      ''> dump = require'' @ lua_str ''prosody.util.serialization'' @ ''.new({ preset = '' @ lua_str ''oneline'' @ '' })'',
      ''> array = require'' @ lua_str ''prosody.util.array'',
      ''> mm = require'' @ lua_str ''core.modulemanager'',
      ''> um = require'' @ lua_str ''core.usermanager'']"

fun run_imports :: "'s shell_proc \<Rightarrow> string list \<Rightarrow> 's \<Rightarrow> ((anyhow + unit) run \<times> 's) option" where
  "run_imports P [] s = Some (Ret (Ok ()), s)"
| "run_imports P (c # cs) s =
     (case handle_exec P c DEFAULT_TIMEOUT s of
        None \<Rightarrow> None
      | Some (Panic, s') \<Rightarrow> Some (Panic, s')
      | Some (Ret (Inl e), s') \<Rightarrow> Some (Ret (Err (context_msg ''Error when running `require`'' e)), s')
      | Some (Ret (Inr _), s') \<Rightarrow> run_imports P cs s')"

definition handle_new :: "'s shell_proc \<Rightarrow> 's \<Rightarrow> ((anyhow + unit) run \<times> 's) option" where
  "handle_new P s =
     (case sh_spawn P s of
        (Inl e, s') \<Rightarrow> Some (Ret (Err (context_msg ''Failed spawning prosodyctl'' e)), s')
      | (Inr _, s') \<Rightarrow> run_imports P shell_imports s')"

definition get_handle_or_start :: "'s shell_proc \<Rightarrow> ('s, anyhow, unit) shell_op" where
  "get_handle_or_start P sh =
     (if ps_handle sh then Some (Ret (Ok ()), sh)
      else map_option (\<lambda>(r, s). (r, \<lparr>ps_handle = (r = Ret (Ok ())), ps_proc = s\<rparr>)) (handle_new P (ps_proc sh)))"

definition exec_with_timeout :: "'s shell_proc \<Rightarrow> string \<Rightarrow> nat \<Rightarrow> ('s, anyhow, prosody_response) shell_op" where
  "exec_with_timeout P command timeout =
     op_then (get_handle_or_start P) id (\<lambda>_ sh.
       map_option (\<lambda>(r, s). (r, sh\<lparr>ps_proc := s\<rparr>)) (handle_exec P command timeout (ps_proc sh)))"

definition shell_exec :: "'s shell_proc \<Rightarrow> string \<Rightarrow> ('s, anyhow, prosody_response) shell_op" where
  "shell_exec P command = exec_with_timeout P command DEFAULT_TIMEOUT"

section \<open>Results\<close>

definition result_unit :: "prosody_response \<Rightarrow> anyhow + unit" where
  "result_unit r = (case pr_result r of Inl e \<Rightarrow> Err [e] | Inr _ \<Rightarrow> Ok ())"

definition result_bool :: "prosody_response \<Rightarrow> anyhow + bool" where
  "result_bool r = (case pr_result r of Inl e \<Rightarrow> Err [e] | Inr s \<Rightarrow> Ok (s = ''true''))"

definition result_bool_expecting :: "string list \<Rightarrow> prosody_response \<Rightarrow> anyhow + bool" where
  "result_bool_expecting expected r =
     (case pr_result r of Inl e \<Rightarrow> if e \<in> set expected then Ok False else result_bool r | Inr _ \<Rightarrow> result_bool r)"

definition result_text :: "prosody_response \<Rightarrow> anyhow + string" where
  "result_text r = map_err (\<lambda>e. [e]) (pr_result r)"

text \<open>Splitting at a separator of several characters, and the first occurrence of one.\<close>

function split_str :: "string \<Rightarrow> string \<Rightarrow> string list" where
  "split_str sep s =
     (if s = [] then [[]]
      else if sep \<noteq> [] \<and> starts_with s sep then [] # split_str sep (drop (length sep) s)
      else (case split_str sep (tl s) of [] \<Rightarrow> [] | w # ws \<Rightarrow> (hd s # w) # ws))"
  by pat_completeness auto
termination split_str
  by (relation "measure (\<lambda>(sep, s). length s)") (auto simp: length_greater_0_conv)

declare split_str.simps [simp del]

fun split_once_str :: "string \<Rightarrow> string \<Rightarrow> (string \<times> string) option" where
  "split_once_str sep [] = None"
| "split_once_str sep (c # cs) =
     (if starts_with (c # cs) sep then Some ([], drop (length sep) (c # cs))
      else map_option (\<lambda>(a, b). (c # a, b)) (split_once_str sep cs))"

definition trim_by :: "(char \<Rightarrow> bool) \<Rightarrow> string \<Rightarrow> string" where
  "trim_by P s = rev (dropWhile P (rev (dropWhile P s)))"

definition is_whitespace :: "char \<Rightarrow> bool" where
  "is_whitespace c \<longleftrightarrow> is_ascii_whitespace c \<or> c = CHR 0x0B"

definition lua_string_to_string_array :: "string \<Rightarrow> string list run" where
  "lua_string_to_string_array lua =
     (if \<not> starts_with lua ''{'' \<or> \<not> ends_with lua ''}'' \<or> CHR 0x0A \<in> set lua then Panic
      else Ret (map (trim_by (\<lambda>c. c = CHR 0x22))
             (dropWhile (\<lambda>s. s = []) (split_str ''; '' (trim_by is_whitespace (butlast (tl lua)))))))"

definition result_string_array :: "prosody_response \<Rightarrow> (anyhow + string list) run" where
  "result_string_array r =
     (case pr_result r of
        Inl e \<Rightarrow> Ret (Err [e])
      | Inr lua \<Rightarrow> (case lua_string_to_string_array lua of Panic \<Rightarrow> Panic | Ret xs \<Rightarrow> Ret (Ok xs)))"

section \<open>Common operations\<close>

definition run_then :: "'s shell_proc \<Rightarrow> string \<Rightarrow> nat \<Rightarrow> string \<Rightarrow> (prosody_response \<Rightarrow> (anyhow + 'a) run) \<Rightarrow> ('s, anyhow, 'a) shell_op" where
  "run_then P command timeout ctx f =
     op_then (exec_with_timeout P command timeout) (context_msg ctx) (\<lambda>r sh. Some (f r, sh))"

definition run_text :: "'s shell_proc \<Rightarrow> string \<Rightarrow> nat \<Rightarrow> string \<Rightarrow> ('s, anyhow, string) shell_op" where
  "run_text P command timeout ctx = run_then P command timeout ctx (\<lambda>r. Ret (result_text r))"

text \<open>A test: the name of the command is added to an error of the result.\<close>

definition run_test :: "'s shell_proc \<Rightarrow> string \<Rightarrow> string \<Rightarrow> string list \<Rightarrow> ('s, anyhow, bool) shell_op" where
  "run_test P command ctx expected =
     run_then P command DEFAULT_TIMEOUT ctx (\<lambda>r.
       case command_name command of
         Panic \<Rightarrow> Panic
       | Ret name \<Rightarrow> Ret (map_err (\<lambda>e. context_msg ctx (context_msg name e)) (result_bool_expecting expected r)))"

definition host_exists :: "'s shell_proc \<Rightarrow> string \<Rightarrow> ('s, anyhow, bool) shell_op" where
  "host_exists P host = run_test P (''> not not prosody.hosts['' @ lua_str host @ '']'') ''Error testing if host exists'' []"

definition require_host :: "'s shell_proc \<Rightarrow> string \<Rightarrow> ('s, anyhow, 'a) shell_op \<Rightarrow> ('s, anyhow, 'a) shell_op" where
  "require_host P host m =
     op_then (host_exists P host) id (\<lambda>b. if b then m else op_ret (Err [''Host does not exit.'']))"

definition prosody_paths_config :: "'s shell_proc \<Rightarrow> ('s, anyhow, string) shell_op" where
  "prosody_paths_config P = run_text P ''> prosody.paths.config'' DEFAULT_TIMEOUT ''Error getting Prosody config path''"

definition prosody_paths_data :: "'s shell_proc \<Rightarrow> ('s, anyhow, string) shell_op" where
  "prosody_paths_data P = run_text P ''> prosody.paths.data'' DEFAULT_TIMEOUT ''Error getting Prosody data path''"

definition wait_for_readiness :: "'s shell_proc \<Rightarrow> ('s, anyhow, unit) shell_op" where
  "wait_for_readiness P = run_then P ''> not not prosody'' LONG_TIMEOUT ''Error waiting for Prosody readiness'' (\<lambda>_. Ret (Ok ()))"

subsection \<open>Users\<close>

definition opt_arg :: "string option \<Rightarrow> string list" where
  "opt_arg a = (case a of None \<Rightarrow> [] | Some s \<Rightarrow> [lua_str s])"

definition user_list :: "'s shell_proc \<Rightarrow> string \<Rightarrow> string option \<Rightarrow> ('s, anyhow, string list) shell_op" where
  "user_list P domain pattern =
     run_then P (lua_call ''user:list'' (lua_str domain # opt_arg pattern)) DEFAULT_TIMEOUT ''Error listing user accounts'' (\<lambda>r. Ret (Ok (pr_lines r)))"

definition user_exists :: "'s shell_proc \<Rightarrow> string \<Rightarrow> string \<Rightarrow> ('s, anyhow, bool) shell_op" where
  "user_exists P username host =
     require_host P host
       (run_test P (lua_call ''> um.user_exists'' [lua_str username, lua_str host]) ''Error testing if user account exists''
          [''Auth failed. Invalid username''])"

datatype user_create_error = Conflict | Internal anyhow

definition user_create_error_of :: "string \<Rightarrow> user_create_error" where
  "user_create_error_of e = (if e = ''User exists'' then Conflict else Internal [e])"

definition user_create_command :: "string \<Rightarrow> string \<Rightarrow> string option \<Rightarrow> string" where
  "user_create_command jid password role = lua_call ''user:create'' ([lua_str jid, lua_str password] @ opt_arg role)"

definition user_create :: "'s shell_proc \<Rightarrow> string \<Rightarrow> string \<Rightarrow> string option \<Rightarrow> ('s, user_create_error, string) shell_op" where
  "user_create P jid password role =
     op_then (shell_exec P (user_create_command jid password role)) (\<lambda>e. Internal (context_msg ''Error creating user account'' e))
       (\<lambda>r. op_ret (map_err user_create_error_of (pr_result r)))"

definition user_password :: "'s shell_proc \<Rightarrow> string \<Rightarrow> string \<Rightarrow> ('s, anyhow, string) shell_op" where
  "user_password P jid password =
     run_text P (lua_call ''user:password'' [lua_str jid, lua_str password]) DEFAULT_TIMEOUT ''Error setting user account password''"

definition strip_primary :: "string \<Rightarrow> string" where
  "strip_primary role = (if ends_with role '' (primary)'' then take (length role - length '' (primary)'') role else role)"

definition user_role :: "'s shell_proc \<Rightarrow> string \<Rightarrow> string option \<Rightarrow> ('s, anyhow, string) shell_op" where
  "user_role P jid host =
     run_then P (lua_call ''user:role'' (lua_str jid # opt_arg host)) DEFAULT_TIMEOUT ''Error getting user primary role''
       (\<lambda>r. Ret (try_bind (result_text r) (\<lambda>role. Ok (strip_primary role))))"

definition user_set_role :: "'s shell_proc \<Rightarrow> string \<Rightarrow> string option \<Rightarrow> string \<Rightarrow> ('s, anyhow, string) shell_op" where
  "user_set_role P jid host new_role =
     run_text P (lua_call ''user:set_role'' (lua_str jid # opt_arg host @ [lua_str new_role])) DEFAULT_TIMEOUT ''Error setting user primary role''"

definition user_disable :: "'s shell_proc \<Rightarrow> string \<Rightarrow> ('s, anyhow, string) shell_op" where
  "user_disable P jid = run_text P (lua_call ''user:disable'' [lua_str jid]) DEFAULT_TIMEOUT ''Error disabling user account''"

definition user_enable :: "'s shell_proc \<Rightarrow> string \<Rightarrow> ('s, anyhow, string) shell_op" where
  "user_enable P jid = run_text P (lua_call ''user:enable'' [lua_str jid]) DEFAULT_TIMEOUT ''Error enabling user account''"

definition user_delete :: "'s shell_proc \<Rightarrow> string \<Rightarrow> ('s, anyhow, string) shell_op" where
  "user_delete P jid = run_text P (lua_call ''user:delete'' [lua_str jid]) DEFAULT_TIMEOUT ''Error deleting user account''"

definition user_get_jids_with_role :: "'s shell_proc \<Rightarrow> string \<Rightarrow> string \<Rightarrow> ('s, anyhow, string list) shell_op" where
  "user_get_jids_with_role P host role_name =
     require_host P host
       (run_then P (lua_call ''> dump'' [lua_call ''um.get_jids_with_role'' [lua_str role_name, lua_str host]]) LONG_TIMEOUT
          ''Error listing enabled modules'' result_string_array)"

subsection \<open>Modules\<close>

definition module_load :: "'s shell_proc \<Rightarrow> string \<Rightarrow> string option \<Rightarrow> ('s, anyhow, string) shell_op" where
  "module_load P module host = run_text P (lua_call ''module:load'' (lua_str module # opt_arg host)) DEFAULT_TIMEOUT ''Error loading module''"

definition module_unload :: "'s shell_proc \<Rightarrow> string \<Rightarrow> string option \<Rightarrow> ('s, anyhow, string) shell_op" where
  "module_unload P module host = run_text P (lua_call ''module:unload'' (lua_str module # opt_arg host)) DEFAULT_TIMEOUT ''Error unloading module''"

definition module_reload :: "'s shell_proc \<Rightarrow> string \<Rightarrow> string option \<Rightarrow> ('s, anyhow, string) shell_op" where
  "module_reload P module host = run_text P (lua_call ''module:reload'' (lua_str module # opt_arg host)) DEFAULT_TIMEOUT ''Error reloading module''"

definition module_is_loaded :: "'s shell_proc \<Rightarrow> string \<Rightarrow> string \<Rightarrow> ('s, anyhow, bool) shell_op" where
  "module_is_loaded P host module =
     (let m = run_test P (lua_call ''> mm.is_loaded'' [lua_str host, lua_str module]) ''Error testing if module is loaded'' []
      in if host \<noteq> ''*'' then require_host P host m else m)"

definition module_list :: "'s shell_proc \<Rightarrow> string \<Rightarrow> ('s, anyhow, string list) shell_op" where
  "module_list P host =
     (let m = run_then P (lua_call ''> dump'' [lua_call ''it.to_array'' [lua_call ''it.keys'' [lua_call ''mm.get_modules'' [lua_str host]]]])
                DEFAULT_TIMEOUT ''Error listing modules'' result_string_array
      in if host \<noteq> ''*'' then require_host P host m else m)"

definition module_list_enabled :: "'s shell_proc \<Rightarrow> string \<Rightarrow> ('s, anyhow, string list) shell_op" where
  "module_list_enabled P host =
     require_host P host
       (run_then P (lua_call ''> dump'' [lua_call ''it.to_array'' [lua_call ''mm.get_modules_for_host'' [lua_str host]]])
          DEFAULT_TIMEOUT ''Error listing enabled modules'' result_string_array)"

definition module_load_modules_for_host :: "'s shell_proc \<Rightarrow> string \<Rightarrow> ('s, anyhow, unit) shell_op" where
  "module_load_modules_for_host P host =
     require_host P host
       (run_then P (lua_call ''> mm.load_modules_for_host'' [lua_str host]) DEFAULT_TIMEOUT ''Error loading modules for host'' (\<lambda>r. Ret (result_unit r)))"

text \<open>\<open>require_module\<close>; the modules are listed in the log when it shows debug messages.\<close>

definition op_ignore :: "('s, 'e, 'a) shell_op \<Rightarrow> ('s, 'd, unit) shell_op" where
  "op_ignore m sh =
     map_option (\<lambda>(r, sh'). ((case r of Panic \<Rightarrow> Panic | Ret _ \<Rightarrow> Ret (Ok ())), sh')) (m sh)"

definition require_module :: "'s shell_proc \<Rightarrow> bool \<Rightarrow> string \<Rightarrow> string \<Rightarrow> ('s, anyhow, unit) shell_op" where
  "require_module P debug host module =
     op_then (module_is_loaded P host module) id (\<lambda>b.
       if b then op_ret (Ok ())
       else op_then (if debug then op_then (op_ignore (module_list P host)) id (\<lambda>_. op_ignore (module_list_enabled P host)) else op_ret (Ok ())) id
              (\<lambda>_. op_ret (Err [''Module not loaded''])))"

subsection \<open>Groups and invitations\<close>

definition groups_create ::
  "'s shell_proc \<Rightarrow> bool \<Rightarrow> string \<Rightarrow> string \<Rightarrow> bool option \<Rightarrow> string option \<Rightarrow> ('s, anyhow, string) shell_op" where
  "groups_create P debug host group_name create_default_muc group_id =
     op_then (require_module P debug ''*'' ''groups_shell'') id (\<lambda>_.
       run_text P
         (lua_call ''groups:create'' ([lua_str host, lua_str group_name] @
            (case (create_default_muc, group_id) of
               (None, None) \<Rightarrow> []
             | (Some b, None) \<Rightarrow> [lua_bool b]
             | (Some b, Some g) \<Rightarrow> [lua_bool b, lua_str g]
             | (None, Some g) \<Rightarrow> [''nil'', lua_str g])))
         DEFAULT_TIMEOUT ''Error creating group'')"

definition groups_add_member ::
  "'s shell_proc \<Rightarrow> bool \<Rightarrow> string \<Rightarrow> string \<Rightarrow> string \<Rightarrow> bool option \<Rightarrow> ('s, anyhow, string) shell_op" where
  "groups_add_member P debug host group_id username delay_update =
     op_then (require_module P debug ''*'' ''groups_shell'') id (\<lambda>_.
       run_text P
         (lua_call ''groups:add_member'' ([lua_str host, lua_str group_id, lua_str username] @
            (case delay_update of None \<Rightarrow> [] | Some b \<Rightarrow> [lua_str (lua_bool b)])))
         DEFAULT_TIMEOUT ''Error adding group member'')"

definition groups_sync :: "'s shell_proc \<Rightarrow> bool \<Rightarrow> string \<Rightarrow> string \<Rightarrow> ('s, anyhow, string) shell_op" where
  "groups_sync P debug host group_id =
     op_then (require_module P debug ''*'' ''groups_shell'') id (\<lambda>_.
       run_text P (lua_call ''groups:sync_group'' [lua_str host, lua_str group_id]) LONG_TIMEOUT ''Error synchronizing group'')"

definition groups_exists :: "'s shell_proc \<Rightarrow> bool \<Rightarrow> string \<Rightarrow> string \<Rightarrow> ('s, anyhow, bool) shell_op" where
  "groups_exists P debug host group_id =
     op_then (require_module P debug host ''groups_internal'') id (\<lambda>_.
       run_test P (lua_call ''> mm.get_module'' [lua_str host, lua_str ''groups_internal''] @ lua_call ''.exists'' [lua_str group_id])
         ''Error testing if group exists'' [])"

record invite_row =
  ir_token :: string
  ir_expires_at :: string
  ir_description :: string

definition invite_row_of :: "string \<Rightarrow> invite_row option" where
  "invite_row_of row =
     Option.bind (split_once_str '' | '' row) (\<lambda>(a, r).
       map_option (\<lambda>(b, c). \<lparr>ir_token = trim_by is_ascii_whitespace a, ir_expires_at = trim_by is_ascii_whitespace b,
                              ir_description = trim_by is_ascii_whitespace c\<rparr>) (split_once_str '' | '' r))"

definition invite_list :: "'s shell_proc \<Rightarrow> bool \<Rightarrow> string \<Rightarrow> ('s, anyhow, invite_row list) shell_op" where
  "invite_list P debug host =
     op_then (require_module P debug host ''invites'') id (\<lambda>_.
       run_then P (lua_call ''invite:list'' [lua_str host]) DEFAULT_TIMEOUT ''Error listing invites'' (\<lambda>r.
         let rows = map invite_row_of (drop 1 (pr_lines r))
         in if None \<in> set rows then Panic else Ret (Ok (map the rows))))"

end
