(* ===== verification/Shell_Protocol.thy ===== *)
theory Shell_Protocol
  imports Prosody_Shell
begin

text \<open>
  What \<^verbatim>\<open>api/crates/prosodyctl/src/prosody_shell.rs\<close> makes of the answers of the shell, when the process
  answers the commands in the order it gets them, and which commands its arguments can become.
\<close>

section \<open>Answers\<close>

text \<open>The lines of an answer: some that carry no result, then the result.\<close>

fun one_response :: "string list \<Rightarrow> bool" where
  "one_response [] = False"
| "one_response (l # ls) =
     (case parse_response_line l of
        ResultLine _ \<Rightarrow> ls = []
      | AbortLine \<Rightarrow> False
      | _ \<Rightarrow> one_response ls)"

fun response_of :: "string list \<Rightarrow> string list \<Rightarrow> prosody_response" where
  "response_of logged [] = \<lparr>pr_lines = logged, pr_result = Err []\<rparr>"
| "response_of logged (l # ls) =
     (case parse_response_line l of
        ResultLine r \<Rightarrow> \<lparr>pr_lines = logged, pr_result = r\<rparr>
      | LogLine x \<Rightarrow> response_of (logged @ [x]) ls
      | _ \<Rightarrow> response_of logged ls)"

text \<open>
  A process that accepts every command, answers each in turn, and whose lines not read yet are
  \<open>pending\<close>; reading may time out whether or not there are such lines.
\<close>

definition fifo_shell :: "'s shell_proc \<Rightarrow> (string \<Rightarrow> string list) \<Rightarrow> ('s \<Rightarrow> string list) \<Rightarrow> bool" where
  "fifo_shell P answer pending \<longleftrightarrow>
     (\<forall>c s. fst (sh_write P c s) = Ok () \<and> pending (snd (sh_write P c s)) = pending s @ answer c) \<and>
     (\<forall>t s. case fst (sh_next P t s) of
        NLine l \<Rightarrow> pending s = l # pending (snd (sh_next P t s))
      | NTimeout \<Rightarrow> pending (snd (sh_next P t s)) = pending s
      | _ \<Rightarrow> True)"

lemma fifo_write: "fifo_shell P answer pending \<Longrightarrow> \<exists>s'. sh_write P c s = (Ok (), s') \<and> pending s' = pending s @ answer c"
  unfolding fifo_shell_def by (metis prod.collapse)

lemma fifo_next:
  assumes "fifo_shell P answer pending" "sh_next P t s = (n, s')"
  shows "n = NLine l \<Longrightarrow> pending s = l # pending s'" "n = NTimeout \<Longrightarrow> pending s' = pending s"
proof -
  have *: "case fst (sh_next P t s) of NLine l \<Rightarrow> pending s = l # pending (snd (sh_next P t s))
      | NTimeout \<Rightarrow> pending (snd (sh_next P t s)) = pending s | _ \<Rightarrow> True"
    using assms(1) unfolding fifo_shell_def by blast
  show "n = NLine l \<Longrightarrow> pending s = l # pending s'" "n = NTimeout \<Longrightarrow> pending s' = pending s"
    using * unfolding assms(2) by simp_all
qed

text \<open>The result of an answer, which does not depend on the lines logged before it.\<close>

definition answer_result :: "string list \<Rightarrow> string + string" where
  "answer_result r = pr_result (response_of [] r)"

lemma response_of_result: "pr_result (response_of ls r) = answer_result r"
proof -
  have "pr_result (response_of ls r) = pr_result (response_of ls' r)" for ls'
    by (induction r arbitrary: ls ls') (simp_all split: response_line.splits)
  then show ?thesis by (simp add: answer_result_def)
qed

lemma answer_result_Cons: "parse_response_line l \<in> {LogLine x, SkippedLine, AbortLine} \<Longrightarrow> answer_result (l # r) = answer_result r"
  unfolding answer_result_def by (auto simp: response_of_result)

lemma read_response_fifo:
  assumes "fifo_shell P answer pending"
  shows "one_response r \<Longrightarrow> pending s = r @ after \<Longrightarrow> read_response P t ls s = Some (x, s') \<Longrightarrow>
    (case x of
       Inr resp \<Rightarrow> resp = response_of ls r \<and> pending s' = after
     | Inl e \<Rightarrow> e = [''Timeout''] \<longrightarrow> (\<exists>r'. one_response r' \<and> answer_result r' = answer_result r \<and> pending s' = r' @ after))"
proof (induction r arbitrary: ls s)
  case (Cons l r)
  obtain n s1 where n: "sh_next P t s = (n, s1)" by fastforce
  note step = Cons.prems(3) [unfolded read_response.simps [of P t ls s] n]
  show ?case
  proof (cases n)
    case (NLine l')
    with fifo_next(1) [OF assms n] Cons.prems(2) have l: "l' = l" "pending s1 = r @ after" by auto
    show ?thesis
    proof (cases "parse_response_line l")
      case (ResultLine res)
      then show ?thesis using step NLine l Cons.prems(1) by auto
    next
      case (LogLine y)
      then show ?thesis using step NLine l Cons.prems(1) Cons.IH [OF _ l(2), of "ls @ [y]"] answer_result_Cons [of l y r]
        by (cases x) simp_all
    next
      case SkippedLine
      then show ?thesis using step NLine l Cons.prems(1) Cons.IH [OF _ l(2), of ls] answer_result_Cons [of l "[]" r]
        by (cases x) simp_all
    qed (use Cons.prems(1) in simp)
  next
    case NTimeout
    with fifo_next(2) [OF assms n] Cons.prems step show ?thesis by (auto intro!: exI [of _ "l # r"])
  qed (use step in \<open>auto simp: context_msg_def split: sum.splits\<close>)
qed simp

text \<open>The command as it is written.\<close>

definition written :: "string \<Rightarrow> string" where
  "written command = (if ends_with command [CHR 0x0A] then command else command @ [CHR 0x0A])"

lemma exec_reads_oldest:
  assumes "fifo_shell P answer pending" "ps_handle sh"
    and "pending (ps_proc sh) = concat rs" "\<forall>r\<in>set rs. one_response r" "one_response (answer (written c))"
    and "exec_with_timeout P c t sh = Some (Ret x, sh')"
  shows "case x of
      Inr resp \<Rightarrow> resp = response_of [] (hd (rs @ [answer (written c)])) \<and> pending (ps_proc sh') = concat (tl (rs @ [answer (written c)]))
    | Inl e \<Rightarrow> e = [''Timeout''] \<longrightarrow> (\<exists>rs'. map answer_result rs' = map answer_result (rs @ [answer (written c)]) \<and>
        pending (ps_proc sh') = concat rs' \<and> (\<forall>r\<in>set rs'. one_response r))"
    "ps_handle sh'"
proof -
  obtain s1 where w: "sh_write P (written c) (ps_proc sh) = (Ok (), s1)" and p: "pending s1 = concat rs @ answer (written c)"
    using fifo_write [OF assms(1)] assms(3) by metis
  from assms(2,6) w obtain s2 where r: "read_response P t [] s1 = Some (x, s2)" and sh': "sh' = sh\<lparr>ps_proc := s2\<rparr>"
    by (auto simp: exec_with_timeout_def op_then_def get_handle_or_start_def handle_exec_def written_def split: if_splits)
  obtain q qs where q: "rs @ [answer (written c)] = q # qs" by (cases "rs @ [answer (written c)]") auto
  then have all: "\<forall>r\<in>set (q # qs). one_response r" using assms(4,5) by (metis Un_iff empty_iff insert_iff list.set set_append)
  have "pending s1 = concat (q # qs)" using p unfolding q [symmetric] by simp
  then have "pending s1 = q @ concat qs" by simp
  from read_response_fifo [OF assms(1) _ this r] all
  have *: "case x of Inr resp \<Rightarrow> resp = response_of [] q \<and> pending s2 = concat qs
      | Inl e \<Rightarrow> e = [''Timeout''] \<longrightarrow> (\<exists>r'. one_response r' \<and> answer_result r' = answer_result q \<and> pending s2 = r' @ concat qs)" by simp
  show "case x of
      Inr resp \<Rightarrow> resp = response_of [] (hd (rs @ [answer (written c)])) \<and> pending (ps_proc sh') = concat (tl (rs @ [answer (written c)]))
    | Inl e \<Rightarrow> e = [''Timeout''] \<longrightarrow> (\<exists>rs'. map answer_result rs' = map answer_result (rs @ [answer (written c)]) \<and>
        pending (ps_proc sh') = concat rs' \<and> (\<forall>r\<in>set rs'. one_response r))"
  proof (cases x)
    case (Inl e)
    have "\<exists>rs'. map answer_result rs' = map answer_result (q # qs) \<and> pending s2 = concat rs' \<and> (\<forall>r\<in>set rs'. one_response r)"
      if "e = [''Timeout'']"
    proof -
      from * Inl that obtain r' where "one_response r'" "answer_result r' = answer_result q" "pending s2 = r' @ concat qs" by auto
      then show ?thesis using all by (intro exI [of _ "r' # qs"]) simp
    qed
    then show ?thesis by (simp add: Inl sh' q)
  qed (use * in \<open>simp add: q sh'\<close>)
  show "ps_handle sh'" using assms(2) by (simp add: sh')
qed

text \<open>
  C28. A shell answers with the oldest answer that has not been read: as long as no command times out it is
  the answer to the command sent, but after a timeout the answer stays in the pipe, so that each later
  command gets the result of an earlier one, one more behind with every further timeout.
\<close>

theorem exec_answers_oldest:
  assumes "fifo_shell P answer pending" "ps_handle sh"
    and "pending (ps_proc sh) = concat rs" "\<forall>r\<in>set rs. one_response r" "one_response (answer (written c))"
    and "exec_with_timeout P c t sh = Some (Ret x, sh')"
  shows "case x of
      Inr resp \<Rightarrow> resp = response_of [] (hd (rs @ [answer (written c)])) \<and> pending (ps_proc sh') = concat (tl (rs @ [answer (written c)]))
    | Inl e \<Rightarrow> e = [''Timeout''] \<longrightarrow> (\<exists>rs'. map answer_result rs' = map answer_result (rs @ [answer (written c)]) \<and>
        pending (ps_proc sh') = concat rs' \<and> (\<forall>r\<in>set rs'. one_response r))"
  by (rule exec_reads_oldest(1) [OF assms])

text \<open>A process that answers each command with its text, and times out as told.\<close>

definition demo_shell :: "(bool list \<times> string list) shell_proc" where
  "demo_shell =
     \<lparr>sh_spawn = (\<lambda>s. (Ok (), s)),
      sh_write = (\<lambda>c (late, ls). (Ok (), (late, ls @ [''| OK: '' @ c]))),
      sh_next = (\<lambda>t (late, ls).
        case (late, ls) of
          (False # late', l # ls') \<Rightarrow> (NLine l, (late', ls'))
        | (_, ls) \<Rightarrow> (NTimeout, (tl late, ls)))\<rparr>"

lemma demo_shell_fifo: "fifo_shell demo_shell (\<lambda>c. [''| OK: '' @ c]) snd"
  unfolding fifo_shell_def demo_shell_def by (auto split: list.splits bool.splits)

lemma parse_ok_line: "parse_response_line (''| OK: '' @ s) = ResultLine (Ok s)"
  by (simp add: parse_response_line_def starts_with_def after_prefix_def)

theorem exec_answers_oldest_witness:
  "\<exists>resp sh'. exec_with_timeout demo_shell ''b'' DEFAULT_TIMEOUT \<lparr>ps_handle = True, ps_proc = ([False], [''| OK: a''])\<rparr> = Some (Ret (Ok resp), sh') \<and>
     pr_result resp = Ok ''a'' \<and> snd (ps_proc sh') = [''| OK: b'' @ [CHR 0x0A]]"
proof -
  let ?sh = "\<lparr>ps_handle = True, ps_proc = ([False], [''| OK: a''])\<rparr>"
  have a: "parse_response_line ''| OK: a'' = ResultLine (Ok ''a'')" using parse_ok_line [of "''a''"] by simp
  have "read_response demo_shell DEFAULT_TIMEOUT [] ([False], [''| OK: a'', ''| OK: b'' @ [CHR 0x0A]]) =
      Some (Ok \<lparr>pr_lines = [], pr_result = Ok ''a''\<rparr>, ([], [''| OK: b'' @ [CHR 0x0A]]))"
    by (subst read_response.simps) (simp add: demo_shell_def a)
  then have run: "exec_with_timeout demo_shell ''b'' DEFAULT_TIMEOUT ?sh =
      Some (Ret (Ok \<lparr>pr_lines = [], pr_result = Ok ''a''\<rparr>), \<lparr>ps_handle = True, ps_proc = ([], [''| OK: b'' @ [CHR 0x0A]])\<rparr>)"
    by (simp add: exec_with_timeout_def op_then_def get_handle_or_start_def handle_exec_def MAX_COMMAND_LENGTH_def command_name_def
        index_of_def contains_def starts_with_def ends_with_def Let_def) (simp add: demo_shell_def)
  have w: "written ''b'' = ''b'' @ [CHR 0x0A]" by (simp add: written_def ends_with_def starts_with_def)
  from exec_answers_oldest [OF demo_shell_fifo _ _ _ _ run, of "[[''| OK: a'']]"] run show ?thesis
    using parse_ok_line [of "''b'' @ [CHR 0x0A]"] by (auto simp: w a)
qed

section \<open>Commands\<close>

text \<open>A reader of calls with string arguments, as in \<open>f("a", "b")\<close>.\<close>

fun unquote :: "string list \<Rightarrow> string list option" where
  "unquote [s, a, t] = (if s = [] \<and> t = [] then Some [a] else None)"
| "unquote (s # a # t # u # ws) =
     (if s = [] \<and> t = '', '' then map_option (Cons a) (unquote ([] # u # ws)) else None)"
| "unquote _ = None"

definition read_call :: "string \<Rightarrow> (string \<times> string list) option" where
  "read_call command =
     Option.bind (split_once CHR ''('' command) (\<lambda>(f, rest).
       if ends_with rest '')'' then map_option (Pair f) (unquote (split_on CHR 0x22 (butlast rest))) else None)"

definition plain :: "string \<Rightarrow> bool" where
  "plain s \<longleftrightarrow> CHR 0x22 \<notin> set s"

lemma unquote_args:
  "args \<noteq> [] \<Longrightarrow> \<forall>a\<in>set args. plain a \<Longrightarrow> unquote (split_on CHR 0x22 (join '', '' (map lua_str args))) = Some args"
proof (induction args rule: induct_list012)
  case (2 x)
  then show ?case by (simp add: lua_str_def plain_def split_on_append_sep)
next
  case (3 x y zs)
  obtain J where J: "join '', '' (map lua_str (y # zs)) = CHR 0x22 # J" by (cases zs) (auto simp: lua_str_def)
  obtain u ws where ws: "split_on CHR 0x22 J = u # ws" by (metis list.exhaust split_on_not_Nil)
  have "unquote (split_on CHR 0x22 (CHR 0x22 # J)) = Some (y # zs)" using "3.IH"(2) "3.prems" unfolding J by simp
  then have IH: "unquote ([] # u # ws) = Some (y # zs)" by (simp add: ws)
  have A: "join '', '' (map lua_str (x # y # zs)) = CHR 0x22 # x @ CHR 0x22 # '', '' @ CHR 0x22 # J"
    using J by (simp add: lua_str_def)
  have B: "split_on CHR 0x22 (CHR 0x22 # x @ CHR 0x22 # '', '' @ CHR 0x22 # J) = [] # x # '', '' # u # ws"
    using "3.prems" split_on_append_sep [of "CHR 0x22" x] split_on_append_sep [of "CHR 0x22" "'', ''" J] by (simp add: plain_def ws)
  show ?case unfolding A B using IH by simp
qed simp

lemma read_lua_call:
  assumes "CHR ''('' \<notin> set f" "args \<noteq> []" "\<forall>a\<in>set args. plain a"
  shows "read_call (lua_call f (map lua_str args)) = Some (f, args)"
  using assms by (simp add: read_call_def lua_call_def unquote_args ends_with_iff butlast_append)

text \<open>
  As long as no argument contains a double quote, the command that creates an account can be read back:
  it names exactly the account, the password and the role asked for.
\<close>

theorem user_create_roundtrip:
  assumes "plain jid" "plain password" "\<forall>r\<in>set_option role. plain r"
  shows "read_call (user_create_command jid password role) = Some (''user:create'', jid # password # (case role of None \<Rightarrow> [] | Some r \<Rightarrow> [r]))"
  using assms read_lua_call [of "''user:create''" "jid # password # (case role of None \<Rightarrow> [] | Some r \<Rightarrow> [r])"]
  by (auto simp: user_create_command_def opt_arg_def split: option.splits)

theorem user_create_roundtrip_witness:
  "read_call (user_create_command ''a@d.org'' ''s3cret'' (Some ''prosody:admin'')) = Some (''user:create'', [''a@d.org'', ''s3cret'', ''prosody:admin''])"
  using user_create_roundtrip [of "''a@d.org''" "''s3cret''" "Some ''prosody:admin''"] by (simp add: plain_def)

text \<open>The arguments are not escaped: a password with quotes can carry a role of its own.\<close>

theorem password_can_carry_role:
  "user_create_command jid (password @ [CHR 0x22] @ '', '' @ [CHR 0x22] @ role) None = user_create_command jid password (Some role)"
  by (simp add: user_create_command_def opt_arg_def lua_call_def lua_str_def)

text \<open>What is logged of a call never depends on its arguments.\<close>

lemma index_of_append: "c \<notin> set a \<Longrightarrow> index_of c (a @ c # b) = Some (length a)"
proof -
  assume "c \<notin> set a"
  then have "takeWhile (\<lambda>d. d \<noteq> c) (a @ c # b) = a" by (induction a) auto
  then show ?thesis by (simp add: index_of_def)
qed

lemma command_name_call:
  assumes "CHR ''('' \<notin> set f" "CHR '' '' \<notin> set f"
  shows "command_name (lua_call f args) = Ret f"
proof -
  have m: "index_of CHR ''('' (lua_call f args) = Some (length f)" using assms(1) by (simp add: lua_call_def index_of_append)
  have "length f < j" if "index_of CHR '' '' (lua_call f args) = Some j" for j
  proof -
    from that have "j = length (takeWhile (\<lambda>d. d \<noteq> CHR '' '') (f @ ''('' @ join '', '' args @ '')''))"
      by (simp add: index_of_def lua_call_def split: if_splits)
    also have "takeWhile (\<lambda>d. d \<noteq> CHR '' '') (f @ ''('' @ join '', '' args @ '')'') =
        f @ CHR ''('' # takeWhile (\<lambda>d. d \<noteq> CHR '' '') (join '', '' args @ '')'')"
      using assms(2) by (subst takeWhile_append2) auto
    finally show ?thesis by simp
  qed
  moreover have "take (length f) (lua_call f args) = f" by (simp add: lua_call_def)
  ultimately show ?thesis by (cases "index_of CHR '' '' (lua_call f args)") (simp_all add: command_name_def m Let_def)
qed

theorem credentials_not_logged:
  "command_name (user_create_command jid password role) = Ret ''user:create''"
  "command_name (lua_call ''user:password'' [lua_str jid, lua_str password]) = Ret ''user:password''"
  by (simp_all add: user_create_command_def command_name_call)

text \<open>A long argument makes the command too long: the server panics instead of answering an error.\<close>

theorem long_password_panics:
  assumes "MAX_COMMAND_LENGTH \<le> length password" "ps_handle sh"
  shows "user_create P jid password role sh = Some (Panic, sh)"
proof -
  have "length password \<le> length (user_create_command jid password role)"
    by (cases role) (simp_all add: user_create_command_def lua_call_def lua_str_def opt_arg_def)
  with assms(1) have "\<not> length (user_create_command jid password role) < MAX_COMMAND_LENGTH" by simp
  with assms(2) show ?thesis
    by (simp add: user_create_def op_then_def shell_exec_def exec_with_timeout_def get_handle_or_start_def handle_exec_def)
qed

theorem long_password_panics_witness:
  "user_create demo_shell ''a@d.org'' (replicate 1024 CHR ''x'') None \<lparr>ps_handle = True, ps_proc = ([], [])\<rparr> =
     Some (Panic, \<lparr>ps_handle = True, ps_proc = ([], [])\<rparr>)"
  by (rule long_password_panics) (simp_all add: MAX_COMMAND_LENGTH_def)

end
