(* ===== verification/Token_Cache.thy ===== *)
theory Token_Cache
  imports Prelude "HOL-Library.AList"
begin

text \<open>
  \<^verbatim>\<open>api/src/util/cache.rs\<close>, \<^verbatim>\<open>api/src/secrets_store.rs\<close> and \<^verbatim>\<open>api/src/secrets_service.rs\<close>: the cache of
  service account tokens with its expirations, the passwords, and the operations on both.  The queue of
  expirations (\<open>tokio_util\<close>) is the parameter \<open>delay_lib\<close>, with what its documentation promises in
  \<open>delay_laws\<close>; time is in milliseconds.
\<close>

section \<open>The queue of expirations\<close>

record ('q, 'k) delay_lib =
  dq_new :: 'q
  dq_insert :: "'k \<Rightarrow> nat \<Rightarrow> 'q \<Rightarrow> nat \<times> 'q"
  dq_remove :: "nat \<Rightarrow> 'q \<Rightarrow> 'q run"
  dq_poll :: "nat \<Rightarrow> 'q \<Rightarrow> 'k option \<times> 'q"

text \<open>
  \<open>items\<close> gives the values in the queue and when they expire, by their keys.  Inserting takes an unused
  key, removing a missing one panics, and polling takes out a value that has expired, if there is one.
\<close>

definition delay_laws :: "('q, 'k) delay_lib \<Rightarrow> ('q \<Rightarrow> (nat \<times> 'k \<times> nat) list) \<Rightarrow> bool" where
  "delay_laws D items \<longleftrightarrow>
     items (dq_new D) = [] \<and>
     (\<forall>k t q d q'. dq_insert D k t q = (d, q') \<longrightarrow> d \<notin> fst ` set (items q) \<and> set (items q') = insert (d, k, t) (set (items q))) \<and>
     (\<forall>d q. dq_remove D d q = Panic \<longrightarrow> d \<notin> fst ` set (items q)) \<and>
     (\<forall>d q q'. dq_remove D d q = Ret q' \<longrightarrow> set (items q') = {x \<in> set (items q). fst x \<noteq> d}) \<and>
     (\<forall>now q q'. dq_poll D now q = (None, q') \<longrightarrow> items q' = items q \<and> (\<forall>(d, k, t)\<in>set (items q). now < t)) \<and>
     (\<forall>now q k q'. dq_poll D now q = (Some k, q') \<longrightarrow>
        (\<exists>d t. (d, k, t) \<in> set (items q) \<and> t \<le> now \<and> set (items q') = set (items q) - {(d, k, t)} \<and> length (items q') < length (items q)))"

section \<open>The cache\<close>

record ('q, 'k, 'v) cache =
  ca_entries :: "'k \<rightharpoonup> 'v \<times> nat"
  ca_expirations :: 'q
  ca_ttl :: nat

definition cache_new :: "('q, 'k) delay_lib \<Rightarrow> nat \<Rightarrow> ('q, 'k, 'v) cache" where
  "cache_new D ttl = \<lparr>ca_entries = Map.empty, ca_expirations = dq_new D, ca_ttl = ttl\<rparr>"

text \<open>\<open>insert\<close> returns the value it replaces, whose expiration stays in the queue.\<close>

definition cache_insert ::
  "('q, 'k) delay_lib \<Rightarrow> nat \<Rightarrow> 'k \<Rightarrow> 'v \<Rightarrow> ('q, 'k, 'v) cache \<Rightarrow> 'v option \<times> ('q, 'k, 'v) cache" where
  "cache_insert D now key v c =
     (if ca_ttl c = 0 then (None, c)
      else
        (let (delay, q) = dq_insert D key (now + ca_ttl c) (ca_expirations c) in
           (map_option fst (ca_entries c key), c\<lparr>ca_entries := (ca_entries c)(key \<mapsto> (v, delay)), ca_expirations := q\<rparr>)))"

definition contains_key :: "('q, 'k, 'v) cache \<Rightarrow> 'k \<Rightarrow> bool" where
  "contains_key c key = (ca_entries c key \<noteq> None)"

definition cache_get :: "('q, 'k, 'v) cache \<Rightarrow> 'k \<Rightarrow> 'v option" where
  "cache_get c key = map_option fst (ca_entries c key)"

definition cache_take :: "('q, 'k) delay_lib \<Rightarrow> 'k \<Rightarrow> ('q, 'k, 'v) cache \<Rightarrow> ('v option \<times> ('q, 'k, 'v) cache) run" where
  "cache_take D key c =
     (case ca_entries c key of
        Some (v, delay) \<Rightarrow>
          (case dq_remove D delay (ca_expirations c) of
             Panic \<Rightarrow> Panic
           | Ret q \<Rightarrow> Ret (Some v, c\<lparr>ca_entries := (ca_entries c)(key := None), ca_expirations := q\<rparr>))
      | None \<Rightarrow> Ret (None, c))"

text \<open>\<open>poll_purge\<close>: as long as an expiration is due.\<close>

partial_function (option) poll_purge :: "('q, 'k) delay_lib \<Rightarrow> nat \<Rightarrow> ('q, 'k, 'v) cache \<Rightarrow> ('q, 'k, 'v) cache option" where
  "poll_purge D now c =
     (case dq_poll D now (ca_expirations c) of
        (r, q) \<Rightarrow>
          (case r of
             None \<Rightarrow> Some (c\<lparr>ca_expirations := q\<rparr>)
           | Some key \<Rightarrow> poll_purge D now (c\<lparr>ca_entries := (ca_entries c)(key := None), ca_expirations := q\<rparr>)))"

section \<open>Secrets\<close>

text \<open>\<open>mul_f32(0.96875)\<close>, which is 31/32, without the rounding of floats.\<close>

definition tokens_cache_ttl :: "nat \<Rightarrow> nat" where
  "tokens_cache_ttl token_ttl = token_ttl * 31 div 32"

record ('q, 'k) secrets =
  se_passwords :: "'k \<rightharpoonup> string"
  se_tokens :: "('q, 'k, string) cache"

definition secrets_new :: "('q, 'k) delay_lib \<Rightarrow> nat \<Rightarrow> ('q, 'k) secrets" where
  "secrets_new D token_ttl = \<lparr>se_passwords = Map.empty, se_tokens = cache_new D (tokens_cache_ttl token_ttl)\<rparr>"

text \<open>What Prosody answers to a login with a password, and to the revocation of a token.\<close>

record 'k oauth2 =
  oa_log_in :: "'k \<Rightarrow> string \<Rightarrow> anyhow + string"
  oa_revoke :: "string \<Rightarrow> anyhow + unit"

definition get_password :: "('q, 'k) secrets \<Rightarrow> 'k \<Rightarrow> anyhow + string" where
  "get_password s jid = (case se_passwords s jid of Some p \<Rightarrow> Ok p | None \<Rightarrow> Err [''No password stored''])"

definition set_password ::
  "('q, 'k) delay_lib \<Rightarrow> 'k oauth2 \<Rightarrow> 'k \<Rightarrow> string \<Rightarrow> ('q, 'k) secrets \<Rightarrow> (anyhow + unit) run \<times> ('q, 'k) secrets" where
  "set_password D oauth jid password s =
     (case cache_take D jid (se_tokens s) of
        Panic \<Rightarrow> (Panic, s)
      | Ret (previous, c) \<Rightarrow>
          (let s1 = s\<lparr>se_tokens := c\<rparr> in
             case (case previous of Some token \<Rightarrow> oa_revoke oauth token | None \<Rightarrow> Ok ()) of
               Inl e \<Rightarrow> (Ret (Err (context_msg ''Could not revoke auth token after password update'' e)), s1)
             | Inr _ \<Rightarrow> (Ret (Ok ()), s1\<lparr>se_passwords := (se_passwords s1)(jid \<mapsto> password)\<rparr>)))"

text \<open>\<open>has_node\<close>: the JID has a local part.\<close>

definition get_token ::
  "('q, 'k) delay_lib \<Rightarrow> 'k oauth2 \<Rightarrow> nat \<Rightarrow> bool \<Rightarrow> 'k \<Rightarrow> ('q, 'k) secrets \<Rightarrow> (anyhow + string) run \<times> ('q, 'k) secrets" where
  "get_token D oauth now has_node jid s =
     (let r =
        (if contains_key (se_tokens s) jid then Ok s
         else if \<not> has_node then Err [''JID must contain a localpart'']
         else try_bind (get_password s jid) (\<lambda>password.
              try_bind (oa_log_in oauth jid password) (\<lambda>token.
              Ok (s\<lparr>se_tokens := snd (cache_insert D now jid token (se_tokens s))\<rparr>))))
      in case r of
           Inl e \<Rightarrow> (Ret (Err e), s)
         | Inr s' \<Rightarrow> ((case cache_get (se_tokens s') jid of Some t \<Rightarrow> Ret (Ok t) | None \<Rightarrow> Panic), s'))"

definition save_token ::
  "('q, 'k) delay_lib \<Rightarrow> nat \<Rightarrow> 'k \<Rightarrow> string \<Rightarrow> ('q, 'k) secrets \<Rightarrow> string option \<times> ('q, 'k) secrets" where
  "save_token D now jid token s =
     (let (previous, c) = cache_insert D now jid token (se_tokens s) in (previous, s\<lparr>se_tokens := c\<rparr>))"

section \<open>The purge task\<close>

text \<open>
  The cache with the clock and the time of the next tick of the purge task: \<open>interval\<close> ticks at once, then
  every \<open>ttl\<close>; the task does not run when the time to live is zero.
\<close>

record ('q, 'k) token_store =
  tk_now :: nat
  tk_next :: nat
  tk_secrets :: "('q, 'k) secrets"

inductive token_step ::
  "('q, 'k) delay_lib \<Rightarrow> 'k oauth2 \<Rightarrow> ('q, 'k) token_store \<Rightarrow> ('q, 'k) token_store \<Rightarrow> bool" for D oauth where
  pass: "tk_now w + d \<le> tk_next w \<or> ca_ttl (se_tokens (tk_secrets w)) = 0 \<Longrightarrow> token_step D oauth w (w\<lparr>tk_now := tk_now w + d\<rparr>)"
| tick: "tk_now w = tk_next w \<Longrightarrow> ca_ttl (se_tokens (tk_secrets w)) \<noteq> 0 \<Longrightarrow>
    poll_purge D (tk_now w) (se_tokens (tk_secrets w)) = Some c \<Longrightarrow>
    token_step D oauth w (w\<lparr>tk_next := tk_next w + ca_ttl (se_tokens (tk_secrets w)), tk_secrets := (tk_secrets w)\<lparr>se_tokens := c\<rparr>\<rparr>)"
| getting: "get_token D oauth (tk_now w) node jid (tk_secrets w) = (r, s) \<Longrightarrow> token_step D oauth w (w\<lparr>tk_secrets := s\<rparr>)"
| saving: "save_token D (tk_now w) jid token (tk_secrets w) = (r, s) \<Longrightarrow> token_step D oauth w (w\<lparr>tk_secrets := s\<rparr>)"
| setting: "set_password D oauth jid password (tk_secrets w) = (r, s) \<Longrightarrow> token_step D oauth w (w\<lparr>tk_secrets := s\<rparr>)"

inductive token_reach :: "('q, 'k) delay_lib \<Rightarrow> 'k oauth2 \<Rightarrow> nat \<Rightarrow> ('q, 'k) token_store \<Rightarrow> bool" for D oauth token_ttl where
  token_start: "token_reach D oauth token_ttl \<lparr>tk_now = 0, tk_next = 0, tk_secrets = secrets_new D token_ttl\<rparr>"
| token_next: "token_reach D oauth token_ttl w \<Longrightarrow> token_step D oauth w w' \<Longrightarrow> token_reach D oauth token_ttl w'"

section \<open>Purging\<close>

lemma delay_poll:
  assumes "delay_laws D items"
  shows "dq_poll D now q = (None, q') \<Longrightarrow> items q' = items q \<and> (\<forall>(d, k, t)\<in>set (items q). now < t)"
    and "dq_poll D now q = (Some k, q') \<Longrightarrow> \<exists>d t. (d, k, t) \<in> set (items q) \<and> t \<le> now \<and> set (items q') = set (items q) - {(d, k, t)} \<and>
      length (items q') < length (items q)"
  using assms unfolding delay_laws_def by (elim conjE, meson)+

lemma delay_insert:
  assumes "delay_laws D items" "dq_insert D k t q = (d, q')"
  shows "d \<notin> fst ` set (items q)" "set (items q') = insert (d, k, t) (set (items q))"
  using assms unfolding delay_laws_def by (elim conjE, meson)+

lemma delay_remove:
  assumes "delay_laws D items"
  shows "dq_remove D d q = Ret q' \<Longrightarrow> set (items q') = {x \<in> set (items q). fst x \<noteq> d}"
    and "dq_remove D d q = Panic \<Longrightarrow> d \<notin> fst ` set (items q)"
  using assms unfolding delay_laws_def by (elim conjE, meson)+

text \<open>A purge ends, and drops every key that has an expiration which is due.\<close>

definition due :: "('q \<Rightarrow> (nat \<times> 'k \<times> nat) list) \<Rightarrow> nat \<Rightarrow> 'q \<Rightarrow> 'k \<Rightarrow> bool" where
  "due items now q k \<longleftrightarrow> (\<exists>d t. (d, k, t) \<in> set (items q) \<and> t \<le> now)"

lemma poll_purge_spec:
  assumes "delay_laws D items"
  shows "\<exists>c'. poll_purge D now c = Some c' \<and> ca_ttl c' = ca_ttl c \<and>
    set (items (ca_expirations c')) = {(d, k, t) \<in> set (items (ca_expirations c)). now < t} \<and>
    ca_entries c' = (\<lambda>k. if due items now (ca_expirations c) k then None else ca_entries c k)"
proof (induction "length (items (ca_expirations c))" arbitrary: c rule: less_induct)
  case less
  obtain r q where r: "dq_poll D now (ca_expirations c) = (r, q)" by fastforce
  show ?case
  proof (cases r)
    case None
    with delay_poll(1) [OF assms r [unfolded None]] show ?thesis
      by (subst poll_purge.simps) (auto simp: r due_def fun_eq_iff)
  next
    case (Some key)
    from delay_poll(2) [OF assms r [unfolded Some]] obtain d t where
      k: "(d, key, t) \<in> set (items (ca_expirations c))" "t \<le> now" "set (items q) = set (items (ca_expirations c)) - {(d, key, t)}"
      "length (items q) < length (items (ca_expirations c))" by blast
    let ?c = "c\<lparr>ca_entries := (ca_entries c)(key := None), ca_expirations := q\<rparr>"
    have "poll_purge D now c = poll_purge D now ?c" by (subst poll_purge.simps) (simp add: r Some)
    moreover have "due items now (ca_expirations c) k' \<longleftrightarrow> k' = key \<or> due items now q k'" for k'
      using k by (auto simp: due_def)
    ultimately show ?thesis using less [of ?c] k by (auto simp: fun_eq_iff)
  qed
qed

section \<open>Invariant\<close>

text \<open>
  The expiration of every entry is in the queue, its keys are unique, and no expiration is so old that
  the last tick should have removed it.
\<close>

definition cache_inv :: "('q \<Rightarrow> (nat \<times> 'k \<times> nat) list) \<Rightarrow> ('q, 'k, 'v) cache \<Rightarrow> bool" where
  "cache_inv items c \<longleftrightarrow>
     (\<forall>k v d. ca_entries c k = Some (v, d) \<longrightarrow> (\<exists>t. (d, k, t) \<in> set (items (ca_expirations c)))) \<and>
     inj_on fst (set (items (ca_expirations c)))"

lemma cache_inv_fun: "cache_inv items c \<Longrightarrow> (d, k, t) \<in> set (items (ca_expirations c)) \<Longrightarrow>
    (d, k', t') \<in> set (items (ca_expirations c)) \<Longrightarrow> k' = k \<and> t' = t"
  unfolding cache_inv_def by (auto dest: inj_onD [where x = "(d, k, t)" and y = "(d, k', t')"])

lemma cache_inv_entry: "cache_inv items c \<Longrightarrow> ca_entries c k = Some (v, d) \<Longrightarrow> \<exists>t. (d, k, t) \<in> set (items (ca_expirations c))"
  by (simp add: cache_inv_def)

lemma cache_insert_inv:
  assumes "delay_laws D items" "cache_inv items c" "cache_insert D now k v c = (r, c')"
  shows "cache_inv items c' \<and> ca_ttl c' = ca_ttl c \<and>
    set (items (ca_expirations c')) \<subseteq> set (items (ca_expirations c)) \<union> (if ca_ttl c = 0 then {} else {(d, k', t). t = now + ca_ttl c})"
proof (cases "ca_ttl c = 0")
  case False
  obtain d q where q: "dq_insert D k (now + ca_ttl c) (ca_expirations c) = (d, q)" by fastforce
  note ins = delay_insert [OF assms(1) q]
  have c': "c' = c\<lparr>ca_entries := (ca_entries c)(k \<mapsto> (v, d)), ca_expirations := q\<rparr>"
    using assms(3) False by (simp add: cache_insert_def q)
  have "inj_on fst (set (items q))" using assms(2) ins by (auto simp: cache_inv_def)
  moreover have "\<exists>t. (d', k', t) \<in> set (items q)" if "ca_entries c' k' = Some (v', d')" for k' v' d'
    using that cache_inv_entry [OF assms(2)] ins(2) by (auto simp: c' split: if_splits)
  ultimately show ?thesis using ins(2) False by (auto simp: c' cache_inv_def)
qed (use assms in \<open>simp add: cache_insert_def\<close>)

lemma cache_take_inv:
  assumes "delay_laws D items" "cache_inv items c"
  shows "\<exists>r c'. cache_take D k c = Ret (r, c') \<and> cache_inv items c' \<and> ca_ttl c' = ca_ttl c \<and>
    set (items (ca_expirations c')) \<subseteq> set (items (ca_expirations c))"
proof (cases "ca_entries c k")
  case (Some vd)
  obtain v d where vd: "vd = (v, d)" by fastforce
  obtain t where t: "(d, k, t) \<in> set (items (ca_expirations c))" using cache_inv_entry [OF assms(2)] Some vd by blast
  have "dq_remove D d (ca_expirations c) \<noteq> Panic"
    using delay_remove(2) [OF assms(1), of d "ca_expirations c"] t by force
  then obtain q where q: "dq_remove D d (ca_expirations c) = Ret q" by (cases "dq_remove D d (ca_expirations c)") auto
  note rem = delay_remove(1) [OF assms(1) q]
  let ?c = "c\<lparr>ca_entries := (ca_entries c)(k := None), ca_expirations := q\<rparr>"
  have "\<exists>t. (d', k', t) \<in> set (items q)" if e: "ca_entries ?c k' = Some (v', d')" for k' v' d'
  proof -
    from e have k': "k' \<noteq> k" "ca_entries c k' = Some (v', d')" by (auto split: if_splits)
    then obtain t' where t': "(d', k', t') \<in> set (items (ca_expirations c))" using cache_inv_entry [OF assms(2)] by blast
    with cache_inv_fun [OF assms(2) t] k'(1) have "d' \<noteq> d" by blast
    with t' rem show ?thesis by auto
  qed
  moreover have "inj_on fst (set (items q))" using assms(2) rem by (auto simp: cache_inv_def inj_on_def)
  ultimately have "cache_inv items ?c" by (simp add: cache_inv_def)
  moreover have "cache_take D k c = Ret (Some v, ?c)" by (simp add: cache_take_def Some vd q)
  ultimately show ?thesis using rem by auto
qed (use assms(2) in \<open>simp add: cache_take_def\<close>)

definition store_inv :: "('q \<Rightarrow> (nat \<times> 'k \<times> nat) list) \<Rightarrow> nat \<Rightarrow> ('q, 'k) token_store \<Rightarrow> bool" where
  "store_inv items ttl w \<longleftrightarrow>
     (let c = se_tokens (tk_secrets w) in
        ca_ttl c = ttl \<and> cache_inv items c \<and> (ttl \<noteq> 0 \<longrightarrow> tk_now w \<le> tk_next w \<and> tk_next w \<le> tk_now w + ttl) \<and>
        (\<forall>(d, k, t)\<in>set (items (ca_expirations c)). ttl \<noteq> 0 \<and> ttl \<le> t \<and> t \<le> tk_now w + ttl \<and> tk_next w < t + ttl))"

lemma get_token_inv:
  assumes "delay_laws D items" "cache_inv items (se_tokens s)" "get_token D oauth now node jid s = (r, s')"
  shows "cache_inv items (se_tokens s') \<and> ca_ttl (se_tokens s') = ca_ttl (se_tokens s) \<and>
    set (items (ca_expirations (se_tokens s'))) \<subseteq> set (items (ca_expirations (se_tokens s))) \<union>
      (if ca_ttl (se_tokens s) = 0 then {} else {(d, k', t). t = now + ca_ttl (se_tokens s)})"
proof -
  have "s' = s \<or> (\<exists>token. se_tokens s' = snd (cache_insert D now jid token (se_tokens s)))"
    using assms(3) by (auto simp: get_token_def try_bind_def split: sum.splits if_splits)
  then show ?thesis
  proof (elim disjE exE)
    fix token assume t: "se_tokens s' = snd (cache_insert D now jid token (se_tokens s))"
    show ?thesis using cache_insert_inv [OF assms(1,2), of now jid token "fst (cache_insert D now jid token (se_tokens s))" "se_tokens s'"] t
      by simp
  qed (use assms(2) in simp)
qed

lemma set_password_inv:
  assumes "delay_laws D items" "cache_inv items (se_tokens s)" "set_password D oauth jid password s = (r, s')"
  shows "r \<noteq> Panic \<and> cache_inv items (se_tokens s') \<and> ca_ttl (se_tokens s') = ca_ttl (se_tokens s) \<and>
    set (items (ca_expirations (se_tokens s'))) \<subseteq> set (items (ca_expirations (se_tokens s)))"
proof -
  obtain p c where c: "cache_take D jid (se_tokens s) = Ret (p, c)" "cache_inv items c" "ca_ttl c = ca_ttl (se_tokens s)"
    "set (items (ca_expirations c)) \<subseteq> set (items (ca_expirations (se_tokens s)))"
    using cache_take_inv [OF assms(1,2), of jid] by blast
  then have "r \<noteq> Panic \<and> se_tokens s' = c" using assms(3) by (auto simp: set_password_def Let_def split: sum.splits option.splits)
  with c show ?thesis by simp
qed

lemma token_step_inv:
  assumes "delay_laws D items" "token_step D oauth w w'" "store_inv items ttl w"
  shows "store_inv items ttl w'"
  using assms(2)
proof cases
  case (pass d)
  then show ?thesis using assms(3) by (fastforce simp: store_inv_def Let_def)
next
  case (tick c)
  have inv: "ca_ttl (se_tokens (tk_secrets w)) = ttl" "cache_inv items (se_tokens (tk_secrets w))" using assms(3) by (simp_all add: store_inv_def Let_def)
  from poll_purge_spec [OF assms(1), of "tk_now w" "se_tokens (tk_secrets w)"] tick(4)
  have c: "ca_ttl c = ttl"
    "set (items (ca_expirations c)) = {(d, k, t) \<in> set (items (ca_expirations (se_tokens (tk_secrets w)))). tk_now w < t}"
    "ca_entries c = (\<lambda>k. if due items (tk_now w) (ca_expirations (se_tokens (tk_secrets w))) k then None else ca_entries (se_tokens (tk_secrets w)) k)"
    using inv(1) by auto
  have "\<exists>t. (d, k, t) \<in> set (items (ca_expirations c))" if e: "ca_entries c k = Some (v, d)" for k v d
  proof -
    from e c(3) have nd: "\<not> due items (tk_now w) (ca_expirations (se_tokens (tk_secrets w))) k"
      and "ca_entries (se_tokens (tk_secrets w)) k = Some (v, d)" by (auto split: if_splits)
    then obtain t where "(d, k, t) \<in> set (items (ca_expirations (se_tokens (tk_secrets w))))" using cache_inv_entry [OF inv(2)] by blast
    with nd c(2) show ?thesis by (force simp: due_def)
  qed
  moreover have "inj_on fst (set (items (ca_expirations c)))"
    using inv(2) by (auto simp: cache_inv_def c(2) intro: inj_on_subset)
  ultimately have "cache_inv items c" by (simp add: cache_inv_def)
  then show ?thesis using assms(3) tick(1,2,3) c(1,2) by (auto simp: store_inv_def Let_def)
next
  case (getting node jid r s)
  have "cache_inv items (se_tokens (tk_secrets w))" using assms(3) by (simp add: store_inv_def Let_def)
  from get_token_inv [OF assms(1) this getting(2)] show ?thesis
    using assms(3) getting(1) by (fastforce simp: store_inv_def Let_def split: if_splits)
next
  case (saving jid token r s)
  have "cache_inv items (se_tokens (tk_secrets w))" using assms(3) by (simp add: store_inv_def Let_def)
  moreover obtain r' c where c: "cache_insert D (tk_now w) jid token (se_tokens (tk_secrets w)) = (r', c)" by fastforce
  ultimately show ?thesis using cache_insert_inv [OF assms(1) _ c] assms(3) saving
    by (fastforce simp: store_inv_def save_token_def Let_def split: if_splits)
next
  case (setting jid password r s)
  have "cache_inv items (se_tokens (tk_secrets w))" using assms(3) by (simp add: store_inv_def Let_def)
  from set_password_inv [OF assms(1) this setting(2)] show ?thesis using assms(3) setting(1) by (auto simp: store_inv_def Let_def)
qed

lemma token_reach_inv:
  assumes "delay_laws D items"
  shows "token_reach D oauth token_ttl w \<Longrightarrow> store_inv items (tokens_cache_ttl token_ttl) w"
proof (induction rule: token_reach.induct)
  case token_start
  have "items (dq_new D) = []" using assms by (simp add: delay_laws_def)
  then show ?case by (simp add: store_inv_def secrets_new_def cache_new_def cache_inv_def)
next
  case (token_next w w')
  then show ?case using token_step_inv [OF assms] by blast
qed


text \<open>A queue that is the list of its values.\<close>

definition list_delays :: "((nat \<times> 'k \<times> nat) list, 'k) delay_lib" where
  "list_delays =
     \<lparr>dq_new = [],
      dq_insert = (\<lambda>k t xs. let d = Suc (fold max (map fst xs) 0) in (d, (d, k, t) # xs)),
      dq_remove = (\<lambda>d xs. if d \<in> fst ` set xs then Ret (filter (\<lambda>x. fst x \<noteq> d) xs) else Panic),
      dq_poll = (\<lambda>now xs.
        case find (\<lambda>(d, k, t). t \<le> now) xs of
          None \<Rightarrow> (None, xs)
        | Some (d, k, t) \<Rightarrow> (Some k, filter (\<lambda>x. x \<noteq> (d, k, t)) xs))\<rparr>"

lemma fold_max_ge: "x \<in> set xs \<Longrightarrow> x \<le> fold max xs a" "(a::nat) \<le> fold max xs a"
  by (induction xs arbitrary: a) (auto, (metis max.cobounded1 max.cobounded2 order_trans)+)

lemma list_poll:
  shows "dq_poll list_delays now q = (None, q') \<Longrightarrow> q' = q \<and> (\<forall>(d, k, t)\<in>set q. now < t)"
    and "dq_poll list_delays now q = (Some k, q') \<Longrightarrow>
      \<exists>d t. (d, k, t) \<in> set q \<and> t \<le> now \<and> set q' = set q - {(d, k, t)} \<and> length q' < length q"
proof -
  show "dq_poll list_delays now q = (None, q') \<Longrightarrow> q' = q \<and> (\<forall>(d, k, t)\<in>set q. now < t)"
    by (auto simp: list_delays_def find_None_iff not_le split: option.splits)
  assume poll: "dq_poll list_delays now q = (Some k, q')"
  then obtain d t where f: "find (\<lambda>(d, k, t). t \<le> now) q = Some (d, k, t)" and q': "q' = filter (\<lambda>x. x \<noteq> (d, k, t)) q"
    by (auto simp: list_delays_def split: option.splits)
  then have "(d, k, t) \<in> set q" "t \<le> now" using find_in_set by fastforce+
  moreover from this have "length q' < length q" unfolding q' by (intro length_filter_less [of "(d, k, t)"]) auto
  ultimately show "\<exists>d t. (d, k, t) \<in> set q \<and> t \<le> now \<and> set q' = set q - {(d, k, t)} \<and> length q' < length q"
    using q' by auto
qed

lemma list_delays_laws: "delay_laws list_delays id"
proof -
  have fresh: "Suc (fold max (map fst xs) 0) \<notin> fst ` set xs" for xs :: "(nat \<times> 'k \<times> nat) list"
    using fold_max_ge(1) [of _ "map fst xs" 0] by fastforce
  show ?thesis
    unfolding delay_laws_def id_apply
  proof (intro conjI allI impI)
    fix k :: 'k and t d and q q' :: "(nat \<times> 'k \<times> nat) list"
    assume "dq_insert list_delays k t q = (d, q')"
    then show "d \<notin> fst ` set q" "set q' = insert (d, k, t) (set q)" using fresh [of q] by (auto simp: list_delays_def Let_def)
  next
    fix now k and q q' :: "(nat \<times> 'k \<times> nat) list"
    assume "dq_poll list_delays now q = (Some k, q')"
    then show "\<exists>d t. (d, k, t) \<in> set q \<and> t \<le> now \<and> set q' = set q - {(d, k, t)} \<and> length q' < length q" by (rule list_poll(2))
  next
    fix now and q q' :: "(nat \<times> 'k \<times> nat) list"
    assume "dq_poll list_delays now q = (None, q')"
    then show "q' = q" "\<forall>(d, k, t)\<in>set q. now < t" using list_poll(1) by blast+
  qed (auto simp: list_delays_def split: if_splits)
qed

lemma poll_purge_idle:
  assumes "delay_laws D items" "\<forall>(d, k, t)\<in>set (items (ca_expirations c)). now < t"
  shows "\<exists>q. poll_purge D now c = Some (c\<lparr>ca_expirations := q\<rparr>) \<and> items q = items (ca_expirations c)"
proof -
  obtain r q where r: "dq_poll D now (ca_expirations c) = (r, q)" by fastforce
  have "r = None"
  proof (cases r)
    case (Some k)
    from delay_poll(2) [OF assms(1) r [unfolded Some]] assms(2) show ?thesis by fastforce
  qed simp
  with delay_poll(1) [OF assms(1)] r show ?thesis by (subst poll_purge.simps) auto
qed

text \<open>
  A token can be served after it has expired: the cache keeps it for 31/32 of its lifetime, but is only purged
  once in that time, so that a token obtained just after a purge is still served when it has been invalid for
  almost another lifetime.
\<close>

theorem expired_token_served:
  assumes "delay_laws D items" "32 \<le> token_ttl" "oa_log_in oauth jid password = Ok token"
  shows "\<exists>w d obtained. token_reach D oauth token_ttl w \<and>
    (d, jid, obtained + tokens_cache_ttl token_ttl) \<in> set (items (ca_expirations (se_tokens (tk_secrets w)))) \<and>
    obtained + token_ttl \<le> tk_now w \<and> fst (get_token D oauth' (tk_now w) True jid (tk_secrets w)) = Ret (Ok token)"
proof -
  define ttl where "ttl = tokens_cache_ttl token_ttl"
  have ttl: "ttl \<noteq> 0" "1 + token_ttl \<le> 2 * ttl" using assms(2) unfolding ttl_def tokens_cache_ttl_def by linarith+
  let ?s0 = "secrets_new D token_ttl"
  define s1 where "s1 = ?s0\<lparr>se_passwords := (se_passwords ?s0)(jid \<mapsto> password)\<rparr>"
  define c0 where "c0 = se_tokens s1"
  have tok0: "se_tokens s1 = c0" "ca_ttl c0 = ttl" "ca_entries c0 = Map.empty" "items (ca_expirations c0) = []"
    using assms(1) by (simp_all add: c0_def s1_def secrets_new_def ttl_def cache_new_def delay_laws_def)
  have step: "token_reach D oauth token_ttl w \<Longrightarrow> token_step D oauth w w' \<Longrightarrow> token_reach D oauth token_ttl w'" for w w' by (rule token_next)
  have "set_password D oauth jid password ?s0 = (Ret (Ok ()), s1)"
    by (simp add: set_password_def secrets_new_def cache_new_def cache_take_def s1_def Let_def)
  from step [OF token_start setting] this have r1: "token_reach D oauth token_ttl \<lparr>tk_now = 0, tk_next = 0, tk_secrets = s1\<rparr>"
    by force
  obtain q where q: "poll_purge D 0 c0 = Some (c0\<lparr>ca_expirations := q\<rparr>)" "items q = []"
    using poll_purge_idle [OF assms(1), of c0 0] tok0 by auto
  define c2 where "c2 = c0\<lparr>ca_expirations := q\<rparr>"
  define s2 where "s2 = s1\<lparr>se_tokens := c2\<rparr>"
  from step [OF r1 tick, of c2] have r2: "token_reach D oauth token_ttl \<lparr>tk_now = 0, tk_next = ttl, tk_secrets = s2\<rparr>"
    using tok0 q ttl by (simp add: s2_def c2_def)
  from step [OF r2 pass, of 1] have r3: "token_reach D oauth token_ttl \<lparr>tk_now = 1, tk_next = ttl, tk_secrets = s2\<rparr>"
    using ttl by simp
  obtain d q' where ins: "dq_insert D jid (1 + ttl) q = (d, q')" by fastforce
  have q': "set (items q') = {(d, jid, 1 + ttl)}" using delay_insert(2) [OF assms(1) ins] q by simp
  define c3 where "c3 = c2\<lparr>ca_entries := [jid \<mapsto> (token, d)], ca_expirations := q'\<rparr>"
  define s3 where "s3 = s2\<lparr>se_tokens := c3\<rparr>"
  have "snd (cache_insert D 1 jid token c2) = c3" using ttl by (simp add: cache_insert_def c2_def c3_def tok0 ins [simplified])
  then have "get_token D oauth 1 True jid s2 = (Ret (Ok token), s3)"
    using assms(3) by (simp add: get_token_def s2_def s3_def contains_key_def c2_def tok0 get_password_def s1_def cache_get_def c3_def Let_def)
  from step [OF r3 getting] this have r4: "token_reach D oauth token_ttl \<lparr>tk_now = 1, tk_next = ttl, tk_secrets = s3\<rparr>" by force
  from step [OF r4 pass, of "ttl - 1"] have r5: "token_reach D oauth token_ttl \<lparr>tk_now = ttl, tk_next = ttl, tk_secrets = s3\<rparr>"
    using ttl by simp
  obtain q5 where q5: "poll_purge D ttl c3 = Some (c3\<lparr>ca_expirations := q5\<rparr>)" "items q5 = items q'"
    using poll_purge_idle [OF assms(1), of c3 ttl] q' by (auto simp: c3_def)
  have c3: "ca_ttl c3 = ttl" by (simp add: c3_def c2_def tok0)
  define s5 where "s5 = s3\<lparr>se_tokens := c3\<lparr>ca_expirations := q5\<rparr>\<rparr>"
  from step [OF r5 tick, of "c3\<lparr>ca_expirations := q5\<rparr>"]
  have r6: "token_reach D oauth token_ttl \<lparr>tk_now = ttl, tk_next = 2 * ttl, tk_secrets = s5\<rparr>"
    using q5 c3 ttl by (simp add: s3_def s5_def mult_2)
  from step [OF r6 pass, of ttl] have r7: "token_reach D oauth token_ttl \<lparr>tk_now = 2 * ttl, tk_next = 2 * ttl, tk_secrets = s5\<rparr>" by (simp add: mult_2)
  moreover have "fst (get_token D oauth' (2 * ttl) True jid s5) = Ret (Ok token)"
    by (simp add: get_token_def s5_def contains_key_def cache_get_def c3_def Let_def)
  ultimately show ?thesis
    using q' q5 ttl by (intro exI [where x = "\<lparr>tk_now = 2 * ttl, tk_next = 2 * ttl, tk_secrets = s5\<rparr>"] exI [where x = d] exI [where x = 1])
      (simp add: s5_def flip: ttl_def)
qed

text \<open>A run of an account that logs in at time 1 and asks for its token until the second tick.\<close>

definition demo_oauth :: "string oauth2" where
  "demo_oauth = \<lparr>oa_log_in = (\<lambda>_ _. Ok ''token''), oa_revoke = (\<lambda>_. Ok ())\<rparr>"


theorem expired_token_served_witness:
  "\<exists>w d obtained. token_reach list_delays demo_oauth 10800000 w \<and>
    (d, ''prose-workspace@d.org'', obtained + tokens_cache_ttl 10800000) \<in> set (ca_expirations (se_tokens (tk_secrets w))) \<and>
    obtained + 10800000 \<le> tk_now w \<and>
    fst (get_token list_delays demo_oauth (tk_now w) True ''prose-workspace@d.org'' (tk_secrets w)) = Ret (Ok ''token'')"
  using expired_token_served [OF list_delays_laws, of 10800000 demo_oauth "''prose-workspace@d.org''" "''pass''" "''token''" demo_oauth]
  by (simp add: demo_oauth_def)

text \<open>An entry that is overwritten leaves with the expiration of the one it replaced.\<close>

theorem overwritten_token_expires_early:
  assumes "delay_laws D items" "ca_ttl c \<noteq> 0" "t1 + ca_ttl c \<le> now"
    and "c1 = snd (cache_insert D t1 k v1 c)" "c2 = snd (cache_insert D t2 k v2 c1)"
  shows "cache_get c2 k = Some v2 \<and> (\<exists>c3. poll_purge D now c2 = Some c3 \<and> cache_get c3 k = None)"
proof -
  obtain d1 q1 where q1: "dq_insert D k (t1 + ca_ttl c) (ca_expirations c) = (d1, q1)" by fastforce
  obtain d2 q2 where q2: "dq_insert D k (t2 + ca_ttl c) q1 = (d2, q2)" by fastforce
  have c2: "c2 = c\<lparr>ca_entries := (ca_entries c)(k \<mapsto> (v1, d1), k \<mapsto> (v2, d2)), ca_expirations := q2\<rparr>"
    using assms(2) by (simp add: assms(4,5) cache_insert_def q1 q2)
  have "due items now q2 k"
    using delay_insert(2) [OF assms(1) q1] delay_insert(2) [OF assms(1) q2] assms(3) by (auto simp: due_def)
  with poll_purge_spec [OF assms(1), of now c2] show ?thesis by (auto simp: c2 cache_get_def)
qed

theorem overwritten_token_expires_early_witness:
  "\<exists>c3. poll_purge list_delays 10 (snd (cache_insert list_delays 9 ''k'' ''new'' (snd (cache_insert list_delays 0 ''k'' ''old'' (cache_new list_delays 10))))) = Some c3 \<and>
     cache_get c3 ''k'' = None"
  using overwritten_token_expires_early [OF list_delays_laws, of "cache_new list_delays 10" 0 10 _ "''k''" "''old''" _ 9 "''new''", OF _ _ refl refl]
  by (simp add: cache_new_def)

end
