(* ===== verification/Backup_Progress.thy ===== *)
theory Backup_Progress
  imports Api_Errors Backup_Id
begin

text \<open>
  The progress events of \<^verbatim>\<open>api/src/router/backups.rs\<close>: the handlers that turn the progress of creating
  and restoring a backup into throttled server-sent events.  Time is in milliseconds.  Release build: the
  debug assertions are not checked.  \<open>ph_sent\<close> are the events handed to the channel, the latest last.
\<close>

section \<open>Events\<close>

datatype 'a sse_data = ProgressData u64 u64 | SuccessData 'a | ErrorData api_error

record 'a sse_event =
  ev_name :: string
  ev_id :: string
  ev_data :: "'a sse_data"

text \<open>\<open>CreateBackupEvent\<close> and \<open>RestoreBackupEvent\<close>; \<open>kind\<close> is the prefix of their names.\<close>

definition event_progress :: "string \<Rightarrow> string \<Rightarrow> u64 \<Rightarrow> u64 \<Rightarrow> 'a sse_event" where
  "event_progress kind backup_id progress full = \<lparr>ev_name = kind @ ''-progress'', ev_id = backup_id, ev_data = ProgressData progress full\<rparr>"

definition event_end :: "string \<Rightarrow> string \<Rightarrow> api_error + 'a \<Rightarrow> 'a sse_event" where
  "event_end kind backup_id result =
     (case result of
        Inr data \<Rightarrow> \<lparr>ev_name = kind @ ''-success'', ev_id = backup_id, ev_data = SuccessData data\<rparr>
      | Inl e \<Rightarrow> \<lparr>ev_name = kind @ ''-error'', ev_id = backup_id, ev_data = ErrorData e\<rparr>)"

section \<open>Handlers\<close>

text \<open>\<open>StreamingCreateBackupEventHandler\<close>, and \<open>StreamingRestoreBackupEventHandler\<close> which has no backup id.\<close>

record 'a progress_handler =
  ph_backup_id :: "string option"
  ph_size :: u64
  ph_progress :: u64
  ph_interval :: nat
  ph_last :: "u64 \<times> nat"
  ph_sent :: "'a sse_event list"

definition handler_new :: "nat \<Rightarrow> 'a progress_handler" where
  "handler_new now =
     \<lparr>ph_backup_id = None, ph_size = 0, ph_progress = 0, ph_interval = 100, ph_last = (0, now), ph_sent = []\<rparr>"

definition send_progress :: "string \<Rightarrow> string \<Rightarrow> u64 \<Rightarrow> nat \<Rightarrow> 'a progress_handler \<Rightarrow> 'a progress_handler" where
  "send_progress kind backup_id progress now h =
     h\<lparr>ph_last := (progress, now), ph_sent := ph_sent h @ [event_progress kind backup_id progress (ph_size h)]\<rparr>"

definition on_archive_start :: "nat \<Rightarrow> string \<Rightarrow> u64 \<Rightarrow> 'a progress_handler \<Rightarrow> 'a progress_handler" where
  "on_archive_start now backup_id expected_archive_size h =
     send_progress ''backup-create'' backup_id 0 now (h\<lparr>ph_backup_id := Some backup_id, ph_size := expected_archive_size\<rparr>)"

definition on_archive_progress :: "nat \<Rightarrow> string \<Rightarrow> u64 \<Rightarrow> 'a progress_handler \<Rightarrow> 'a progress_handler" where
  "on_archive_progress now backup_id archived_bytes h =
     (let h' = h\<lparr>ph_progress := saturating_add (ph_progress h) archived_bytes\<rparr> in
      if now - snd (ph_last h') > ph_interval h' then send_progress ''backup-create'' backup_id (ph_progress h') now h' else h')"

definition on_backup_uploaded :: "nat \<Rightarrow> string \<Rightarrow> 'a progress_handler \<Rightarrow> 'a progress_handler" where
  "on_backup_uploaded now backup_id h =
     (if fst (ph_last h) < ph_size h then send_progress ''backup-create'' backup_id (ph_size h) now h else h)"

definition on_restoration_start :: "nat \<Rightarrow> string \<Rightarrow> u64 \<Rightarrow> 'a progress_handler \<Rightarrow> 'a progress_handler run" where
  "on_restoration_start now backup_id full h =
     (if ph_progress h \<noteq> 0 then Panic
      else Ret (send_progress ''backup-restore'' backup_id 0 now (h\<lparr>ph_size := full\<rparr>)))"

definition on_restoration_progress :: "nat \<Rightarrow> string \<Rightarrow> u64 \<Rightarrow> 'a progress_handler \<Rightarrow> 'a progress_handler run" where
  "on_restoration_progress now backup_id len h =
     (if ph_size h = 0 then Panic
      else if len = 0 then Ret h
      else
        (let h' = h\<lparr>ph_progress := saturating_add (ph_progress h) len\<rparr> in
         Ret (if now - snd (ph_last h') > ph_interval h' then send_progress ''backup-restore'' backup_id (ph_progress h') now h' else h')))"

definition on_restoration_finished :: "nat \<Rightarrow> string \<Rightarrow> 'a progress_handler \<Rightarrow> 'a progress_handler" where
  "on_restoration_finished now backup_id h =
     (if fst (ph_last h) < ph_size h then send_progress ''backup-restore'' backup_id (ph_size h) now h else h)"

text \<open>\<open>WithAdditionalData\<close>: the wrapped handler, and what is kept for the data of the Prose Pod API.\<close>

record 'a with_additional_data =
  wa_inner :: "'a progress_handler"
  wa_additional_data_size :: u64

definition wa_restoration_start :: "nat \<Rightarrow> string \<Rightarrow> u64 \<Rightarrow> 'a with_additional_data \<Rightarrow> 'a with_additional_data run" where
  "wa_restoration_start now backup_id full w =
     (let additional = full div 10 in
      case on_restoration_start now backup_id (saturating_add full additional) (wa_inner w) of
        Panic \<Rightarrow> Panic
      | Ret h \<Rightarrow> Ret \<lparr>wa_inner = h, wa_additional_data_size = additional\<rparr>)"

definition wa_restoration_progress :: "nat \<Rightarrow> string \<Rightarrow> u64 \<Rightarrow> 'a with_additional_data \<Rightarrow> 'a with_additional_data run" where
  "wa_restoration_progress now backup_id len w =
     (case on_restoration_progress now backup_id len (wa_inner w) of
        Panic \<Rightarrow> Panic
      | Ret h \<Rightarrow> Ret (w\<lparr>wa_inner := h\<rparr>))"

definition wa_restoration_finished :: "nat \<Rightarrow> string \<Rightarrow> 'a with_additional_data \<Rightarrow> 'a with_additional_data" where
  "wa_restoration_finished now backup_id w = w\<lparr>wa_inner := on_restoration_finished now backup_id (wa_inner w)\<rparr>"

section \<open>Sequences of calls\<close>

text \<open>The progress calls of a creation and of a restoration: their times and lengths.\<close>

fun archive_progress :: "string \<Rightarrow> (nat \<times> u64) list \<Rightarrow> 'a progress_handler \<Rightarrow> 'a progress_handler" where
  "archive_progress backup_id [] h = h"
| "archive_progress backup_id ((now, len) # calls) h = archive_progress backup_id calls (on_archive_progress now backup_id len h)"

fun restoration_progress :: "string \<Rightarrow> (nat \<times> u64) list \<Rightarrow> 'a with_additional_data \<Rightarrow> 'a with_additional_data run" where
  "restoration_progress backup_id [] w = Ret w"
| "restoration_progress backup_id ((now, len) # calls) w =
     (case wa_restoration_progress now backup_id len w of Panic \<Rightarrow> Panic | Ret w' \<Rightarrow> restoration_progress backup_id calls w')"

section \<open>What a client sees\<close>

text \<open>The progress events of the given values.\<close>

definition shown :: "string \<Rightarrow> string \<Rightarrow> u64 \<Rightarrow> u64 list \<Rightarrow> 'a sse_event list" where
  "shown kind backup_id full ps = map (\<lambda>p. event_progress kind backup_id p full) ps"

text \<open>
  After calls that started at \<open>t0\<close>, with lengths of the sum \<open>n\<close>: the events sent show increasing values, the
  last one at most the progress made, and two events are more than the interval apart.
\<close>

definition progress_inv :: "string \<Rightarrow> string \<Rightarrow> nat \<Rightarrow> nat \<Rightarrow> u64 \<Rightarrow> nat \<Rightarrow> 'a progress_handler \<Rightarrow> bool" where
  "progress_inv kind backup_id t0 now full n h \<longleftrightarrow>
     ph_size h = full \<and> ph_interval h = 100 \<and> unat (ph_progress h) = min n (2 ^ 64 - 1) \<and> snd (ph_last h) \<le> now \<and>
     (\<exists>ps. ph_sent h = shown kind backup_id full ps \<and> ps \<noteq> [] \<and> hd ps = 0 \<and> sorted ps \<and> last ps = fst (ph_last h) \<and>
        fst (ph_last h) \<le> ph_progress h \<and> t0 + 101 * (length ps - 1) \<le> snd (ph_last h))"

lemma progress_inv_start:
  assumes "ph_interval h = 100" "ph_progress h = 0" "ph_sent h = []" "ph_size h = full"
  shows "progress_inv kind backup_id t0 t0 full 0 (send_progress kind backup_id 0 t0 h)"
proof -
  have "ph_sent (send_progress kind backup_id 0 t0 h) = shown kind backup_id full [0]"
    using assms by (simp add: send_progress_def shown_def)
  then show ?thesis using assms unfolding progress_inv_def by (intro conjI exI [where x = "[0]"]) (simp_all add: send_progress_def)
qed

lemma sorted_snoc:
  fixes x :: "'a :: linorder"
  assumes "sorted xs" "last xs \<le> x"
  shows "sorted (xs @ [x])"
proof -
  have "\<forall>y\<in>set xs. y \<le> last xs" using assms(1) by (induction xs) auto
  then show ?thesis using assms by (auto simp: sorted_append intro: order_trans)
qed

lemma unat_saturating: "unat (saturating_add a b) = min (unat a + unat b) (2 ^ 64 - 1)"
  by (simp add: unat_saturating_add)

text \<open>One call that records progress.\<close>

lemma progress_inv_step:
  assumes "progress_inv kind backup_id t0 now full n h" "now \<le> now'"
    "h1 = h\<lparr>ph_progress := saturating_add (ph_progress h) len\<rparr>"
    "h' = (if now' - snd (ph_last h1) > ph_interval h1 then send_progress kind backup_id (ph_progress h1) now' h1 else h1)"
  shows "progress_inv kind backup_id t0 now' full (n + unat len) h'"
proof -
  obtain ps where I: "ph_size h = full" "ph_interval h = 100" "unat (ph_progress h) = min n (2 ^ 64 - 1)" "snd (ph_last h) \<le> now"
    "ph_sent h = shown kind backup_id full ps" "ps \<noteq> []" "hd ps = 0" "sorted ps" "last ps = fst (ph_last h)"
    "fst (ph_last h) \<le> ph_progress h" "t0 + 101 * (length ps - 1) \<le> snd (ph_last h)"
    using assms(1) unfolding progress_inv_def by blast
  have p: "unat (ph_progress h1) = min (n + unat len) (2 ^ 64 - 1)"
    using I(3) by (simp add: assms(3) unat_saturating min_def)
  have le: "ph_progress h \<le> ph_progress h1" using p I(3) by (simp add: word_le_nat_alt)
  show ?thesis
  proof (cases "now' - snd (ph_last h) > 100")
    case False
    then have "h' = h1" using I(2) assms(3,4) by simp
    then show ?thesis using I p le assms(2,3) unfolding progress_inv_def by (auto intro: order_trans)
  next
    case True
    let ?p = "ph_progress h1"
    have h': "h' = send_progress kind backup_id ?p now' h1" using True I(2) assms(3,4) by simp
    have "last ps \<le> ?p" using I(9,10) le by simp
    then have "sorted (ps @ [?p])" using I(8) sorted_snoc by blast
    moreover have "t0 + 101 * length ps \<le> now'" using I(6,11) True by (cases ps) auto
    moreover have "ph_sent h' = shown kind backup_id full (ps @ [?p])" using I(1,5) assms(3) by (simp add: h' send_progress_def shown_def)
    ultimately show ?thesis using I p assms(3) unfolding progress_inv_def
      by (intro conjI exI [where x = "ps @ [?p]"]) (auto simp: h' send_progress_def)
  qed
qed

text \<open>The last event.\<close>

lemma progress_inv_last:
  assumes "progress_inv kind backup_id t0 now full n h" "now \<le> te"
    "h' = (if fst (ph_last h) < ph_size h then send_progress kind backup_id (ph_size h) te h else h)"
  shows "\<exists>ps. ph_sent h' = shown kind backup_id full ps \<and> sorted ps \<and> hd ps = 0 \<and> last ps \<ge> full \<and>
    (n \<le> unat full \<longrightarrow> last ps = full) \<and> length ps \<le> 2 + (te - t0) div 101"
proof -
  obtain ps where I: "ph_size h = full" "unat (ph_progress h) = min n (2 ^ 64 - 1)" "snd (ph_last h) \<le> now"
    "ph_sent h = shown kind backup_id full ps" "ps \<noteq> []" "hd ps = 0" "sorted ps" "last ps = fst (ph_last h)"
    "fst (ph_last h) \<le> ph_progress h" "t0 + 101 * (length ps - 1) \<le> snd (ph_last h)"
    using assms(1) unfolding progress_inv_def by blast
  have "101 * (length ps - 1) \<le> te - t0" using I(3,10) assms(2) by linarith
  then have len: "length ps \<le> 1 + (te - t0) div 101" by (simp add: less_eq_div_iff_mult_less_eq mult.commute)
  show ?thesis
  proof (cases "fst (ph_last h) < full")
    case True
    then have "sorted (ps @ [full])" using I(7,8) sorted_snoc [of ps full] by simp
    moreover have "ph_sent h' = shown kind backup_id full (ps @ [full])" using True I(1,4) assms(3) by (simp add: send_progress_def shown_def)
    ultimately show ?thesis using len I(5,6) by (intro exI [where x = "ps @ [full]"]) auto
  next
    case False
    have "last ps = full" if "n \<le> unat full"
    proof -
      have "unat (ph_progress h) \<le> unat full" using that I(2) by simp
      then have "ph_progress h \<le> full" by (simp add: word_le_nat_alt)
      then show ?thesis using False I(8,9) by auto
    qed
    then show ?thesis using False I len assms(3) by (intro exI [where x = ps]) auto
  qed
qed

lemma restoration_progress_inv:
  assumes "progress_inv ''backup-restore'' backup_id t0 now full n (wa_inner w)" "sorted (now # map fst calls)" "full \<noteq> 0"
  shows "\<exists>w' now'. restoration_progress backup_id calls w = Ret w' \<and> now' = last (now # map fst calls) \<and>
    progress_inv ''backup-restore'' backup_id t0 now' full (n + (\<Sum>(_, len)\<leftarrow>calls. unat len)) (wa_inner w')"
  using assms(1,2)
proof (induction calls arbitrary: now n w)
  case (Cons c calls)
  obtain now1 len where c: "c = (now1, len)" by (cases c)
  have le: "now \<le> now1" "sorted (now1 # map fst calls)" using Cons.prems(2) c by auto
  have sz: "ph_size (wa_inner w) \<noteq> 0" using Cons.prems(1) assms(3) by (simp add: progress_inv_def)
  obtain w1 where w1: "wa_restoration_progress now1 backup_id len w = Ret w1"
    "progress_inv ''backup-restore'' backup_id t0 now1 full (n + unat len) (wa_inner w1)"
  proof (cases "len = 0")
    case True
    then have "wa_restoration_progress now1 backup_id len w = Ret (w\<lparr>wa_inner := wa_inner w\<rparr>)"
      using sz by (simp add: wa_restoration_progress_def on_restoration_progress_def)
    moreover have "progress_inv ''backup-restore'' backup_id t0 now1 full (n + unat len) (wa_inner w)"
      using Cons.prems(1) le(1) True unfolding progress_inv_def by auto
    ultimately show ?thesis using that by simp
  next
    case False
    then show ?thesis using that sz progress_inv_step [OF Cons.prems(1) le(1) refl refl, of len]
      by (simp add: wa_restoration_progress_def on_restoration_progress_def Let_def)
  qed
  from Cons.IH [OF w1(2) le(2)] show ?case using w1(1) c by (simp add: add.assoc)
qed auto

section \<open>Properties\<close>

text \<open>
  A streamed restoration shows increasing progress from 0 to the end, however the work is cut in chunks: a
  last event always reports at least the announced size, and exactly that as long as the work reported is
  not more; with at most two events plus one per 101 milliseconds.
\<close>

theorem restoration_events_complete:
  assumes "full = saturating_add bytes (bytes div 10)" "bytes \<noteq> 0" "sorted (t0 # map fst calls @ [te])"
    "wa_restoration_start t0 backup_id bytes \<lparr>wa_inner = handler_new tn, wa_additional_data_size = 0\<rparr> = Ret w"
  shows "\<exists>w' ps. restoration_progress backup_id calls w = Ret w' \<and>
    ph_sent (wa_inner (wa_restoration_finished te backup_id w')) = shown ''backup-restore'' backup_id full ps \<and>
    sorted ps \<and> hd ps = 0 \<and> full \<le> last ps \<and> ((\<Sum>(_, len)\<leftarrow>calls. unat len) \<le> unat full \<longrightarrow> last ps = full) \<and>
    length ps \<le> 2 + (te - t0) div 101"
proof -
  have "0 < unat bytes" using assms(2) by (simp add: unat_gt_0)
  then have "0 < unat full" using assms(1) by (simp add: unat_saturating)
  then have n0: "full \<noteq> 0" by auto
  have "progress_inv ''backup-restore'' backup_id t0 t0 full 0 (wa_inner w)"
    using assms(1,4) progress_inv_start [of "(handler_new tn)\<lparr>ph_size := full\<rparr>" full "''backup-restore''" backup_id t0]
    by (auto simp: wa_restoration_start_def on_restoration_start_def handler_new_def Let_def)
  moreover have times: "sorted (t0 # map fst calls)" "\<forall>t\<in>set (t0 # map fst calls). t \<le> te"
    using assms(3) by (auto simp: sorted_append)
  ultimately obtain w' where w': "restoration_progress backup_id calls w = Ret w'"
    "progress_inv ''backup-restore'' backup_id t0 (last (t0 # map fst calls)) full (0 + (\<Sum>(_, len)\<leftarrow>calls. unat len)) (wa_inner w')"
    using restoration_progress_inv n0 by blast
  have "last (t0 # map fst calls) \<le> te" by (rule bspec [OF times(2) last_in_set]) simp
  from progress_inv_last [OF w'(2) this refl] w'(1) show ?thesis
    by (simp add: wa_restoration_finished_def on_restoration_finished_def)
qed

theorem restoration_events_complete_witness:
  "\<exists>w w' ps. wa_restoration_start 0 ''b'' 50 \<lparr>wa_inner = handler_new 0, wa_additional_data_size = 0\<rparr> = Ret (w :: unit with_additional_data) \<and>
     restoration_progress ''b'' [(60, 20), (200, 30), (210, 5)] w = Ret w' \<and>
     ph_sent (wa_inner (wa_restoration_finished 220 ''b'' w')) = shown ''backup-restore'' ''b'' 55 ps \<and> last ps = 55 \<and> length ps \<le> 4"
proof -
  obtain w :: "unit with_additional_data" where
    "wa_restoration_start 0 ''b'' 50 \<lparr>wa_inner = handler_new 0, wa_additional_data_size = 0\<rparr> = Ret w"
    by (simp add: wa_restoration_start_def on_restoration_start_def handler_new_def)
  moreover have "55 = saturating_add 50 (50 div 10)" "sorted (0 # map fst [(60 :: nat, 20 :: u64), (200, 30), (210, 5)] @ [220])"
    by (simp_all add: saturating_add_def)
  moreover have "(\<Sum>(_, len)\<leftarrow>[(60 :: nat, 20 :: u64), (200, 30), (210, 5)]. unat len) \<le> unat (55 :: u64)" by simp
  ultimately show ?thesis
    using restoration_events_complete [of 55 50 0 "[(60, 20), (200, 30), (210, 5)]" 220 "''b''" 0 w] by auto
qed

end
