(* ===== verification/Http_Client.thy ===== *)
theory Http_Client
  imports Prelude
begin

text \<open>
  HTTP requests and the client of the Prose Pod API (\<^verbatim>\<open>api/src/prose_pod_api.rs\<close>).  The network and the
  server behind it are a parameter over a state of their own; the decoder of JSON is a parameter too.
\<close>

section \<open>Requests\<close>

record http_request =
  hq_method :: string
  hq_url :: string
  hq_headers :: "(string \<times> string) list"
  hq_body :: bytes

record http_response =
  hr_status :: nat
  hr_body :: bytes

type_synonym 'p http = "http_request \<Rightarrow> 'p \<Rightarrow> (anyhow + http_response) \<times> 'p"

text \<open>\<open>reqwest::Response::error_for_status\<close>.\<close>

definition error_for_status :: "http_response \<Rightarrow> anyhow + http_response" where
  "error_for_status r =
     (if 400 \<le> hr_status r \<and> hr_status r < 600 then Err [''HTTP status '' @ dec (hr_status r)] else Ok r)"

section \<open>The Prose Pod API\<close>

definition prose_pod_api_url :: "string \<Rightarrow> string \<Rightarrow> string run" where
  "prose_pod_api_url base p = (if starts_with p ''/'' then Ret (base @ p) else Panic)"

text \<open>\<open>receive\<close>; errors of \<open>reqwest\<close> get a context.\<close>

definition receive :: "(bytes \<Rightarrow> anyhow + 'a) \<Rightarrow> http_response \<Rightarrow> anyhow + 'a" where
  "receive decode r =
     try_bind (map_err (context_msg ''Network error'') (error_for_status r)) (\<lambda>r.
       map_err (context_msg ''Could not decode Prose Pod API response'') (decode (hr_body r)))"

definition put_restore :: "'p http \<Rightarrow> (bytes \<Rightarrow> anyhow + unit) \<Rightarrow> string \<Rightarrow> string \<Rightarrow> bytes \<Rightarrow> 'p \<Rightarrow> (anyhow + unit) run \<times> 'p" where
  "put_restore http decode base prose_token data p =
     (case prose_pod_api_url base ''/v1/backups-internal/restore'' of
        Panic \<Rightarrow> (Panic, p)
      | Ret url \<Rightarrow>
          (case http \<lparr>hq_method = ''PUT'', hq_url = url, hq_headers = [(''accept'', ''application/json''), (''x-prose-token'', prose_token)],
                       hq_body = data\<rparr> p of
             (Inl e, p') \<Rightarrow> (Ret (Err (context_msg ''Network error'' e)), p')
           | (Inr r, p') \<Rightarrow> (Ret (receive decode r), p')))"

end
