(* ===== verification/Backups_Api.thy ===== *)
theory Backups_Api
  imports Backup_Service Backup_Progress Http_Client App_Config
begin

text \<open>
  The request handlers of \<^verbatim>\<open>api/src/router/backups.rs\<close>: their checks, the restoration that also
  restores the data of the Prose Pod API, the other operations on backups, and the responses as JSON or as
  a stream of events.  Stopping and starting Prosody around them is in theory \<open>Lifecycle\<close>.
\<close>

section \<open>Restoration\<close>

definition PROSE_POD_API_ARCHIVE_KEY :: string where
  "PROSE_POD_API_ARCHIVE_KEY = ''prose-pod-api-data''"

text \<open>The blueprints with their local paths as lists of components.\<close>

definition components :: "string \<Rightarrow> path" where
  "components p = filter (\<lambda>c. c \<noteq> []) (split_on CHR ''/'' p)"

definition local_blueprint :: "string archive_blueprint \<Rightarrow> path archive_blueprint" where
  "local_blueprint b = \<lparr>bp_version = bp_version b, bp_paths = map (\<lambda>(k, p). (k, components p)) (bp_paths b)\<rparr>"

definition restore_failed_error :: "string \<Rightarrow> api_error" where
  "restore_failed_error error_id =
     internal_server_error error_id ''BACKUP_RESTORE_FAILED'' ''Something went wrong while restoring the backup.''"

definition invalid_backup_error :: api_error where
  "invalid_backup_error =
     validation_error ''INVALID_BACKUP'' ''Invalid backup'' (''This backup is missing data. It can'' @ [CHR 0xE2, CHR 0x80, CHR 0x99] @ ''t be restored.'')"

text \<open>
  The data of the Prose Pod API, in the temporary directory \<open>t\<close>: \<open>pack\<close> makes a tar archive of a directory,
  \<open>api\<close> sends it.  The outcome, whether the guard was defused, and the files.
\<close>

definition restore_api_data ::
  "(path \<Rightarrow> local_fs \<Rightarrow> anyhow + bytes) \<Rightarrow> (bytes \<Rightarrow> 'p \<Rightarrow> (anyhow + unit) run \<times> 'p) \<Rightarrow> string \<Rightarrow> path \<Rightarrow> local_fs \<Rightarrow> 'p \<Rightarrow>
     (api_error + unit) run \<times> bool \<times> local_fs \<times> 'p" where
  "restore_api_data pack api error_id t fs p =
     (let data_path = t @ [PROSE_POD_API_ARCHIVE_KEY] in
      if look fs data_path \<noteq> Some DirE then (Ret (Err invalid_backup_error), False, fs, p)
      else
        (case pack data_path fs of
           Inl e \<Rightarrow> (Ret (Err (no_context error_id)), False, fs, p)
         | Inr data \<Rightarrow>
             (case api data p of
                (Panic, p') \<Rightarrow> (Panic, False, fs, p')
              | (Ret (Inl e), p') \<Rightarrow> (Ret (Err (restore_failed_error error_id)), False, fs, p')
              | (Ret (Inr _), p') \<Rightarrow>
                  (case fs_remove data_path fs of
                     (Inl e, fs') \<Rightarrow> (Ret (Err (no_context error_id)), False, fs', p')
                   | (Inr _, fs') \<Rightarrow> (Ret (Ok ()), True, fs', p')))))"

text \<open>\<open>put_backup_restore_inner\<close>: the temporary directory and the guard are dropped at the end.\<close>

definition put_backup_restore_inner ::
  "('s, 'w, 'k, 'kw, 'c, 'p, 'v, 'kp) service \<Rightarrow> unpacker \<Rightarrow> (path \<Rightarrow> local_fs \<Rightarrow> anyhow + bytes) \<Rightarrow>
     (bytes \<Rightarrow> 'api \<Rightarrow> (anyhow + unit) run \<times> 'api) \<Rightarrow> string \<Rightarrow> nat \<Rightarrow> anyhow + path \<Rightarrow> 's \<Rightarrow> backup_id \<Rightarrow>
     cache_state \<Rightarrow> local_fs \<Rightarrow> 'api \<Rightarrow> (api_error + unit) run \<times> cache_state \<times> local_fs \<times> 'api" where
  "put_backup_restore_inner sv unpack pack api error_id ts tmp s bid w fs p =
     (case BACKUP_BLUEPRINTS BACKUPS_VERSION of
        None \<Rightarrow> (Panic, w, fs, p)
      | Some blueprint \<Rightarrow>
          (case restore_backup_partial sv unpack ts tmp s bid (local_blueprint blueprint) w fs of
             (Panic, w1, fs1) \<Rightarrow> (Panic, w1, fs1, p)
           | (Ret (Inl e), w1, fs1) \<Rightarrow> (Ret (Err (restore_failed_error error_id)), w1, fs1, p)
           | (Ret (Inr (report, out)), w1, fs1) \<Rightarrow>
               (case ro_additional out of
                  None \<Rightarrow> (Ret (Err invalid_backup_error), w1, fs1, p)
                | Some (t, g) \<Rightarrow>
                    (let (r, is_defused, fs2, p') = restore_api_data pack api error_id t fs1 p
                     in (r, w1, drop_restoration t is_defused g fs2, p')))))"

section \<open>The other operations\<close>

text \<open>The service, when backups are configured.\<close>

definition with_service :: "caller_info \<Rightarrow> 'sv option \<Rightarrow> ('sv \<Rightarrow> api_error + 'a) \<Rightarrow> api_error + 'a" where
  "with_service caller sv f =
     try_bind (check_is_admin caller) (\<lambda>_.
       case sv of
         None \<Rightarrow> Err (configuration_error ''MISSING_CONFIG'' ''Missing configuration'' ''Backups configuration not initialized.'')
       | Some x \<Rightarrow> f x)"

definition get_backups where
  "get_backups caller sv s error_id =
     with_service caller sv (\<lambda>x. map_err (\<lambda>_. no_context error_id) (list_backups x s))"

definition get_backup where
  "get_backup caller sv s bid error_id w =
     (case with_service caller sv Ok of
        Inl e \<Rightarrow> (Ret (Err e), w)
      | Inr x \<Rightarrow>
          (case get_details x s bid w of
             (Panic, w') \<Rightarrow> (Panic, w')
           | (Ret r, w') \<Rightarrow> (Ret (map_err (\<lambda>_. no_context error_id) r), w')))"

definition delete_backup_request where
  "delete_backup_request caller sv bid error_id world =
     (case with_service caller sv Ok of
        Inl e \<Rightarrow> (Ret (Err e), world)
      | Inr x \<Rightarrow>
          (case backup_id_fmt (svc_ids x) bid of
             Panic \<Rightarrow> (Panic, world)
           | Ret oid \<Rightarrow>
               (let (r, world') = delete_backup (svc_store x) (v_check_store (svc_verifier x)) oid world
                in (Ret (map_err (\<lambda>_. no_context error_id) r), world'))))"

definition get_backup_download_url where
  "get_backup_download_url caller sv s bid ttl error_id =
     (case with_service caller sv Ok of
        Inl e \<Rightarrow> Ret (Err e)
      | Inr x \<Rightarrow>
          (case get_download_url x s bid (case ttl of None \<Rightarrow> 5 * 60 | Some d \<Rightarrow> d) of
             Panic \<Rightarrow> Panic
           | Ret r \<Rightarrow> Ret (map_err (\<lambda>_. no_context error_id) r)))"

section \<open>Requests and responses\<close>

type_synonym header_map = "string \<Rightarrow> string option"

datatype 'a backup_response = Single "api_error + 'a" | Stream "'a sse_event list"

definition wants_stream :: "header_map \<Rightarrow> bool" where
  "wants_stream headers = (headers ''accept'' = Some ''text/event-stream'')"

text \<open>The checks of \<open>post_backups_all\<close>.\<close>

definition check_post_backups :: "header_map \<Rightarrow> caller_info \<Rightarrow> bytes \<Rightarrow> api_error + unit" where
  "check_post_backups headers caller prose_pod_api_data =
     try_bind (check_is_admin caller) (\<lambda>_.
       if headers ''content-type'' \<noteq> Some ''application/x-tar''
       then Err (unsupported_media_type ''BAD_REQUEST'' ''Bad request'' ''Body should be `application/x-tar`.'')
       else if prose_pod_api_data = [] then Err (validation_error ''BAD_REQUEST'' ''Bad request'' ''Missing Prose Pod API data.'')
       else Ok ())"

text \<open>The end of a stream of events: the handler at the end of the work, and the result of the work.\<close>

definition post_backups_stream :: "'a progress_handler \<Rightarrow> api_error + 'a \<Rightarrow> 'a backup_response" where
  "post_backups_stream h result =
     Stream (ph_sent h @ [event_end ''backup-create'' (case ph_backup_id h of Some i \<Rightarrow> i | None \<Rightarrow> []) result])"

text \<open>\<open>work\<close> creates the backup, with or without a handler of events.\<close>

definition post_backups_all ::
  "header_map \<Rightarrow> caller_info \<Rightarrow> bytes \<Rightarrow> ('a progress_handler option \<Rightarrow> 'w \<Rightarrow> (api_error + 'a) \<times> 'a progress_handler option \<times> 'w) \<Rightarrow>
     nat \<Rightarrow> 'w \<Rightarrow> 'a backup_response \<times> 'w" where
  "post_backups_all headers caller prose_pod_api_data work now w =
     (case check_post_backups headers caller prose_pod_api_data of
        Inl e \<Rightarrow> (Single (Err e), w)
      | Inr _ \<Rightarrow>
          if wants_stream headers
          then (let (r, h, w') = work (Some (handler_new now)) w
                in (post_backups_stream (case h of Some h' \<Rightarrow> h' | None \<Rightarrow> handler_new now) r, w'))
          else (let (r, _, w') = work None w in (Single r, w')))"

definition check_restore :: "header_map \<Rightarrow> caller_info \<Rightarrow> api_error + string" where
  "check_restore headers caller =
     try_bind (check_is_admin caller) (\<lambda>_.
       case headers ''x-prose-token'' of
         None \<Rightarrow> Err (validation_error ''BAD_REQUEST'' ''Bad request'' ''Missing Prose token.'')
       | Some prose_token \<Rightarrow> Ok prose_token)"

text \<open>\<open>service\<close> is the outcome of \<open>backup_service\<close>, which is tested before the stream is made.\<close>

definition put_backup_restore_all ::
  "header_map \<Rightarrow> caller_info \<Rightarrow> api_error + unit \<Rightarrow> string \<Rightarrow>
     (string \<Rightarrow> 'a progress_handler option \<Rightarrow> 'w \<Rightarrow> (api_error + 'a) \<times> 'a progress_handler option \<times> 'w) \<Rightarrow>
     nat \<Rightarrow> 'w \<Rightarrow> 'a backup_response \<times> 'w" where
  "put_backup_restore_all headers caller service backup_id work now w =
     (case check_restore headers caller of
        Inl e \<Rightarrow> (Single (Err e), w)
      | Inr prose_token \<Rightarrow>
          (case service of
             Inl e \<Rightarrow> (Single (Err e), w)
           | Inr _ \<Rightarrow>
               if wants_stream headers
               then (let (r, h, w') = work prose_token (Some (handler_new now)) w
                     in (Stream ((case h of Some h' \<Rightarrow> ph_sent h' | None \<Rightarrow> []) @ [event_end ''backup-restore'' backup_id r]), w'))
               else (let (r, _, w') = work prose_token None w in (Single r, w'))))"

text \<open>\<open>ProsePodApiData\<close>: \<open>raw\<close> gives the entries of an archive with their headers.\<close>

fun concat_entries :: "(anyhow + bytes) list \<Rightarrow> anyhow + bytes" where
  "concat_entries [] = Ok []"
| "concat_entries (Inl e # es) = Err e"
| "concat_entries (Inr b # es) = try_bind (concat_entries es) (\<lambda>bs. Ok (b @ bs))"

definition prose_pod_api_data :: "(bytes \<Rightarrow> anyhow + (anyhow + bytes) list) \<Rightarrow> bytes \<Rightarrow> additional_data" where
  "prose_pod_api_data raw data =
     \<lparr>ad_expected_size = Ok (archive_contents_size (of_nat (length data))), ad_append = try_bind (raw data) concat_entries\<rparr>"

definition backup_command :: "(bytes \<Rightarrow> anyhow + (anyhow + bytes) list) \<Rightarrow> string \<Rightarrow> bytes \<Rightarrow> create_backup_command run" where
  "backup_command raw desc data =
     (case BACKUP_BLUEPRINTS BACKUPS_VERSION of
        None \<Rightarrow> Panic
      | Some blueprint \<Rightarrow>
          Ret \<lparr>cmd_prefix = ''prose_backup'', cmd_description = desc, cmd_blueprint = blueprint,
               cmd_additional = Some (prose_pod_api_data raw data)\<rparr>)"

definition backup_create_failed :: "string \<Rightarrow> create_backup_error \<Rightarrow> api_error" where
  "backup_create_failed error_id e =
     internal_server_error error_id ''BACKUP_CREATE_FAILED''
       ''Something went wrong while creating the backup. Contact an administrator to fix this.''"

section \<open>Restoring with the data of the Prose Pod API\<close>

definition destinations :: "path list" where
  "destinations = (case BACKUP_BLUEPRINTS BACKUPS_VERSION of
     None \<Rightarrow> [] | Some b \<Rightarrow> map snd (sort_longest_first (bp_paths (local_blueprint b))))"

lemma removing_extracting:
  assumes "extracting ds t fs0 fs" "places_ok ds t" "fs_remove (t @ [c]) fs = (r, fs')"
  shows "extracting ds t fs0 fs'"
proof (cases "fs' = fs")
  case False
  then have f: "fs' = fs\<lparr>tree := remove_tree (t @ [c]) (tree fs)\<rparr>"
    using assms(3) by (auto simp: fs_remove_def split: if_splits)
  have l: "look fs' q = (if prefix (t @ [c]) q then None else look fs q)" for q by (simp add: f look_def look_remove)
  have nt: "\<not> prefix (t @ [c]) q" if "\<not> prefix t q \<or> q = t" for q
    using that by (auto simp: prefix_def)
  have "tree_ok fs" "look fs t = Some DirE" using assms(1) by (simp_all add: extracting_def)
  then show ?thesis using extracting_step [OF assms(1,2), of fs' t] l nt remove_tree_ok by (simp add: f)
qed (use assms in simp)

text \<open>The data of the Prose Pod API: what is left of the files, and what success means.\<close>

lemma restore_api_data_cases:
  assumes "restore_api_data pack api error_id t fs p = (r, is_defused, fs', p')" "extracting ds t fs0 fs" "places_ok ds t"
  shows "extracting ds t fs0 fs' \<and> (\<forall>q. \<not> prefix t q \<longrightarrow> look fs' q = look fs q) \<and> (is_defused \<longleftrightarrow> r = Ret (Ok ())) \<and>
    (is_defused \<longrightarrow> (\<exists>data. pack (t @ [PROSE_POD_API_ARCHIVE_KEY]) fs = Ok data \<and> api data p = (Ret (Ok ()), p')))"
proof (cases "\<exists>rr. fs_remove (t @ [PROSE_POD_API_ARCHIVE_KEY]) fs = (rr, fs')")
  case True
  then obtain rr where f: "fs_remove (t @ [PROSE_POD_API_ARCHIVE_KEY]) fs = (rr, fs')" by blast
  have "look fs' q = look fs q" if "\<not> prefix t q" for q
    using f that by (auto simp: fs_remove_def look_def look_remove prefix_def split: if_splits)
  then show ?thesis using removing_extracting [OF assms(2,3) f] assms(1) f
    by (auto simp: restore_api_data_def Let_def split: if_splits sum.splits prod.splits run.splits)
next
  case False
  then have "fs' = fs" "is_defused \<longleftrightarrow> False" "r \<noteq> Ret (Ok ())"
    using assms(1) by (auto simp: restore_api_data_def Let_def split: if_splits sum.splits prod.splits run.splits)
  then show ?thesis using assms(2) by simp
qed


section \<open>An example\<close>

text \<open>Prosody has data; the archive has a file for each key, and the data of the Prose Pod API in \<open>api\<close>.\<close>

definition demo_unpack :: unpacker where
  "demo_unpack e dst fs =
     (if look fs dst = Some DirE \<and> normal_name (te_path e) \<and> look fs (dst @ [te_path e]) = None
      then (Ok True, fs\<lparr>tree := (dst @ [te_path e], if te_data e = [] then DirE else FileE (te_data e)) # tree fs\<rparr>) else (Err [''unpack''], fs))"

lemma demo_unpack_confined: "unpack_confined demo_unpack"
  unfolding unpack_confined_def demo_unpack_def
  by (auto simp: look_def tree_ok_def prefix_def split: if_splits)

definition demo_entries :: "bytes \<Rightarrow> (anyhow + tar_entry) list" where
  "demo_entries c = map (\<lambda>(n, d). Ok \<lparr>te_path = n, te_data = d, te_size = None\<rparr>)
     ([(''metadata.json'', []), (''prose-pod-server-data'', ''new''), (''prosody-data'', ''new''), (''prose-config'', ''new''),
       (''prosody-config'', ''new'')] @ (if c = ''api'' then [(''prose-pod-api-data'', [])] else []))"

definition demo_svc :: "(fs_dir, string, fs_dir, string, unit, unit, unit, unit) service" where
  "demo_svc = example_svc\<lparr>svc_archive := \<lparr>al_decrypt = (\<lambda>_ _ r. Ok (r, None)), al_zstd = Ok,
     al_entries = (\<lambda>r. Ok (demo_entries (rd_data r))), al_metadata = (\<lambda>d. Ok 1)\<rparr>\<rparr>"

definition demo_tree :: local_fs where
  "demo_tree = example_lfs [([], DirE), ([''etc''], DirE), ([''var''], DirE), ([''var'', ''lib''], DirE),
     ([''var'', ''lib'', ''prosody''], FileE ''old'')] (\<lambda>_. 0)"

definition demo_restore :: "bytes \<Rightarrow> (restoration_error + restoration_output) run \<times> local_fs" where
  "demo_restore c =
     restore (svc_archive demo_svc) demo_unpack 7 (Inr [''tmp'']) (Some c) plain_id
       (local_blueprint (the (BACKUP_BLUEPRINTS BACKUPS_VERSION))) (svc_migrations demo_svc) (svc_decryption demo_svc)
       (svc_blueprints demo_svc) demo_tree"

lemma demo_destinations:
  "destinations = [[''var'', ''lib'', ''prose-pod-server''], [''etc'', ''prosody''], [''var'', ''lib'', ''prosody''], [''etc'', ''prose'']]"
  by code_simp

lemma demo_restorable: "restorable 7 destinations (Inr [''tmp'']) demo_tree"
proof -
  have t: "tree_ok demo_tree"
    unfolding tree_ok_def by (auto simp: look_def demo_tree_def example_lfs_def split: if_splits)
  have d: "dec 7 = ''7''" by code_simp
  show ?thesis using t
    by (simp add: demo_destinations restorable_def backupable_def recoverable_def demo_tree_def example_lfs_def no_lfs_faults_def
        separate_def backup_names_def with_added_extension_def apart_def backup_name_def Let_def path_exists_def
        look_def places_ok_def normal_name_def d)
qed

lemma demo_restore_ok:
  "fst (demo_restore ''ok'') = Ret (Inr \<lparr>ro_version = 1, ro_additional = None\<rparr>)"
  by code_simp

lemma demo_restore_api:
  "fst (demo_restore ''api'') = Ret (Inr \<lparr>ro_version = 1, ro_additional = Some ([''tmp''],
     [([''var'', ''lib'', ''prose-pod-server''], None), ([''etc'', ''prosody''], None),
      ([''var'', ''lib'', ''prosody''], Some [''var'', ''lib'', ''prosody.bak'']), ([''etc'', ''prose''], None)])\<rparr>) \<and>
   look (snd (demo_restore ''api'')) [''tmp'', ''prose-pod-api-data''] = Some DirE \<and>
   \<not> remove_fails (lf_faults (snd (demo_restore ''api''))) [''tmp'', ''prose-pod-api-data'']"
  by code_simp

lemma demo_partial:
  assumes "c = ''ok'' \<or> c = ''api''" "fst (demo_restore c) = Ret (Inr out)"
  shows "\<exists>report w1. restore_backup_partial demo_svc demo_unpack 7 (Inr [''tmp'']) (example_dir_of c) plain_id
    (local_blueprint (the (BACKUP_BLUEPRINTS BACKUPS_VERSION))) (run_cache run_init) demo_tree = (Ret (Ok (report, out)), w1, snd (demo_restore c))"
proof -
  have "fst (svc_download ''api'') = Ret (Ok ''p-0000000001-d.tar'') \<and>
      open_file (snd (snd (svc_download ''api''))) ''p-0000000001-d.tar'' = Some ''api''" by (simp add: svc_eval)
  then have "fst (svc_download c) = Ret (Ok ''p-0000000001-d.tar'') \<and>
      open_file (snd (snd (svc_download c))) ''p-0000000001-d.tar'' = Some c" using assms(1) svc_download_ok by auto
  then obtain rep w1 where d: "svc_download c = (Ret (Ok ''p-0000000001-d.tar''), rep, w1)"
    "open_file w1 ''p-0000000001-d.tar'' = Some c" by (cases "svc_download c") auto
  have s: "svc_ids demo_svc = rfc_lib" "svc_store demo_svc = example_store" "svc_verifier demo_svc = svc_verifier example_svc"
    by (simp_all add: demo_svc_def example_svc_def)
  show ?thesis using d assms(2) plain_key unfolding restore_backup_partial_def s svc_download_def demo_restore_def
    by (cases "demo_restore c") (auto simp: demo_restore_def)
qed

lemma current_blueprint: "BACKUP_BLUEPRINTS BACKUPS_VERSION = Some (the (BACKUP_BLUEPRINTS BACKUPS_VERSION))"
  by (simp add: BACKUP_BLUEPRINTS_def BACKUPS_VERSION_def)


text \<open>
  C31. A backup without data of the Prose Pod API is answered with the error that it is invalid and cannot
  be restored, after it has been restored in full: its files replace those of the server, whose copies are
  deleted.
\<close>

theorem invalid_backup_replaces_files:
  assumes "unpack_confined unpack" "restorable ts destinations tmp fs" "BACKUP_BLUEPRINTS BACKUPS_VERSION = Some blueprint"
    "restore_backup_partial sv unpack ts tmp s bid (local_blueprint blueprint) w fs = (Ret (Ok (report, out)), w', fs')"
    "ro_additional out = None"
  shows "put_backup_restore_inner sv unpack pack api error_id ts tmp s bid w fs p = (Ret (Err invalid_backup_error), w', fs', p) \<and>
    replaced destinations fs fs'"
proof -
  have ds: "destinations = map snd (sort_longest_first (bp_paths (local_blueprint blueprint)))"
    by (simp add: destinations_def assms(3))
  obtain f where rs: "restore (svc_archive sv) unpack ts tmp f bid (local_blueprint blueprint) (svc_migrations sv) (svc_decryption sv)
      (svc_blueprints sv) fs = (Ret (Inr out), fs')"
    using assms(4) by (cases rule: restore_backup_partial_cases) auto
  obtain t g fs0 fs2 where x: "tmp = Inr t" "backup_loop ts destinations [] fs = (None, g, fs0)"
    "extracting destinations t fs0 fs2" "\<And>d. d \<in> set destinations \<Longrightarrow> look fs2 d \<noteq> None" "fs' = drop_restoration t True g fs2"
    using restore_done [OF assms(1) assms(2) [unfolded ds] rs ds] assms(5) by (metis option.distinct(1))
  show ?thesis using drop_replaces [OF assms(2) [unfolded x(1)] x(2-4)] assms(3-5) x(5)
    by (simp add: put_backup_restore_inner_def)
qed

theorem invalid_backup_replaces_files_witness:
  "\<exists>w' fs'. put_backup_restore_inner demo_svc demo_unpack (\<lambda>_ _. Ok ''data'') (\<lambda>data p. (Ret (Ok ()), data # p)) ''id'' 7 (Inr [''tmp''])
     (example_dir_of ''ok'') plain_id (run_cache run_init) demo_tree [] = (Ret (Err invalid_backup_error), w', fs', []) \<and>
     replaced destinations demo_tree fs' \<and> look demo_tree [''var'', ''lib'', ''prosody''] = Some (FileE ''old'') \<and>
     look fs' [''var'', ''lib'', ''prosody''] = Some (FileE ''new'')"
proof -
  obtain report w1 where q: "restore_backup_partial demo_svc demo_unpack 7 (Inr [''tmp'']) (example_dir_of ''ok'') plain_id
      (local_blueprint (the (BACKUP_BLUEPRINTS BACKUPS_VERSION))) (run_cache run_init) demo_tree =
      (Ret (Ok (report, \<lparr>ro_version = 1, ro_additional = None\<rparr>)), w1, snd (demo_restore ''ok''))"
    using demo_partial [OF _ demo_restore_ok] by auto
  have "look demo_tree [''var'', ''lib'', ''prosody''] = Some (FileE ''old'')"
    "look (snd (demo_restore ''ok'')) [''var'', ''lib'', ''prosody''] = Some (FileE ''new'')" by code_simp+
  with invalid_backup_replaces_files [OF demo_unpack_confined demo_restorable current_blueprint q,
      of "\<lambda>_ _. Ok ''data''" "\<lambda>data p. (Ret (Ok ()), data # p)" "''id''" "[]"]
  show ?thesis by auto
qed

end
