(* ===== verification/Effects.thy ===== *)
theory Effects
  imports Prelude
begin

text \<open>
  Operations of the server on a state: not returning (\<open>None\<close>), panicking, failing and succeeding, and the
  ways the code composes them.
\<close>

type_synonym ('w, 'e, 'a) act = "'w \<Rightarrow> (('e + 'a) run \<times> 'w) option"

definition act_ret :: "'e + 'a \<Rightarrow> ('w, 'e, 'a) act" where
  "act_ret r w = Some (Ret r, w)"

text \<open>\<open>act_then\<close> is the \<open>?\<close> operator after a call, with \<open>f\<close> on the error; \<open>act_err\<close> only maps the error.\<close>

definition act_then :: "('w, 'e, 'a) act \<Rightarrow> ('e \<Rightarrow> 'd) \<Rightarrow> ('a \<Rightarrow> ('w, 'd, 'b) act) \<Rightarrow> ('w, 'd, 'b) act" where
  "act_then m f k w =
     (case m w of
        None \<Rightarrow> None
      | Some (Panic, w') \<Rightarrow> Some (Panic, w')
      | Some (Ret (Inl e), w') \<Rightarrow> Some (Ret (Err (f e)), w')
      | Some (Ret (Inr a), w') \<Rightarrow> k a w')"

definition act_err :: "('e \<Rightarrow> 'd) \<Rightarrow> ('w, 'e, 'a) act \<Rightarrow> ('w, 'd, 'a) act" where
  "act_err f m = act_then m f (\<lambda>a. act_ret (Ok a))"

text \<open>An error that is only logged.\<close>

definition act_option :: "('w, 'e, 'a option) act \<Rightarrow> ('w, 'd, 'a option) act" where
  "act_option m w =
     (case m w of
        None \<Rightarrow> None
      | Some (Panic, w') \<Rightarrow> Some (Panic, w')
      | Some (Ret (Inl e), w') \<Rightarrow> Some (Ret (Ok None), w')
      | Some (Ret (Inr a), w') \<Rightarrow> Some (Ret (Ok a), w'))"

text \<open>A call that always returns, one that may panic, and an operation on a part of the state.\<close>

definition act_call :: "('w \<Rightarrow> ('e + 'a) \<times> 'w) \<Rightarrow> ('w, 'e, 'a) act" where
  "act_call f w = (let (r, w') = f w in Some (Ret r, w'))"

definition act_run :: "('w \<Rightarrow> ('e + 'a) run \<times> 'w) \<Rightarrow> ('w, 'e, 'a) act" where
  "act_run f w = Some (f w)"

definition act_on :: "('w \<Rightarrow> 'x) \<Rightarrow> (('x \<Rightarrow> 'x) \<Rightarrow> 'w \<Rightarrow> 'w) \<Rightarrow> ('x, 'e, 'a) act \<Rightarrow> ('w, 'e, 'a) act" where
  "act_on get upd m w = map_option (\<lambda>(r, x). (r, upd (\<lambda>_. x) w)) (m (get w))"

primrec act_for :: "('i \<Rightarrow> ('w, 'e, unit) act) \<Rightarrow> 'i list \<Rightarrow> ('w, 'e, unit) act" where
  "act_for f [] = act_ret (Ok ())"
| "act_for f (i # is) = act_then (f i) id (\<lambda>_. act_for f is)"

lemma act_ret_simp [simp]: "act_ret r w = Some (Ret r, w)"
  by (simp add: act_ret_def)

lemma act_then_simps [simp]:
  "m w = None \<Longrightarrow> act_then m f k w = None"
  "m w = Some (Panic, w') \<Longrightarrow> act_then m f k w = Some (Panic, w')"
  "m w = Some (Ret (Inl e), w') \<Longrightarrow> act_then m f k w = Some (Ret (Err (f e)), w')"
  "m w = Some (Ret (Inr a), w') \<Longrightarrow> act_then m f k w = k a w'"
  by (simp_all add: act_then_def)

lemma act_then_Ok:
  "act_then m f k w = Some (Ret (Inr b), w2) \<longleftrightarrow> (\<exists>a w1. m w = Some (Ret (Inr a), w1) \<and> k a w1 = Some (Ret (Inr b), w2))"
  by (auto simp: act_then_def split: option.splits run.splits sum.splits)

lemma act_err_Ok: "act_err f m w = Some (Ret (Inr b), w2) \<longleftrightarrow> m w = Some (Ret (Inr b), w2)"
  by (auto simp: act_err_def act_then_Ok)

lemma act_on_Ok: "act_on get upd m w = Some (r, w') \<longleftrightarrow> (\<exists>x. m (get w) = Some (r, x) \<and> w' = upd (\<lambda>_. x) w)"
  by (auto simp: act_on_def)

lemma act_call_Ok: "act_call f w = Some (r, w') \<longleftrightarrow> (\<exists>a. f w = (a, w') \<and> r = Ret a)"
  by (auto simp: act_call_def split: prod.splits)

lemma act_run_Ok: "act_run f w = Some (r, w') \<longleftrightarrow> f w = (r, w')"
  by (simp add: act_run_def)

lemmas act_Ok = act_then_Ok act_err_Ok act_on_Ok act_call_Ok act_run_Ok

text \<open>What holds of every outcome.\<close>

definition act_all :: "('w, 'e, 'a) act \<Rightarrow> 'w \<Rightarrow> (('e + 'a) run \<Rightarrow> 'w \<Rightarrow> bool) \<Rightarrow> bool" where
  "act_all m w Q \<longleftrightarrow> (\<forall>r w'. m w = Some (r, w') \<longrightarrow> Q r w')"

lemma act_all_then:
  assumes "act_all m w Q" "\<And>w'. Q Panic w' \<Longrightarrow> R Panic w'" "\<And>e w'. Q (Ret (Inl e)) w' \<Longrightarrow> R (Ret (Inl (f e))) w'"
    "\<And>a w'. Q (Ret (Inr a)) w' \<Longrightarrow> act_all (k a) w' R"
  shows "act_all (act_then m f k) w R"
  using assms unfolding act_all_def by (auto simp: act_then_def split: option.splits run.splits sum.splits)

lemma act_all_mono: "act_all m w Q \<Longrightarrow> (\<And>r w'. Q r w' \<Longrightarrow> R r w') \<Longrightarrow> act_all m w R"
  by (simp add: act_all_def)

lemma act_allD: "act_all m w Q \<Longrightarrow> m w = Some (r, w') \<Longrightarrow> Q r w'"
  by (simp add: act_all_def)

end
