(* ===== verification/Media.thy ===== *)
theory Media
  imports Prelude
begin

text \<open>
  \<^verbatim>\<open>api/crates/media-type-detect/src/lib.rs\<close> and \<^verbatim>\<open>api/crates/media-metadata/src/lib.rs\<close>: the media
  type of an image by its first bytes, and its dimensions.  A read out of bounds is a panic.
\<close>

section \<open>Media types\<close>

definition IMAGE_PNG :: string where "IMAGE_PNG = ''image/png''"
definition IMAGE_GIF :: string where "IMAGE_GIF = ''image/gif''"
definition IMAGE_JPEG :: string where "IMAGE_JPEG = ''image/jpeg''"

definition MAGIC_PREFIX_PNG :: bytes where
  "MAGIC_PREFIX_PNG = [CHR 0x89, CHR 0x50, CHR 0x4E, CHR 0x47, CHR 0x0D, CHR 0x0A, CHR 0x1A, CHR 0x0A]"
definition MAGIC_PREFIX_GIF :: bytes where
  "MAGIC_PREFIX_GIF = [CHR 0x47, CHR 0x49, CHR 0x46, CHR 0x38]"
definition MAGIC_PREFIX_JPEG :: bytes where
  "MAGIC_PREFIX_JPEG = [CHR 0xFF, CHR 0xD8, CHR 0xFF]"

definition detect_image_media_type :: "bytes \<Rightarrow> string option" where
  "detect_image_media_type data =
     (if starts_with data MAGIC_PREFIX_PNG then Some IMAGE_PNG
      else if starts_with data MAGIC_PREFIX_GIF then Some IMAGE_GIF
      else if starts_with data MAGIC_PREFIX_JPEG then Some IMAGE_JPEG
      else None)"

text \<open>\<open>is_media_type\<close>: \<open>None\<close> for an unsupported one.\<close>

definition is_media_type :: "bytes \<Rightarrow> string \<Rightarrow> bool option" where
  "is_media_type data media_type =
     (if media_type = IMAGE_PNG then Some (starts_with data MAGIC_PREFIX_PNG)
      else if media_type = IMAGE_GIF then Some (starts_with data MAGIC_PREFIX_GIF)
      else if media_type = IMAGE_JPEG then Some (starts_with data MAGIC_PREFIX_JPEG)
      else None)"

section \<open>Dimensions\<close>

record image_dimensions =
  width :: u32
  height :: u32

definition byte_at :: "bytes \<Rightarrow> nat \<Rightarrow> u8 run" where
  "byte_at data i = (if i < length data then Ret (of_char (data ! i)) else Panic)"

text \<open>Numbers from bytes, the most or the least significant byte first.\<close>

fun be_number :: "u8 list \<Rightarrow> nat" where
  "be_number [] = 0"
| "be_number (b # bs) = unat b * 256 ^ length bs + be_number bs"

definition le_number :: "u8 list \<Rightarrow> nat" where
  "le_number bs = be_number (rev bs)"

fun bytes_at :: "bytes \<Rightarrow> nat list \<Rightarrow> u8 list run" where
  "bytes_at data [] = Ret []"
| "bytes_at data (i # is) =
     (case byte_at data i of
        Panic \<Rightarrow> Panic
      | Ret b \<Rightarrow> (case bytes_at data is of Panic \<Rightarrow> Panic | Ret bs \<Rightarrow> Ret (b # bs)))"

definition dimensions_at :: "bytes \<Rightarrow> (u8 list \<Rightarrow> nat) \<Rightarrow> nat list \<Rightarrow> nat list \<Rightarrow> (anyhow + image_dimensions) run" where
  "dimensions_at data number ws hs =
     (case bytes_at data ws of
        Panic \<Rightarrow> Panic
      | Ret w \<Rightarrow>
          (case bytes_at data hs of
             Panic \<Rightarrow> Panic
           | Ret h \<Rightarrow> Ret (Ok \<lparr>width = of_nat (number w), height = of_nat (number h)\<rparr>)))"

definition dimensions_png :: "bytes \<Rightarrow> (anyhow + image_dimensions) run" where
  "dimensions_png data =
     (if length data < 24 then Ret (Err [''PNG data too short''])
      else dimensions_at data be_number [16, 17, 18, 19] [20, 21, 22, 23])"

definition dimensions_gif :: "bytes \<Rightarrow> (anyhow + image_dimensions) run" where
  "dimensions_gif data =
     (if length data < 10 then Ret (Err [''GIF data too short''])
      else dimensions_at data le_number [6, 7] [8, 9])"

text \<open>The markers of a frame, and those without a length.\<close>

definition is_sof :: "u8 \<Rightarrow> bool" where
  "is_sof m \<longleftrightarrow> 0xC0 \<le> m \<and> m \<le> 0xC3 \<or> 0xC5 \<le> m \<and> m \<le> 0xC7 \<or> 0xC9 \<le> m \<and> m \<le> 0xCB \<or> 0xCD \<le> m \<and> m \<le> 0xCF"

definition is_bare :: "u8 \<Rightarrow> bool" where
  "is_bare m \<longleftrightarrow> m = 0xD8 \<or> m = 0xD9 \<or> 0xD0 \<le> m \<and> m \<le> 0xD7"

function jpeg_loop :: "bytes \<Rightarrow> nat \<Rightarrow> (anyhow + image_dimensions) run" where
  "jpeg_loop data pos =
     (if \<not> pos + 8 < length data then Ret (Err [''No JPEG SOF marker found''])
      else
        (case byte_at data pos of
           Panic \<Rightarrow> Panic
         | Ret b \<Rightarrow>
             if b \<noteq> 0xFF then jpeg_loop data (pos + 1)
             else
               (case byte_at data (pos + 1) of
                  Panic \<Rightarrow> Panic
                | Ret marker \<Rightarrow>
                    if is_sof marker then
                      (if pos + 9 > length data then Ret (Err [''Invalid JPEG SOF marker''])
                       else dimensions_at data be_number [pos + 7, pos + 8] [pos + 5, pos + 6])
                    else if is_bare marker then jpeg_loop data (pos + 2)
                    else if pos + 4 > length data then Ret (Err [''Invalid JPEG jpeg_segment''])
                    else
                      (case bytes_at data [pos + 2, pos + 3] of
                         Panic \<Rightarrow> Panic
                       | Ret bs \<Rightarrow> jpeg_loop data (pos + (2 + be_number bs))))))"
  by pat_completeness auto
termination jpeg_loop
  by (relation "measure (\<lambda>(data, pos). length data - pos)") auto

declare jpeg_loop.simps [simp del]

definition dimensions_jpeg :: "bytes \<Rightarrow> (anyhow + image_dimensions) run" where
  "dimensions_jpeg data =
     (if length data < 2 then Ret (Err [''JPEG data too short'']) else jpeg_loop data 2)"

definition parse_dimensions :: "bytes \<Rightarrow> string \<Rightarrow> (anyhow + image_dimensions) run" where
  "parse_dimensions data media_type =
     (case is_media_type data media_type of
        None \<Rightarrow> Ret (Err [''Unsupported media type''])
      | Some False \<Rightarrow> Ret (Err [''Wrong media type''])
      | Some True \<Rightarrow>
          if media_type = ''image/png'' then dimensions_png data
          else if media_type = ''image/jpeg'' then dimensions_jpeg data
          else if media_type = ''image/gif'' then dimensions_gif data
          else Ret (Err [''Unsupported media type'']))"

section \<open>Lemmas\<close>

lemma byte_at_ok: "i < length data \<Longrightarrow> byte_at data i = Ret (of_char (data ! i))"
  by (simp add: byte_at_def)

lemma bytes_at_ok: "\<forall>i\<in>set is. i < length data \<Longrightarrow> bytes_at data is = Ret (map (\<lambda>i. of_char (data ! i)) is)"
  by (induction "is") (auto simp: byte_at_ok)

lemma dimensions_at_ok:
  "\<forall>i\<in>set (ws @ hs). i < length data \<Longrightarrow> \<exists>d. dimensions_at data number ws hs = Ret (Ok d)"
  by (auto simp: dimensions_at_def bytes_at_ok)

lemma jpeg_loop_no_panic: "jpeg_loop data pos \<noteq> Panic"
proof (induction data pos rule: jpeg_loop.induct)
  case (1 data pos)
  show ?case
  proof (cases "pos + 8 < length data")
    case True
    have "\<exists>d. dimensions_at data be_number [pos + 7, pos + 8] [pos + 5, pos + 6] = Ret (Ok d)"
      by (rule dimensions_at_ok) (use True in auto)
    then show ?thesis using True 1
      by (subst jpeg_loop.simps) (auto simp: byte_at_ok bytes_at_ok simp del: be_number.simps split: if_splits)
  qed (simp add: jpeg_loop.simps)
qed

text \<open>A segment of a JPEG file: a marker, its length (two bytes, counting themselves) and its payload.\<close>

definition be16 :: "nat \<Rightarrow> bytes" where
  "be16 n = [char_of (n div 256), char_of (n mod 256)]"

definition jpeg_segment :: "u8 \<Rightarrow> bytes \<Rightarrow> bytes" where
  "jpeg_segment marker payload = [CHR 0xFF, char_of (unat marker)] @ be16 (length payload + 2) @ payload"

definition segment_ok :: "u8 \<times> bytes \<Rightarrow> bool" where
  "segment_ok s \<longleftrightarrow> \<not> is_sof (fst s) \<and> \<not> is_bare (fst s) \<and> length (snd s) + 2 < 65536"

definition jpeg_frame :: "u8 \<Rightarrow> u8 \<Rightarrow> nat \<Rightarrow> nat \<Rightarrow> bytes" where
  "jpeg_frame marker precision h w = [CHR 0xFF, char_of (unat marker)] @ be16 17 @ [char_of (unat precision)] @ be16 h @ be16 w"

lemma unat_byte: "unat (of_char c :: u8) = of_char c"
proof -
  have "(of_char c :: u8) = of_nat (of_char c)" by (simp only: of_nat_of_char)
  then have "unat (of_char c :: u8) = of_char c mod 2 ^ LENGTH(8)" by (simp only: unat_of_nat)
  also have "\<dots> = of_char c" using nat_of_char_less_256 [of c] by simp
  finally show ?thesis .
qed

lemma be_number_be16: "n < 65536 \<Longrightarrow> be_number (map of_char (be16 n)) = n"
  by (simp add: be16_def unat_byte of_char_of)

lemma marker_byte: "of_char (char_of (unat m) :: char) = m" for m :: u8
proof -
  have "unat (of_char (char_of (unat m) :: char) :: u8) = unat m"
    using unsigned_less [of m, where ?'a = nat] by (simp add: unat_byte of_char_of)
  then show ?thesis by (rule unsigned_word_eqI)
qed

lemma jpeg_loop_segment:
  assumes "segment_ok (m, p)" "9 \<le> length post"
  shows "jpeg_loop (pre @ jpeg_segment m p @ post) (length pre) = jpeg_loop (pre @ jpeg_segment m p @ post) (length (pre @ jpeg_segment m p))"
proof -
  let ?data = "pre @ jpeg_segment m p @ post" and ?pos = "length pre"
  have len: "length (jpeg_segment m p) = length p + 4" by (simp add: jpeg_segment_def be16_def)
  have k: "?data ! (?pos + i) = (jpeg_segment m p @ post) ! i" for i by (rule nth_append_length_plus)
  have b: "of_char (?data ! ?pos) = (0xFF :: u8)" "of_char (?data ! (?pos + 1)) = m"
    "map (\<lambda>i. of_char (?data ! i)) [?pos + 2, ?pos + 3] = (map of_char (be16 (length p + 2)) :: u8 list)"
    using k [of 0] k [of 1] k [of 2] k [of 3] marker_byte by (simp_all add: jpeg_segment_def be16_def nth_Cons')
  have "bytes_at ?data [?pos + 2, ?pos + 3] = Ret (map of_char (be16 (length p + 2)))"
    unfolding b(3) [symmetric] by (rule bytes_at_ok) (use len assms(2) in auto)
  moreover have "be_number (map of_char (be16 (length p + 2))) = length p + 2"
    using assms(1) be_number_be16 by (simp add: segment_ok_def)
  moreover have "byte_at ?data ?pos = Ret 0xFF" "byte_at ?data (?pos + 1) = Ret m"
    using b(1,2) byte_at_ok [of ?pos ?data] byte_at_ok [of "?pos + 1" ?data] len by simp_all
  ultimately show ?thesis using assms len
    by (subst jpeg_loop.simps)
      (auto simp: segment_ok_def simp del: bytes_at.simps be_number.simps intro!: arg_cong [where f = "jpeg_loop _"])
qed

lemma jpeg_loop_segments:
  assumes "\<forall>s\<in>set segs. segment_ok s" "9 \<le> length post"
  shows "jpeg_loop (pre @ concat (map (\<lambda>(m, p). jpeg_segment m p) segs) @ post) (length pre) =
    jpeg_loop (pre @ concat (map (\<lambda>(m, p). jpeg_segment m p) segs) @ post) (length (pre @ concat (map (\<lambda>(m, p). jpeg_segment m p) segs)))"
  using assms(1)
proof (induction segs arbitrary: pre)
  case (Cons s segs)
  obtain m p where s: "s = (m, p)" by (cases s)
  let ?rest = "concat (map (\<lambda>(m, p). jpeg_segment m p) segs) @ post"
  have "jpeg_loop (pre @ jpeg_segment m p @ ?rest) (length pre) = jpeg_loop (pre @ jpeg_segment m p @ ?rest) (length (pre @ jpeg_segment m p))"
    using Cons.prems assms(2) s by (intro jpeg_loop_segment) auto
  also have "\<dots> = jpeg_loop ((pre @ jpeg_segment m p) @ ?rest) (length ((pre @ jpeg_segment m p) @ concat (map (\<lambda>(m, p). jpeg_segment m p) segs)))"
    using Cons.IH [of "pre @ jpeg_segment m p"] Cons.prems by simp
  finally show ?case by (simp add: s)
qed simp

lemma jpeg_loop_frame:
  assumes "is_sof m" "h < 65536" "w < 65536"
  shows "jpeg_loop (pre @ jpeg_frame m prec h w @ post) (length pre) = Ret (Ok \<lparr>width = of_nat w, height = of_nat h\<rparr>)"
proof -
  let ?data = "pre @ jpeg_frame m prec h w @ post" and ?pos = "length pre"
  have k: "?data ! (?pos + i) = (jpeg_frame m prec h w @ post) ! i" for i by (rule nth_append_length_plus)
  have len: "?pos + 9 \<le> length ?data" by (simp add: jpeg_frame_def be16_def)
  have b: "of_char (?data ! ?pos) = (0xFF :: u8)" "of_char (?data ! (?pos + 1)) = m"
    "map (\<lambda>i. of_char (?data ! i)) [?pos + 5, ?pos + 6] = (map of_char (be16 h) :: u8 list)"
    "map (\<lambda>i. of_char (?data ! i)) [?pos + 7, ?pos + 8] = (map of_char (be16 w) :: u8 list)"
    using k [of 0] k [of 1] k [of 5] k [of 6] k [of 7] k [of 8] marker_byte by (simp_all add: jpeg_frame_def be16_def nth_Cons')
  have "bytes_at ?data [?pos + 5, ?pos + 6] = Ret (map of_char (be16 h))"
    unfolding b(3) [symmetric] by (rule bytes_at_ok) (use len in auto)
  moreover have "bytes_at ?data [?pos + 7, ?pos + 8] = Ret (map of_char (be16 w))"
    unfolding b(4) [symmetric] by (rule bytes_at_ok) (use len in auto)
  moreover have "?pos < length ?data" "?pos + 1 < length ?data" using len by linarith+
  then have "byte_at ?data ?pos = Ret 0xFF" "byte_at ?data (?pos + 1) = Ret m"
    using byte_at_ok [of ?pos ?data] byte_at_ok [of "?pos + 1" ?data] b(1,2) by (simp_all only:)
  ultimately show ?thesis using assms len
    by (subst jpeg_loop.simps) (simp add: dimensions_at_def be_number_be16 del: bytes_at.simps be_number.simps)
qed

section \<open>Properties\<close>

text \<open>
  C33. Reading the dimensions of an image ends without reading out of bounds, whatever the data; and for a
  JPEG file it gives those of the first frame, whatever segments come before it (thumbnails in them included).
\<close>

theorem jpeg_dimensions_exact:
  assumes "\<forall>s\<in>set segs. segment_ok s" "is_sof m" "h < 65536" "w < 65536"
    "data = [CHR 0xFF, CHR 0xD8] @ concat (map (\<lambda>(m, p). jpeg_segment m p) segs) @ jpeg_frame m prec h w @ rest"
  shows "dimensions_jpeg data = Ret (Ok \<lparr>width = of_nat w, height = of_nat h\<rparr>) \<and> parse_dimensions other media_type \<noteq> Panic"
proof -
  let ?pre = "[CHR 0xFF, CHR 0xD8] @ concat (map (\<lambda>(m, p). jpeg_segment m p) segs)"
  have "9 \<le> length (jpeg_frame m prec h w @ rest)" by (simp add: jpeg_frame_def be16_def)
  from jpeg_loop_segments [OF assms(1) this, of "[CHR 0xFF, CHR 0xD8]"] jpeg_loop_frame [OF assms(2-4), of ?pre prec rest]
  have "dimensions_jpeg data = Ret (Ok \<lparr>width = of_nat w, height = of_nat h\<rparr>)"
    by (simp add: dimensions_jpeg_def assms(5) numeral_2_eq_2)
  moreover have "dimensions_png other \<noteq> Panic" "dimensions_gif other \<noteq> Panic"
    using dimensions_at_ok [of "[16, 17, 18, 19]" "[20, 21, 22, 23]" other be_number] dimensions_at_ok [of "[6, 7]" "[8, 9]" other le_number]
    by (auto simp: dimensions_png_def dimensions_gif_def not_less)
  moreover have "dimensions_jpeg other \<noteq> Panic" using jpeg_loop_no_panic by (simp add: dimensions_jpeg_def)
  ultimately show ?thesis by (auto simp: parse_dimensions_def split: option.splits bool.splits)
qed

theorem jpeg_dimensions_exact_witness:
  "\<exists>data. detect_image_media_type data = Some IMAGE_JPEG \<and> dimensions_jpeg data = Ret (Ok \<lparr>width = 640, height = 480\<rparr>) \<and>
     parse_dimensions [] IMAGE_PNG \<noteq> Panic"
proof -
  have "\<forall>s\<in>set [(0xE1, [CHR 0xFF, CHR 0xC0])]. segment_ok s" "is_sof 0xC0"
    by (simp_all add: segment_ok_def is_sof_def is_bare_def)
  from jpeg_dimensions_exact [OF this, of 480 640 _ 8 "[]" "[]" IMAGE_PNG]
  have "dimensions_jpeg ([CHR 0xFF, CHR 0xD8] @ concat (map (\<lambda>(m, p). jpeg_segment m p) [(0xE1, [CHR 0xFF, CHR 0xC0])]) @ jpeg_frame 0xC0 8 480 640 @ []) =
      Ret (Ok \<lparr>width = 640, height = 480\<rparr>)" "parse_dimensions [] IMAGE_PNG \<noteq> Panic" by simp_all
  moreover have "detect_image_media_type ([CHR 0xFF, CHR 0xD8] @ concat (map (\<lambda>(m, p). jpeg_segment m p) [(0xE1, [CHR 0xFF, CHR 0xC0])]) @ jpeg_frame 0xC0 8 480 640 @ []) =
      Some IMAGE_JPEG"
    by (simp add: detect_image_media_type_def jpeg_segment_def MAGIC_PREFIX_PNG_def MAGIC_PREFIX_GIF_def MAGIC_PREFIX_JPEG_def starts_with_def)
  ultimately show ?thesis by blast
qed

end
