(* ===== verification/Xmpp_Client.thy ===== *)
theory Xmpp_Client
  imports Effects Media
begin

text \<open>
  \<^verbatim>\<open>api/crates/prosody-rest/src/prosody_rest.rs\<close>: vCards and avatars through the XMPP library over a REST
  connection, and the avatars of \<^verbatim>\<open>api/src/models/mod.rs\<close>.  The library (\<open>prose_xmpp\<close>) with the server
  behind it is the parameter \<open>xmpp_lib\<close> over a state of its own.
\<close>

type_synonym jid = "string \<times> string"

definition jid_text :: "jid \<Rightarrow> string" where
  "jid_text j = fst j @ ''@'' @ snd j"

datatype avatar_data = Base64Data string | RawData bytes

record ('v, 'x) xmpp_lib =
  xm_connect :: "jid \<Rightarrow> string \<Rightarrow> 'x \<Rightarrow> (anyhow + unit) \<times> 'x"
  xm_load_vcard :: "jid \<Rightarrow> 'x \<Rightarrow> (anyhow + 'v option) \<times> 'x"
  xm_publish_vcard :: "'v \<Rightarrow> 'x \<Rightarrow> (anyhow + unit) \<times> 'x"
  xm_load_avatar_metadata :: "jid \<Rightarrow> 'x \<Rightarrow> (anyhow + string option) \<times> 'x"
  xm_load_avatar_image :: "jid \<Rightarrow> string \<Rightarrow> 'x \<Rightarrow> (anyhow + avatar_data option) \<times> 'x"
  xm_valid_sha1 :: "string \<Rightarrow> bool"
  xm_checksum :: "bytes \<Rightarrow> anyhow + string"
  xm_set_avatar_image :: "string \<Rightarrow> bytes \<Rightarrow> 'x \<Rightarrow> (anyhow + unit) \<times> 'x"
  xm_set_avatar_metadata :: "nat \<Rightarrow> string \<Rightarrow> string \<Rightarrow> u32 \<Rightarrow> u32 \<Rightarrow> 'x \<Rightarrow> (anyhow + unit) \<times> 'x"

record caller_credentials =
  cc_bare_jid :: jid
  cc_auth_token :: string

section \<open>vCards\<close>

definition xmpp_client :: "('v, 'x) xmpp_lib \<Rightarrow> caller_credentials \<Rightarrow> ('x, anyhow, unit) act" where
  "xmpp_client X caller = act_call (xm_connect X (cc_bare_jid caller) (cc_auth_token caller))"

definition get_vcard :: "('v, 'x) xmpp_lib \<Rightarrow> jid \<Rightarrow> caller_credentials \<Rightarrow> ('x, anyhow, 'v option) act" where
  "get_vcard X jid caller = act_then (xmpp_client X caller) id (\<lambda>_. act_call (xm_load_vcard X jid))"

definition get_own_vcard :: "('v, 'x) xmpp_lib \<Rightarrow> caller_credentials \<Rightarrow> ('x, anyhow, 'v option) act" where
  "get_own_vcard X caller = get_vcard X (cc_bare_jid caller) caller"

definition set_own_vcard :: "('v, 'x) xmpp_lib \<Rightarrow> 'v \<Rightarrow> caller_credentials \<Rightarrow> ('x, anyhow, unit) act" where
  "set_own_vcard X vcard caller = act_then (xmpp_client X caller) id (\<lambda>_. act_call (xm_publish_vcard X vcard))"

section \<open>Avatars\<close>

definition get_avatar :: "('v, 'x) xmpp_lib \<Rightarrow> jid \<Rightarrow> caller_credentials \<Rightarrow> ('x, anyhow, avatar_data option) act" where
  "get_avatar X jid caller =
     act_then (xmpp_client X caller) id (\<lambda>_.
     act_then (act_call (xm_load_avatar_metadata X jid)) id (\<lambda>metadata.
       case metadata of
         None \<Rightarrow> act_ret (Ok None)
       | Some i \<Rightarrow>
           if xm_valid_sha1 X i then act_call (xm_load_avatar_image X jid i) else act_run (\<lambda>x. (Panic, x))))"

definition set_own_avatar :: "('v, 'x) xmpp_lib \<Rightarrow> bytes \<Rightarrow> caller_credentials \<Rightarrow> ('x, anyhow, unit) act" where
  "set_own_avatar X avatar caller =
     (case detect_image_media_type avatar of
        None \<Rightarrow> act_ret (Err [''Unsupported media type.''])
      | Some media_type \<Rightarrow>
          (case parse_dimensions avatar media_type of
             Panic \<Rightarrow> act_run (\<lambda>x. (Panic, x))
           | Ret (Inl e) \<Rightarrow> act_ret (Err (context_msg ''Could not find dimensions in the avatar data'' e))
           | Ret (Inr d) \<Rightarrow>
               act_then (xmpp_client X caller) id (\<lambda>_.
                 case xm_checksum X avatar of
                   Inl e \<Rightarrow> act_ret (Err (context_msg ''Could not generate avatar checksum'' e))
                 | Inr checksum \<Rightarrow>
                     act_then (act_call (xm_set_avatar_image X checksum avatar)) (context_msg ''Could not upload avatar'') (\<lambda>_.
                     act_then (act_call (xm_set_avatar_metadata X (length avatar) checksum media_type (width d) (height d)))
                       (context_msg ''Could not upload avatar metadata'') (\<lambda>_. act_ret (Ok ()))))))"

text \<open>\<open>models::Avatar\<close>; the decoder of Base64 is a parameter.\<close>

definition AVATAR_MAX_LENGTH_BYTES :: nat where
  "AVATAR_MAX_LENGTH_BYTES = 10000000"

record avatar =
  av_bytes :: bytes
  av_media_type :: string

datatype avatar_decode_error = TooLarge | UnsupportedMediaType | InvalidBase64 anyhow

definition try_from_bytes :: "bytes \<Rightarrow> avatar_decode_error + avatar" where
  "try_from_bytes data =
     (if length data > AVATAR_MAX_LENGTH_BYTES then Err TooLarge
      else
        (case detect_image_media_type data of
           None \<Rightarrow> Err UnsupportedMediaType
         | Some t \<Rightarrow> Ok \<lparr>av_bytes = data, av_media_type = t\<rparr>))"

definition try_from_base64 :: "(bytes \<Rightarrow> anyhow + bytes) \<Rightarrow> bytes \<Rightarrow> avatar_decode_error + avatar" where
  "try_from_base64 decode data = try_bind (map_err InvalidBase64 (decode data)) try_from_bytes"

definition avatar_of_data :: "(bytes \<Rightarrow> anyhow + bytes) \<Rightarrow> avatar_data \<Rightarrow> avatar_decode_error + avatar" where
  "avatar_of_data decode d = (case d of Base64Data s \<Rightarrow> try_from_base64 decode s | RawData b \<Rightarrow> try_from_bytes b)"

end
