(* ===== verification/Color.thy ===== *)
theory Color
  imports Prelude
begin

text \<open>
  \<^verbatim>\<open>api/src/models/color.rs\<close>: colors, their parser and their printing.
\<close>

section \<open>Model\<close>

datatype color = Hex u8 u8 u8

definition is_ascii_hexdigit :: "char \<Rightarrow> bool" where
  "is_ascii_hexdigit c \<longleftrightarrow> (let n = (of_char c :: nat) in 48 \<le> n \<and> n \<le> 57 \<or> 65 \<le> n \<and> n \<le> 70 \<or> 97 \<le> n \<and> n \<le> 102)"

definition to_u8 :: "char \<Rightarrow> u8 run" where
  "to_u8 c =
     (let n = (of_char c :: nat) in
      if 48 \<le> n \<and> n \<le> 57 then Ret (of_nat (n - 48))
      else if 97 \<le> n \<and> n \<le> 102 then Ret (of_nat (n - 97 + 10))
      else if 65 \<le> n \<and> n \<le> 70 then Ret (of_nat (n - 65 + 10))
      else Panic)"

definition hex_to_u8 :: "char \<Rightarrow> char \<Rightarrow> u8 run" where
  "hex_to_u8 h l =
     (case to_u8 h of Panic \<Rightarrow> Panic | Ret a \<Rightarrow> (case to_u8 l of Panic \<Rightarrow> Panic | Ret b \<Rightarrow> Ret (or (push_bit 4 a) b)))"

fun hex_pairs :: "(char \<times> char) list \<Rightarrow> u8 list run" where
  "hex_pairs [] = Ret []"
| "hex_pairs ((h, l) # ps) =
     (case hex_to_u8 h l of Panic \<Rightarrow> Panic | Ret a \<Rightarrow> (case hex_pairs ps of Panic \<Rightarrow> Panic | Ret as \<Rightarrow> Ret (a # as)))"

definition color_from_str :: "string \<Rightarrow> (anyhow + color) run" where
  "color_from_str s =
     (if starts_with s ''#'' then
        if \<not> list_all is_ascii_hexdigit (tl s) then Ret (Err [''Invalid Hex string: Bad chars.''])
        else
          (let rgb =
             (case s of
                [_, r, g, b] \<Rightarrow> Some [(r, r), (g, g), (b, b)]
              | [_, r, r', g, g', b, b'] \<Rightarrow> Some [(r, r'), (g, g'), (b, b')]
              | _ \<Rightarrow> None)
           in case rgb of
                None \<Rightarrow> Ret (Err [''Invalid Hex string: Wrong length.''])
              | Some ps \<Rightarrow>
                  (case hex_pairs ps of
                     Ret [r, g, b] \<Rightarrow> Ret (Ok (Hex r g b))
                   | _ \<Rightarrow> Panic))
      else Ret (Err [''Not supported yet.'']))"

text \<open>The format \<open>02x\<close> of a byte.\<close>

definition hex_digit :: "nat \<Rightarrow> char" where
  "hex_digit n = (if n < 10 then char_of (48 + n) else char_of (87 + n))"

definition fmt_02x :: "u8 \<Rightarrow> string" where
  "fmt_02x b = [hex_digit (unat b div 16), hex_digit (unat b mod 16)]"

definition color_fmt :: "color \<Rightarrow> string" where
  "color_fmt c = (case c of Hex r g b \<Rightarrow> ''#'' @ fmt_02x r @ fmt_02x g @ fmt_02x b)"

section \<open>Lemmas\<close>

lemma to_u8_hex_digit: "n < 16 \<Longrightarrow> to_u8 (hex_digit n) = Ret (of_nat n)" "n < 16 \<Longrightarrow> is_ascii_hexdigit (hex_digit n)"
  using less_16_cases [of n] by (auto simp: to_u8_def hex_digit_def is_ascii_hexdigit_def Let_def)

lemma nibbles:
  assumes "a < 16" "b < 16"
  shows "or (push_bit 4 (of_nat a)) (of_nat b) = (of_nat (16 * a + b) :: u8)"
proof -
  have "take_bit 4 b = b" using assms(2) by (simp add: take_bit_nat_eq_self_iff)
  then have "bit b n \<longleftrightarrow> n < 4 \<and> bit b n" for n using bit_take_bit_iff [of 4 b n] by simp
  then have "\<not> bit (push_bit 4 (of_nat a :: u8)) n \<or> \<not> bit (of_nat b :: u8) n" for n
    by (auto simp: bit_push_bit_iff bit_of_nat_iff not_le)
  then have "or (push_bit 4 (of_nat a)) (of_nat b) = push_bit 4 (of_nat a) + (of_nat b :: u8)" by (simp add: disjunctive_add)
  then show ?thesis by (simp add: push_bit_eq_mult)
qed

lemma hex_to_u8_02x: "hex_to_u8 (hex_digit (unat b div 16)) (hex_digit (unat b mod 16)) = Ret b"
proof -
  have "unat b div 16 < 16" using unsigned_less [of b, where ?'a = nat] by simp
  then show ?thesis using to_u8_hex_digit(1) nibbles [of "unat b div 16" "unat b mod 16"] by (simp add: hex_to_u8_def)
qed

text \<open>Printing and parsing a color gives it back, and a parser never panics.\<close>

lemma color_roundtrip: "color_from_str (color_fmt c) = Ret (Ok c)"
proof (cases c)
  case (Hex r g b)
  have lt: "unat b div 16 < 16" for b :: u8 using unsigned_less [of b, where ?'a = nat] by simp
  show ?thesis using to_u8_hex_digit(2) lt
    by (simp add: Hex color_from_str_def color_fmt_def fmt_02x_def starts_with_def hex_to_u8_02x)
qed

lemma to_u8_hexdigit: "is_ascii_hexdigit c \<Longrightarrow> \<exists>a. to_u8 c = Ret a"
  by (auto simp: is_ascii_hexdigit_def to_u8_def Let_def)

lemma hex_pairs_three:
  assumes "is_ascii_hexdigit a" "is_ascii_hexdigit a'" "is_ascii_hexdigit b" "is_ascii_hexdigit b'" "is_ascii_hexdigit c" "is_ascii_hexdigit c'"
  shows "\<exists>r g e. hex_pairs [(a, a'), (b, b'), (c, c')] = Ret [r, g, e]"
proof -
  have "\<exists>v. hex_to_u8 h l = Ret v" if "is_ascii_hexdigit h" "is_ascii_hexdigit l" for h l
    using to_u8_hexdigit [OF that(1)] to_u8_hexdigit [OF that(2)] by (auto simp: hex_to_u8_def)
  with assms obtain r g e where "hex_to_u8 a a' = Ret r" "hex_to_u8 b b' = Ret g" "hex_to_u8 c c' = Ret e" by meson
  then show ?thesis by simp
qed

lemma color_from_str_no_panic: "color_from_str s \<noteq> Panic"
proof (cases "starts_with s ''#'' \<and> list_all is_ascii_hexdigit (tl s)")
  case True
  then obtain t where s: "s = CHR ''#'' # t" "list_all is_ascii_hexdigit t" by (cases s) (auto simp: starts_with_def split: if_splits)
  consider (short) "length t = 3" | (long) "length t = 6" | (other) "length t \<noteq> 3" "length t \<noteq> 6" by blast
  then show ?thesis
  proof cases
    case short
    then obtain r g b where "t = [r, g, b]" by (auto simp: numeral_3_eq_3 length_Suc_conv)
    then show ?thesis using hex_pairs_three [of r r g g b b] s
      by (auto simp: color_from_str_def starts_with_def simp del: hex_pairs.simps)
  next
    case long
    then obtain r r' g g' b b' where "t = [r, r', g, g', b, b']" by (auto simp: eval_nat_numeral length_Suc_conv)
    then show ?thesis using hex_pairs_three [of r r' g g' b b'] s
      by (auto simp: color_from_str_def starts_with_def simp del: hex_pairs.simps)
  next
    case other
    then show ?thesis using s by (auto simp: color_from_str_def starts_with_def split: list.splits)
  qed
qed (auto simp: color_from_str_def)

end
