(* ===== verification/Workspace.thy ===== *)
theory Workspace
  imports Xmpp_Client Color Api_Errors App_Config Token_Cache Prosody_Shell
begin

text \<open>
  \<^verbatim>\<open>api/src/router/workspace.rs\<close>: the profile of the workspace, kept in the vCard of a service account.
  The types of vCards are those of \<open>prose_xmpp\<close> and \<open>minidom\<close>: the parameter \<open>vcard_lib\<close>, with what the code
  relies on in \<open>vcard_laws\<close>.
\<close>

section \<open>Parameters\<close>

text \<open>The name, the properties the library does not know, and the rest of a vCard.\<close>

record ('p, 'r) vcard =
  vc_fn :: "string list"
  vc_unknown :: 'p
  vc_rest :: 'r

record ('p, 'e, 'r) vcard_lib =
  vl_default :: "('p, 'r) vcard"
  pc_elements :: "'p \<Rightarrow> 'e list"
  pc_collect :: "'e list \<Rightarrow> 'p"
  pc_push :: "'e \<Rightarrow> 'p \<Rightarrow> 'p"
  pc_get :: "string \<Rightarrow> 'p \<Rightarrow> 'e list"
  el_name :: "'e \<Rightarrow> string"
  el_text :: "'e \<Rightarrow> string"
  el_new :: "string \<Rightarrow> string \<Rightarrow> 'e"

definition vcard_laws :: "('p, 'e, 'r) vcard_lib \<Rightarrow> bool" where
  "vcard_laws V \<longleftrightarrow>
     (\<forall>es. pc_elements V (pc_collect V es) = es) \<and>
     (\<forall>e p. pc_elements V (pc_push V e p) = pc_elements V p @ [e]) \<and>
     (\<forall>k p. pc_get V k p = filter (\<lambda>e. el_name V e = k) (pc_elements V p)) \<and>
     (\<forall>k v. el_name V (el_new V k v) = k)"

text \<open>\<open>http::Uri\<close>, as strings: parsing, the path, the query, and another path and query.\<close>

record uri_lib =
  uri_parse :: "string \<Rightarrow> string option"
  uri_path :: "string \<Rightarrow> string"
  uri_query :: "string \<Rightarrow> string option"
  uri_with :: "string \<Rightarrow> string \<Rightarrow> anyhow + string"

record ('p, 'e, 'r, 'x, 'q, 's) backend_libs =
  bl_vcards :: "('p, 'e, 'r) vcard_lib"
  bl_xmpp :: "(('p, 'r) vcard, 'x) xmpp_lib"
  bl_delays :: "('q, jid) delay_lib"
  bl_oauth :: "jid oauth2"
  bl_shell :: "'s shell_proc"
  bl_uris :: uri_lib
  bl_base64 :: "bytes \<Rightarrow> anyhow + bytes"
  bl_now :: nat
  bl_error_id :: string

record ('x, 'q, 's) backend_world =
  bw_xmpp :: 'x
  bw_secrets :: "('q, jid) secrets"
  bw_shell :: "'s prosody_shell"

definition on_xmpp where "on_xmpp m = act_on bw_xmpp bw_xmpp_update m"
definition on_secrets where "on_secrets m = act_on bw_secrets bw_secrets_update m"
definition on_shell where "on_shell m = act_on bw_shell bw_shell_update m"

section \<open>The profile\<close>

definition ACCENT_COLOR_EXTENSION_KEY :: string where "ACCENT_COLOR_EXTENSION_KEY = ''x-accent-color''"
definition PROSE_POD_DASHBOARD_URL_EXTENSION_KEY :: string where
  "PROSE_POD_DASHBOARD_URL_EXTENSION_KEY = ''x-prose-pod-dashboard-url''"
definition PROSE_POD_API_URL_EXTENSION_KEY :: string where "PROSE_POD_API_URL_EXTENSION_KEY = ''x-prose-pod-api-url''"
definition PROSE_AUTO_UPDATE_ENABLED_EXTENSION_KEY :: string where
  "PROSE_AUTO_UPDATE_ENABLED_EXTENSION_KEY = ''x-prose-auto-update-enabled''"

record workspace_profile =
  wp_name :: string
  wp_icon :: "avatar option"
  wp_accent_color :: "color option"
  wp_dashboard_url :: "string option"
  wp_api_url :: "string option"
  wp_auto_update_enabled :: "bool option"

definition workspace_not_initialized_error :: "string \<Rightarrow> api_error" where
  "workspace_not_initialized_error error_id =
     internal_server_error error_id ''WORKSPACE_NOT_INITIALIZED'' ''Workspace account not initialized.''"

definition parse_color :: "string \<Rightarrow> color option" where
  "parse_color s = (case color_from_str s of Ret (Inr c) \<Rightarrow> Some c | _ \<Rightarrow> None)"

definition parse_bool :: "string \<Rightarrow> bool option" where
  "parse_bool s = (if s = ''true'' then Some True else if s = ''false'' then Some False else None)"

text \<open>\<open>get_unknown_property\<close>: the key is only used in a log.\<close>

definition get_unknown_property :: "('p, 'e, 'r) vcard_lib \<Rightarrow> (string \<Rightarrow> 'a option) \<Rightarrow> 'p \<Rightarrow> string \<Rightarrow> 'a option" where
  "get_unknown_property V parse unknown_properties key =
     (case pc_get V ACCENT_COLOR_EXTENSION_KEY unknown_properties of
        [] \<Rightarrow> None
      | v # _ \<Rightarrow> parse (el_text V v))"

definition profile_of_vcard ::
  "('p, 'e, 'r) vcard_lib \<Rightarrow> uri_lib \<Rightarrow> string \<Rightarrow> ('p, 'r) vcard \<Rightarrow> api_error + workspace_profile" where
  "profile_of_vcard V U error_id vcard =
     (case vc_fn vcard of
        [] \<Rightarrow> Err (workspace_not_initialized_error error_id)
      | name # _ \<Rightarrow>
          Ok \<lparr>wp_name = name, wp_icon = None,
             wp_accent_color = get_unknown_property V parse_color (vc_unknown vcard) ACCENT_COLOR_EXTENSION_KEY,
             wp_dashboard_url = get_unknown_property V (uri_parse U) (vc_unknown vcard) PROSE_POD_DASHBOARD_URL_EXTENSION_KEY,
             wp_api_url = get_unknown_property V (uri_parse U) (vc_unknown vcard) PROSE_POD_API_URL_EXTENSION_KEY,
             wp_auto_update_enabled = get_unknown_property V parse_bool (vc_unknown vcard) PROSE_AUTO_UPDATE_ENABLED_EXTENSION_KEY\<rparr>)"

section \<open>Changes\<close>

record patch_workspace_command =
  pw_name :: "string option"
  pw_accent_color :: "color option option"
  pw_dashboard_url :: "string option option"
  pw_api_url :: "string option option"
  pw_auto_update_enabled :: "bool option option"

definition patch_default :: patch_workspace_command where
  "patch_default = \<lparr>pw_name = None, pw_accent_color = None, pw_dashboard_url = None, pw_api_url = None, pw_auto_update_enabled = None\<rparr>"

text \<open>What the body of a PATCH request can hold.\<close>

record patch_workspace_request =
  pr_name :: "string option"
  pr_accent_color :: "color option option"
  pr_auto_update_enabled :: "bool option option"

definition command_of_request :: "patch_workspace_request \<Rightarrow> patch_workspace_command" where
  "command_of_request req = patch_default\<lparr>pw_name := pr_name req, pw_accent_color := pr_accent_color req,
     pw_auto_update_enabled := pr_auto_update_enabled req\<rparr>"

text \<open>\<open>replace\<close>, with the new value already as a string.\<close>

definition replace_property :: "('p, 'e, 'r) vcard_lib \<Rightarrow> 'p \<Rightarrow> string \<Rightarrow> string option option \<Rightarrow> 'p" where
  "replace_property V unknown_properties key new_value =
     (case new_value of
        Some (Some v) \<Rightarrow>
          (let es = pc_elements V unknown_properties;
               found = (\<exists>e \<in> set es. el_name V e = key);
               replaced = pc_collect V (map (\<lambda>e. if el_name V e = key then el_new V key v else e) es)
           in if found then replaced else pc_push V (el_new V key v) replaced)
      | Some None \<Rightarrow> pc_collect V (filter (\<lambda>e. el_name V e \<noteq> key) (pc_elements V unknown_properties))
      | None \<Rightarrow> unknown_properties)"

definition patch_vcard :: "('p, 'e, 'r) vcard_lib \<Rightarrow> patch_workspace_command \<Rightarrow> ('p, 'r) vcard \<Rightarrow> ('p, 'r) vcard" where
  "patch_vcard V c vcard =
     (let vcard = (case pw_name c of None \<Rightarrow> vcard | Some name \<Rightarrow> vcard\<lparr>vc_fn := [name]\<rparr>);
          p = vc_unknown vcard;
          p = replace_property V p ACCENT_COLOR_EXTENSION_KEY (map_option (map_option color_fmt) (pw_accent_color c));
          p = replace_property V p PROSE_POD_DASHBOARD_URL_EXTENSION_KEY (pw_dashboard_url c);
          p = replace_property V p PROSE_POD_API_URL_EXTENSION_KEY (pw_api_url c);
          p = replace_property V p PROSE_AUTO_UPDATE_ENABLED_EXTENSION_KEY
                (map_option (map_option (\<lambda>b. if b then ''true'' else ''false'')) (pw_auto_update_enabled c))
      in vcard\<lparr>vc_unknown := p\<rparr>)"

definition service_account_credentials where
  "service_account_credentials L jid =
     act_then (on_secrets (act_run (get_token (bl_delays L) (bl_oauth L) (bl_now L) True jid))) id
       (\<lambda>token. act_ret (Ok \<lparr>cc_bare_jid = jid, cc_auth_token = token\<rparr>))"

definition service_account_vcard where
  "service_account_vcard L creds =
     act_err (context_msg ''Could not get service account vCard'') (on_xmpp (get_vcard (bl_xmpp L) (cc_bare_jid creds) creds))"

definition patch_workspace_vcard_unchecked where
  "patch_workspace_vcard_unchecked L creds c =
     act_then (service_account_vcard L creds) id (\<lambda>vcard_opt.
       let vcard_before = (case vcard_opt of Some v \<Rightarrow> v | None \<Rightarrow> vl_default (bl_vcards L));
           vcard = patch_vcard (bl_vcards L) c vcard_before
       in if vcard \<noteq> vcard_before
          then act_err (context_msg ''Could not set Workspace vCard'') (on_xmpp (set_own_vcard (bl_xmpp L) vcard creds))
          else act_ret (Ok ()))"

definition get_workspace_profile_minimal where
  "get_workspace_profile_minimal L creds =
     act_then (service_account_vcard L creds) (\<lambda>_. no_context (bl_error_id L)) (\<lambda>vcard_opt.
       act_ret (case vcard_opt of
         Some vcard \<Rightarrow> profile_of_vcard (bl_vcards L) (bl_uris L) (bl_error_id L) vcard
       | None \<Rightarrow> Err (workspace_not_initialized_error (bl_error_id L))))"

definition invalid_avatar :: "avatar_decode_error \<Rightarrow> api_error" where
  "invalid_avatar e =
     validation_error ''INVALID_AVATAR'' ''Invalid avatar''
       (case e of TooLarge \<Rightarrow> ''Avatar too large.'' | UnsupportedMediaType \<Rightarrow> ''Unsupported media type.'' | InvalidBase64 _ \<Rightarrow> ''Invalid Base64'')"

definition service_account_avatar where
  "service_account_avatar L creds =
     act_then (on_xmpp (get_avatar (bl_xmpp L) (cc_bare_jid creds) creds)) (\<lambda>_. no_context (bl_error_id L)) (\<lambda>data_opt.
       act_ret (case data_opt of
         None \<Rightarrow> Ok None
       | Some d \<Rightarrow> map_err invalid_avatar (try_bind (avatar_of_data (bl_base64 L) d) (\<lambda>a. Ok (Some a)))))"

section \<open>Requests\<close>

text \<open>The credentials of the workspace account, which every handler gets first.\<close>

definition with_creds where
  "with_creds L config f =
     act_then (service_account_credentials L (workspace_jid config)) (\<lambda>_. no_context (bl_error_id L)) f"

definition as_admin where
  "as_admin caller f = (case check_is_admin caller of Inl e \<Rightarrow> act_ret (Err e) | Inr _ \<Rightarrow> f)"

definition get_workspace where
  "get_workspace L config =
     with_creds L config (\<lambda>creds.
       act_then (get_workspace_profile_minimal L creds) id (\<lambda>workspace.
       act_then (act_option (service_account_avatar L creds)) id (\<lambda>icon.
       act_ret (Ok (workspace\<lparr>wp_icon := icon\<rparr>)))))"

definition get_workspace_name where
  "get_workspace_name L config =
     with_creds L config (\<lambda>creds. act_then (get_workspace_profile_minimal L creds) id (\<lambda>w. act_ret (Ok (wp_name w))))"

definition get_workspace_accent_color where
  "get_workspace_accent_color L config =
     with_creds L config (\<lambda>creds. act_then (get_workspace_profile_minimal L creds) id (\<lambda>w. act_ret (Ok (wp_accent_color w))))"

definition get_workspace_icon where
  "get_workspace_icon L config =
     with_creds L config (\<lambda>creds. act_option (service_account_avatar L creds))"

definition patch_as where
  "patch_as L config caller c =
     as_admin caller (with_creds L config (\<lambda>creds.
       act_err (\<lambda>_. no_context (bl_error_id L)) (patch_workspace_vcard_unchecked L creds c)))"

definition patch_workspace where
  "patch_workspace L config caller req = patch_as L config caller (command_of_request req)"

definition set_workspace_name where
  "set_workspace_name L config caller name = patch_as L config caller (patch_default\<lparr>pw_name := Some name\<rparr>)"

definition set_workspace_accent_color where
  "set_workspace_accent_color L config caller color_opt =
     patch_as L config caller (patch_default\<lparr>pw_accent_color := Some color_opt\<rparr>)"

definition set_workspace_icon where
  "set_workspace_icon L config caller icon =
     as_admin caller (with_creds L config (\<lambda>creds.
       act_err (\<lambda>_. no_context (bl_error_id L)) (on_xmpp (set_own_avatar (bl_xmpp L) (av_bytes icon) creds))))"

text \<open>\<open>append_path_segment\<close> of \<^verbatim>\<open>api/src/util/mod.rs\<close> and \<open>pod_api_url\<close> of the configuration.\<close>

definition append_path_segment :: "uri_lib \<Rightarrow> string \<Rightarrow> string \<Rightarrow> anyhow + string" where
  "append_path_segment U uri segment =
     (let p = uri_path U uri;
          p = (if \<not> ends_with p ''/'' \<and> \<not> starts_with segment ''/'' then p @ ''/'' else p) @ segment
      in uri_with U uri (case uri_query U uri of Some query \<Rightarrow> p @ ''?'' @ query | None \<Rightarrow> p))"

definition pod_api_url where
  "pod_api_url U config = map_err (context_msg ''Failed creating Pod API URL'') (append_path_segment U (ac_dashboard_url config) ''api'')"

record init_workspace_request =
  iw_name :: string
  iw_accent_color :: "color option"

definition init_workspace where
  "init_workspace L config req =
     act_then (on_shell (user_get_jids_with_role (bl_shell L) (srv_domain (ac_server config)) ''prosody:member''))
       (\<lambda>_. no_context (bl_error_id L)) (\<lambda>members.
       if length members > 0
       then act_ret (Err (too_late ''WORKSPACE_ALREADY_INITIALIZED'' ''Workspace already initialized''
              ''You now need to log in as an admin to do that.''))
       else
         with_creds L config (\<lambda>creds.
           case pod_api_url (bl_uris L) config of
             Inl e \<Rightarrow> act_ret (Err (internal_server_error (bl_error_id L) ''WORKSPACE_INITIALIZATION_FAILED'' ''Could not initialize the Workspace.''))
           | Inr api_url \<Rightarrow>
               act_err (\<lambda>_. no_context (bl_error_id L)) (patch_workspace_vcard_unchecked L creds
                 \<lparr>pw_name = Some (iw_name req), pw_accent_color = map_option Some (iw_accent_color req),
                  pw_dashboard_url = Some (Some (ac_dashboard_url config)), pw_api_url = Some (Some api_url),
                  pw_auto_update_enabled = None\<rparr>)))"

section \<open>Properties kept apart\<close>

text \<open>The elements of a name after a replacement.\<close>

lemma vcard_lawsD:
  assumes "vcard_laws V"
  shows "pc_elements V (pc_collect V es) = es" "pc_elements V (pc_push V e p) = pc_elements V p @ [e]"
    "pc_get V k p = filter (\<lambda>e. el_name V e = k) (pc_elements V p)" "el_name V (el_new V k v) = k"
  using assms unfolding vcard_laws_def by blast+

lemma get_replace_other:
  assumes "vcard_laws V" "k' \<noteq> k"
  shows "pc_get V k' (replace_property V p k nv) = pc_get V k' p"
proof -
  note L = vcard_lawsD [OF assms(1)]
  have "filter (\<lambda>e. el_name V e = k') (map (\<lambda>e. if el_name V e = k then el_new V k v else e) es) = filter (\<lambda>e. el_name V e = k') es"
    for v es using assms(2) L(4) by (induction es) auto
  moreover have "filter (\<lambda>e. el_name V e \<noteq> k \<and> el_name V e = k') es = filter (\<lambda>e. el_name V e = k') es" for es
    using assms(2) by (induction es) auto
  ultimately show ?thesis using assms(2) by (auto simp: replace_property_def Let_def L split: option.splits)
qed

lemma get_replace_same:
  assumes "vcard_laws V"
  shows "pc_get V k (replace_property V p k (Some None)) = []"
    "\<exists>es. pc_get V k (replace_property V p k (Some (Some v))) = el_new V k v # es"
proof -
  note L = vcard_lawsD [OF assms]
  show "pc_get V k (replace_property V p k (Some None)) = []"
    by (auto simp: replace_property_def L filter_empty_conv)
  have "filter (\<lambda>e. el_name V e = k) (map (\<lambda>e. if el_name V e = k then el_new V k v else e) es) =
      map (\<lambda>_. el_new V k v) (filter (\<lambda>e. el_name V e = k) es)" for es
    using L(4) by (induction es) auto
  then show "\<exists>es. pc_get V k (replace_property V p k (Some (Some v))) = el_new V k v # es"
    by (cases "filter (\<lambda>e. el_name V e = k) (pc_elements V p)") (auto simp: replace_property_def Let_def L filter_empty_conv)
qed

lemma keys_distinct:
  "ACCENT_COLOR_EXTENSION_KEY \<noteq> PROSE_POD_DASHBOARD_URL_EXTENSION_KEY" "ACCENT_COLOR_EXTENSION_KEY \<noteq> PROSE_POD_API_URL_EXTENSION_KEY"
  "ACCENT_COLOR_EXTENSION_KEY \<noteq> PROSE_AUTO_UPDATE_ENABLED_EXTENSION_KEY"
  by (simp_all add: ACCENT_COLOR_EXTENSION_KEY_def PROSE_POD_DASHBOARD_URL_EXTENSION_KEY_def PROSE_POD_API_URL_EXTENSION_KEY_def
      PROSE_AUTO_UPDATE_ENABLED_EXTENSION_KEY_def)

lemma accent_color_of_patch:
  assumes "vcard_laws V"
  shows "pc_get V ACCENT_COLOR_EXTENSION_KEY (vc_unknown (patch_vcard V c vcard)) =
    pc_get V ACCENT_COLOR_EXTENSION_KEY (replace_property V (vc_unknown vcard) ACCENT_COLOR_EXTENSION_KEY (map_option (map_option color_fmt) (pw_accent_color c)))"
  using get_replace_other [OF assms] keys_distinct by (simp add: patch_vcard_def Let_def split: option.splits)

lemma name_of_patch: "vc_fn (patch_vcard V c vcard) = (case pw_name c of None \<Rightarrow> vc_fn vcard | Some n \<Rightarrow> [n])"
  by (simp add: patch_vcard_def Let_def split: option.splits)

section \<open>The vCard on the server\<close>

text \<open>
  \<open>vc\<close> is the vCard of the workspace account on the server: loading gives it, publishing replaces it, and
  nothing else changes it.
\<close>

definition xmpp_laws :: "('v, 'x) xmpp_lib \<Rightarrow> ('x \<Rightarrow> 'v option) \<Rightarrow> bool" where
  "xmpp_laws X vc \<longleftrightarrow>
     (\<forall>j t x r x'. xm_connect X j t x = (r, x') \<longrightarrow> vc x' = vc x) \<and>
     (\<forall>j x r x'. xm_load_vcard X j x = (r, x') \<longrightarrow> vc x' = vc x \<and> (\<forall>v. r = Ok v \<longrightarrow> v = vc x)) \<and>
     (\<forall>v x r x'. xm_publish_vcard X v x = (r, x') \<longrightarrow> vc x' = (if is_ok r then Some v else vc x)) \<and>
     (\<forall>j x r x'. xm_load_avatar_metadata X j x = (r, x') \<longrightarrow> vc x' = vc x) \<and>
     (\<forall>j i x r x'. xm_load_avatar_image X j i x = (r, x') \<longrightarrow> vc x' = vc x)"

lemma xmpp_lawsD:
  assumes "xmpp_laws X vc"
  shows "xm_connect X j t x = (r, x') \<Longrightarrow> vc x' = vc x"
    "xm_load_vcard X j x = (r2, x') \<Longrightarrow> vc x' = vc x \<and> (\<forall>v. r2 = Ok v \<longrightarrow> v = vc x)"
    "xm_publish_vcard X v x = (r, x') \<Longrightarrow> vc x' = (if is_ok r then Some v else vc x)"
    "xm_load_avatar_metadata X j x = (r3, x') \<Longrightarrow> vc x' = vc x"
    "xm_load_avatar_image X j i x = (r4, x') \<Longrightarrow> vc x' = vc x"
proof -
  note c = assms [unfolded xmpp_laws_def]
  show "xm_connect X j t x = (r, x') \<Longrightarrow> vc x' = vc x" using conjunct1 [OF c] by blast
  show "xm_load_vcard X j x = (r2, x') \<Longrightarrow> vc x' = vc x \<and> (\<forall>v. r2 = Ok v \<longrightarrow> v = vc x)"
    using conjunct1 [OF conjunct2 [OF c]] by blast
  show "xm_publish_vcard X v x = (r, x') \<Longrightarrow> vc x' = (if is_ok r then Some v else vc x)"
    using conjunct1 [OF conjunct2 [OF conjunct2 [OF c]]] by blast
  show "xm_load_avatar_metadata X j x = (r3, x') \<Longrightarrow> vc x' = vc x"
    using conjunct1 [OF conjunct2 [OF conjunct2 [OF conjunct2 [OF c]]]] by blast
  show "xm_load_avatar_image X j i x = (r4, x') \<Longrightarrow> vc x' = vc x"
    using conjunct2 [OF conjunct2 [OF conjunct2 [OF conjunct2 [OF c]]]] by blast
qed

lemma credentials_xmpp: "service_account_credentials L jid w = Some (r, w') \<Longrightarrow> bw_xmpp w' = bw_xmpp w"
  by (auto simp: service_account_credentials_def on_secrets_def act_then_def act_on_def act_run_def
      split: option.splits run.splits sum.splits prod.splits)

lemma load_vcard_effect:
  assumes "xmpp_laws (bl_xmpp L) vc" "service_account_vcard L creds w = Some (r, w')"
  shows "vc (bw_xmpp w') = vc (bw_xmpp w) \<and> (\<forall>v. r = Ret (Ok v) \<longrightarrow> v = vc (bw_xmpp w))"
proof -
  obtain r1 x1 where c: "xm_connect (bl_xmpp L) (cc_bare_jid creds) (cc_auth_token creds) (bw_xmpp w) = (r1, x1)" by (rule prod.exhaust)
  obtain r2 x2 where l: "xm_load_vcard (bl_xmpp L) (cc_bare_jid creds) x1 = (r2, x2)" by (rule prod.exhaust)
  have "vc x1 = vc (bw_xmpp w)" "vc x2 = vc x1 \<and> (\<forall>v. r2 = Ok v \<longrightarrow> v = vc x1)"
    using xmpp_lawsD(1) [OF assms(1) c] xmpp_lawsD(2) [OF assms(1) l] by simp_all
  then show ?thesis using assms(2) c l
    by (cases r1; cases r2) (auto simp: service_account_vcard_def on_xmpp_def get_vcard_def xmpp_client_def act_err_def act_then_def
        act_on_def act_call_def)
qed

lemma set_vcard_effect:
  assumes "xmpp_laws (bl_xmpp L) vc" "on_xmpp (set_own_vcard (bl_xmpp L) v creds) w = Some (Ret (Ok u), w')"
  shows "vc (bw_xmpp w') = Some v"
proof -
  obtain x1 x2 where "xm_publish_vcard (bl_xmpp L) v x1 = (Ok u, x2)" "bw_xmpp w' = x2"
    using assms(2) by (auto simp: on_xmpp_def set_own_vcard_def xmpp_client_def act_Ok)
  then show ?thesis using xmpp_lawsD(3) [OF assms(1)] by (metis is_ok_simps(2))
qed

lemma patch_unchecked_effect:
  assumes "xmpp_laws (bl_xmpp L) vc" "patch_workspace_vcard_unchecked L creds c w = Some (Ret (Ok u), w')"
  shows "\<exists>v. vc (bw_xmpp w') = Some (patch_vcard (bl_vcards L) c v) \<or> vc (bw_xmpp w') = None \<and> patch_vcard (bl_vcards L) c v = v \<and> v = vl_default (bl_vcards L)"
proof -
  obtain v_opt w1 where l: "service_account_vcard L creds w = Some (Ret (Ok v_opt), w1)"
    and k: "(let vcard_before = (case v_opt of Some v \<Rightarrow> v | None \<Rightarrow> vl_default (bl_vcards L));
           vcard = patch_vcard (bl_vcards L) c vcard_before
       in if vcard \<noteq> vcard_before
          then act_err (context_msg ''Could not set Workspace vCard'') (on_xmpp (set_own_vcard (bl_xmpp L) vcard creds))
          else act_ret (Ok ())) w1 = Some (Ret (Ok u), w')"
    using assms(2) by (auto simp: patch_workspace_vcard_unchecked_def act_then_Ok)
  have v: "vc (bw_xmpp w1) = vc (bw_xmpp w)" "v_opt = vc (bw_xmpp w)" using load_vcard_effect [OF assms(1) l] by auto
  show ?thesis
  proof (cases "patch_vcard (bl_vcards L) c (case v_opt of Some v \<Rightarrow> v | None \<Rightarrow> vl_default (bl_vcards L)) =
      (case v_opt of Some v \<Rightarrow> v | None \<Rightarrow> vl_default (bl_vcards L))")
    case True
    then have "w' = w1" using k by (auto simp: Let_def)
    then show ?thesis using True v
      by (intro exI [where x = "case v_opt of Some v \<Rightarrow> v | None \<Rightarrow> vl_default (bl_vcards L)"]) (cases "vc (bw_xmpp w)"; simp)
  next
    case False
    then have "on_xmpp (set_own_vcard (bl_xmpp L) (patch_vcard (bl_vcards L) c (case v_opt of Some v \<Rightarrow> v | None \<Rightarrow> vl_default (bl_vcards L)))
        creds) w1 = Some (Ret (Ok u), w')" using k by (auto simp: Let_def act_err_Ok)
    from set_vcard_effect [OF assms(1) this] show ?thesis by blast
  qed
qed

lemma patch_workspace_effect:
  assumes "xmpp_laws (bl_xmpp L) vc" "patch_workspace L config caller req w = Some (Ret (Ok u), w')" "vc (bw_xmpp w') = Some v'"
  shows "\<exists>v. v' = patch_vcard (bl_vcards L) (command_of_request req) v"
proof -
  obtain creds w1 where p: "patch_workspace_vcard_unchecked L creds (command_of_request req) w1 = Some (Ret (Ok u), w')"
    using assms(2) by (auto simp: patch_workspace_def patch_as_def as_admin_def with_creds_def act_then_Ok act_err_Ok split: sum.splits)
  from patch_unchecked_effect [OF assms(1) p] assms(3) show ?thesis by auto
qed

lemma get_workspace_reads:
  assumes "xmpp_laws (bl_xmpp L) vc" "get_workspace L config w = Some (Ret (Ok prof), w')"
  shows "\<exists>v icon prof'. vc (bw_xmpp w) = Some v \<and> profile_of_vcard (bl_vcards L) (bl_uris L) (bl_error_id L) v = Ok prof' \<and>
    prof = prof'\<lparr>wp_icon := icon\<rparr>"
proof -
  obtain creds w1 where c: "service_account_credentials L (workspace_jid config) w = Some (Ret (Inr creds), w1)"
    and k: "act_then (get_workspace_profile_minimal L creds) id (\<lambda>workspace.
       act_then (act_option (service_account_avatar L creds)) id (\<lambda>icon.
       act_ret (Ok (workspace\<lparr>wp_icon := icon\<rparr>)))) w1 = Some (Ret (Inr prof), w')"
    using assms(2) by (auto simp: get_workspace_def with_creds_def act_then_Ok)
  then obtain prof' w2 icon where m: "get_workspace_profile_minimal L creds w1 = Some (Ret (Inr prof'), w2)" "prof = prof'\<lparr>wp_icon := icon\<rparr>"
    by (auto simp: act_then_Ok)
  then obtain v w3 where l: "service_account_vcard L creds w1 = Some (Ret (Ok (Some v)), w3)"
    "profile_of_vcard (bl_vcards L) (bl_uris L) (bl_error_id L) v = Ok prof'"
    by (auto simp: get_workspace_profile_minimal_def act_then_Ok split: option.splits)
  have "vc (bw_xmpp w) = Some v"
    using load_vcard_effect [OF assms(1) l(1)] credentials_xmpp [OF c] by auto
  with l m show ?thesis by blast
qed

text \<open>
  The color property of a vCard the program has changed; \<open>text_written\<close> is the text the library reads from an
  element the program has made for a color.
\<close>

definition text_written :: "('p, 'e, 'r) vcard_lib \<Rightarrow> color \<Rightarrow> string" where
  "text_written V c = el_text V (el_new V ACCENT_COLOR_EXTENSION_KEY (color_fmt c))"

lemma patched_color:
  assumes "vcard_laws V" "pw_accent_color cmd = Some c"
  shows "get_unknown_property V parse (vc_unknown (patch_vcard V cmd v)) key = Option.bind c (\<lambda>c. parse (text_written V c))"
proof (cases c)
  case None
  then show ?thesis using get_replace_same(1) [OF assms(1)] assms(2)
    by (simp add: get_unknown_property_def accent_color_of_patch [OF assms(1)])
next
  case (Some col)
  obtain es where "pc_get V ACCENT_COLOR_EXTENSION_KEY (replace_property V (vc_unknown v) ACCENT_COLOR_EXTENSION_KEY (Some (Some (color_fmt col)))) =
      el_new V ACCENT_COLOR_EXTENSION_KEY (color_fmt col) # es" using get_replace_same(2) [OF assms(1)] by blast
  then show ?thesis using Some assms(2) by (simp add: get_unknown_property_def accent_color_of_patch [OF assms(1)] text_written_def)
qed

lemma parse_color_fmt: "parse_color (color_fmt c) = Some c"
  by (simp add: parse_color_def color_roundtrip)

lemma parse_bool_color: "parse_bool (color_fmt c) = None"
  by (simp add: parse_bool_def color_fmt_def split: color.splits)

section \<open>A workspace\<close>

text \<open>Elements as pairs of a name and a text, a server that keeps one vCard, a token that is cached.\<close>

definition demo_vcards :: "((string \<times> string) list, string \<times> string, unit) vcard_lib" where
  "demo_vcards = \<lparr>vl_default = \<lparr>vc_fn = [], vc_unknown = [], vc_rest = ()\<rparr>, pc_elements = (\<lambda>p. p), pc_collect = (\<lambda>es. es),
     pc_push = (\<lambda>e p. p @ [e]), pc_get = (\<lambda>k p. filter (\<lambda>e. fst e = k) p), el_name = fst, el_text = snd, el_new = Pair\<rparr>"

type_synonym demo_vcard = "((string \<times> string) list, unit) vcard"

definition demo_xmpp :: "(demo_vcard, demo_vcard option) xmpp_lib" where
  "demo_xmpp = \<lparr>xm_connect = (\<lambda>_ _ x. (Ok (), x)), xm_load_vcard = (\<lambda>_ x. (Ok x, x)), xm_publish_vcard = (\<lambda>v _. (Ok (), Some v)),
     xm_load_avatar_metadata = (\<lambda>_ x. (Ok None, x)), xm_load_avatar_image = (\<lambda>_ _ x. (Ok None, x)), xm_valid_sha1 = (\<lambda>_. True),
     xm_checksum = (\<lambda>_. Ok ''sum''), xm_set_avatar_image = (\<lambda>_ _ x. (Ok (), x)), xm_set_avatar_metadata = (\<lambda>_ _ _ _ _ x. (Ok (), x))\<rparr>"

definition demo_libs ::
  "((string \<times> string) list, string \<times> string, unit, demo_vcard option, (nat \<times> jid \<times> nat) list, unit) backend_libs" where
  "demo_libs = \<lparr>bl_vcards = demo_vcards, bl_xmpp = demo_xmpp, bl_delays = list_delays,
     bl_oauth = \<lparr>oa_log_in = (\<lambda>_ _. Ok ''token''), oa_revoke = (\<lambda>_. Ok ())\<rparr>, bl_shell = \<lparr>sh_spawn = (\<lambda>s. (Ok (), s)), sh_write = (\<lambda>_ s. (Ok (), s)), sh_next = (\<lambda>_ s. (NTimeout, s))\<rparr>,
     bl_uris = \<lparr>uri_parse = Some, uri_path = (\<lambda>_. ''/''), uri_query = (\<lambda>_. None), uri_with = (\<lambda>u _. Ok u)\<rparr>,
     bl_base64 = Ok, bl_now = 0, bl_error_id = ''id''\<rparr>"

definition demo_workspace :: "unit app_config" where
  "demo_workspace = \<lparr>ac_token_ttl = 300, ac_oauth2_registration_key = ''key'', ac_dashboard_url = ''https://d.org'',
     ac_log = \<lparr>lc_level = LogInfo, lc_format = LogFull, lc_timer = TimerTime, lc_with_file = False, lc_with_target = False,
       lc_with_thread_ids = False, lc_with_line_number = False, lc_with_span_events = False, lc_with_thread_names = False,
       lc_opentelemetry_enabled = False\<rparr>,
     ac_auto_update_enabled = None,
     ac_server = \<lparr>srv_domain = ''d.org'', srv_local_hostname = ''prose-pod-server'', srv_http_port = 5280, srv_log_level = LogInfo\<rparr>,
     ac_backups = None, ac_server_api = \<lparr>sac_address = ''0.0.0.0'', sac_port = 8080\<rparr>,
     ac_prose_workspace = \<lparr>sa_xmpp_node = ''workspace'', sa_password = None\<rparr>, ac_main_team_name = ''Team''\<rparr>"

definition demo_backend :: "(demo_vcard option, (nat \<times> jid \<times> nat) list, unit) backend_world" where
  "demo_backend = \<lparr>bw_xmpp = None,
     bw_secrets = \<lparr>se_passwords = Map.empty,
       se_tokens = \<lparr>ca_entries = [(''workspace'', ''d.org'') \<mapsto> (''token'', 0)], ca_expirations = [], ca_ttl = 300\<rparr>\<rparr>,
     bw_shell = shell_new ()\<rparr>"

definition demo_admin :: caller_info where
  "demo_admin = \<lparr>ci_jid = ''a@d.org'', ci_primary_role = ''prosody:admin''\<rparr>"

definition demo_request :: patch_workspace_request where
  "demo_request = \<lparr>pr_name = Some ''Crew'', pr_accent_color = Some (Some (Hex 1 2 3)), pr_auto_update_enabled = Some (Some True)\<rparr>"

lemmas demo_defs = demo_libs_def demo_vcards_def demo_xmpp_def demo_workspace_def demo_backend_def demo_admin_def demo_request_def

lemma demo_laws: "vcard_laws (bl_vcards demo_libs)" "xmpp_laws (bl_xmpp demo_libs) id"
  by (simp_all add: demo_libs_def demo_vcards_def demo_xmpp_def vcard_laws_def xmpp_laws_def)

lemma demo_text: "text_written (bl_vcards demo_libs) c = color_fmt c"
  by (simp add: text_written_def demo_libs_def demo_vcards_def)

lemma demo_credentials:
  "service_account_credentials demo_libs (workspace_jid demo_workspace) (demo_backend\<lparr>bw_xmpp := x\<rparr>) =
     Some (Ret (Ok \<lparr>cc_bare_jid = (''workspace'', ''d.org''), cc_auth_token = ''token''\<rparr>), demo_backend\<lparr>bw_xmpp := x\<rparr>)"
  by (simp add: service_account_credentials_def on_secrets_def act_then_def act_on_def act_run_def get_token_def
      contains_key_def cache_get_def workspace_jid_def demo_defs)

lemma demo_server:
  "service_account_vcard demo_libs creds w = Some (Ret (Ok (bw_xmpp w)), w)"
  "on_xmpp (set_own_vcard (bl_xmpp demo_libs) v creds) w = Some (Ret (Ok ()), w\<lparr>bw_xmpp := Some v\<rparr>)"
  "service_account_avatar demo_libs creds w = Some (Ret (Ok None), w)"
  by (simp_all add: service_account_vcard_def service_account_avatar_def on_xmpp_def get_vcard_def get_avatar_def set_own_vcard_def
      xmpp_client_def act_err_def act_then_def act_on_def act_call_def demo_libs_def demo_xmpp_def)

definition demo_patched :: demo_vcard where
  "demo_patched = patch_vcard demo_vcards (command_of_request demo_request) (vl_default demo_vcards)"

lemma demo_patched_simps: "vc_fn demo_patched = [''Crew'']" "demo_patched \<noteq> vl_default demo_vcards"
proof -
  show n: "vc_fn demo_patched = [''Crew'']"
    by (simp add: demo_patched_def name_of_patch command_of_request_def demo_request_def)
  have "vc_fn (vl_default demo_vcards) = []" by (simp add: demo_vcards_def)
  with n show "demo_patched \<noteq> vl_default demo_vcards" by auto
qed

lemma demo_patch:
  "patch_workspace demo_libs demo_workspace demo_admin demo_request (demo_backend\<lparr>bw_xmpp := None\<rparr>) =
     Some (Ret (Ok ()), demo_backend\<lparr>bw_xmpp := Some demo_patched\<rparr>)"
proof -
  have "check_is_admin demo_admin = Ok ()" by (simp add: check_is_admin_def demo_admin_def)
  moreover have "bl_vcards demo_libs = demo_vcards" by (simp add: demo_libs_def)
  ultimately show ?thesis
    using demo_patched_simps(2)
    by (simp add: patch_workspace_def patch_as_def as_admin_def with_creds_def patch_workspace_vcard_unchecked_def Let_def act_err_def
        demo_credentials demo_server demo_patched_def)
qed

lemma demo_get:
  "\<exists>prof w2. get_workspace demo_libs demo_workspace (demo_backend\<lparr>bw_xmpp := Some demo_patched\<rparr>) = Some (Ret (Ok prof), w2)"
  by (simp add: get_workspace_def with_creds_def get_workspace_profile_minimal_def act_option_def act_then_def demo_credentials demo_server
      profile_of_vcard_def demo_patched_simps)

section \<open>Properties\<close>



text \<open>
  The other properties are never read: once the accent color has been set or removed, the profile takes the
  setting of automatic updates and the URLs of the dashboard and of the API from the text of the color, whatever
  was set for them; when that text is the one written, automatic updates show as not set.
\<close>

theorem workspace_reads_only_color:
  assumes "vcard_laws (bl_vcards L)" "xmpp_laws (bl_xmpp L) vc"
    "patch_workspace L config caller req w = Some (Ret (Ok u), w1)" "pr_accent_color req = Some c"
    "get_workspace L config w1 = Some (Ret (Ok prof), w2)"
  shows "wp_auto_update_enabled prof = Option.bind c (\<lambda>c. parse_bool (text_written (bl_vcards L) c)) \<and>
    wp_dashboard_url prof = Option.bind c (\<lambda>c. uri_parse (bl_uris L) (text_written (bl_vcards L) c)) \<and>
    wp_api_url prof = Option.bind c (\<lambda>c. uri_parse (bl_uris L) (text_written (bl_vcards L) c)) \<and>
    ((\<forall>c'. text_written (bl_vcards L) c' = color_fmt c') \<longrightarrow> wp_auto_update_enabled prof = None)"
proof -
  obtain v' icon prof' where r: "vc (bw_xmpp w1) = Some v'" "profile_of_vcard (bl_vcards L) (bl_uris L) (bl_error_id L) v' = Ok prof'"
    "prof = prof'\<lparr>wp_icon := icon\<rparr>" using get_workspace_reads [OF assms(2,5)] by blast
  obtain v where v: "v' = patch_vcard (bl_vcards L) (command_of_request req) v" using patch_workspace_effect [OF assms(2,3) r(1)] by blast
  have c: "pw_accent_color (command_of_request req) = Some c" using assms(4) by (simp add: command_of_request_def patch_default_def)
  have "Option.bind c (\<lambda>c. parse_bool (color_fmt c)) = None" by (cases c) (simp_all add: parse_bool_color)
  then show ?thesis using r(2,3) by (auto simp: profile_of_vcard_def v patched_color [OF assms(1) c] split: list.splits)
qed

theorem workspace_reads_only_color_witness:
  "\<exists>prof w1 w2. patch_workspace demo_libs demo_workspace demo_admin demo_request (demo_backend\<lparr>bw_xmpp := None\<rparr>) = Some (Ret (Ok ()), w1) \<and>
    pr_auto_update_enabled demo_request = Some (Some True) \<and> get_workspace demo_libs demo_workspace w1 = Some (Ret (Ok prof), w2) \<and>
    wp_auto_update_enabled prof = None"
proof -
  obtain prof w2 where g: "get_workspace demo_libs demo_workspace (demo_backend\<lparr>bw_xmpp := Some demo_patched\<rparr>) = Some (Ret (Ok prof), w2)"
    using demo_get by blast
  have c: "pr_accent_color demo_request = Some (Some (Hex 1 2 3))" by (simp add: demo_request_def)
  have "wp_auto_update_enabled prof = None"
    using workspace_reads_only_color [OF demo_laws demo_patch c g] by (simp add: demo_text parse_bool_color)
  with g demo_patch show ?thesis by (auto simp: demo_request_def)
qed

end
