(* ===== verification/Oauth2_Client.thy ===== *)
theory Oauth2_Client
  imports Http_Client Api_Errors Effects
begin

text \<open>
  \<^verbatim>\<open>api/crates/prosody-http/src/mod_http_oauth2.rs\<close>: the OAuth 2.0 client of Prosody, the classification
  of its errors, and what \<^verbatim>\<open>api/src/util/mod.rs\<close> makes of them for the caller of the API.  The decoders and
  encoders that \<open>serde\<close> generates are the parameter \<open>oauth2_codec\<close>, the network is the parameter \<open>http\<close>.
  Release build: an unknown error does not panic.
\<close>

section \<open>Data\<close>

record oauth2_client_config =
  oc_client_name :: string
  oc_client_uri :: string
  oc_redirect_uris :: "string list"
  oc_grant_types :: "string list"

record client_credentials =
  cr_client_id :: string
  cr_client_secret :: string

record client_metadata =
  cm_client_id :: string
  cm_client_secret :: string
  cm_client_secret_expires_at :: nat

definition into_credentials :: "client_metadata \<Rightarrow> client_credentials" where
  "into_credentials m = \<lparr>cr_client_id = cm_client_id m, cr_client_secret = cm_client_secret m\<rparr>"

record token_response =
  tr_scope :: string
  tr_token_type :: string
  tr_refresh_token :: "string option"
  tr_access_token :: string

record userinfo_response =
  ui_iss :: string
  ui_sub :: string

text \<open>\<open>UserInfoResponse::jid\<close>: the server builds the crate without its \<open>jid\<close> feature.\<close>

definition userinfo_jid :: "userinfo_response \<Rightarrow> string run" where
  "userinfo_jid u = (case strip_prefix ''xmpp:'' (ui_sub u) of Some s \<Rightarrow> Ret s | None \<Rightarrow> Panic)"

datatype oauth2_error = Unauthorized anyhow | Forbidden anyhow | InternalError anyhow | OtherError anyhow

text \<open>The name and the description of an error of \<open>mod_http_oauth2\<close>, the condition of another error of Prosody.\<close>

record oauth2_codec =
  co_value :: "bytes \<Rightarrow> anyhow + unit"
  co_api_error :: "bytes \<Rightarrow> anyhow + string \<times> string option"
  co_error :: "bytes \<Rightarrow> anyhow + string"
  co_metadata :: "bytes \<Rightarrow> anyhow + client_metadata"
  co_userinfo :: "bytes \<Rightarrow> anyhow + userinfo_response"
  co_token :: "bytes \<Rightarrow> anyhow + token_response"
  co_unit :: "bytes \<Rightarrow> anyhow + unit"
  en_client_config :: "oauth2_client_config \<Rightarrow> bytes"
  en_token :: "string \<Rightarrow> bytes"
  en_form :: "(string \<times> string) list \<Rightarrow> bytes"
  en_base64 :: "string \<Rightarrow> string"

section \<open>Errors\<close>

definition error_of_name :: "string \<Rightarrow> string option \<Rightarrow> oauth2_error" where
  "error_of_name name desc =
     (let e = [name @ '': '' @ (case desc of Some d \<Rightarrow> d | None \<Rightarrow> ''<no_description>'')] in
      if name \<in> {''expired_token'', ''invalid_grant'', ''login_required''} then Unauthorized e
      else if name = ''invalid_request'' \<and> desc = Some ''invalid JID'' then Unauthorized e
      else if name = ''access_denied'' then Forbidden e
      else InternalError e)"

definition error_of_condition :: "string \<Rightarrow> oauth2_error" where
  "error_of_condition condition =
     (if condition = ''not-authorized'' then Unauthorized [condition]
      else if condition = ''forbidden'' then Forbidden [condition]
      else InternalError [condition])"

definition receive_error :: "oauth2_codec \<Rightarrow> bytes \<Rightarrow> oauth2_error" where
  "receive_error C body =
     (case co_value C body of
        Inl e \<Rightarrow> OtherError (context_msg ''Prosody OAuth 2.0 API error is not valid JSON'' e)
      | Inr _ \<Rightarrow>
          (case co_api_error C body of
             Inr (name, desc) \<Rightarrow> error_of_name name desc
           | Inl _ \<Rightarrow>
               (case co_error C body of
                  Inl e \<Rightarrow> OtherError (context_msg ''Could not decode Prosody OAuth 2.0 API error'' e)
                | Inr condition \<Rightarrow> error_of_condition condition)))"

definition is_success :: "http_response \<Rightarrow> bool" where
  "is_success r \<longleftrightarrow> 200 \<le> hr_status r \<and> hr_status r < 300"

definition oauth2_receive :: "oauth2_codec \<Rightarrow> (bytes \<Rightarrow> anyhow + 'a) \<Rightarrow> http_response \<Rightarrow> oauth2_error + 'a" where
  "oauth2_receive C decode r =
     (if is_success r
      then map_err (\<lambda>e. OtherError (context_msg ''Could not decode Prosody OAuth 2.0 API response'' e)) (decode (hr_body r))
      else Err (receive_error C (hr_body r)))"

section \<open>Requests\<close>

definition oauth2_url :: "string \<Rightarrow> string \<Rightarrow> string run" where
  "oauth2_url base p = (if starts_with p ''/'' then Ret (base @ ''/oauth2'' @ p) else Panic)"

definition basic_auth :: "oauth2_codec \<Rightarrow> string \<Rightarrow> string \<Rightarrow> string \<times> string" where
  "basic_auth C username password = (''authorization'', ''Basic '' @ en_base64 C (username @ '':'' @ password))"

definition bearer_auth :: "string \<Rightarrow> string \<times> string" where
  "bearer_auth token = (''authorization'', ''Bearer '' @ token)"

definition oauth2_send ::
  "'p http \<Rightarrow> oauth2_codec \<Rightarrow> (bytes \<Rightarrow> anyhow + 'a) \<Rightarrow> string \<Rightarrow> string \<Rightarrow> string \<Rightarrow> (string \<times> string) list \<Rightarrow> bytes \<Rightarrow> ('p, oauth2_error, 'a) act" where
  "oauth2_send http C decode base method p headers body s =
     (case oauth2_url base p of
        Panic \<Rightarrow> Some (Panic, s)
      | Ret url \<Rightarrow>
          (case http \<lparr>hq_method = method, hq_url = url, hq_headers = (''accept'', ''application/json'') # headers, hq_body = body\<rparr> s of
             (Inl e, s') \<Rightarrow> Some (Ret (Err (OtherError (context_msg ''Network error'' e))), s')
           | (Inr r, s') \<Rightarrow> Some (Ret (oauth2_receive C decode r), s')))"

definition oauth2_register :: "'p http \<Rightarrow> oauth2_codec \<Rightarrow> string \<Rightarrow> oauth2_client_config \<Rightarrow> ('p, oauth2_error, client_metadata) act" where
  "oauth2_register http C base client_config =
     oauth2_send http C (co_metadata C) base ''POST'' ''/register'' [] (en_client_config C client_config)"

definition oauth2_userinfo :: "'p http \<Rightarrow> oauth2_codec \<Rightarrow> string \<Rightarrow> string \<Rightarrow> ('p, oauth2_error, userinfo_response) act" where
  "oauth2_userinfo http C base auth = oauth2_send http C (co_userinfo C) base ''GET'' ''/userinfo'' [bearer_auth auth] []"

definition oauth2_revoke :: "'p http \<Rightarrow> oauth2_codec \<Rightarrow> string \<Rightarrow> string \<Rightarrow> ('p, oauth2_error, unit) act" where
  "oauth2_revoke http C base auth = oauth2_send http C (co_unit C) base ''POST'' ''/revoke'' [bearer_auth auth] (en_token C auth)"

definition util_log_in ::
  "'p http \<Rightarrow> oauth2_codec \<Rightarrow> string \<Rightarrow> string \<Rightarrow> string \<Rightarrow> client_credentials \<Rightarrow> ('p, oauth2_error, token_response) act" where
  "util_log_in http C base username password credentials =
     oauth2_send http C (co_token C) base ''POST'' ''/token'' [basic_auth C (cr_client_id credentials) (cr_client_secret credentials)]
       (en_form C [(''grant_type'', ''password''), (''username'', username), (''password'', password), (''scope'', ''xmpp openid'')])"

text \<open>\<open>Context\<close> of an error of OAuth 2.0.\<close>

definition oauth2_context :: "string \<Rightarrow> string \<Rightarrow> string \<Rightarrow> oauth2_error \<Rightarrow> api_error" where
  "oauth2_context error_id code public_description e =
     (case e of
        Unauthorized _ \<Rightarrow> unauthorized ''Try logging in again, then ask an administrator if it persists.''
      | Forbidden _ \<Rightarrow> forbidden ''You cannot do that.''
      | _ \<Rightarrow> internal_server_error error_id code public_description)"

section \<open>What a caller sees\<close>

lemma oauth2_context_status:
  "ae_status (oauth2_context error_id code desc (Unauthorized e)) = 401"
  "ae_status (oauth2_context error_id code desc (Forbidden e)) = 403"
  "ae_status (oauth2_context error_id code desc (InternalError e)) = 500"
  "ae_status (oauth2_context error_id code desc (OtherError e)) = 500"
  by (simp_all add: oauth2_context_def error_defs)

lemma oauth2_send_Ok:
  assumes "oauth2_send http C decode base method p headers body s = Some (Ret (Ok a), s')"
  obtains url r where "oauth2_url base p = Ret url"
    "http \<lparr>hq_method = method, hq_url = url, hq_headers = (''accept'', ''application/json'') # headers, hq_body = body\<rparr> s = (Ok r, s')"
    "oauth2_receive C decode r = Ok a"
  using assms by (auto simp: oauth2_send_def split: run.splits prod.splits sum.splits)

lemma receive_Ok: "oauth2_receive C decode r = Ok a \<longleftrightarrow> is_success r \<and> decode (hr_body r) = Ok a"
  by (auto simp: oauth2_receive_def map_err_def split: sum.splits)

text \<open>
  C38. How the errors of Prosody reach a caller of the API: an answer of success never gives 401 or 403; any other
  answer gives 401 exactly for the errors that mean bad or expired credentials, 403 exactly for a denied access,
  and 500 otherwise, a body that cannot be decoded included.
\<close>

theorem oauth2_error_status:
  "(is_success r \<longrightarrow> (\<forall>e. oauth2_receive C decode r = Err e \<longrightarrow> ae_status (oauth2_context error_id code desc e) = 500)) \<and>
   (\<not> is_success r \<longrightarrow> (\<exists>e. oauth2_receive C decode r = Err e \<and>
     (ae_status (oauth2_context error_id code desc e) = 401 \<longleftrightarrow>
        is_ok (co_value C (hr_body r)) \<and>
        (case co_api_error C (hr_body r) of
           Inr (name, d) \<Rightarrow> name \<in> {''expired_token'', ''invalid_grant'', ''login_required''} \<or> name = ''invalid_request'' \<and> d = Some ''invalid JID''
         | Inl _ \<Rightarrow> co_error C (hr_body r) = Ok ''not-authorized'')) \<and>
     (ae_status (oauth2_context error_id code desc e) = 403 \<longleftrightarrow>
        is_ok (co_value C (hr_body r)) \<and>
        (case co_api_error C (hr_body r) of
           Inr (name, d) \<Rightarrow> name = ''access_denied''
         | Inl _ \<Rightarrow> co_error C (hr_body r) = Ok ''forbidden'')) \<and>
     ae_status (oauth2_context error_id code desc e) \<in> {401, 403, 500}))"
proof -
  have 1: "ae_status (oauth2_context error_id code desc e) = 500" if "is_success r" "oauth2_receive C decode r = Err e" for e
    using that by (auto simp: oauth2_receive_def map_err_def oauth2_context_status split: sum.splits)
  have 2: "oauth2_receive C decode r = Err (receive_error C (hr_body r))" if "\<not> is_success r" using that by (simp add: oauth2_receive_def)
  have 3: "ae_status (oauth2_context error_id code desc (error_of_name n d)) =
      (if n \<in> {''expired_token'', ''invalid_grant'', ''login_required''} \<or> n = ''invalid_request'' \<and> d = Some ''invalid JID'' then 401
       else if n = ''access_denied'' then 403 else 500)" for n d
    by (auto simp: error_of_name_def Let_def oauth2_context_status)
  have 4: "ae_status (oauth2_context error_id code desc (error_of_condition c)) =
      (if c = ''not-authorized'' then 401 else if c = ''forbidden'' then 403 else 500)" for c
    by (auto simp: error_of_condition_def oauth2_context_status)
  show ?thesis
  proof (cases "is_success r")
    case True
    then show ?thesis using 1 by blast
  next
    case False
    note R = 2 [OF False] receive_error_def
    show ?thesis
    proof (cases "co_value C (hr_body r)")
      case (Inl e)
      then show ?thesis using False by (auto simp: R oauth2_context_status)
    next
      case (Inr u)
      show ?thesis
      proof (cases "co_api_error C (hr_body r)")
        case (Inl e)
        then show ?thesis using False Inr by (cases "co_error C (hr_body r)") (auto simp: R 4 oauth2_context_status)
      next
        case (Inr p)
        then show ?thesis using False \<open>co_value C (hr_body r) = Inr u\<close> by (cases p) (auto simp: R 3)
      qed
    qed
  qed
qed

definition demo_errors :: oauth2_codec where
  "demo_errors = \<lparr>co_value = (\<lambda>_. Ok ()), co_api_error = (\<lambda>b. Ok (b, None)), co_error = (\<lambda>b. Ok b),
     co_metadata = (\<lambda>_. Err []), co_userinfo = (\<lambda>b. Ok \<lparr>ui_iss = ''d.org'', ui_sub = b\<rparr>), co_token = (\<lambda>_. Err []), co_unit = (\<lambda>_. Ok ()),
     en_client_config = (\<lambda>_. []), en_token = id, en_form = (\<lambda>_. []), en_base64 = id\<rparr>"

theorem oauth2_error_status_witness:
  "\<exists>e. oauth2_receive demo_errors (co_unit demo_errors) \<lparr>hr_status = 400, hr_body = ''invalid_grant''\<rparr> = Err e \<and>
     ae_status (oauth2_context ''id'' ''OAUTH2_ERROR'' ''OAuth 2.0 error'' e) = 401"
  using oauth2_error_status [of "\<lparr>hr_status = 400, hr_body = ''invalid_grant''\<rparr>" demo_errors "co_unit demo_errors" "''id''" "''OAUTH2_ERROR''"
      "''OAuth 2.0 error''"]
  by (auto simp: is_success_def demo_errors_def)

end
