(* ===== verification/Extractors.thy ===== *)
theory Extractors
  imports Oauth2_Client Shell_Protocol Workspace
begin

text \<open>
  \<^verbatim>\<open>api/src/extractors.rs\<close>: who makes a request.  The token of the \<open>Authorization\<close> header is shown to the
  OAuth 2.0 server of Prosody, which names the account; the Prosody shell names its role.  The extensions of a
  request keep the result.  Also the avatar in the body of a request.
\<close>

section \<open>Tokens\<close>

text \<open>The headers of a request in order, with names in lower case; \<open>HeaderValue::to_str\<close>.\<close>

type_synonym headers = "(string \<times> bytes) list"

definition header_text :: "bytes \<Rightarrow> string option" where
  "header_text v = (if list_all (\<lambda>c. CHR '' '' \<le> c \<and> c < CHR 0x7F \<or> c = CHR 0x09) v then Some v else None)"

definition BEARER_PREFIX :: string where "BEARER_PREFIX = ''Bearer ''"

definition auth_token_of :: "headers \<Rightarrow> api_error + string" where
  "auth_token_of headers =
     (case map_of headers ''authorization'' of
        None \<Rightarrow> Err (unauthorized ''No 'authorization' header found.'')
      | Some v \<Rightarrow>
          (case header_text v of
             None \<Rightarrow> Err (unauthorized ''Bad 'authorization' header value: failed to convert header to a str'')
           | Some auth \<Rightarrow>
               (case strip_prefix BEARER_PREFIX auth of
                  None \<Rightarrow> Err (unauthorized ''The 'authorization' header does not start with 'Bearer '.'')
                | Some token \<Rightarrow> Ok token)))"

section \<open>Callers\<close>

record ('p, 's) auth_libs =
  al_http :: "'p http"
  al_codec :: oauth2_codec
  al_base :: string
  al_shell :: "'s shell_proc"
  al_jid :: "string \<Rightarrow> string option"
  al_error_id :: string

text \<open>What a request sees; \<open>rq_caller\<close> is the result kept in the extensions of the request.\<close>

record ('p, 's) request_world =
  rq_http :: 'p
  rq_shell :: "'s prosody_shell"
  rq_caller :: "(api_error + caller_info) option"

definition role_of_jid :: "('p, 's) auth_libs \<Rightarrow> string \<Rightarrow> (('p, 's) request_world, api_error, caller_info) act" where
  "role_of_jid A jid =
     act_then (act_on rq_shell rq_shell_update (user_role (al_shell A) jid None)) (\<lambda>_. no_context (al_error_id A)) (\<lambda>role w.
       let c = \<lparr>ci_jid = jid, ci_primary_role = role\<rparr> in Some (Ret (Ok c), w\<lparr>rq_caller := Some (Ok c)\<rparr>))"

definition caller_of_userinfo :: "('p, 's) auth_libs \<Rightarrow> userinfo_response \<Rightarrow> (('p, 's) request_world, api_error, caller_info) act" where
  "caller_of_userinfo A u =
     (case userinfo_jid u of
        Panic \<Rightarrow> act_run (\<lambda>w. (Panic, w))
      | Ret s \<Rightarrow> (case al_jid A s of None \<Rightarrow> act_run (\<lambda>w. (Panic, w)) | Some jid \<Rightarrow> role_of_jid A jid))"

definition caller_of_request :: "('p, 's) auth_libs \<Rightarrow> headers \<Rightarrow> (('p, 's) request_world, api_error, caller_info) act" where
  "caller_of_request A headers w =
     (case rq_caller w of
        Some cached \<Rightarrow> Some (Ret cached, w)
      | None \<Rightarrow>
          (case auth_token_of headers of
             Inl e \<Rightarrow> Some (Ret (Err e), w)
           | Inr token \<Rightarrow>
               (case act_on rq_http rq_http_update (oauth2_userinfo (al_http A) (al_codec A) (al_base A) token) w of
                  None \<Rightarrow> None
                | Some (Panic, w') \<Rightarrow> Some (Panic, w')
                | Some (Ret (Inl e), w') \<Rightarrow>
                    (let res = Err (oauth2_context (al_error_id A) ''OAUTH2_ERROR'' ''OAuth 2.0 error'' e)
                     in Some (Ret res, w'\<lparr>rq_caller := Some res\<rparr>))
                | Some (Ret (Inr u), w') \<Rightarrow> caller_of_userinfo A u w')))"

section \<open>Avatars\<close>

datatype avatar_rejection = InvalidBytes | InvalidString | InvalidJson | InvalidAvatar avatar_decode_error | UnsupportedContent

text \<open>The body as bytes, as UTF-8 and as a JSON string, and Base64, are parameters.\<close>

record body_codec =
  bc_bytes :: "bytes \<Rightarrow> bytes option"
  bc_text :: "bytes \<Rightarrow> string option"
  bc_json :: "bytes \<Rightarrow> string option"
  bc_base64 :: "bytes \<Rightarrow> anyhow + bytes"

definition avatar_from_request :: "body_codec \<Rightarrow> headers \<Rightarrow> bytes \<Rightarrow> avatar_rejection + avatar" where
  "avatar_from_request B headers body =
     (let from_bytes = (case bc_bytes B body of None \<Rightarrow> Err InvalidBytes | Some b \<Rightarrow> map_err InvalidAvatar (try_from_bytes b));
          from_text = (case bc_text B body of None \<Rightarrow> Err InvalidString | Some s \<Rightarrow> map_err InvalidAvatar (try_from_base64 (bc_base64 B) s));
          from_json = (case bc_json B body of None \<Rightarrow> Err InvalidJson | Some s \<Rightarrow> map_err InvalidAvatar (try_from_base64 (bc_base64 B) s))
      in case map_of headers ''content-type'' of
           None \<Rightarrow> from_bytes
         | Some ct \<Rightarrow>
             if ct = ''application/octet-stream'' then from_bytes
             else if starts_with ct ''image/'' then from_bytes
             else if ct = ''text/plain'' then from_text
             else if ct = ''application/json'' then from_json
             else Err UnsupportedContent)"

definition rejection_response :: "avatar_rejection \<Rightarrow> api_error" where
  "rejection_response r =
     (case r of
        InvalidAvatar e \<Rightarrow> invalid_avatar e
      | UnsupportedContent \<Rightarrow> validation_error ''INVALID_AVATAR'' ''Invalid avatar'' ''Unsupported media type.''
      | InvalidBytes \<Rightarrow> validation_error ''INVALID_AVATAR'' ''Invalid avatar'' ''Invalid bytes''
      | InvalidString \<Rightarrow> validation_error ''INVALID_AVATAR'' ''Invalid avatar'' ''Invalid string''
      | InvalidJson \<Rightarrow> validation_error ''INVALID_AVATAR'' ''Invalid avatar'' ''Invalid JSON'')"

section \<open>What a caller is\<close>

lemma role_of_jid_Ok:
  "role_of_jid A jid w = Some (Ret (Ok c), w') \<longleftrightarrow>
     (\<exists>role sh. user_role (al_shell A) jid None (rq_shell w) = Some (Ret (Ok role), sh) \<and>
        c = \<lparr>ci_jid = jid, ci_primary_role = role\<rparr> \<and> w' = w\<lparr>rq_shell := sh, rq_caller := Some (Ok c)\<rparr>)"
  by (auto simp: role_of_jid_def act_Ok Let_def)

lemma caller_of_request_Ok:
  assumes "caller_of_request A headers w = Some (Ret (Ok c), w')" "rq_caller w = None"
  obtains token u http jid role sh where "auth_token_of headers = Ok token"
    "oauth2_userinfo (al_http A) (al_codec A) (al_base A) token (rq_http w) = Some (Ret (Ok u), http)"
    "Option.bind (strip_prefix ''xmpp:'' (ui_sub u)) (al_jid A) = Some jid"
    "user_role (al_shell A) jid None (rq_shell w) = Some (Ret (Ok role), sh)"
    "c = \<lparr>ci_jid = jid, ci_primary_role = role\<rparr>" "w' = w\<lparr>rq_http := http, rq_shell := sh, rq_caller := Some (Ok c)\<rparr>"
proof -
  from assms obtain token where t: "auth_token_of headers = Ok token" by (auto simp: caller_of_request_def split: sum.splits)
  obtain r w1 where o: "act_on rq_http rq_http_update (oauth2_userinfo (al_http A) (al_codec A) (al_base A) token) w = Some (r, w1)"
    using assms t by (auto simp: caller_of_request_def split: option.splits)
  then obtain http where h: "oauth2_userinfo (al_http A) (al_codec A) (al_base A) token (rq_http w) = Some (r, http)" "w1 = w\<lparr>rq_http := http\<rparr>"
    by (auto simp: act_on_def)
  obtain u where u: "r = Ret (Ok u)" "caller_of_userinfo A u w1 = Some (Ret (Ok c), w')"
    using assms t o by (auto simp: caller_of_request_def Let_def split: run.splits sum.splits)
  obtain s jid where j: "userinfo_jid u = Ret s" "al_jid A s = Some jid" "role_of_jid A jid w1 = Some (Ret (Ok c), w')"
    using u(2) by (auto simp: caller_of_userinfo_def act_run_def split: run.splits option.splits)
  then have "Option.bind (strip_prefix ''xmpp:'' (ui_sub u)) (al_jid A) = Some jid" by (auto simp: userinfo_jid_def split: option.splits)
  with that t h u j show ?thesis by (auto simp: role_of_jid_Ok)
qed

text \<open>The cached result is given back, with no other call.\<close>

lemma caller_of_request_cached: "rq_caller w = Some r \<Longrightarrow> caller_of_request A headers w = Some (Ret r, w)"
  by (simp add: caller_of_request_def)

text \<open>
  C8. A request has a caller only by its bearer token: the OAuth 2.0 server has accepted that token for an account,
  the role is what the shell answered for that very account, and a request that is asked again for its caller
  gives the same one with no other call.
\<close>

theorem caller_info_sound:
  assumes "caller_of_request A headers w = Some (Ret (Ok c), w')" "rq_caller w = None"
  shows "\<exists>token url r u http.
      map_of headers ''authorization'' = Some (''Bearer '' @ token) \<and>
      al_http A \<lparr>hq_method = ''GET'', hq_url = url, hq_headers = [(''accept'', ''application/json''), (''authorization'', ''Bearer '' @ token)],
        hq_body = []\<rparr> (rq_http w) = (Ok r, http) \<and> is_success r \<and> co_userinfo (al_codec A) (hr_body r) = Ok u \<and>
      (\<exists>s. ui_sub u = ''xmpp:'' @ s \<and> al_jid A s = Some (ci_jid c)) \<and>
      user_role (al_shell A) (ci_jid c) None (rq_shell w) = Some (Ret (Ok (ci_primary_role c)), rq_shell w') \<and>
      caller_of_request A headers w' = Some (Ret (Ok c), w')"
proof -
  from assms obtain token u http jid role sh where c: "auth_token_of headers = Ok token"
    "oauth2_userinfo (al_http A) (al_codec A) (al_base A) token (rq_http w) = Some (Ret (Ok u), http)"
    "Option.bind (strip_prefix ''xmpp:'' (ui_sub u)) (al_jid A) = Some jid"
    "user_role (al_shell A) jid None (rq_shell w) = Some (Ret (Ok role), sh)"
    "c = \<lparr>ci_jid = jid, ci_primary_role = role\<rparr>" "w' = w\<lparr>rq_http := http, rq_shell := sh, rq_caller := Some (Ok c)\<rparr>"
    by (rule caller_of_request_Ok)
  have t: "map_of headers ''authorization'' = Some (''Bearer '' @ token)"
    using c(1) by (auto simp: auth_token_of_def header_text_def BEARER_PREFIX_def strip_prefix_eq_Some split: option.splits if_splits)
  obtain url r where r: "al_http A \<lparr>hq_method = ''GET'', hq_url = url, hq_headers = [(''accept'', ''application/json''), (''authorization'', ''Bearer '' @ token)],
        hq_body = []\<rparr> (rq_http w) = (Ok r, http)" "oauth2_receive (al_codec A) (co_userinfo (al_codec A)) r = Ok u"
    using c(2) unfolding oauth2_userinfo_def bearer_auth_def by (rule oauth2_send_Ok)
  obtain s where "ui_sub u = ''xmpp:'' @ s" "al_jid A s = Some jid"
    using c(3) by (cases "strip_prefix ''xmpp:'' (ui_sub u)") (auto simp: strip_prefix_eq_Some)
  with t r c(4-6) show ?thesis by (auto simp: receive_Ok caller_of_request_cached)
qed

section \<open>Roles and timeouts\<close>

definition role_command :: "string \<Rightarrow> string" where
  "role_command jid = lua_call ''user:role'' [lua_str jid]"

lemma user_role_reads_oldest:
  assumes "fifo_shell P answer pending" "ps_handle sh" "pending (ps_proc sh) = concat rs" "\<forall>r\<in>set rs. one_response r"
    "one_response (answer (written (role_command jid)))" "user_role P jid None sh = Some (Ret x, sh')"
  shows "case x of
      Inr role \<Rightarrow> \<exists>s. answer_result (hd (rs @ [answer (written (role_command jid))])) = Ok s \<and> role = strip_primary s
    | Inl e \<Rightarrow> e = [''Error getting user primary role'', ''Timeout''] \<longrightarrow>
        (\<exists>rs'. map answer_result rs' = map answer_result (rs @ [answer (written (role_command jid))]) \<and>
          pending (ps_proc sh') = concat rs' \<and> (\<forall>r\<in>set rs'. one_response r) \<and> ps_handle sh')"
proof -
  obtain y sh1 where y: "exec_with_timeout P (role_command jid) DEFAULT_TIMEOUT sh = Some (Ret y, sh1)"
    using assms(6) by (auto simp: user_role_def run_then_def op_then_def role_command_def opt_arg_def split: option.splits run.splits)
  note * = exec_reads_oldest [OF assms(1-5) y]
  have x: "x = (case y of Inl e \<Rightarrow> Err (''Error getting user primary role'' # e)
      | Inr r \<Rightarrow> try_bind (result_text r) (\<lambda>role. Ok (strip_primary role)))" "sh' = sh1"
    using assms(6) y by (auto simp: user_role_def run_then_def op_then_def role_command_def opt_arg_def context_msg_def split: sum.splits)
  show ?thesis
  proof (cases y)
    case (Inl e)
    then show ?thesis using * x by auto
  next
    case (Inr resp)
    then have "pr_result resp = answer_result (hd (rs @ [answer (written (role_command jid))]))" using * by (simp add: answer_result_def)
    then show ?thesis using x Inr
      by (cases "answer_result (hd (rs @ [answer (written (role_command jid))]))") (simp_all add: result_text_def map_err_def)
  qed
qed

text \<open>
  C34. The shell is shared by all requests and answers in turn, so a timeout gives the role of one caller to the
  next: when asking for the role of an admin has timed out, the next request is made as an admin, whoever's token
  it carries, and passes the check for admins.
\<close>

theorem timed_out_role_admits_next_caller:
  assumes "fifo_shell (al_shell A) answer pending" "\<And>jid. one_response (answer (written (role_command jid)))"
    "answer_result (answer (written (role_command admin))) = Ok ''prosody:admin''"
    "ps_handle sh" "pending (ps_proc sh) = []"
    "user_role (al_shell A) admin None sh = Some (Ret (Err [''Error getting user primary role'', ''Timeout'']), rq_shell w)"
    "caller_of_request A headers w = Some (Ret (Ok c), w')" "rq_caller w = None"
  shows "ci_primary_role c = ''prosody:admin'' \<and> check_is_admin c = Ok ()"
proof -
  let ?a = "answer (written (role_command admin))"
  have "pending (ps_proc sh) = concat []" using assms(5) by simp
  from user_role_reads_oldest [OF assms(1,4) this _ assms(2,6)]
  have "\<exists>rs. map answer_result rs = [answer_result ?a] \<and> pending (ps_proc (rq_shell w)) = concat rs \<and> (\<forall>r\<in>set rs. one_response r) \<and>
      ps_handle (rq_shell w)" by simp
  then obtain rs where rs: "map answer_result rs = [answer_result ?a]" "pending (ps_proc (rq_shell w)) = concat rs" "\<forall>r\<in>set rs. one_response r"
    "ps_handle (rq_shell w)" by (elim exE conjE)
  from rs(1) obtain r where r: "rs = [r]" "answer_result r = Ok ''prosody:admin''" using assms(3) by auto
  obtain jid role sh' where c: "user_role (al_shell A) jid None (rq_shell w) = Some (Ret (Ok role), sh')" "c = \<lparr>ci_jid = jid, ci_primary_role = role\<rparr>"
    using assms(7,8) by (rule caller_of_request_Ok)
  have "role = ''prosody:admin''"
    using user_role_reads_oldest [OF assms(1) rs(4,2,3) assms(2) c(1)] r by (simp add: strip_primary_def ends_with_def starts_with_def)
  then show ?thesis using c(2) by (simp add: check_is_admin_def)
qed

section \<open>Two requests\<close>

text \<open>A shell that knows one admin and times out as told; a server that accepts every token for one account.\<close>

definition role_answer :: "string \<Rightarrow> string list" where
  "role_answer c = [if c = written (role_command ''alice@d.org'') then ''| OK: prosody:admin'' else ''| OK: prosody:member'']"

definition role_shell :: "(bool list \<times> string list) shell_proc" where
  "role_shell =
     \<lparr>sh_spawn = (\<lambda>s. (Ok (), s)),
      sh_write = (\<lambda>c (late, ls). (Ok (), (late, ls @ role_answer c))),
      sh_next = (\<lambda>t (late, ls).
        case (late, ls) of
          (False # late', l # ls') \<Rightarrow> (NLine l, (late', ls'))
        | (_, ls) \<Rightarrow> (NTimeout, (tl late, ls)))\<rparr>"

lemma role_shell_fifo: "fifo_shell role_shell role_answer snd"
  unfolding fifo_shell_def role_shell_def by (auto split: list.splits bool.splits)

lemma role_lines:
  "parse_response_line ''| OK: prosody:admin'' = ResultLine (Ok ''prosody:admin'')"
  "parse_response_line ''| OK: prosody:member'' = ResultLine (Ok ''prosody:member'')"
  using parse_ok_line [of "''prosody:admin''"] parse_ok_line [of "''prosody:member''"] by simp_all

lemma role_answer_one: "one_response (role_answer c)"
  by (simp add: role_answer_def role_lines)

lemma role_read:
  "read_response role_shell t ls (True # late, xs) = Some (Err [''Timeout''], (late, xs))"
  "parse_response_line l = ResultLine r \<Longrightarrow> read_response role_shell t ls (False # late, l # xs) = Some (Ok \<lparr>pr_lines = ls, pr_result = r\<rparr>, (late, xs))"
  by (subst read_response.simps, simp add: role_shell_def)+

lemma role_exec:
  assumes "read_response role_shell DEFAULT_TIMEOUT [] (late, xs @ role_answer (written (role_command jid))) = Some (r, s)" "length jid < 100"
  shows "exec_with_timeout role_shell (role_command jid) DEFAULT_TIMEOUT \<lparr>ps_handle = True, ps_proc = (late, xs)\<rparr> =
    Some (Ret r, \<lparr>ps_handle = True, ps_proc = s\<rparr>)"
proof -
  have "command_name (role_command jid) = Ret ''user:role''" by (simp add: role_command_def command_name_call)
  moreover have "role_command jid \<noteq> []" "length (role_command jid) < MAX_COMMAND_LENGTH"
    using assms(2) by (simp_all add: role_command_def lua_call_def lua_str_def MAX_COMMAND_LENGTH_def)
  moreover have "sh_write role_shell c (late, xs) = (Ok (), (late, xs @ role_answer c))" for c by (simp add: role_shell_def)
  ultimately show ?thesis
    using assms(1) by (simp add: exec_with_timeout_def op_then_def get_handle_or_start_def handle_exec_def written_def)
qed

lemma role_user:
  assumes "length jid < 100"
  shows "user_role role_shell jid None \<lparr>ps_handle = True, ps_proc = (True # late, xs)\<rparr> =
      Some (Ret (Err [''Error getting user primary role'', ''Timeout'']), \<lparr>ps_handle = True, ps_proc = (late, xs @ role_answer (written (role_command jid)))\<rparr>)"
    "parse_response_line l = ResultLine (Ok a) \<Longrightarrow> user_role role_shell jid None \<lparr>ps_handle = True, ps_proc = (False # late, l # xs)\<rparr> =
      Some (Ret (Ok (strip_primary a)), \<lparr>ps_handle = True, ps_proc = (late, xs @ role_answer (written (role_command jid)))\<rparr>)"
proof -
  show "user_role role_shell jid None \<lparr>ps_handle = True, ps_proc = (True # late, xs)\<rparr> =
      Some (Ret (Err [''Error getting user primary role'', ''Timeout'']), \<lparr>ps_handle = True, ps_proc = (late, xs @ role_answer (written (role_command jid)))\<rparr>)"
    using role_exec [OF role_read(1) assms, of late xs]
    by (simp add: user_role_def run_then_def op_then_def role_command_def opt_arg_def context_msg_def)
  assume l: "parse_response_line l = ResultLine (Ok a)"
  have "read_response role_shell DEFAULT_TIMEOUT [] (False # late, (l # xs) @ role_answer (written (role_command jid))) =
      Some (Ok \<lparr>pr_lines = [], pr_result = Ok a\<rparr>, (late, xs @ role_answer (written (role_command jid))))"
    using role_read(2) [OF l] by simp
  from role_exec [OF this assms]
  show "user_role role_shell jid None \<lparr>ps_handle = True, ps_proc = (False # late, l # xs)\<rparr> =
      Some (Ret (Ok (strip_primary a)), \<lparr>ps_handle = True, ps_proc = (late, xs @ role_answer (written (role_command jid)))\<rparr>)"
    by (simp add: user_role_def run_then_def op_then_def role_command_def opt_arg_def context_msg_def result_text_def map_err_def)
qed

definition demo_auth :: "(unit, bool list \<times> string list) auth_libs" where
  "demo_auth = \<lparr>al_http = (\<lambda>_ s. (Ok \<lparr>hr_status = 200, hr_body = ''xmpp:bob@d.org''\<rparr>, s)), al_codec = demo_errors,
     al_base = ''http://prose-pod-server:5280'', al_shell = role_shell, al_jid = Some, al_error_id = ''id''\<rparr>"

definition demo_bearer :: headers where
  "demo_bearer = [(''accept'', ''application/json''), (''authorization'', ''Bearer t0ken'')]"

lemma demo_bearer_token: "auth_token_of demo_bearer = Ok ''t0ken''"
  by (simp add: auth_token_of_def demo_bearer_def header_text_def BEARER_PREFIX_def)

lemma demo_caller:
  assumes "user_role role_shell ''bob@d.org'' None sh = Some (Ret (Ok role), sh')"
  shows "caller_of_request demo_auth demo_bearer \<lparr>rq_http = (), rq_shell = sh, rq_caller = None\<rparr> =
    Some (Ret (Ok \<lparr>ci_jid = ''bob@d.org'', ci_primary_role = role\<rparr>),
      \<lparr>rq_http = (), rq_shell = sh', rq_caller = Some (Ok \<lparr>ci_jid = ''bob@d.org'', ci_primary_role = role\<rparr>)\<rparr>)"
  using assms
  by (simp add: caller_of_request_def demo_bearer_token act_on_def oauth2_userinfo_def oauth2_send_def oauth2_url_def oauth2_receive_def
      caller_of_userinfo_def userinfo_jid_def role_of_jid_def act_then_def demo_auth_def demo_errors_def starts_with_def is_success_def Let_def)

lemma demo_first: "user_role role_shell ''alice@d.org'' None \<lparr>ps_handle = True, ps_proc = ([True, False], [])\<rparr> =
    Some (Ret (Err [''Error getting user primary role'', ''Timeout'']), \<lparr>ps_handle = True, ps_proc = ([False], [''| OK: prosody:admin''])\<rparr>)"
  using role_user(1) [of "''alice@d.org''" "[False]" "[]"] by (simp add: role_answer_def)

lemma demo_second: "user_role role_shell ''bob@d.org'' None \<lparr>ps_handle = True, ps_proc = ([False], ''| OK: prosody:admin'' # xs)\<rparr> =
    Some (Ret (Ok ''prosody:admin''), \<lparr>ps_handle = True, ps_proc = ([], xs @ role_answer (written (role_command ''bob@d.org'')))\<rparr>)"
  using role_user(2) [OF _ role_lines(1), of "''bob@d.org''" "[]" xs] by (simp add: strip_primary_def ends_with_def starts_with_def)

theorem timed_out_role_admits_next_caller_witness:
  "\<exists>sh1 w c. user_role role_shell ''alice@d.org'' None \<lparr>ps_handle = True, ps_proc = ([True, False], [])\<rparr> =
       Some (Ret (Err [''Error getting user primary role'', ''Timeout'']), sh1) \<and>
     caller_of_request demo_auth demo_bearer \<lparr>rq_http = (), rq_shell = sh1, rq_caller = None\<rparr> = Some (Ret (Ok c), w) \<and>
     ci_jid c = ''bob@d.org'' \<and> role_answer (written (role_command ''bob@d.org'')) = [''| OK: prosody:member''] \<and> check_is_admin c = Ok ()"
proof -
  let ?sh = "\<lparr>ps_handle = True, ps_proc = ([True, False], [])\<rparr> :: (bool list \<times> string list) prosody_shell"
  let ?sh1 = "\<lparr>ps_handle = True, ps_proc = ([False], [''| OK: prosody:admin''])\<rparr> :: (bool list \<times> string list) prosody_shell"
  have A: "al_shell demo_auth = role_shell" by (simp add: demo_auth_def)
  have "answer_result (role_answer (written (role_command ''alice@d.org''))) = Ok ''prosody:admin''"
    by (simp add: role_answer_def answer_result_def role_lines)
  from timed_out_role_admits_next_caller [of demo_auth role_answer snd "''alice@d.org''" ?sh, unfolded A, OF role_shell_fifo role_answer_one this
      _ _ _ demo_caller [OF demo_second]] demo_first
  have "check_is_admin \<lparr>ci_jid = ''bob@d.org'', ci_primary_role = ''prosody:admin''\<rparr> = Ok ()" by simp
  moreover have "role_answer (written (role_command ''bob@d.org'')) = [''| OK: prosody:member'']"
    by (simp add: role_answer_def role_command_def written_def lua_call_def lua_str_def ends_with_def starts_with_def)
  ultimately show ?thesis using demo_first demo_caller [OF demo_second [of "[]"]] by (intro exI conjI) (assumption | simp)+
qed

theorem caller_info_sound_witness:
  "\<exists>c w. caller_of_request demo_auth demo_bearer \<lparr>rq_http = (), rq_shell = \<lparr>ps_handle = True, ps_proc = ([False], [''| OK: prosody:admin''])\<rparr>, rq_caller = None\<rparr> =
       Some (Ret (Ok c), w) \<and> caller_of_request demo_auth demo_bearer w = Some (Ret (Ok c), w)"
  using caller_info_sound [OF demo_caller [OF demo_second [of "[]"]]] demo_caller [OF demo_second [of "[]"]] by auto

end
