(* ===== verification/Bootstrap.thy ===== *)
theory Bootstrap
  imports Workspace Oauth2_Client Prosody_Process Shell_Protocol
begin

text \<open>
  \<^verbatim>\<open>api/src/startup.rs\<close>: the steps of bootstrapping.  The files of the server, the operating system, OAuth 2.0,
  XMPP and the Prosody shell are parameters; what the server keeps after a successful bootstrap is the world of
  theory \<open>Workspace\<close>.
\<close>

section \<open>Files\<close>

definition PROSODY_CONFIG_FILE_PATH :: string where "PROSODY_CONFIG_FILE_PATH = ''/etc/prosody/prosody.cfg.lua''"
definition PROSODY_CERTS_DIR :: string where "PROSODY_CERTS_DIR = ''/etc/prosody/certs''"
definition server_salt_path :: string where "server_salt_path = ''/var/lib/prose-pod-server/salt.bin''"

record boot_fs =
  bf_files :: "string \<rightharpoonup> bytes"
  bf_dirs :: "string set"

text \<open>
  What the file system answers: an error of making a directory, of opening a file and of reading it; how many bytes
  one read returns at most; how many bytes are written before an error.  \<open>io_random\<close> is the source of random bytes.
\<close>

record boot_io =
  io_mkdir :: "anyhow option"
  io_open :: "string \<Rightarrow> anyhow option"
  io_read :: "string \<Rightarrow> anyhow option"
  io_read_at_most :: "string \<Rightarrow> nat"
  io_write :: "string \<Rightarrow> (nat \<times> anyhow) option"
  io_rmdir :: "string \<Rightarrow> anyhow option"
  io_random :: "nat \<Rightarrow> bytes"

definition write_file :: "boot_io \<Rightarrow> string \<Rightarrow> bytes \<Rightarrow> boot_fs \<Rightarrow> (anyhow + unit) \<times> boot_fs" where
  "write_file io p data fs =
     (case io_write io p of
        None \<Rightarrow> (Ok (), fs\<lparr>bf_files := (bf_files fs)(p \<mapsto> data)\<rparr>)
      | Some (n, e) \<Rightarrow> (Err e, fs\<lparr>bf_files := (bf_files fs)(p \<mapsto> take n data)\<rparr>))"

definition create_required_dirs :: "boot_io \<Rightarrow> boot_fs \<Rightarrow> (anyhow + unit) \<times> boot_fs" where
  "create_required_dirs io fs =
     (case io_mkdir io of
        Some e \<Rightarrow> (Err (context_msg (''Could not create Prosody certs dir at <'' @ PROSODY_CERTS_DIR @ ''>'') e), fs)
      | None \<Rightarrow> (Ok (), fs\<lparr>bf_dirs := insert PROSODY_CERTS_DIR (bf_dirs fs)\<rparr>))"

definition SALT_LENGTH :: nat where "SALT_LENGTH = 256"

definition generate_server_salt_if_needed :: "boot_io \<Rightarrow> boot_fs \<Rightarrow> (anyhow + bytes) \<times> boot_fs" where
  "generate_server_salt_if_needed io fs =
     (case bf_files fs server_salt_path of
        Some data \<Rightarrow>
          (case io_open io server_salt_path of
             Some e \<Rightarrow> (Err (context_msg ''Error opening Server salt file'' e), fs)
           | None \<Rightarrow>
               (case io_read io server_salt_path of
                  Some e \<Rightarrow> (Err (context_msg ''Error reading Server salt'' e), fs)
                | None \<Rightarrow> (Ok data, fs)))
      | None \<Rightarrow>
          (let salt = io_random io SALT_LENGTH in
           case io_open io server_salt_path of
             Some e \<Rightarrow> (Err (context_msg ''Error creating Server salt file'' e), fs)
           | None \<Rightarrow>
               (let (r, fs') = write_file io server_salt_path salt fs
                in (map_err (context_msg ''Error writing Server salt'') (try_bind r (\<lambda>_. Ok salt)), fs'))))"

text \<open>
  \<open>backup_prosody_conf_if_needed\<close>: one read of as many bytes as the header has.  The message says that the file
  will be backed up, and nothing else happens: the value is whether it is logged.
\<close>

definition prose_header :: string where "prose_header = ''-- Prose Pod Server''"

definition backup_prosody_conf_if_needed :: "boot_io \<Rightarrow> boot_fs \<Rightarrow> (anyhow + bool) \<times> boot_fs" where
  "backup_prosody_conf_if_needed io fs =
     (case bf_files fs PROSODY_CONFIG_FILE_PATH of
        None \<Rightarrow> (Ok False, fs)
      | Some data \<Rightarrow>
          (case io_open io PROSODY_CONFIG_FILE_PATH of
             Some e \<Rightarrow> (Err (context_msg (''Error opening <'' @ PROSODY_CONFIG_FILE_PATH @ ''>'') e), fs)
           | None \<Rightarrow>
               (case io_read io PROSODY_CONFIG_FILE_PATH of
                  Some e \<Rightarrow> (Err (context_msg ''Error reading Prosody config file'' e), fs)
                | None \<Rightarrow>
                    (let buffer = take (min (io_read_at_most io PROSODY_CONFIG_FILE_PATH) (length prose_header)) data
                     in (Ok (buffer \<noteq> prose_header), fs)))))"

text \<open>\<open>str::replace\<close>, and the template as the file \<^verbatim>\<open>prosody-bootstrap.cfg.lua\<close> has it.\<close>

definition replace_str :: "string \<Rightarrow> string \<Rightarrow> string \<Rightarrow> string" where
  "replace_str pat s new = join new (split_str pat s)"

definition apply_bootstrap_config :: "boot_io \<Rightarrow> string \<Rightarrow> string \<Rightarrow> boot_fs \<Rightarrow> (anyhow + unit) \<times> boot_fs" where
  "apply_bootstrap_config io template server_domain fs =
     (case io_open io PROSODY_CONFIG_FILE_PATH of
        Some e \<Rightarrow> (Err (context_msg ''Error opening Prosody config file'' e), fs)
      | None \<Rightarrow>
          (let (r, fs') = write_file io PROSODY_CONFIG_FILE_PATH (replace_str ''{{server_domain}}'' template server_domain)
                 (fs\<lparr>bf_files := (bf_files fs)(PROSODY_CONFIG_FILE_PATH \<mapsto> [])\<rparr>)
           in (map_err (context_msg ''Error writing Prosody config file'') r, fs')))"

section \<open>Accounts and groups\<close>

record ('p, 'e, 'r, 'x, 'q, 's, 'h, 'b) boot_env =
  be_io :: boot_io
  be_os :: os
  be_http :: "'h http"
  be_codec :: oauth2_codec
  be_libs :: "('p, 'e, 'r, 'x, 'q, 's) backend_libs"
  be_template :: string
  be_backup_service :: "'b \<Rightarrow> anyhow + unit"
  be_random_password :: string
  be_application :: 'r

record ('x, 'q, 's, 'h) boot_world =
  bo_fs :: boot_fs
  bo_process :: prosody_child_process
  bo_live :: "nat set"
  bo_http :: 'h
  bo_backend :: "('x, 'q, 's) backend_world"

definition SERVICE_ACCOUNT_ROLE :: string where "SERVICE_ACCOUNT_ROLE = ''prosody:registered''"
definition MAIN_TEAM_GROUP_ID :: string where "MAIN_TEAM_GROUP_ID = ''team''"

definition oauth2_error_msg :: "oauth2_error \<Rightarrow> anyhow" where
  "oauth2_error_msg e = (case e of Unauthorized m \<Rightarrow> context_msg ''Unauthorized'' m | Forbidden m \<Rightarrow> context_msg ''Forbidden'' m
     | InternalError m \<Rightarrow> m | OtherError m \<Rightarrow> m)"

definition user_create_msg :: "user_create_error \<Rightarrow> anyhow" where
  "user_create_msg e = (case e of Conflict \<Rightarrow> [''User already exists.''] | Internal m \<Rightarrow> m)"

definition server_client_config :: oauth2_client_config where
  "server_client_config =
     \<lparr>oc_client_name = ''Prose Pod Server API'', oc_client_uri = ''https://prose-pod-server:8080'',
      oc_redirect_uris = [''https://prose-pod-server:8080/redirect''], oc_grant_types = [''authorization_code'', ''refresh_token'', ''password'']\<rparr>"

definition register_oauth2_client :: "'h http \<Rightarrow> oauth2_codec \<Rightarrow> string \<Rightarrow> ('h, anyhow, client_credentials) act" where
  "register_oauth2_client http C base =
     act_then (oauth2_register http C base server_client_config) oauth2_error_msg (\<lambda>m. act_ret (Ok (into_credentials m)))"

text \<open>The account itself: created, or given the password and the role again.\<close>

definition ensure_account :: "'s shell_proc \<Rightarrow> jid \<Rightarrow> string \<Rightarrow> ('s, anyhow, string) shell_op" where
  "ensure_account P jid password =
     act_then (user_exists P (fst jid) (snd jid)) id (\<lambda>known.
       if known
       then act_then (user_password P (jid_text jid) password) id (\<lambda>_. user_set_role P (jid_text jid) None SERVICE_ACCOUNT_ROLE)
       else act_err user_create_msg (user_create P (jid_text jid) password (Some SERVICE_ACCOUNT_ROLE)))"

definition ensure_vcard where
  "ensure_vcard E jid name creds =
     act_then (on_xmpp (get_own_vcard (bl_xmpp (be_libs E)) creds)) (context_msg (''Error getting vCard for `'' @ jid_text jid @ ''`'')) (\<lambda>vcard_opt.
       case vcard_opt of
         Some _ \<Rightarrow> act_ret (Ok ())
       | None \<Rightarrow>
           act_err (context_msg (''Error creating vCard for `'' @ jid_text jid @ ''`''))
             (on_xmpp (set_own_vcard (bl_xmpp (be_libs E)) ((vl_default (bl_vcards (be_libs E)))\<lparr>vc_fn := [name], vc_rest := be_application E\<rparr>) creds)))"

definition create_service_account where
  "create_service_account E jid name password_opt =
     (let L = be_libs E; password = (case password_opt of Some p \<Rightarrow> p | None \<Rightarrow> be_random_password E) in
      act_then (on_shell (ensure_account (bl_shell L) jid password)) id (\<lambda>_.
      act_then (on_secrets (act_run (set_password (bl_delays L) (bl_oauth L) jid password))) id (\<lambda>_.
      act_then (act_ret (oa_log_in (bl_oauth L) jid password)) id (\<lambda>token.
      act_then (on_secrets (act_call (\<lambda>s. let (previous, s') = save_token (bl_delays L) (bl_now L) jid token s in (Ok previous, s')))) id (\<lambda>_.
      ensure_vcard E jid name \<lparr>cc_bare_jid = jid, cc_auth_token = token\<rparr>)))))"

definition create_service_accounts where
  "create_service_accounts E config =
     create_service_account E (workspace_jid config) (srv_domain (ac_server config)) (sa_password (ac_prose_workspace config))"

definition groups_of :: "'b app_config \<Rightarrow> (string \<times> string) list" where
  "groups_of config = [(MAIN_TEAM_GROUP_ID, ac_main_team_name config)]"

text \<open>Release build: the debug flag of the operations on groups is off.\<close>

definition create_groups :: "'s shell_proc \<Rightarrow> (string \<times> string) list \<Rightarrow> string \<Rightarrow> ('s, anyhow, unit) shell_op" where
  "create_groups P groups host =
     act_for (\<lambda>(group_id, name).
       act_then (groups_exists P False host group_id) id (\<lambda>known.
         if known then act_ret (Ok ())
         else act_then (groups_create P False host name None (Some group_id)) id (\<lambda>_. act_ret (Ok ())))) groups"

definition add_service_accounts_to_groups :: "'s shell_proc \<Rightarrow> string list \<Rightarrow> string list \<Rightarrow> string \<Rightarrow> ('s, anyhow, unit) shell_op" where
  "add_service_accounts_to_groups P usernames group_ids host =
     act_for (\<lambda>username. act_for (\<lambda>group_id.
       act_then (groups_add_member P False host group_id username (Some True)) id (\<lambda>_. act_ret (Ok ()))) group_ids) usernames"

definition synchronize_rosters :: "'s shell_proc \<Rightarrow> string list \<Rightarrow> string \<Rightarrow> ('s, anyhow, unit) shell_op" where
  "synchronize_rosters P group_ids host =
     act_for (\<lambda>group_id. act_then (groups_sync P False host group_id) id (\<lambda>_. act_ret (Ok ()))) group_ids"

section \<open>Migrations\<close>

definition data_path :: "string \<Rightarrow> string \<Rightarrow> string" where
  "data_path dir name = (if ends_with dir ''/'' \<or> dir = [] then dir @ name else dir @ ''/'' @ name)"

text \<open>Deleting a directory also deletes what it holds.\<close>

definition remove_dir_all :: "boot_io \<Rightarrow> string \<Rightarrow> boot_fs \<Rightarrow> (anyhow + unit) \<times> boot_fs" where
  "remove_dir_all io p fs =
     (if p \<notin> bf_dirs fs then (Ok (), fs)
      else
        (case io_rmdir io p of
           Some e \<Rightarrow> (Err (context_msg (''Could not delete <'' @ p @ ''>'') e), fs)
         | None \<Rightarrow> (Ok (), fs\<lparr>bf_dirs := {d \<in> bf_dirs fs. d \<noteq> p \<and> \<not> starts_with d (p @ ''/'')},
             bf_files := (\<lambda>f. if starts_with f (p @ ''/'') then None else bf_files fs f)\<rparr>)))"

definition on_fs where "on_fs f = act_on bo_fs bo_fs_update (act_call f)"
definition on_backend where "on_backend m = act_on bo_backend bo_backend_update m"

definition migrated_command :: "uri_lib \<Rightarrow> 'b app_config \<Rightarrow> string \<Rightarrow> patch_workspace_command" where
  "migrated_command U config api_url = patch_default\<lparr>pw_dashboard_url := Some (Some (ac_dashboard_url config)),
     pw_api_url := Some (Some api_url), pw_auto_update_enabled := Some (ac_auto_update_enabled config)\<rparr>"

definition run_migrations where
  "run_migrations E config =
     (let L = be_libs E in
      act_then (on_backend (on_shell (prosody_paths_data (bl_shell L)))) id (\<lambda>prosody_data_dir.
      act_then (on_fs (remove_dir_all (be_io E) (data_path prosody_data_dir ''admin%2eprose%2elocal''))) id (\<lambda>_.
      act_then (on_backend (service_account_credentials L (workspace_jid config))) id (\<lambda>creds.
      act_then (act_ret (pod_api_url (bl_uris L) config)) id (\<lambda>api_url.
      on_backend (patch_workspace_vcard_unchecked L creds (migrated_command (bl_uris L) config api_url)))))))"

section \<open>Bootstrapping\<close>

definition start_prosody where
  "start_prosody E config =
     act_err (context_msg ''Failed starting Prosody'') (act_call (\<lambda>w.
       let (r, p, live) = prosody_start (be_os E) (set_env ''OAUTH2_REGISTRATION_KEY'' (ac_oauth2_registration_key config) (bo_process w)) (bo_live w)
       in (r, w\<lparr>bo_process := p, bo_live := live\<rparr>)))"

text \<open>The files first: the salt, and the configuration of Prosody.\<close>

definition prepare_files where
  "prepare_files E config =
     act_then (act_call (create_required_dirs (be_io E))) id (\<lambda>_.
     act_then (act_call (generate_server_salt_if_needed (be_io E))) id (\<lambda>server_salt.
     act_then (act_call (backup_prosody_conf_if_needed (be_io E))) id (\<lambda>_.
     act_then (act_call (apply_bootstrap_config (be_io E) (be_template E) (srv_domain (ac_server config)))) id (\<lambda>_.
     act_ret (Ok server_salt)))))"

text \<open>A new process of Prosody, a new shell, the OAuth 2.0 client and a new store of secrets.\<close>

definition start_backend where
  "start_backend E config =
     act_then (act_call (\<lambda>w. (Ok (), w\<lparr>bo_process := prosody_new\<rparr>))) id (\<lambda>_.
     act_then (start_prosody E config) id (\<lambda>_.
     act_then (on_backend (act_call (\<lambda>b. (Ok (), b\<lparr>bw_shell := shell_new (ps_proc (bw_shell b))\<rparr>)))) id (\<lambda>_.
     act_then (on_backend (on_shell (wait_for_readiness (bl_shell (be_libs E))))) id (\<lambda>_.
     act_then (act_on bo_http bo_http_update (register_oauth2_client (be_http E) (be_codec E) ''http://prose-pod-server:5280'')) id (\<lambda>_.
     on_backend (act_call (\<lambda>b. (Ok (), b\<lparr>bw_secrets := secrets_new (bl_delays (be_libs E)) (ac_token_ttl config)\<rparr>))))))))"

definition set_up_groups where
  "set_up_groups P config =
     (let host = srv_domain (ac_server config); groups = groups_of config in
      act_then (create_groups P groups host) id (\<lambda>_.
      act_then (add_service_accounts_to_groups P [fst (workspace_jid config)] (map fst groups) host) id (\<lambda>_.
      synchronize_rosters P (map fst groups) host)))"

definition bootstrap where
  "bootstrap E config =
     act_then (act_ret (case ac_backups config of None \<Rightarrow> Ok () | Some c \<Rightarrow> be_backup_service E c)) id (\<lambda>_.
     act_then (act_on bo_fs bo_fs_update (prepare_files E config)) id (\<lambda>server_salt.
     act_then (start_backend E config) id (\<lambda>_.
     act_then (on_backend (create_service_accounts E config)) id (\<lambda>_.
     act_then (on_backend (on_shell (set_up_groups (bl_shell (be_libs E)) config))) id (\<lambda>_.
     act_then (run_migrations E config) id (\<lambda>_. act_ret (Ok server_salt)))))))"

section \<open>What a successful bootstrap has done\<close>

lemma on_fs_Ok: "on_fs f w = Some (Ret r, w') \<longleftrightarrow> (\<exists>fs. f (bo_fs w) = (r, fs) \<and> w' = w\<lparr>bo_fs := fs\<rparr>)"
  by (auto simp: on_fs_def act_on_Ok act_call_Ok)

lemma on_backend_Ok: "on_backend m w = Some (r, w') \<longleftrightarrow> (\<exists>b. m (bo_backend w) = Some (r, b) \<and> w' = w\<lparr>bo_backend := b\<rparr>)"
  by (simp add: on_backend_def act_on_Ok)

lemma on_shell_Ok: "on_shell m b = Some (r, b') \<longleftrightarrow> (\<exists>sh. m (bw_shell b) = Some (r, sh) \<and> b' = b\<lparr>bw_shell := sh\<rparr>)"
  by (simp add: on_shell_def act_on_Ok)

lemma on_secrets_Ok: "on_secrets m b = Some (r, b') \<longleftrightarrow> (\<exists>x. m (bw_secrets b) = Some (r, x) \<and> b' = b\<lparr>bw_secrets := x\<rparr>)"
  by (simp add: on_secrets_def act_on_Ok)

lemma start_prosody_Ok: "start_prosody E config w = Some (Ret (Ok u), w') \<Longrightarrow> bo_fs w' = bo_fs w \<and> bo_backend w' = bo_backend w"
  by (auto simp: start_prosody_def act_err_Ok act_call_Ok Let_def split: prod.splits)

lemma migrations_done:
  assumes "run_migrations E config w = Some (Ret (Ok u), w')"
  obtains dir sh creds b api_url where
    "remove_dir_all (be_io E) (data_path dir ''admin%2eprose%2elocal'') (bo_fs w) = (Ok (), bo_fs w')"
    "service_account_credentials (be_libs E) (workspace_jid config) ((bo_backend w)\<lparr>bw_shell := sh\<rparr>) = Some (Ret (Ok creds), b)"
    "pod_api_url (bl_uris (be_libs E)) config = Ok api_url"
    "patch_workspace_vcard_unchecked (be_libs E) creds (migrated_command (bl_uris (be_libs E)) config api_url) b = Some (Ret (Ok u), bo_backend w')"
  using assms by (auto simp: run_migrations_def Let_def act_then_Ok on_fs_Ok on_backend_Ok on_shell_Ok)

lemma files_prepared:
  assumes "prepare_files E config fs = Some (Ret (Ok salt), fs')"
  obtains fs1 fs2 l fs3 where
    "create_required_dirs (be_io E) fs = (Ok (), fs1)" "generate_server_salt_if_needed (be_io E) fs1 = (Ok salt, fs2)"
    "backup_prosody_conf_if_needed (be_io E) fs2 = (Ok l, fs3)"
    "apply_bootstrap_config (be_io E) (be_template E) (srv_domain (ac_server config)) fs3 = (Ok (), fs')"
  using assms by (auto simp: prepare_files_def act_then_Ok act_call_Ok)

lemma backend_started:
  assumes "start_backend E config w = Some (Ret (Ok u), w')"
  shows "bo_fs w' = bo_fs w" "bw_secrets (bo_backend w') = secrets_new (bl_delays (be_libs E)) (ac_token_ttl config)"
  using assms by (auto simp: start_backend_def act_then_Ok act_call_Ok on_backend_Ok act_on_Ok dest!: start_prosody_Ok)

lemma bootstrap_done:
  assumes "bootstrap E config w = Some (Ret (Ok salt), w')"
  obtains fs b1 b2 sh w4 u where
    "prepare_files E config (bo_fs w) = Some (Ret (Ok salt), fs)"
    "bw_secrets b1 = secrets_new (bl_delays (be_libs E)) (ac_token_ttl config)" "create_service_accounts E config b1 = Some (Ret (Ok ()), b2)"
    "bo_fs w4 = fs" "bo_backend w4 = b2\<lparr>bw_shell := sh\<rparr>" "run_migrations E config w4 = Some (Ret (Ok u), w')"
proof -
  from assms obtain fs w2 v b2 sh w4 u where "prepare_files E config (bo_fs w) = Some (Ret (Ok salt), fs)"
    "start_backend E config (w\<lparr>bo_fs := fs\<rparr>) = Some (Ret (Ok v), w2)" "create_service_accounts E config (bo_backend w2) = Some (Ret (Ok ()), b2)"
    "w4 = w2\<lparr>bo_backend := b2\<lparr>bw_shell := sh\<rparr>\<rparr>" "run_migrations E config w4 = Some (Ret (Ok u), w')"
    by (auto simp: bootstrap_def act_then_Ok act_on_Ok on_backend_Ok on_shell_Ok)
  then show ?thesis using backend_started [of E config "w\<lparr>bo_fs := fs\<rparr>" v w2] by (intro that) auto
qed

subsection \<open>Files\<close>

lemma salt_generated:
  assumes "generate_server_salt_if_needed io fs = (Ok salt, fs')"
  shows "bf_files fs' = (bf_files fs)(server_salt_path \<mapsto> salt)" "bf_files fs server_salt_path = Some s \<Longrightarrow> s = salt"
  using assms
  by (auto simp: generate_server_salt_if_needed_def write_file_def Let_def map_err_def fun_upd_idem split: option.splits sum.splits prod.splits)

lemma config_applied:
  assumes "apply_bootstrap_config io template host fs = (Ok u, fs')"
  shows "bf_files fs' = (bf_files fs)(PROSODY_CONFIG_FILE_PATH \<mapsto> replace_str ''{{server_domain}}'' template host)"
  using assms by (auto simp: apply_bootstrap_config_def write_file_def Let_def map_err_def split: option.splits sum.splits prod.splits)

lemma backup_keeps: "backup_prosody_conf_if_needed io fs = (r, fs') \<Longrightarrow> fs' = fs"
  by (auto simp: backup_prosody_conf_if_needed_def Let_def split: option.splits)

lemma prepared_files:
  assumes "prepare_files E config fs = Some (Ret (Ok salt), fs')"
  shows "bf_files fs' = (bf_files fs)(server_salt_path \<mapsto> salt,
      PROSODY_CONFIG_FILE_PATH \<mapsto> replace_str ''{{server_domain}}'' (be_template E) (srv_domain (ac_server config)))"
    "bf_files fs server_salt_path = Some s \<Longrightarrow> s = salt"
proof -
  obtain fs1 fs2 l fs3 where f: "create_required_dirs (be_io E) fs = (Ok (), fs1)" "generate_server_salt_if_needed (be_io E) fs1 = (Ok salt, fs2)"
    "backup_prosody_conf_if_needed (be_io E) fs2 = (Ok l, fs3)"
    "apply_bootstrap_config (be_io E) (be_template E) (srv_domain (ac_server config)) fs3 = (Ok (), fs')"
    using assms by (rule files_prepared)
  have "bf_files fs1 = bf_files fs" using f(1) by (auto simp: create_required_dirs_def split: option.splits)
  with salt_generated [OF f(2)] config_applied [OF f(4)] backup_keeps [OF f(3)]
  show "bf_files fs' = (bf_files fs)(server_salt_path \<mapsto> salt,
      PROSODY_CONFIG_FILE_PATH \<mapsto> replace_str ''{{server_domain}}'' (be_template E) (srv_domain (ac_server config)))"
    "bf_files fs server_salt_path = Some s \<Longrightarrow> s = salt" by simp_all
qed

text \<open>The directory that the migrations delete has a percent sign in its name.\<close>

lemma old_directory_kept:
  assumes "remove_dir_all io (data_path dir ''admin%2eprose%2elocal'') fs = (r, fs')"
  shows "bf_files fs' f \<in> {None, bf_files fs f}" "CHR ''%'' \<notin> set f \<Longrightarrow> bf_files fs' f = bf_files fs f"
proof -
  have p: "CHR ''%'' \<in> set (data_path dir ''admin%2eprose%2elocal'' @ ''/'')" by (simp add: data_path_def)
  show "bf_files fs' f \<in> {None, bf_files fs f}" using assms by (auto simp: remove_dir_all_def split: if_splits option.splits)
  assume "CHR ''%'' \<notin> set f"
  then have "\<not> starts_with f (data_path dir ''admin%2eprose%2elocal'' @ ''/'')" using p by (auto simp: starts_with_def strip_prefix_eq_Some)
  then show "bf_files fs' f = bf_files fs f" using assms by (auto simp: remove_dir_all_def split: if_splits option.splits)
qed

lemma bootstrap_files:
  assumes "bootstrap E config w = Some (Ret (Ok salt), w')"
  shows "bf_files (bo_fs w') server_salt_path = Some salt"
    "bf_files (bo_fs w) server_salt_path = Some s \<Longrightarrow> s = salt"
    "bf_files (bo_fs w') PROSODY_CONFIG_FILE_PATH = Some (replace_str ''{{server_domain}}'' (be_template E) (srv_domain (ac_server config)))"
    "f \<noteq> server_salt_path \<Longrightarrow> f \<noteq> PROSODY_CONFIG_FILE_PATH \<Longrightarrow> bf_files (bo_fs w') f \<in> {None, bf_files (bo_fs w) f}"
proof -
  obtain fs b1 b2 sh w4 u where f: "prepare_files E config (bo_fs w) = Some (Ret (Ok salt), fs)" and w4: "bo_fs w4 = fs"
    and m: "run_migrations E config w4 = Some (Ret (Ok u), w')" using bootstrap_done [OF assms] by metis
  obtain dir where d: "remove_dir_all (be_io E) (data_path dir ''admin%2eprose%2elocal'') fs = (Ok (), bo_fs w')"
    using migrations_done [OF m] unfolding w4 by metis
  note p = prepared_files [OF f]
  have no: "CHR ''%'' \<notin> set server_salt_path" "CHR ''%'' \<notin> set PROSODY_CONFIG_FILE_PATH" "server_salt_path \<noteq> PROSODY_CONFIG_FILE_PATH"
    by (simp_all add: server_salt_path_def PROSODY_CONFIG_FILE_PATH_def)
  show "bf_files (bo_fs w') server_salt_path = Some salt"
    "bf_files (bo_fs w') PROSODY_CONFIG_FILE_PATH = Some (replace_str ''{{server_domain}}'' (be_template E) (srv_domain (ac_server config)))"
    using old_directory_kept(2) [OF d] no p(1) by simp_all
  show "bf_files (bo_fs w) server_salt_path = Some s \<Longrightarrow> s = salt" by (rule p(2))
  show "f \<noteq> server_salt_path \<Longrightarrow> f \<noteq> PROSODY_CONFIG_FILE_PATH \<Longrightarrow> bf_files (bo_fs w') f \<in> {None, bf_files (bo_fs w) f}"
    using old_directory_kept(1) [OF d, of f] p(1) by simp
qed


text \<open>A salt that was cut short while it was written is the salt of the next start.\<close>

lemma truncated_salt_accepted:
  assumes "generate_server_salt_if_needed io fs = (Err e, fs')" "bf_files fs server_salt_path = None" "io_open io server_salt_path = None"
    "io_write io server_salt_path = Some (n, d)" "io_open io' server_salt_path = None" "io_read io' server_salt_path = None"
  shows "generate_server_salt_if_needed io' fs' = (Ok (take n (io_random io SALT_LENGTH)), fs')"
  using assms by (auto simp: generate_server_salt_if_needed_def write_file_def Let_def)

text \<open>
  C36. A configuration of Prosody that was not made by Prose is lost: the start finds that it has to be backed up
  and says so, but every file after the start is one that was there before, the salt, or the configuration that
  replaces it.
\<close>

theorem foreign_config_lost:
  assumes "bootstrap E config w = Some (Ret (Ok salt), w')"
    "bf_files (bo_fs w) PROSODY_CONFIG_FILE_PATH = Some old" "\<not> starts_with old prose_header"
    "\<forall>f. f \<noteq> PROSODY_CONFIG_FILE_PATH \<longrightarrow> bf_files (bo_fs w) f \<noteq> Some old"
    "old \<noteq> replace_str ''{{server_domain}}'' (be_template E) (srv_domain (ac_server config))" "old \<noteq> salt"
  shows "(\<exists>fs. backup_prosody_conf_if_needed (be_io E) fs = (Ok True, fs) \<and> bf_files fs PROSODY_CONFIG_FILE_PATH = Some old) \<and>
    (\<forall>f. bf_files (bo_fs w') f \<noteq> Some old)"
proof -
  obtain fs where f: "prepare_files E config (bo_fs w) = Some (Ret (Ok salt), fs)" using bootstrap_done [OF assms(1)] by metis
  obtain fs1 fs2 l fs3 where s: "create_required_dirs (be_io E) (bo_fs w) = (Ok (), fs1)" "generate_server_salt_if_needed (be_io E) fs1 = (Ok salt, fs2)"
    "backup_prosody_conf_if_needed (be_io E) fs2 = (Ok l, fs3)" using files_prepared [OF f] by metis
  have old: "bf_files fs2 PROSODY_CONFIG_FILE_PATH = Some old"
    using s(1) salt_generated(1) [OF s(2)] assms(2)
    by (auto simp: create_required_dirs_def server_salt_path_def PROSODY_CONFIG_FILE_PATH_def split: option.splits)
  have "take n old \<noteq> prose_header" for n
    using assms(3) by (metis append_take_drop_id starts_with_def strip_prefix_append option.distinct(1))
  with s(3) old backup_keeps [OF s(3)] have "backup_prosody_conf_if_needed (be_io E) fs2 = (Ok True, fs2)"
    by (auto simp: backup_prosody_conf_if_needed_def Let_def split: option.splits)
  moreover have "bf_files (bo_fs w') f \<noteq> Some old" for f
    using bootstrap_files(1,3) [OF assms(1)] bootstrap_files(4) [OF assms(1), of f] assms(4-6)
    by (cases "f = server_salt_path"; cases "f = PROSODY_CONFIG_FILE_PATH") auto
  ultimately show ?thesis using old by blast
qed

section \<open>The workspace account\<close>

text \<open>With a token in the cache the credentials are at hand at any time.\<close>

lemma cached_credentials:
  assumes "ca_entries (se_tokens (bw_secrets b)) jid = Some (t, d)"
  shows "service_account_credentials L jid b = Some (Ret (Ok \<lparr>cc_bare_jid = jid, cc_auth_token = t\<rparr>), b)"
  using assms by (simp add: service_account_credentials_def on_secrets_def act_then_def act_on_def act_run_def get_token_def
      contains_key_def cache_get_def)

lemma set_password_Ok:
  assumes "set_password D oauth jid password s = (Ret (Ok u), s')"
  shows "ca_ttl (se_tokens s') = ca_ttl (se_tokens s)" "se_passwords s' jid = Some password"
  using assms by (auto simp: set_password_def cache_take_def Let_def split: option.splits run.splits sum.splits prod.splits)

lemma save_token_Ok:
  assumes "save_token D now jid token s = (previous, s')" "ca_ttl (se_tokens s) \<noteq> 0"
  shows "\<exists>d. ca_entries (se_tokens s') jid = Some (token, d)" "se_passwords s' = se_passwords s"
  using assms by (auto simp: save_token_def cache_insert_def Let_def split: prod.splits)

lemma vcard_ensured:
  assumes "ensure_vcard E jid name creds b = Some (Ret (Ok u), b')"
  shows "bw_secrets b' = bw_secrets b" "xmpp_laws (bl_xmpp (be_libs E)) vc \<Longrightarrow> vc (bw_xmpp b') \<noteq> None"
proof -
  let ?X = "bl_xmpp (be_libs E)"
  obtain v_opt b1 where g: "on_xmpp (get_own_vcard ?X creds) b = Some (Ret (Ok v_opt), b1)"
    and k: "v_opt \<noteq> None \<and> b' = b1 \<or>
      on_xmpp (set_own_vcard ?X ((vl_default (bl_vcards (be_libs E)))\<lparr>vc_fn := [name], vc_rest := be_application E\<rparr>) creds) b1 = Some (Ret (Ok u), b')"
    using assms by (auto simp: ensure_vcard_def act_then_Ok act_err_Ok split: option.splits)
  have s: "bw_secrets b1 = bw_secrets b" using g by (auto simp: on_xmpp_def act_on_Ok)
  show "bw_secrets b' = bw_secrets b" using k s by (auto simp: on_xmpp_def act_on_Ok)
  assume X: "xmpp_laws ?X vc"
  have "service_account_vcard (be_libs E) creds b = Some (Ret (Ok v_opt), b1)"
    using g by (simp add: service_account_vcard_def act_err_Ok get_own_vcard_def)
  from load_vcard_effect [OF X this] have "vc (bw_xmpp b1) = v_opt" by auto
  with k show "vc (bw_xmpp b') \<noteq> None" by (auto dest: set_vcard_effect [OF X])
qed

lemma account_created:
  assumes "create_service_account E jid name password_opt b = Some (Ret (Ok u), b')" "ca_ttl (se_tokens (bw_secrets b)) \<noteq> 0"
  shows "\<exists>t d. ca_entries (se_tokens (bw_secrets b')) jid = Some (t, d)" "se_passwords (bw_secrets b') jid \<noteq> None"
    "xmpp_laws (bl_xmpp (be_libs E)) vc \<Longrightarrow> vc (bw_xmpp b') \<noteq> None"
proof -
  let ?L = "be_libs E"
  obtain password s1 token sh where
    p: "set_password (bl_delays ?L) (bl_oauth ?L) jid password (bw_secrets b) = (Ret (Ok ()), s1)"
    and v: "ensure_vcard E jid name \<lparr>cc_bare_jid = jid, cc_auth_token = token\<rparr>
      (b\<lparr>bw_shell := sh, bw_secrets := snd (save_token (bl_delays ?L) (bl_now ?L) jid token s1)\<rparr>) = Some (Ret (Ok u), b')"
    using assms(1)
    by (auto simp: create_service_account_def Let_def act_then_Ok on_shell_Ok on_secrets_Ok act_run_Ok act_call_Ok case_prod_beta)
  have "ca_ttl (se_tokens s1) \<noteq> 0" using set_password_Ok(1) [OF p] assms(2) by simp
  from save_token_Ok [OF surjective_pairing [of "save_token (bl_delays ?L) (bl_now ?L) jid token s1"] this] set_password_Ok(2) [OF p] vcard_ensured(1) [OF v]
  show "\<exists>t d. ca_entries (se_tokens (bw_secrets b')) jid = Some (t, d)" "se_passwords (bw_secrets b') jid \<noteq> None" by auto
  show "xmpp_laws (bl_xmpp ?L) vc \<Longrightarrow> vc (bw_xmpp b') \<noteq> None" by (rule vcard_ensured(2) [OF v])
qed

lemma patch_existing:
  assumes "xmpp_laws (bl_xmpp L) vc" "patch_workspace_vcard_unchecked L creds c b = Some (Ret (Ok u), b')" "vc (bw_xmpp b) = Some v"
  shows "vc (bw_xmpp b') = Some (patch_vcard (bl_vcards L) c v)" "bw_secrets b' = bw_secrets b"
proof -
  obtain v_opt b1 where l: "service_account_vcard L creds b = Some (Ret (Ok v_opt), b1)"
    and k: "(let vcard_before = (case v_opt of Some v \<Rightarrow> v | None \<Rightarrow> vl_default (bl_vcards L));
           vcard = patch_vcard (bl_vcards L) c vcard_before
       in if vcard \<noteq> vcard_before
          then act_err (context_msg ''Could not set Workspace vCard'') (on_xmpp (set_own_vcard (bl_xmpp L) vcard creds))
          else act_ret (Ok ())) b1 = Some (Ret (Ok u), b')"
    using assms(2) by (auto simp: patch_workspace_vcard_unchecked_def act_then_Ok)
  have s: "bw_secrets b1 = bw_secrets b" using l by (auto simp: service_account_vcard_def act_err_Ok on_xmpp_def act_on_Ok)
  have v: "v_opt = Some v" "vc (bw_xmpp b1) = Some v" using load_vcard_effect [OF assms(1) l] assms(3) by auto
  show "vc (bw_xmpp b') = Some (patch_vcard (bl_vcards L) c v)"
  proof (cases "patch_vcard (bl_vcards L) c v = v")
    case False
    with k v(1) have "on_xmpp (set_own_vcard (bl_xmpp L) (patch_vcard (bl_vcards L) c v) creds) b1 = Some (Ret (Ok u), b')"
      by (simp add: Let_def act_err_Ok)
    then show ?thesis by (rule set_vcard_effect [OF assms(1)])
  qed (use k v in \<open>auto simp: Let_def\<close>)
  show "bw_secrets b' = bw_secrets b"
    using k s v(1) by (auto simp: Let_def act_err_Ok on_xmpp_def act_on_Ok split: if_splits)
qed

lemma bootstrap_account:
  assumes "bootstrap E config w = Some (Ret (Ok salt), w')" "xmpp_laws (bl_xmpp (be_libs E)) vc" "tokens_cache_ttl (ac_token_ttl config) \<noteq> 0"
  obtains v api_url t d where "vc (bw_xmpp (bo_backend w')) = Some (patch_vcard (bl_vcards (be_libs E)) (migrated_command (bl_uris (be_libs E)) config api_url) v)"
    "pod_api_url (bl_uris (be_libs E)) config = Ok api_url"
    "ca_entries (se_tokens (bw_secrets (bo_backend w'))) (workspace_jid config) = Some (t, d)"
    "se_passwords (bw_secrets (bo_backend w')) (workspace_jid config) \<noteq> None"
proof -
  let ?L = "be_libs E"
  let ?jid = "workspace_jid config"
  obtain b1 b2 sh w4 u where b1: "bw_secrets b1 = secrets_new (bl_delays ?L) (ac_token_ttl config)"
    "create_service_accounts E config b1 = Some (Ret (Ok ()), b2)" and w4: "bo_backend w4 = b2\<lparr>bw_shell := sh\<rparr>"
    and m: "run_migrations E config w4 = Some (Ret (Ok u), w')" using bootstrap_done [OF assms(1)] by metis
  have "ca_ttl (se_tokens (bw_secrets b1)) \<noteq> 0" using assms(3) by (simp add: b1(1) secrets_new_def cache_new_def)
  note a = account_created [OF b1(2) [unfolded create_service_accounts_def] this]
  from a(1) obtain t d where t: "ca_entries (se_tokens (bw_secrets b2)) ?jid = Some (t, d)" by blast
  from a(3) [OF assms(2)] obtain v where v: "vc (bw_xmpp b2) = Some v" by blast
  obtain sh' creds b api_url where c: "service_account_credentials ?L ?jid ((bo_backend w4)\<lparr>bw_shell := sh'\<rparr>) = Some (Ret (Ok creds), b)"
    and u: "pod_api_url (bl_uris ?L) config = Ok api_url"
    and p: "patch_workspace_vcard_unchecked ?L creds (migrated_command (bl_uris ?L) config api_url) b = Some (Ret (Ok u), bo_backend w')"
    using migrations_done [OF m] by metis
  have b: "b = b2\<lparr>bw_shell := sh'\<rparr>"
    using c cached_credentials [of "(bo_backend w4)\<lparr>bw_shell := sh'\<rparr>" ?jid t d ?L] t by (simp add: w4)
  have "vc (bw_xmpp b) = Some v" using v by (simp add: b)
  from patch_existing [OF assms(2) p this] t a(2) u show ?thesis by (intro that) (auto simp: b)
qed


text \<open>
  Whether updates are automatic is forgotten at every start when the configuration does not say: whatever an
  admin has set in the workspace, no such property is left in the vCard.
\<close>

theorem restart_forgets_auto_update:
  assumes "bootstrap E config w = Some (Ret (Ok salt), w')" "xmpp_laws (bl_xmpp (be_libs E)) vc" "vcard_laws (bl_vcards (be_libs E))"
    "tokens_cache_ttl (ac_token_ttl config) \<noteq> 0" "ac_auto_update_enabled config = None"
  shows "\<exists>v. vc (bw_xmpp (bo_backend w')) = Some v \<and> pc_get (bl_vcards (be_libs E)) PROSE_AUTO_UPDATE_ENABLED_EXTENSION_KEY (vc_unknown v) = []"
proof -
  obtain v api_url where "vc (bw_xmpp (bo_backend w')) =
      Some (patch_vcard (bl_vcards (be_libs E)) (migrated_command (bl_uris (be_libs E)) config api_url) v)"
    using bootstrap_account [OF assms(1,2,4)] by metis
  then show ?thesis using get_replace_same(1) [OF assms(3)] assms(5) by (simp add: patch_vcard_def migrated_command_def Let_def)
qed

section \<open>A start\<close>

text \<open>A shell that answers true to everything, and a Prosody configuration of someone else.\<close>

definition yes_shell :: "unit shell_proc" where
  "yes_shell = \<lparr>sh_spawn = (\<lambda>s. (Ok (), s)), sh_write = (\<lambda>_ s. (Ok (), s)), sh_next = (\<lambda>_ s. (NLine ''| Result: true'', s))\<rparr>"

definition demo_env ::
  "((string \<times> string) list, string \<times> string, unit, demo_vcard option, (nat \<times> jid \<times> nat) list, unit, unit, unit) boot_env" where
  "demo_env = \<lparr>
     be_io = \<lparr>io_mkdir = None, io_open = (\<lambda>_. None), io_read = (\<lambda>_. None), io_read_at_most = (\<lambda>_. 4096), io_write = (\<lambda>_. None),
       io_rmdir = (\<lambda>_. None), io_random = (\<lambda>_. ''salt'')\<rparr>,
     be_os = \<lparr>os_spawn = Ok 7, os_early_exit = None, os_pid_known = True, os_kill = Ok (), os_wait = Ok (), os_log_join = Ok (), os_sighup = Ok ()\<rparr>,
     be_http = (\<lambda>_ s. (Ok \<lparr>hr_status = 200, hr_body = []\<rparr>, s)),
     be_codec = demo_errors\<lparr>co_metadata := (\<lambda>_. Ok \<lparr>cm_client_id = ''id'', cm_client_secret = ''secret'', cm_client_secret_expires_at = 0\<rparr>)\<rparr>,
     be_libs = demo_libs\<lparr>bl_shell := yes_shell\<rparr>,
     be_template = ''VirtualHost {{server_domain}}'', be_backup_service = (\<lambda>_. Ok ()), be_random_password = ''random'', be_application = ()\<rparr>"

definition demo_boot :: "(demo_vcard option, (nat \<times> jid \<times> nat) list, unit, unit) boot_world" where
  "demo_boot = \<lparr>bo_fs = \<lparr>bf_files = [PROSODY_CONFIG_FILE_PATH \<mapsto> ''-- My Prosody''], bf_dirs = {}\<rparr>,
     bo_process = prosody_new, bo_live = {}, bo_http = (), bo_backend = demo_backend\<rparr>"

definition cmd_ok :: "string \<Rightarrow> bool" where
  "cmd_ok c \<longleftrightarrow> c \<noteq> [] \<and> length c < MAX_COMMAND_LENGTH \<and> command_name c \<noteq> Panic"

lemma yes_read: "read_response yes_shell t [] s = Some (Ok \<lparr>pr_lines = [], pr_result = Ok ''true''\<rparr>, s)"
  by (subst read_response.simps) (simp add: yes_shell_def parse_response_line_def starts_with_def after_prefix_def)

lemma yes_handle: "cmd_ok c \<Longrightarrow> handle_exec yes_shell c t s = Some (Ret (Ok \<lparr>pr_lines = [], pr_result = Ok ''true''\<rparr>), s)"
proof -
  have "sh_write yes_shell x s = (Ok (), s)" for x by (simp add: yes_shell_def)
  then show "cmd_ok c \<Longrightarrow> handle_exec yes_shell c t s = Some (Ret (Ok \<lparr>pr_lines = [], pr_result = Ok ''true''\<rparr>), s)"
    by (simp add: handle_exec_def cmd_ok_def yes_read)
qed

lemma yes_run:
  "cmd_ok c \<Longrightarrow> exec_with_timeout yes_shell c t \<lparr>ps_handle = True, ps_proc = s\<rparr> =
     Some (Ret (Ok \<lparr>pr_lines = [], pr_result = Ok ''true''\<rparr>), \<lparr>ps_handle = True, ps_proc = s\<rparr>)"
  by (simp add: exec_with_timeout_def op_then_def get_handle_or_start_def yes_handle)

lemma yes_run_then:
  "cmd_ok c \<Longrightarrow> run_then yes_shell c t ctx f \<lparr>ps_handle = True, ps_proc = s\<rparr> =
     Some (f \<lparr>pr_lines = [], pr_result = Ok ''true''\<rparr>, \<lparr>ps_handle = True, ps_proc = s\<rparr>)"
  by (simp add: run_then_def op_then_def yes_run)

text \<open>Which commands can be sent.\<close>

lemma cmd_ok_call: "CHR ''('' \<notin> set f \<Longrightarrow> CHR '' '' \<notin> set f \<Longrightarrow> length (lua_call f args) < 1024 \<Longrightarrow> cmd_ok (lua_call f args)"
  by (simp add: cmd_ok_def command_name_call MAX_COMMAND_LENGTH_def) (simp add: lua_call_def)

lemma cmd_ok_query:
  assumes "starts_with c ''>''" "CHR ''('' \<in> set c \<or> CHR ''['' \<in> set c \<or> contains ''require'' c \<or> \<not> contains [CHR 0x22] c" "length c < 1024"
  shows "cmd_ok c"
proof -
  have "c \<noteq> []" using assms(1) by (auto simp: starts_with_def)
  moreover have "command_name c \<noteq> Panic"
    using assms(1,2) by (auto simp: command_name_def Let_def index_of_def split: option.splits)
  ultimately show ?thesis using assms(3) by (simp add: cmd_ok_def MAX_COMMAND_LENGTH_def)
qed

lemma yes_test: "cmd_ok c \<Longrightarrow> run_test yes_shell c ctx ex \<lparr>ps_handle = True, ps_proc = s\<rparr> = Some (Ret (Ok True), \<lparr>ps_handle = True, ps_proc = s\<rparr>)"
  by (auto simp: run_test_def yes_run_then cmd_ok_def result_bool_expecting_def result_bool_def map_err_def split: run.splits)

lemma yes_text: "cmd_ok c \<Longrightarrow> run_text yes_shell c t ctx \<lparr>ps_handle = True, ps_proc = s\<rparr> = Some (Ret (Ok ''true''), \<lparr>ps_handle = True, ps_proc = s\<rparr>)"
  by (simp add: run_text_def yes_run_then result_text_def map_err_def)

lemma yes_host:
  assumes "length host < 100"
  shows "host_exists yes_shell host \<lparr>ps_handle = True, ps_proc = s\<rparr> = Some (Ret (Ok True), \<lparr>ps_handle = True, ps_proc = s\<rparr>)"
  unfolding host_exists_def using assms by (intro yes_test cmd_ok_query) (simp_all add: starts_with_def lua_str_def)

lemma yes_loaded:
  assumes "length host < 100" "length module < 100"
  shows "module_is_loaded yes_shell host module \<lparr>ps_handle = True, ps_proc = s\<rparr> = Some (Ret (Ok True), \<lparr>ps_handle = True, ps_proc = s\<rparr>)"
proof -
  have "cmd_ok (lua_call ''> mm.is_loaded'' [lua_str host, lua_str module])"
    using assms by (intro cmd_ok_query) (simp_all add: starts_with_def lua_call_def lua_str_def)
  note t = yes_test [OF this]
  show ?thesis unfolding module_is_loaded_def Let_def
    using t by (cases "host = ''*''") (simp_all add: require_host_def op_then_def yes_host assms(1))
qed

lemma yes_module:
  "length host < 100 \<Longrightarrow> length module < 100 \<Longrightarrow>
     require_module yes_shell False host module \<lparr>ps_handle = True, ps_proc = s\<rparr> = Some (Ret (Ok ()), \<lparr>ps_handle = True, ps_proc = s\<rparr>)"
  by (simp add: require_module_def op_then_def yes_loaded op_ret_def)

lemma yes_users:
  assumes "length u < 100" "length h < 100"
  shows "user_exists yes_shell u h \<lparr>ps_handle = True, ps_proc = s\<rparr> = Some (Ret (Ok True), \<lparr>ps_handle = True, ps_proc = s\<rparr>)"
    "user_password yes_shell u h \<lparr>ps_handle = True, ps_proc = s\<rparr> = Some (Ret (Ok ''true''), \<lparr>ps_handle = True, ps_proc = s\<rparr>)"
    "user_set_role yes_shell u None h \<lparr>ps_handle = True, ps_proc = s\<rparr> = Some (Ret (Ok ''true''), \<lparr>ps_handle = True, ps_proc = s\<rparr>)"
proof -
  have "cmd_ok (lua_call ''> um.user_exists'' [lua_str u, lua_str h])"
    using assms by (intro cmd_ok_query) (simp_all add: starts_with_def lua_call_def lua_str_def)
  then show "user_exists yes_shell u h \<lparr>ps_handle = True, ps_proc = s\<rparr> = Some (Ret (Ok True), \<lparr>ps_handle = True, ps_proc = s\<rparr>)"
    by (simp add: user_exists_def require_host_def op_then_def yes_host yes_test assms)
  show "user_password yes_shell u h \<lparr>ps_handle = True, ps_proc = s\<rparr> = Some (Ret (Ok ''true''), \<lparr>ps_handle = True, ps_proc = s\<rparr>)"
    unfolding user_password_def using assms by (intro yes_text cmd_ok_call) (simp_all add: lua_call_def lua_str_def)
  show "user_set_role yes_shell u None h \<lparr>ps_handle = True, ps_proc = s\<rparr> = Some (Ret (Ok ''true''), \<lparr>ps_handle = True, ps_proc = s\<rparr>)"
    unfolding user_set_role_def opt_arg_def using assms by (intro yes_text cmd_ok_call) (simp_all add: lua_call_def lua_str_def)
qed

lemma yes_groups:
  assumes "length h < 100" "length g < 100" "length u < 100"
  shows "groups_exists yes_shell False h g \<lparr>ps_handle = True, ps_proc = s\<rparr> = Some (Ret (Ok True), \<lparr>ps_handle = True, ps_proc = s\<rparr>)"
    "groups_add_member yes_shell False h g u (Some True) \<lparr>ps_handle = True, ps_proc = s\<rparr> = Some (Ret (Ok ''true''), \<lparr>ps_handle = True, ps_proc = s\<rparr>)"
    "groups_sync yes_shell False h g \<lparr>ps_handle = True, ps_proc = s\<rparr> = Some (Ret (Ok ''true''), \<lparr>ps_handle = True, ps_proc = s\<rparr>)"
proof -
  have e: "cmd_ok (lua_call ''> mm.get_module'' [lua_str h, lua_str ''groups_internal''] @ lua_call ''.exists'' [lua_str g])"
    using assms by (intro cmd_ok_query) (simp_all add: starts_with_def lua_call_def lua_str_def)
  have a: "cmd_ok (lua_call ''groups:add_member'' ([lua_str h, lua_str g, lua_str u] @ [lua_str (lua_bool True)]))"
    using assms by (intro cmd_ok_call) (simp_all add: lua_call_def lua_str_def lua_bool_def)
  have y: "cmd_ok (lua_call ''groups:sync_group'' [lua_str h, lua_str g])"
    using assms by (intro cmd_ok_call) (simp_all add: lua_call_def lua_str_def)
  note m = yes_module [OF assms(1), of "''groups_internal''"] yes_module [of "''*''" "''groups_shell''"]
  show "groups_exists yes_shell False h g \<lparr>ps_handle = True, ps_proc = s\<rparr> = Some (Ret (Ok True), \<lparr>ps_handle = True, ps_proc = s\<rparr>)"
    using m yes_test [OF e] by (simp add: groups_exists_def op_then_def)
  show "groups_add_member yes_shell False h g u (Some True) \<lparr>ps_handle = True, ps_proc = s\<rparr> = Some (Ret (Ok ''true''), \<lparr>ps_handle = True, ps_proc = s\<rparr>)"
    using m yes_text [OF a] by (simp add: groups_add_member_def op_then_def)
  show "groups_sync yes_shell False h g \<lparr>ps_handle = True, ps_proc = s\<rparr> = Some (Ret (Ok ''true''), \<lparr>ps_handle = True, ps_proc = s\<rparr>)"
    using m yes_text [OF y] by (simp add: groups_sync_def op_then_def)
qed

lemma yes_start:
  "wait_for_readiness yes_shell \<lparr>ps_handle = False, ps_proc = ()\<rparr> = Some (Ret (Ok ()), \<lparr>ps_handle = True, ps_proc = ()\<rparr>)"
proof -
  have i: "\<forall>c\<in>set shell_imports. cmd_ok c"
    unfolding shell_imports_def by (simp, intro conjI) (rule cmd_ok_query; simp add: starts_with_def lua_str_def)+
  have "run_imports yes_shell cs () = Some (Ret (Ok ()), ())" if "\<forall>c\<in>set cs. cmd_ok c" for cs
    using that by (induction cs) (simp_all add: yes_handle)
  with i have r: "run_imports yes_shell shell_imports () = Some (Ret (Ok ()), ())" by blast
  have "cmd_ok ''> not not prosody''" by (intro cmd_ok_query) (simp_all add: starts_with_def)
  moreover have "sh_spawn yes_shell () = (Ok (), ())" by (simp add: yes_shell_def)
  ultimately show ?thesis
    by (simp add: wait_for_readiness_def run_then_def op_then_def exec_with_timeout_def get_handle_or_start_def handle_new_def r yes_handle)
qed

lemma yes_paths: "prosody_paths_data yes_shell \<lparr>ps_handle = True, ps_proc = s\<rparr> = Some (Ret (Ok ''true''), \<lparr>ps_handle = True, ps_proc = s\<rparr>)"
  unfolding prosody_paths_data_def by (intro yes_text cmd_ok_query) (simp_all add: starts_with_def)

text \<open>The parts of the start, one after the other.\<close>

definition yes_libs where "yes_libs = demo_libs\<lparr>bl_shell := yes_shell\<rparr>"

lemma demo_env_simps:
  "be_libs demo_env = yes_libs" "bl_shell yes_libs = yes_shell" "bl_vcards yes_libs = demo_vcards" "bl_xmpp yes_libs = demo_xmpp"
  "bl_delays yes_libs = list_delays" "bl_uris yes_libs = bl_uris demo_libs" "oa_log_in (bl_oauth yes_libs) j pw = Ok ''token''"
  "workspace_jid demo_workspace = (''workspace'', ''d.org'')" "srv_domain (ac_server demo_workspace) = ''d.org''" "bl_now yes_libs = 0"
  "ac_token_ttl demo_workspace = 300" "sa_password (ac_prose_workspace demo_workspace) = None" "be_random_password demo_env = ''random''"
  "ac_backups demo_workspace = None"
  by (simp_all add: demo_env_def yes_libs_def demo_libs_def demo_workspace_def workspace_jid_def)

lemma yes_server:
  "on_xmpp (get_own_vcard demo_xmpp creds) w = Some (Ret (Ok (bw_xmpp w)), w)"
  "on_xmpp (set_own_vcard demo_xmpp v creds) w = Some (Ret (Ok ()), w\<lparr>bw_xmpp := Some v\<rparr>)"
  "service_account_vcard yes_libs creds w = Some (Ret (Ok (bw_xmpp w)), w)"
  by (simp_all add: service_account_vcard_def on_xmpp_def get_vcard_def get_own_vcard_def set_own_vcard_def xmpp_client_def act_err_def
      act_then_def act_on_def demo_env_simps) (simp_all add: demo_xmpp_def act_call_def)

lemma yes_account:
  "\<exists>w'. create_service_accounts demo_env demo_workspace
      \<lparr>bw_xmpp = x, bw_secrets = secrets_new list_delays 300, bw_shell = \<lparr>ps_handle = True, ps_proc = s\<rparr>\<rparr> = Some (Ret (Ok ()), w') \<and>
    bw_shell w' = \<lparr>ps_handle = True, ps_proc = s\<rparr> \<and> bw_xmpp w' \<noteq> None"
proof -
  have a: "ensure_account yes_shell (''workspace'', ''d.org'') ''random'' \<lparr>ps_handle = True, ps_proc = s\<rparr> = Some (Ret (Ok ''true''), \<lparr>ps_handle = True, ps_proc = s\<rparr>)"
    by (simp add: ensure_account_def act_then_def yes_users jid_text_def SERVICE_ACCOUNT_ROLE_def)
  have p: "\<exists>s1. set_password list_delays (bl_oauth yes_libs) (''workspace'', ''d.org'') ''random'' (secrets_new list_delays 300) = (Ret (Ok ()), s1)"
    by (simp add: set_password_def secrets_new_def cache_new_def cache_take_def Let_def)
  then obtain s1 where p: "set_password list_delays (bl_oauth yes_libs) (''workspace'', ''d.org'') ''random'' (secrets_new list_delays 300) = (Ret (Ok ()), s1)"
    by blast
  obtain pr s2 where t: "save_token list_delays 0 (''workspace'', ''d.org'') ''token'' s1 = (pr, s2)" by fastforce
  define w where "w = \<lparr>bw_xmpp = x, bw_secrets = secrets_new list_delays 300 :: ((nat \<times> jid \<times> nat) list, jid) secrets,
    bw_shell = \<lparr>ps_handle = True, ps_proc = s\<rparr>\<rparr>"
  have 1: "on_shell (ensure_account yes_shell (''workspace'', ''d.org'') ''random'') w = Some (Ret (Ok ''true''), w)"
    using a by (simp add: on_shell_Ok w_def)
  have 2: "on_secrets (act_run (set_password list_delays (bl_oauth yes_libs) (''workspace'', ''d.org'') ''random'')) w =
      Some (Ret (Ok ()), w\<lparr>bw_secrets := s1\<rparr>)" using p by (simp add: on_secrets_Ok act_run_Ok w_def)
  have 3: "on_secrets (act_call (\<lambda>s. let (previous, s') = save_token list_delays 0 (''workspace'', ''d.org'') ''token'' s in (Ok previous :: anyhow + string option, s')))
      (w\<lparr>bw_secrets := s1\<rparr>) = Some (Ret (Ok pr), w\<lparr>bw_secrets := s2\<rparr>)" using t by (simp add: on_secrets_Ok act_call_Ok)
  have 4: "\<exists>w'. ensure_vcard demo_env (''workspace'', ''d.org'') ''d.org'' creds (w\<lparr>bw_secrets := s2\<rparr>) = Some (Ret (Ok ()), w') \<and>
      bw_shell w' = \<lparr>ps_handle = True, ps_proc = s\<rparr> \<and> bw_xmpp w' \<noteq> None" for creds
    by (cases x) (simp_all add: ensure_vcard_def act_then_def act_err_def yes_server demo_env_simps w_def)
  from 1 2 3 4 [of "\<lparr>cc_bare_jid = (''workspace'', ''d.org''), cc_auth_token = ''token''\<rparr>"] show ?thesis
    unfolding w_def [symmetric]
    by (simp add: create_service_accounts_def create_service_account_def Let_def demo_env_simps act_then_def)
qed

lemma yes_set_up:
  "set_up_groups yes_shell demo_workspace \<lparr>ps_handle = True, ps_proc = s\<rparr> = Some (Ret (Ok ()), \<lparr>ps_handle = True, ps_proc = s\<rparr>)"
  by (simp add: set_up_groups_def groups_of_def create_groups_def add_service_accounts_to_groups_def synchronize_rosters_def Let_def act_then_def
      yes_groups [of "''d.org''" "''team''" "''workspace''"] demo_env_simps MAIN_TEAM_GROUP_ID_def)

lemma yes_backend:
  "start_backend demo_env demo_workspace w =
     Some (Ret (Ok ()), w\<lparr>bo_process := \<lparr>pp_handle = Some 7, pp_envs = [(''OAUTH2_REGISTRATION_KEY'', ''key'')]\<rparr>, bo_live := insert 7 (bo_live w),
       bo_backend := (bo_backend w)\<lparr>bw_shell := \<lparr>ps_handle = True, ps_proc = ()\<rparr>, bw_secrets := secrets_new list_delays 300\<rparr>\<rparr>)"
proof -
  have r: "register_oauth2_client (be_http demo_env) (be_codec demo_env) ''http://prose-pod-server:5280'' () =
      Some (Ret (Ok \<lparr>cr_client_id = ''id'', cr_client_secret = ''secret''\<rparr>), ())"
    by (simp add: register_oauth2_client_def oauth2_register_def oauth2_send_def oauth2_url_def starts_with_def act_then_def oauth2_receive_def
        is_success_def into_credentials_def demo_env_def demo_errors_def)
  have p: "prosody_start (be_os demo_env) (set_env ''OAUTH2_REGISTRATION_KEY'' (ac_oauth2_registration_key demo_workspace) prosody_new) l =
      (Ok (), \<lparr>pp_handle = Some 7, pp_envs = [(''OAUTH2_REGISTRATION_KEY'', ''key'')]\<rparr>, insert 7 l)" for l
    by (simp add: prosody_start_def demo_env_def set_env_def prosody_new_def demo_workspace_def)
  show ?thesis
    by (simp add: start_backend_def start_prosody_def act_err_def act_then_def act_call_def act_on_def on_backend_def on_shell_def shell_new_def
        demo_env_simps yes_start p r Let_def)
qed

lemma yes_migrations:
  assumes "bo_backend w = \<lparr>bw_xmpp = Some v, bw_secrets = x, bw_shell = \<lparr>ps_handle = True, ps_proc = ()\<rparr>\<rparr>"
    "ca_entries (se_tokens x) (''workspace'', ''d.org'') = Some (t, d)"
  shows "\<exists>w'. run_migrations demo_env demo_workspace w = Some (Ret (Ok ()), w')"
proof -
  obtain fs' where f: "remove_dir_all (be_io demo_env) (data_path ''true'' ''admin%2eprose%2elocal'') (bo_fs w) = (Ok (), fs')"
    by (cases "data_path ''true'' ''admin%2eprose%2elocal'' \<in> bf_dirs (bo_fs w)") (simp_all add: remove_dir_all_def demo_env_def)
  have u: "pod_api_url (bl_uris demo_libs) demo_workspace = Ok ''https://d.org''"
    by (simp add: pod_api_url_def append_path_segment_def demo_libs_def demo_workspace_def map_err_def Let_def)
  have c: "service_account_credentials yes_libs (''workspace'', ''d.org'') (bo_backend w) =
      Some (Ret (Ok \<lparr>cc_bare_jid = (''workspace'', ''d.org''), cc_auth_token = t\<rparr>), bo_backend w)"
    using assms by (intro cached_credentials) simp
  show ?thesis
    using c assms(1)
    by (simp add: run_migrations_def Let_def act_then_def on_backend_def on_fs_def on_shell_def act_on_def act_call_def demo_env_simps yes_paths f u
        patch_workspace_vcard_unchecked_def yes_server act_err_def)
qed

lemma yes_files:
  "\<exists>fs'. prepare_files demo_env demo_workspace fs =
     Some (Ret (Ok (case bf_files fs server_salt_path of Some salt \<Rightarrow> salt | None \<Rightarrow> ''salt'')), fs')"
proof -
  have io: "io_mkdir (be_io demo_env) = None" "io_open (be_io demo_env) p = None" "io_read (be_io demo_env) p = None"
    "io_write (be_io demo_env) p = None" "io_random (be_io demo_env) n = ''salt''" for p n by (simp_all add: demo_env_def)
  have "\<exists>b. backup_prosody_conf_if_needed (be_io demo_env) fs = (Ok b, fs)" for fs
    by (cases "bf_files fs PROSODY_CONFIG_FILE_PATH") (auto simp: backup_prosody_conf_if_needed_def io Let_def)
  then obtain b where b: "\<And>fs. backup_prosody_conf_if_needed (be_io demo_env) fs = (Ok (b fs), fs)" by metis
  show ?thesis
    by (cases "bf_files fs server_salt_path")
      (simp_all add: prepare_files_def act_then_def act_call_def create_required_dirs_def generate_server_salt_if_needed_def apply_bootstrap_config_def
        write_file_def b io Let_def map_err_def)
qed

lemma yes_bootstrap:
  "\<exists>w'. bootstrap demo_env demo_workspace (demo_boot\<lparr>bo_fs := fs\<rparr>) =
     Some (Ret (Ok (case bf_files fs server_salt_path of Some salt \<Rightarrow> salt | None \<Rightarrow> ''salt'')), w')"
proof -
  obtain fs' where f: "prepare_files demo_env demo_workspace fs =
      Some (Ret (Ok (case bf_files fs server_salt_path of Some salt \<Rightarrow> salt | None \<Rightarrow> ''salt'')), fs')" using yes_files by blast
  define b where "b = \<lparr>bw_xmpp = None :: demo_vcard option, bw_secrets = secrets_new list_delays 300 :: ((nat \<times> jid \<times> nat) list, jid) secrets,
    bw_shell = \<lparr>ps_handle = True, ps_proc = ()\<rparr>\<rparr>"
  obtain b' where a: "create_service_accounts demo_env demo_workspace b = Some (Ret (Ok ()), b')"
    "bw_shell b' = \<lparr>ps_handle = True, ps_proc = ()\<rparr>" "bw_xmpp b' \<noteq> None" using yes_account unfolding b_def by blast
  have "ca_ttl (se_tokens (bw_secrets b)) \<noteq> 0" by (simp add: b_def secrets_new_def cache_new_def tokens_cache_ttl_def)
  from account_created(1) [OF a(1) [unfolded create_service_accounts_def] this]
  obtain t d where t: "ca_entries (se_tokens (bw_secrets b')) (''workspace'', ''d.org'') = Some (t, d)" by (auto simp: demo_env_simps)
  obtain v where v: "bw_xmpp b' = Some v" using a(3) by blast
  define w where "w = demo_boot\<lparr>bo_fs := fs', bo_process := \<lparr>pp_handle = Some 7, pp_envs = [(''OAUTH2_REGISTRATION_KEY'', ''key'')]\<rparr>, bo_live := {7}, bo_backend := b'\<rparr>"
  have "bo_backend w = \<lparr>bw_xmpp = Some v, bw_secrets = bw_secrets b', bw_shell = \<lparr>ps_handle = True, ps_proc = ()\<rparr>\<rparr>"
    using a(2) v by (simp add: w_def)
  from yes_migrations [OF this t] obtain w' where m: "run_migrations demo_env demo_workspace w = Some (Ret (Ok ()), w')" by blast
  have s: "start_backend demo_env demo_workspace (demo_boot\<lparr>bo_fs := fs'\<rparr>) =
      Some (Ret (Ok ()), w\<lparr>bo_backend := b\<rparr>)"
    by (simp add: yes_backend w_def b_def demo_boot_def demo_backend_def)
  have g: "on_backend (on_shell (set_up_groups yes_shell demo_workspace)) w = Some (Ret (Ok ()), w)"
    using a(2) yes_set_up [of "()"] by (simp add: on_backend_def on_shell_def act_on_def w_def)
  have c: "on_backend (create_service_accounts demo_env demo_workspace) (w\<lparr>bo_backend := b\<rparr>) = Some (Ret (Ok ()), w)"
    using a(1) by (simp add: on_backend_def act_on_def w_def)
  have "bootstrap demo_env demo_workspace (demo_boot\<lparr>bo_fs := fs\<rparr>) =
      Some (Ret (Ok (case bf_files fs server_salt_path of Some salt \<Rightarrow> salt | None \<Rightarrow> ''salt'')), w')"
    by (simp add: bootstrap_def act_then_def act_on_def f s c g m demo_env_simps)
  then show ?thesis by blast
qed


lemma demo_started:
  obtains w where "bootstrap demo_env demo_workspace demo_boot = Some (Ret (Ok ''salt''), w)"
  using yes_bootstrap [of "bo_fs demo_boot"] by (auto simp: demo_boot_def server_salt_path_def PROSODY_CONFIG_FILE_PATH_def)

lemma demo_laws_yes: "vcard_laws (bl_vcards (be_libs demo_env))" "xmpp_laws (bl_xmpp (be_libs demo_env)) id"
  using demo_laws by (simp_all add: demo_env_simps demo_libs_def)

theorem foreign_config_lost_witness:
  "\<exists>w'. bootstrap demo_env demo_workspace demo_boot = Some (Ret (Ok ''salt''), w') \<and>
     bf_files (bo_fs demo_boot) PROSODY_CONFIG_FILE_PATH = Some ''-- My Prosody'' \<and> (\<forall>f. bf_files (bo_fs w') f \<noteq> Some ''-- My Prosody'')"
proof -
  obtain w' where w: "bootstrap demo_env demo_workspace demo_boot = Some (Ret (Ok ''salt''), w')" by (rule demo_started)
  have f: "bf_files (bo_fs demo_boot) = [PROSODY_CONFIG_FILE_PATH \<mapsto> ''-- My Prosody'']" by (simp add: demo_boot_def)
  have "replace_str ''{{server_domain}}'' (be_template demo_env) (srv_domain (ac_server demo_workspace)) \<noteq> ''-- My Prosody''"
    by (simp add: replace_str_def demo_env_def demo_workspace_def split_str.simps starts_with_def)
  then show ?thesis
    using foreign_config_lost [OF w, of "''-- My Prosody''"] w f by (auto simp: starts_with_def prose_header_def)
qed


theorem restart_forgets_auto_update_witness:
  "\<exists>w' v. bootstrap demo_env demo_workspace demo_boot = Some (Ret (Ok ''salt''), w') \<and> bw_xmpp (bo_backend w') = Some v \<and>
     pc_get demo_vcards PROSE_AUTO_UPDATE_ENABLED_EXTENSION_KEY (vc_unknown v) = []"
proof -
  obtain w' where w: "bootstrap demo_env demo_workspace demo_boot = Some (Ret (Ok ''salt''), w')" by (rule demo_started)
  have "tokens_cache_ttl (ac_token_ttl demo_workspace) \<noteq> 0" "ac_auto_update_enabled demo_workspace = None"
    by (simp_all add: tokens_cache_ttl_def demo_workspace_def)
  from restart_forgets_auto_update [OF w demo_laws_yes(2,1) this] w show ?thesis by (auto simp: demo_env_simps)
qed

end
