(* ===== verification/Accounts.thy ===== *)
theory Accounts
  imports Bootstrap
begin

text \<open>
  \<^verbatim>\<open>api/src/router/init.rs\<close>, \<^verbatim>\<open>api/src/router/users_util.rs\<close> and \<^verbatim>\<open>api/src/router/invitations_util.rs\<close>: the first
  account, and the counts of users and invitations, over the Prosody shell.
\<close>

section \<open>The first account\<close>

record create_account_request =
  ca_username :: string
  ca_password :: string

record create_account_response =
  cs_username :: string
  cs_role :: string

definition first_account_role :: string where "first_account_role = ''prosody:admin''"

definition first_account_exists :: api_error where
  "first_account_exists = conflict_error ''FIRST_ACCOUNT_ALREADY_CREATED'' ''First account already created'' ''You now need an invitation to join.''"

definition username_taken :: api_error where
  "username_taken = conflict_error ''USERNAME_ALREADY_TAKEN'' ''Username already taken'' ''Choose another username.''"

definition init_first_account :: "'s shell_proc \<Rightarrow> string \<Rightarrow> 'b app_config \<Rightarrow> create_account_request \<Rightarrow> ('s, api_error, create_account_response) shell_op" where
  "init_first_account P error_id config dto =
     (let host = srv_domain (ac_server config) in
      act_then (user_get_jids_with_role P host first_account_role) (\<lambda>_. no_context error_id) (\<lambda>admins.
        if length admins > 0 then act_ret (Err first_account_exists)
        else
          act_then (user_create P (jid_text (ca_username dto, host)) (ca_password dto) (Some first_account_role))
            (\<lambda>e. case e of Conflict \<Rightarrow> username_taken | Internal _ \<Rightarrow> no_context error_id) (\<lambda>_.
          act_then (groups_add_member P False host MAIN_TEAM_GROUP_ID (ca_username dto) None) (\<lambda>_. no_context error_id) (\<lambda>_.
          act_ret (Ok \<lparr>cs_username = ca_username dto, cs_role = first_account_role\<rparr>)))))"

section \<open>Counts\<close>

primrec count_roles :: "'s shell_proc \<Rightarrow> string \<Rightarrow> string \<Rightarrow> string list \<Rightarrow> nat \<Rightarrow> ('s, api_error, nat) shell_op" where
  "count_roles P error_id host [] n = act_ret (Ok n)"
| "count_roles P error_id host (role # roles) n =
     act_then (user_get_jids_with_role P host role) (\<lambda>_. no_context error_id) (\<lambda>jids. count_roles P error_id host roles (n + length jids))"

definition users_stats :: "'s shell_proc \<Rightarrow> string \<Rightarrow> 'b app_config \<Rightarrow> ('s, api_error, nat) shell_op" where
  "users_stats P error_id config =
     count_roles P error_id (srv_domain (ac_server config)) [''prosody:member'', ''prosody:admin'', ''prosody:operator''] 0"

text \<open>\<open>parse_jid\<close> is \<open>BareJid::from_str\<close>; a JID that cannot be parsed is a panic.\<close>

definition list_admin_jids :: "'s shell_proc \<Rightarrow> (string \<Rightarrow> string option) \<Rightarrow> string \<Rightarrow> 'b app_config \<Rightarrow> ('s, api_error, string list) shell_op" where
  "list_admin_jids P parse_jid error_id config =
     act_then (user_get_jids_with_role P (srv_domain (ac_server config)) ''prosody:admin'') (\<lambda>_. no_context error_id) (\<lambda>jids.
       if None \<in> set (map parse_jid jids) then act_run (\<lambda>sh. (Panic, sh)) else act_ret (Ok (map (the \<circ> parse_jid) jids)))"

definition self_user_info :: "caller_info \<Rightarrow> caller_info" where
  "self_user_info caller = caller"

definition invitations_stats :: "'s shell_proc \<Rightarrow> string \<Rightarrow> 'b app_config \<Rightarrow> ('s, api_error, nat) shell_op" where
  "invitations_stats P error_id config =
     act_then (invite_list P False (srv_domain (ac_server config))) (\<lambda>_. no_context error_id) (\<lambda>invites. act_ret (Ok (length invites)))"

section \<open>What the first account closes\<close>

text \<open>An account is created only after the shell has answered that there is no admin, and as an admin.\<close>

lemma init_first_account_Ok:
  assumes "init_first_account P error_id config dto sh = Some (Ret (Ok r), sh')"
  obtains sh1 sh2 summary summary' where
    "user_get_jids_with_role P (srv_domain (ac_server config)) ''prosody:admin'' sh = Some (Ret (Ok []), sh1)"
    "user_create P (jid_text (ca_username dto, srv_domain (ac_server config))) (ca_password dto) (Some ''prosody:admin'') sh1 = Some (Ret (Ok summary), sh2)"
    "groups_add_member P False (srv_domain (ac_server config)) MAIN_TEAM_GROUP_ID (ca_username dto) None sh2 = Some (Ret (Ok summary'), sh')"
  using assms by (auto simp: init_first_account_def first_account_role_def act_then_Ok Let_def split: if_splits)

text \<open>Admins are not asked for when the workspace is set up without an account: only members close that route.\<close>

lemma init_workspace_without_members:
  assumes "on_shell (user_get_jids_with_role (bl_shell L) (srv_domain (ac_server config)) ''prosody:member'') w = Some (Ret (Ok []), w1)"
    "service_account_credentials L (workspace_jid config) w1 = Some (Ret (Ok creds), w2)" "pod_api_url (bl_uris L) config = Ok api_url"
  shows "init_workspace L config req w =
    act_err (\<lambda>_. no_context (bl_error_id L)) (patch_workspace_vcard_unchecked L creds
      \<lparr>pw_name = Some (iw_name req), pw_accent_color = map_option Some (iw_accent_color req),
       pw_dashboard_url = Some (Some (ac_dashboard_url config)), pw_api_url = Some (Some api_url), pw_auto_update_enabled = None\<rparr>) w2"
  using assms by (simp add: init_workspace_def with_creds_def act_then_def)

text \<open>
  C37. Creating the first admin does not close the route that sets up the workspace without an account, whatever
  its documentation says: as long as the shell lists no plain members, a request with no token replaces the name
  of the workspace, also the one an admin has chosen.
\<close>

theorem init_workspace_ignores_admins:
  assumes "xmpp_laws (bl_xmpp L) vc"
    "init_first_account (bl_shell L) (bl_error_id L) config dto (bw_shell w0) = Some (Ret (Ok r), bw_shell w)" "vc (bw_xmpp w) = Some v"
    "user_get_jids_with_role (bl_shell L) (srv_domain (ac_server config)) ''prosody:member'' (bw_shell w) = Some (Ret (Ok []), sh1)"
    "service_account_credentials L (workspace_jid config) (w\<lparr>bw_shell := sh1\<rparr>) = Some (Ret (Ok creds), w2)"
    "pod_api_url (bl_uris L) config = Ok api_url"
  shows "cs_role r = ''prosody:admin'' \<and>
    (\<forall>w'. init_workspace L config req w = Some (Ret (Ok ()), w') \<longrightarrow>
       (\<exists>v'. vc (bw_xmpp w') = Some v' \<and> vc_fn v' = [iw_name req] \<and> vc_rest v' = vc_rest v)) \<and>
    (\<forall>e w'. init_workspace L config req w = Some (Ret (Err e), w') \<longrightarrow> ae_status e = 500)"
proof -
  have role: "cs_role r = ''prosody:admin''"
    using assms(2) by (auto simp: init_first_account_def first_account_role_def act_then_Ok Let_def split: if_splits)
  have m: "on_shell (user_get_jids_with_role (bl_shell L) (srv_domain (ac_server config)) ''prosody:member'') w = Some (Ret (Ok []), w\<lparr>bw_shell := sh1\<rparr>)"
    using assms(4) by (simp add: on_shell_Ok)
  note I = init_workspace_without_members [OF m assms(5,6), of req]
  have "bw_xmpp w2 = bw_xmpp w" using credentials_xmpp [OF assms(5)] by simp
  then have v: "vc (bw_xmpp w2) = Some v" using assms(3) by simp
  have "\<exists>v'. vc (bw_xmpp w') = Some v' \<and> vc_fn v' = [iw_name req] \<and> vc_rest v' = vc_rest v"
    if "init_workspace L config req w = Some (Ret (Ok ()), w')" for w'
    using that patch_existing(1) [OF assms(1) _ v] unfolding I by (auto simp: act_err_Ok patch_vcard_def Let_def)
  moreover have "ae_status e = 500" if "init_workspace L config req w = Some (Ret (Err e), w')" for e w'
    using that unfolding I by (auto simp: act_err_def act_then_def error_defs split: option.splits run.splits sum.splits)
  ultimately show ?thesis using role by blast
qed

section \<open>A workspace with one admin\<close>

text \<open>A shell with no accounts of the roles asked for, which says true to all other commands.\<close>

definition reply :: "string \<Rightarrow> string" where
  "reply c = (if take 6 c = ''> dump'' then ''{}'' else ''true'')"

definition reply_shell :: "string shell_proc" where
  "reply_shell = \<lparr>sh_spawn = (\<lambda>s. (Ok (), s)), sh_write = (\<lambda>c _. (Ok (), reply c)), sh_next = (\<lambda>_ s. (NLine (''| Result: '' @ s), s))\<rparr>"

lemma reply_exec:
  assumes "cmd_ok c" "\<not> ends_with c [CHR 0x0A]"
  shows "exec_with_timeout reply_shell c t \<lparr>ps_handle = True, ps_proc = s\<rparr> =
     Some (Ret (Ok \<lparr>pr_lines = [], pr_result = Ok (reply (c @ [CHR 0x0A]))\<rparr>), \<lparr>ps_handle = True, ps_proc = reply (c @ [CHR 0x0A])\<rparr>)"
proof -
  have r: "read_response reply_shell t [] x = Some (Ok \<lparr>pr_lines = [], pr_result = Ok x\<rparr>, x)" for x
    by (subst read_response.simps) (simp add: reply_shell_def parse_response_line_def starts_with_def after_prefix_def)
  have "sh_write reply_shell x s = (Ok (), reply x)" for x by (simp add: reply_shell_def)
  then show ?thesis
    using assms by (simp add: exec_with_timeout_def op_then_def get_handle_or_start_def handle_exec_def cmd_ok_def r)
qed

lemma reply_run:
  assumes "cmd_ok c" "\<not> ends_with c [CHR 0x0A]"
  shows "run_then reply_shell c t ctx f \<lparr>ps_handle = True, ps_proc = s\<rparr> =
      Some (f \<lparr>pr_lines = [], pr_result = Ok (reply (c @ [CHR 0x0A]))\<rparr>, \<lparr>ps_handle = True, ps_proc = reply (c @ [CHR 0x0A])\<rparr>)"
    "reply (c @ [CHR 0x0A]) = ''true'' \<Longrightarrow> run_test reply_shell c ctx ex \<lparr>ps_handle = True, ps_proc = s\<rparr> =
      Some (Ret (Ok True), \<lparr>ps_handle = True, ps_proc = ''true''\<rparr>)"
  using assms(1)
  by (auto simp: run_test_def run_then_def op_then_def reply_exec [OF assms] cmd_ok_def result_bool_expecting_def result_bool_def map_err_def
      split: run.splits)

lemma reply_host: "host_exists reply_shell ''d.org'' \<lparr>ps_handle = True, ps_proc = s\<rparr> = Some (Ret (Ok True), \<lparr>ps_handle = True, ps_proc = ''true''\<rparr>)"
  unfolding host_exists_def
  by (intro reply_run(2) cmd_ok_query) (simp_all add: starts_with_def ends_with_def lua_str_def reply_def)

lemma reply_jids:
  assumes "length role < 100"
  shows "user_get_jids_with_role reply_shell ''d.org'' role \<lparr>ps_handle = True, ps_proc = s\<rparr> = Some (Ret (Ok []), \<lparr>ps_handle = True, ps_proc = ''{}''\<rparr>)"
proof -
  let ?c = "lua_call ''> dump'' [lua_call ''um.get_jids_with_role'' [lua_str role, lua_str ''d.org'']]"
  have c: "cmd_ok ?c" using assms by (intro cmd_ok_query) (simp_all add: starts_with_def lua_call_def lua_str_def)
  have n: "\<not> ends_with ?c [CHR 0x0A]" "reply (?c @ [CHR 0x0A]) = ''{}''" by (simp_all add: ends_with_def starts_with_def lua_call_def reply_def)
  have "result_string_array \<lparr>pr_lines = [], pr_result = Ok ''{}''\<rparr> = Ret (Ok [])"
    by (simp add: result_string_array_def lua_string_to_string_array_def starts_with_def ends_with_def trim_by_def split_str.simps)
  then show ?thesis
    by (simp add: user_get_jids_with_role_def require_host_def op_then_def reply_host reply_run(1) [OF c n(1)] n(2))
qed

lemma reply_create:
  "user_create reply_shell ''alice@d.org'' ''s3cret'' (Some ''prosody:admin'') \<lparr>ps_handle = True, ps_proc = s\<rparr> =
     Some (Ret (Ok ''true''), \<lparr>ps_handle = True, ps_proc = ''true''\<rparr>)"
proof -
  let ?c = "user_create_command ''alice@d.org'' ''s3cret'' (Some ''prosody:admin'')"
  have c: "cmd_ok ?c" unfolding user_create_command_def opt_arg_def by (intro cmd_ok_call) (simp_all add: lua_call_def lua_str_def)
  have n: "\<not> ends_with ?c [CHR 0x0A]" "reply (?c @ [CHR 0x0A]) = ''true''"
    by (simp_all add: user_create_command_def opt_arg_def ends_with_def starts_with_def lua_call_def lua_str_def reply_def)
  show ?thesis by (simp add: user_create_def shell_exec_def op_then_def reply_exec [OF c n(1)] n(2) op_ret_def map_err_def)
qed

lemma reply_add:
  "groups_add_member reply_shell False ''d.org'' ''team'' ''alice'' None \<lparr>ps_handle = True, ps_proc = s\<rparr> =
     Some (Ret (Ok ''true''), \<lparr>ps_handle = True, ps_proc = ''true''\<rparr>)"
proof -
  let ?m = "lua_call ''> mm.is_loaded'' [lua_str ''*'', lua_str ''groups_shell'']"
  let ?c = "lua_call ''groups:add_member'' [lua_str ''d.org'', lua_str ''team'', lua_str ''alice'']"
  have c: "cmd_ok ?m" "cmd_ok ?c" by (intro cmd_ok_query cmd_ok_call; simp add: starts_with_def lua_call_def lua_str_def)+
  have n: "\<not> ends_with ?m [CHR 0x0A]" "reply (?m @ [CHR 0x0A]) = ''true''" "\<not> ends_with ?c [CHR 0x0A]" "reply (?c @ [CHR 0x0A]) = ''true''"
    by (simp_all add: ends_with_def starts_with_def lua_call_def lua_str_def reply_def)
  have "require_module reply_shell False ''*'' ''groups_shell'' \<lparr>ps_handle = True, ps_proc = s\<rparr> =
      Some (Ret (Ok ()), \<lparr>ps_handle = True, ps_proc = ''true''\<rparr>)" for s
    by (simp add: require_module_def module_is_loaded_def op_then_def reply_run(2) [OF c(1) n(1,2)] op_ret_def)
  then show ?thesis
    by (simp add: groups_add_member_def op_then_def run_text_def reply_run(1) [OF c(2) n(3)] n(4) result_text_def map_err_def)
qed

definition reply_libs where
  "reply_libs = \<lparr>bl_vcards = demo_vcards, bl_xmpp = demo_xmpp, bl_delays = list_delays, bl_oauth = bl_oauth demo_libs, bl_shell = reply_shell,
     bl_uris = bl_uris demo_libs, bl_base64 = Ok, bl_now = 0, bl_error_id = ''id''\<rparr>"

lemma reply_server:
  "on_xmpp (set_own_vcard demo_xmpp v creds) w = Some (Ret (Ok ()), w\<lparr>bw_xmpp := Some v\<rparr>)"
  "service_account_vcard reply_libs creds w = Some (Ret (Ok (bw_xmpp w)), w)"
  by (simp_all add: service_account_vcard_def on_xmpp_def get_vcard_def set_own_vcard_def xmpp_client_def act_err_def
      act_then_def act_on_def reply_libs_def) (simp_all add: demo_xmpp_def act_call_def)

definition named_vcard :: demo_vcard where
  "named_vcard = \<lparr>vc_fn = [''Crew''], vc_unknown = [], vc_rest = ()\<rparr>"

definition reply_world :: "string \<Rightarrow> (demo_vcard option, (nat \<times> jid \<times> nat) list, string) backend_world" where
  "reply_world s = \<lparr>bw_xmpp = Some named_vcard, bw_secrets = bw_secrets demo_backend, bw_shell = \<lparr>ps_handle = True, ps_proc = s\<rparr>\<rparr>"

theorem init_workspace_ignores_admins_witness:
  "\<exists>r w v. init_first_account reply_shell ''id'' demo_workspace \<lparr>ca_username = ''alice'', ca_password = ''s3cret''\<rparr> (bw_shell (reply_world [])) =
       Some (Ret (Ok r), bw_shell (reply_world ''true'')) \<and> cs_role r = ''prosody:admin'' \<and>
     init_workspace reply_libs demo_workspace \<lparr>iw_name = ''Mallory'', iw_accent_color = None\<rparr> (reply_world ''true'') = Some (Ret (Ok ()), w) \<and>
     bw_xmpp w = Some v \<and> vc_fn v = [''Mallory'']"
proof -
  have l: "bl_shell reply_libs = reply_shell" "bl_error_id reply_libs = ''id''" "bl_uris reply_libs = bl_uris demo_libs"
    "bl_vcards reply_libs = demo_vcards" "bl_xmpp reply_libs = demo_xmpp" by (simp_all add: reply_libs_def)
  let ?r = "\<lparr>cs_username = ''alice'', cs_role = ''prosody:admin''\<rparr>"
  have a: "init_first_account reply_shell ''id'' demo_workspace \<lparr>ca_username = ''alice'', ca_password = ''s3cret''\<rparr> (bw_shell (reply_world [])) =
      Some (Ret (Ok ?r), bw_shell (reply_world ''true''))"
    using reply_jids [of "''prosody:admin''"] reply_create reply_add
    by (simp add: init_first_account_def act_then_def demo_env_simps first_account_role_def jid_text_def MAIN_TEAM_GROUP_ID_def reply_world_def Let_def)
  have m: "user_get_jids_with_role (bl_shell reply_libs) (srv_domain (ac_server demo_workspace)) ''prosody:member'' (bw_shell (reply_world ''true'')) =
      Some (Ret (Ok []), \<lparr>ps_handle = True, ps_proc = ''{}''\<rparr>)"
    using reply_jids [of "''prosody:member''"] by (simp add: l demo_env_simps reply_world_def)
  let ?w = "(reply_world ''true'')\<lparr>bw_shell := \<lparr>ps_handle = True, ps_proc = ''{}''\<rparr>\<rparr>"
  have c: "service_account_credentials reply_libs (workspace_jid demo_workspace) ?w =
      Some (Ret (Ok \<lparr>cc_bare_jid = workspace_jid demo_workspace, cc_auth_token = ''token''\<rparr>), ?w)"
    by (rule cached_credentials) (simp add: reply_world_def demo_backend_def workspace_jid_def demo_workspace_def)
  have u: "pod_api_url (bl_uris reply_libs) demo_workspace = Ok ''https://d.org''"
    by (simp add: l pod_api_url_def append_path_segment_def demo_libs_def demo_workspace_def map_err_def Let_def)
  have X: "xmpp_laws (bl_xmpp reply_libs) id" using demo_laws(2) by (simp add: l demo_libs_def)
  have v: "id (bw_xmpp (reply_world ''true'')) = Some named_vcard" by (simp add: reply_world_def)
  note T = init_workspace_ignores_admins [of reply_libs id demo_workspace _ "reply_world []" _ "reply_world ''true''", unfolded l(1,2), OF X a v
      m [unfolded l(1)] c u, of "\<lparr>iw_name = ''Mallory'', iw_accent_color = None\<rparr>"]
  have "\<exists>w. init_workspace reply_libs demo_workspace \<lparr>iw_name = ''Mallory'', iw_accent_color = None\<rparr> (reply_world ''true'') = Some (Ret (Ok ()), w)"
  proof -
    have m': "on_shell (user_get_jids_with_role (bl_shell reply_libs) (srv_domain (ac_server demo_workspace)) ''prosody:member'') (reply_world ''true'') =
        Some (Ret (Ok []), ?w)" using m by (simp add: on_shell_Ok)
    show ?thesis
      unfolding init_workspace_without_members [OF m' c u]
      by (simp add: act_err_def act_then_def patch_workspace_vcard_unchecked_def reply_server l Let_def)
  qed
  with T a show ?thesis by fastforce
qed

end
