(* ===== verification/Http_Proxy.thy ===== *)
theory Http_Proxy
  imports Http_Client Api_Errors Effects
begin

text \<open>
  The reverse proxies of the API (\<^verbatim>\<open>api/src/util/proxy.rs\<close>, \<^verbatim>\<open>api/src/router/cloud_api_proxy.rs\<close> and
  \<^verbatim>\<open>api/src/router/prose_files_proxy.rs\<close>).  The server behind them is a parameter over a state of its own.
  Names of headers are in lower case, as the library keeps them.
\<close>

section \<open>Requests\<close>

text \<open>\<open>Uri::path_and_query\<close>, absent for a URI with no path.\<close>

record request_uri =
  ru_path_and_query :: "(string \<times> string option) option"

record proxied_response = http_response +
  pr_headers :: "(string \<times> bytes) list"

type_synonym 'p upstream = "http_request \<Rightarrow> 'p \<Rightarrow> (anyhow + proxied_response) \<times> 'p"

definition is_hop_by_hop :: "string \<Rightarrow> bool" where
  "is_hop_by_hop name \<longleftrightarrow> name \<in> {''connection'', ''keep-alive'', ''proxy-authenticate'', ''proxy-authorization'', ''te'', ''trailers'',
     ''transfer-encoding'', ''upgrade''}"

definition has_source_ip :: "string \<Rightarrow> bool" where
  "has_source_ip name \<longleftrightarrow> name \<in> {''x-forwarded-for'', ''x-real-ip''}"

definition should_forward_header :: "string \<Rightarrow> bool" where
  "should_forward_header name \<longleftrightarrow> \<not> is_hop_by_hop name \<and> \<not> has_source_ip name \<and> name \<noteq> ''host''"

definition upstream_url :: "string \<Rightarrow> string \<Rightarrow> request_uri \<Rightarrow> string run" where
  "upstream_url destination path_prefix uri =
     (case ru_path_and_query uri of
        None \<Rightarrow> Panic
      | Some (p, _) \<Rightarrow>
          (case strip_prefix path_prefix p of
             None \<Rightarrow> Panic
           | Some request_path \<Rightarrow>
               if starts_with request_path ''/'' then Panic
               else if ends_with destination ''/'' then Ret (destination @ request_path)
               else Ret (destination @ ''/'' @ request_path)))"

definition forwarded_headers :: "(string \<times> bytes) list \<Rightarrow> (string \<times> bytes) list" where
  "forwarded_headers hs = filter (\<lambda>(name, v). should_forward_header name) hs"

definition proxy ::
  "'p upstream \<Rightarrow> string \<Rightarrow> string \<Rightarrow> string \<Rightarrow> request_uri \<Rightarrow> string \<Rightarrow> (string \<times> bytes) list \<Rightarrow> bytes \<Rightarrow> ('p, api_error, proxied_response) act" where
  "proxy up error_id destination path_prefix uri method request_headers request_body s =
     (case upstream_url destination path_prefix uri of
        Panic \<Rightarrow> Some (Panic, s)
      | Ret url \<Rightarrow>
          (case up \<lparr>hq_method = method, hq_url = url, hq_headers = forwarded_headers request_headers, hq_body = request_body\<rparr> s of
             (Inl e, s') \<Rightarrow> Some (Ret (Err (internal_server_error error_id ''PROXY_ERROR'' ''Proxying error'')), s')
           | (Inr r, s') \<Rightarrow> Some (Ret (Ok (r\<lparr>pr_headers := forwarded_headers (pr_headers r)\<rparr>)), s')))"

definition proxy_cloud_api where
  "proxy_cloud_api up error_id cloud_api_url = proxy up error_id cloud_api_url ''/cloud-api-proxy/''"

definition proxy_prose_files where
  "proxy_prose_files up error_id prose_files_url = proxy up error_id prose_files_url ''/prose-files-proxy/''"

section \<open>What goes through\<close>

lemma upstream_url_Ret:
  assumes "upstream_url destination path_prefix uri = Ret url"
  obtains p q rest base where "ru_path_and_query uri = Some (p, q)" "strip_prefix path_prefix p = Some rest" "\<not> starts_with rest ''/''"
    "url = base @ ''/'' @ rest" "destination = base \<or> destination = base @ ''/''"
proof -
  from assms obtain p q rest where *: "ru_path_and_query uri = Some (p, q)" "strip_prefix path_prefix p = Some rest" "\<not> starts_with rest ''/''"
    "url = (if ends_with destination ''/'' then destination @ rest else destination @ ''/'' @ rest)"
    by (auto simp: upstream_url_def split: option.splits if_splits)
  show ?thesis
  proof (cases "ends_with destination ''/''")
    case True
    then obtain base where "destination = base @ ''/''" by (auto simp: ends_with_iff)
    then show ?thesis using that [OF *(1-3), of base] *(4) True by simp
  next
    case False
    then show ?thesis using that [OF *(1-3), of destination] *(4) by simp
  qed
qed

lemma forwarded_only: "(n, v) \<in> set (forwarded_headers hs) \<longleftrightarrow> (n, v) \<in> set hs \<and> should_forward_header n"
  by (auto simp: forwarded_headers_def)


text \<open>The query of a request is not forwarded, and a path with two slashes after the prefix is a panic.\<close>

lemma proxy_drops_query:
  "proxy up error_id destination path_prefix \<lparr>ru_path_and_query = Some (p, q)\<rparr> method hs body =
   proxy up error_id destination path_prefix \<lparr>ru_path_and_query = Some (p, None)\<rparr> method hs body"
  by (simp add: fun_eq_iff proxy_def upstream_url_def)

lemma proxy_double_slash:
  "proxy up error_id destination path_prefix \<lparr>ru_path_and_query = Some (path_prefix @ ''/'' @ p, q)\<rparr> method hs body s = Some (Panic, s)"
  by (simp add: proxy_def upstream_url_def starts_with_def strip_prefix_append)

text \<open>A destination that answers with the URL it has got.\<close>

definition mirror :: "unit upstream" where
  "mirror q s = (Ok \<lparr>hr_status = 200, hr_body = hq_url q, pr_headers = [(''connection'', ''close''), (''x-answer'', ''1'')]\<rparr>, ())"


end
