(* ===== verification/Analytics.thy ===== *)
theory Analytics
  imports Http_Proxy Accounts "HOL-Library.AList"
begin

text \<open>
  \<^verbatim>\<open>api/src/analytics.rs\<close> and \<^verbatim>\<open>api/src/router/analytics.rs\<close>: events of client applications, which the server
  edits as the configuration says before it forwards them, or drops.  SHA-256 and the encoder of JSON are
  parameters.  Release build: the debug assertions are left out.
\<close>

section \<open>JSON\<close>

text \<open>Values of \<open>serde_json\<close>; a number is its text, an object a list of pairs read by \<open>map_of\<close>.\<close>

datatype json = JNull | JBool bool | JNumber string | JString string | JArray "json list" | JObject "(string \<times> json) list"

text \<open>Reading \<open>value[key]\<close> gives \<open>Null\<close> for what is not there.\<close>

definition jget :: "json \<Rightarrow> string \<Rightarrow> json" where
  "jget v k = (case v of JObject m \<Rightarrow> (case map_of m k of Some x \<Rightarrow> x | None \<Rightarrow> JNull) | _ \<Rightarrow> JNull)"

primrec jat :: "string list \<Rightarrow> json \<Rightarrow> json" where
  "jat [] v = v"
| "jat (k # ks) v = jat ks (jget v k)"

text \<open>
  A mutable \<open>value[key]\<close> makes an object of \<open>Null\<close> and an entry of a missing key, and panics on any other value.
\<close>

definition json_fields :: "json \<Rightarrow> (string \<times> json) list option" where
  "json_fields v = (case v of JNull \<Rightarrow> Some [] | JObject m \<Rightarrow> Some m | _ \<Rightarrow> None)"

primrec jedit :: "string list \<Rightarrow> (json \<Rightarrow> json) \<Rightarrow> json \<Rightarrow> json run" where
  "jedit [] f v = Ret (f v)"
| "jedit (k # ks) f v =
     (case json_fields v of
        None \<Rightarrow> Panic
      | Some m \<Rightarrow> (case jedit ks f (jget v k) of Panic \<Rightarrow> Panic | Ret x \<Rightarrow> Ret (JObject (AList.update k x m))))"

definition jset :: "string list \<Rightarrow> json \<Rightarrow> json \<Rightarrow> json run" where
  "jset ks x = jedit ks (\<lambda>_. x)"

definition jremove :: "string \<Rightarrow> string list \<Rightarrow> json \<Rightarrow> json run" where
  "jremove k ks = jedit ks (\<lambda>v. case v of JObject m \<Rightarrow> JObject (AList.delete k m) | _ \<Rightarrow> v)"

definition as_str :: "json \<Rightarrow> string option" where
  "as_str v = (case v of JString s \<Rightarrow> Some s | _ \<Rightarrow> None)"

primrec run_steps :: "(json \<Rightarrow> json run) list \<Rightarrow> json \<Rightarrow> json run" where
  "run_steps [] v = Ret v"
| "run_steps (f # fs) v = (case f v of Panic \<Rightarrow> Panic | Ret v' \<Rightarrow> run_steps fs v')"

section \<open>Configuration\<close>

record vendor_analytics_config =
  va_enabled :: bool
  va_min_cohort_size :: "u8 option"
  va_usage :: bool
  va_meta_user_count :: bool
  va_pod_version :: bool
  va_user_app_version :: bool
  va_user_lang :: bool
  va_max_locales :: "nat option"
  va_user_platform :: bool
  va_allow_list :: "string set option"
  va_deny_list :: "string set option"
  va_acquisition :: bool
  va_pod_domain :: bool

section \<open>Events\<close>

definition user_count_range :: "u64 \<Rightarrow> u64 \<times> u64" where
  "user_count_range n =
     (if n \<le> 4 then (0, 4) else if n \<le> 9 then (5, 9) else if n \<le> 19 then (10, 19) else if n \<le> 49 then (20, 49)
      else if n \<le> 99 then (50, 99)
      else (let hundreds_floor = n - n mod 100 in (hundreds_floor, hundreds_floor + 99)))"

definition hex_encode :: "bytes \<Rightarrow> string" where
  "hex_encode b = concat (map (\<lambda>c. fmt_02x (of_nat (of_char c))) b)"

definition anonymize :: "(bytes \<Rightarrow> bytes) \<Rightarrow> bytes \<Rightarrow> bytes \<Rightarrow> string" where
  "anonymize sha256 user_hash server_salt = take 16 (hex_encode (sha256 (user_hash @ server_salt)))"

definition origin_name :: "json \<Rightarrow> string option" where
  "origin_name event =
     (case as_str (jat [''origin'', ''name''] event) of Some s \<Rightarrow> Some s | None \<Rightarrow> as_str (jat [''origin'', ''app'', ''name''] event))"

definition pod_version_step :: "vendor_analytics_config \<Rightarrow> json \<Rightarrow> json run" where
  "pod_version_step c = (if va_usage c \<and> va_pod_version c then Ret else jremove ''version'' [''origin'', ''pod''])"

definition app_version_step :: "vendor_analytics_config \<Rightarrow> string option \<Rightarrow> json \<Rightarrow> json run" where
  "app_version_step c name =
     (if \<not> (va_usage c \<and> va_user_app_version c) \<and> (case name of Some s \<Rightarrow> starts_with s ''prose-app-'' | None \<Rightarrow> False)
      then run_steps [jremove ''version'' [''origin'', ''app''], jremove ''version'' [''origin'']] else Ret)"

definition platform_step :: "vendor_analytics_config \<Rightarrow> json \<Rightarrow> json run" where
  "platform_step c event =
     (let remove_platform = jremove ''platform'' [''origin'', ''app''] in
      if va_usage c \<and> va_user_platform c
      then (case as_str (jat [''origin'', ''app'', ''platform''] event) of
              None \<Rightarrow> Ret event
            | Some platform \<Rightarrow>
                run_steps
                  [(case va_deny_list c of Some l \<Rightarrow> if platform \<in> l then remove_platform else Ret | None \<Rightarrow> Ret),
                   (case va_allow_list c of Some l \<Rightarrow> if platform \<notin> l then remove_platform else Ret | None \<Rightarrow> Ret)] event)
      else remove_platform event)"

definition lang_step :: "vendor_analytics_config \<Rightarrow> json \<Rightarrow> json run" where
  "lang_step c =
     (if va_usage c \<and> va_user_lang c
      then (case va_max_locales c of
              Some n \<Rightarrow> jedit [''origin'', ''app'', ''user_preferred_locales''] (\<lambda>v. case v of JArray xs \<Rightarrow> JArray (take n xs) | _ \<Rightarrow> v)
            | None \<Rightarrow> Ret)
      else jremove ''user_preferred_locales'' [''origin'', ''app''])"

definition domain_step :: "vendor_analytics_config \<Rightarrow> string \<Rightarrow> json \<Rightarrow> json run" where
  "domain_step c pod_domain_value =
     (if va_acquisition c \<and> va_pod_domain c
      then jset [''origin'', ''pod'', ''identifiable'', ''domain''] (JString pod_domain_value) else Ret)"

definition count_step :: "vendor_analytics_config \<Rightarrow> u64 \<Rightarrow> json \<Rightarrow> json run" where
  "count_step c user_count =
     (if va_usage c \<and> va_meta_user_count c
      then (let (lo, hi) = user_count_range user_count; lo = dec (unat lo); hi = dec (unat hi) in
        run_steps
          [jset [''origin'', ''pod'', ''user_count_min''] (JNumber lo),
           jset [''origin'', ''pod'', ''user_count_max''] (JNumber hi),
           jset [''origin'', ''pod'', ''user_count_range''] (JString (lo @ [CHR 0xE2, CHR 0x80, CHR 0x93] @ hi)),
           jset [''origin'', ''pod'', ''user_count_range_open''] (JString (lo @ ''+''))])
      else Ret)"

definition hash_step :: "(bytes \<Rightarrow> bytes) \<Rightarrow> bytes \<Rightarrow> json \<Rightarrow> json run" where
  "hash_step sha256 server_salt event =
     (case as_str (jat [''origin'', ''pod'', ''user_hash''] event) of
        Some user_hash \<Rightarrow> jset [''origin'', ''pod'', ''user_hash''] (JString (anonymize sha256 user_hash server_salt)) event
      | None \<Rightarrow> Ret event)"

definition proxied_step :: "json \<Rightarrow> json run" where
  "proxied_step = jset [''proxied''] (JBool True)"

definition process_event ::
  "(bytes \<Rightarrow> bytes) \<Rightarrow> json \<Rightarrow> vendor_analytics_config \<Rightarrow> string \<Rightarrow> u64 \<Rightarrow> bytes \<Rightarrow> json option run" where
  "process_event sha256 event c pod_domain_value user_count server_salt =
     (if \<not> va_enabled c then Ret None
      else if (case va_min_cohort_size c of Some m \<Rightarrow> user_count < ucast m | None \<Rightarrow> False) then Ret None
      else (case run_steps
                   [pod_version_step c, app_version_step c (origin_name event), platform_step c, lang_step c,
                    domain_step c pod_domain_value, count_step c user_count, hash_step sha256 server_salt, proxied_step] event of
              Panic \<Rightarrow> Panic
            | Ret v \<Rightarrow> Ret (Some v)))"

section \<open>The handler\<close>

record ('p, 's) analytics_world =
  aw_http :: 'p
  aw_shell :: "'s prosody_shell"

definition set_content_length :: "bytes \<Rightarrow> (string \<times> bytes) list \<Rightarrow> (string \<times> bytes) list" where
  "set_content_length body hs = filter (\<lambda>(n, v). n \<noteq> ''content-length'') hs @ [(''content-length'', dec (length body))]"

text \<open>\<open>None\<close> is a response with no content.\<close>

definition proxy_analytics_event where
  "proxy_analytics_event up sha256 to_vec P error_id domain va cloud_api_url server_salt uri method hs event =
     act_then (act_on aw_shell aw_shell_update (user_get_jids_with_role P domain ''prosody:member'')) (\<lambda>_. no_context error_id) (\<lambda>members.
       case process_event sha256 event va domain (of_nat (length members)) server_salt of
         Panic \<Rightarrow> act_run (\<lambda>w. (Panic, w))
       | Ret None \<Rightarrow> act_ret (Ok None)
       | Ret (Some e) \<Rightarrow>
           (case to_vec e of
              Inl _ \<Rightarrow> act_ret (Err (no_context error_id))
            | Inr body \<Rightarrow>
                act_then (act_on aw_http aw_http_update (proxy_cloud_api up error_id cloud_api_url uri method (set_content_length body hs) body))
                  id (\<lambda>r. act_ret (Ok (Some r)))))"

section \<open>Edits along a path\<close>

lemma jat_append: "jat (ks @ ls) v = jat ls (jat ks v)"
  by (induction ks arbitrary: v) auto

text \<open>\<open>diverge\<close>: what is written at one path is not seen at the other.\<close>

fun diverge :: "string list \<Rightarrow> string list \<Rightarrow> bool" where
  "diverge (k # ks) (l # ls) \<longleftrightarrow> k \<noteq> l \<or> diverge ks ls"
| "diverge _ _ \<longleftrightarrow> False"

lemma jget_update: "json_fields v = Some m \<Longrightarrow> jget (JObject (AList.update k x m)) l = (if l = k then x else jget v l)"
  by (auto simp: jget_def AList.update_conv' json_fields_def split: json.splits)

lemma jedit_diverge: "diverge ks ls \<Longrightarrow> jedit ks f v = Ret v' \<Longrightarrow> jat ls v' = jat ls v"
proof (induction ks ls arbitrary: v v' rule: diverge.induct)
  case (1 k ks l ls)
  then obtain m x where "json_fields v = Some m" "jedit ks f (jget v k) = Ret x" "v' = JObject (AList.update k x m)"
    by (auto split: option.splits run.splits)
  with 1 show ?case by (auto simp: jget_update)
qed auto

lemma jedit_below: "jedit ks f v = Ret v' \<Longrightarrow> jat (ks @ ls) v' = jat ls (f (jat ks v))"
proof (induction ks arbitrary: v v')
  case (Cons k ks)
  then obtain m x where "json_fields v = Some m" "jedit ks f (jget v k) = Ret x" "v' = JObject (AList.update k x m)"
    by (auto split: option.splits run.splits)
  with Cons.IH show ?case by (simp add: jget_update)
qed simp

definition keeps :: "(json \<Rightarrow> json run) \<Rightarrow> string list \<Rightarrow> bool" where
  "keeps f ls \<longleftrightarrow> (\<forall>v v'. f v = Ret v' \<longrightarrow> jat ls v' = jat ls v)"

lemma keepsD: "keeps f ls \<Longrightarrow> f v = Ret v' \<Longrightarrow> jat ls v' = jat ls v"
  by (auto simp: keeps_def)

lemma keeps_Ret [simp]: "keeps Ret ls"
  by (simp add: keeps_def)

lemma keeps_jset: "diverge ks ls \<Longrightarrow> keeps (jset ks x) ls"
  by (auto simp: keeps_def jset_def intro: jedit_diverge)

lemma keeps_steps: "\<forall>f \<in> set fs. keeps f ls \<Longrightarrow> keeps (run_steps fs) ls"
proof (induction fs)
  case (Cons f fs)
  then show ?case by (fastforce simp: keeps_def split: run.splits)
qed (simp add: keeps_def)

lemma diverge_last: "diverge (ks @ [k]) ls \<Longrightarrow> \<not> diverge ks ls \<Longrightarrow> \<exists>l ls'. ls = ks @ l # ls' \<and> k \<noteq> l"
proof (induction ks arbitrary: ls)
  case Nil
  then show ?case by (cases ls) auto
next
  case (Cons a ks)
  then show ?case by (cases ls) fastforce+
qed

lemma keeps_jremove:
  assumes "diverge (ks @ [k]) ls"
  shows "keeps (jremove k ks) ls"
  unfolding keeps_def
proof (intro allI impI)
  fix v v' assume r: "jremove k ks v = Ret v'"
  show "jat ls v' = jat ls v"
  proof (cases "diverge ks ls")
    case True
    then show ?thesis using r by (auto simp: jremove_def intro: jedit_diverge)
  next
    case False
    with assms obtain l ls' where l: "ls = ks @ l # ls'" "k \<noteq> l" using diverge_last by blast
    have "jget (case x of JObject m \<Rightarrow> JObject (AList.delete k m) | _ \<Rightarrow> x) l = jget x l" for x
      using l(2) by (auto simp: jget_def AList.delete_conv split: json.splits)
    then show ?thesis using jedit_below [OF r [unfolded jremove_def], of "l # ls'"] l(1) by (simp add: jat_append)
  qed
qed

lemma jremove_gone: "jremove k ks v = Ret v' \<Longrightarrow> jat (ks @ [k]) v' = JNull"
  using jedit_below [of ks _ v v' "[k]"] by (auto simp: jremove_def jget_def AList.delete_conv split: json.splits)

section \<open>What an event shows\<close>

lemmas keep_simps = keeps_jset keeps_jremove keeps_steps

lemma keeps_pod_version: "diverge [''origin'', ''pod'', ''version''] ls \<Longrightarrow> keeps (pod_version_step c) ls"
  by (simp add: pod_version_step_def keeps_jremove)

lemma keeps_app_version:
  "diverge [''origin'', ''app'', ''version''] ls \<Longrightarrow> diverge [''origin'', ''version''] ls \<Longrightarrow> keeps (app_version_step c name) ls"
  by (simp add: app_version_step_def keep_simps del: diverge.simps run_steps.simps)

lemma keeps_platform: "diverge [''origin'', ''app'', ''platform''] ls \<Longrightarrow> keeps (platform_step c) ls"
proof -
  assume d: "diverge [''origin'', ''app'', ''platform''] ls"
  have r: "keeps (jremove ''platform'' [''origin'', ''app'']) ls" using keeps_jremove [of "[''origin'', ''app'']" "''platform''" ls] d by simp
  have "keeps (run_steps [case va_deny_list c of Some l \<Rightarrow> if p \<in> l then jremove ''platform'' [''origin'', ''app''] else Ret | None \<Rightarrow> Ret,
      case va_allow_list c of Some l \<Rightarrow> if p \<notin> l then jremove ''platform'' [''origin'', ''app''] else Ret | None \<Rightarrow> Ret]) ls" for p
    by (rule keeps_steps) (auto simp: r split: option.splits)
  with r show ?thesis unfolding keeps_def platform_step_def Let_def by (auto split: if_splits option.splits simp del: run_steps.simps)
qed

lemma keeps_lang: "diverge [''origin'', ''app'', ''user_preferred_locales''] ls \<Longrightarrow> keeps (lang_step c) ls"
  using keeps_jremove [of "[''origin'', ''app'']" "''user_preferred_locales''" ls]
  by (auto simp: lang_step_def keeps_def intro: jedit_diverge split: option.splits simp del: jedit.simps)

lemma keeps_domain: "diverge [''origin'', ''pod'', ''identifiable'', ''domain''] ls \<Longrightarrow> keeps (domain_step c d) ls"
  by (simp add: domain_step_def keeps_jset del: diverge.simps)

lemma keeps_count:
  "\<forall>k \<in> {''user_count_min'', ''user_count_max'', ''user_count_range'', ''user_count_range_open''}. diverge [''origin'', ''pod'', k] ls \<Longrightarrow>
   keeps (count_step c n) ls"
  unfolding count_step_def Let_def
  by (auto simp del: run_steps.simps diverge.simps intro!: keeps_steps keeps_jset split: prod.splits)

lemma keeps_hash: "diverge [''origin'', ''pod'', ''user_hash''] ls \<Longrightarrow> keeps (hash_step h s) ls"
  using keeps_jset [of "[''origin'', ''pod'', ''user_hash'']" ls]
  by (auto simp: hash_step_def keeps_def split: option.splits simp del: diverge.simps)

lemma keeps_proxied: "diverge [''proxied''] ls \<Longrightarrow> keeps proxied_step ls"
  by (simp add: proxied_step_def keeps_jset del: diverge.simps)

lemmas keeps_step = keeps_pod_version keeps_app_version keeps_platform keeps_lang keeps_domain keeps_count keeps_hash keeps_proxied

lemma jset_at: "jset ks x v = Ret v' \<Longrightarrow> jat ks v' = x"
  using jedit_below [of ks "\<lambda>_. x" v v' "[]"] by (simp add: jset_def)

lemma app_version_gone:
  assumes "app_version_step c name v = Ret v'" "\<not> (va_usage c \<and> va_user_app_version c)" "name = Some s" "starts_with s ''prose-app-''"
  shows "jat [''origin'', ''app'', ''version''] v' = JNull" "jat [''origin'', ''version''] v' = JNull"
proof -
  from assms obtain v1 where v1: "jremove ''version'' [''origin'', ''app''] v = Ret v1" "jremove ''version'' [''origin''] v1 = Ret v'"
    by (auto simp: app_version_step_def split: run.splits)
  have "keeps (jremove ''version'' [''origin'']) [''origin'', ''app'', ''version'']" by (rule keeps_jremove) simp
  from keepsD [OF this v1(2)] jremove_gone [OF v1(1)] jremove_gone [OF v1(2)]
  show "jat [''origin'', ''app'', ''version''] v' = JNull" "jat [''origin'', ''version''] v' = JNull" by simp_all
qed

lemma platform_allowed:
  assumes "platform_step c v = Ret v'"
  shows "\<not> (va_usage c \<and> va_user_platform c) \<Longrightarrow> jat [''origin'', ''app'', ''platform''] v' = JNull"
    "va_deny_list c = Some l \<Longrightarrow> jat [''origin'', ''app'', ''platform''] v' = JString s \<Longrightarrow> s \<notin> l"
    "va_allow_list c = Some l \<Longrightarrow> jat [''origin'', ''app'', ''platform''] v' = JString s \<Longrightarrow> s \<in> l"
proof -
  let ?p = "[''origin'', ''app'', ''platform'']" and ?r = "jremove ''platform'' [''origin'', ''app'']"
  have gone: "jat ?p y = JNull" if "?r x = Ret y" for x y using jremove_gone [OF that] by simp
  show "jat ?p v' = JNull" if "\<not> (va_usage c \<and> va_user_platform c)"
    using assms that by (auto simp: platform_step_def Let_def simp del: jat.simps split: if_splits intro: gone)
  have *: "as_str (jat ?p v') = None \<or> (\<exists>s. jat ?p v' = JString s \<and> (\<forall>l. va_deny_list c = Some l \<longrightarrow> s \<notin> l) \<and> (\<forall>l. va_allow_list c = Some l \<longrightarrow> s \<in> l))"
  proof (cases "va_usage c \<and> va_user_platform c")
    case False
    then show ?thesis using assms by (auto simp: platform_step_def Let_def as_str_def simp del: jat.simps split: if_splits dest!: gone)
  next
    case True
    show ?thesis
    proof (cases "as_str (jat ?p v)")
      case None
      then show ?thesis using assms True by (auto simp: platform_step_def simp del: jat.simps)
    next
      case (Some s)
      then have s: "jat ?p v = JString s" by (auto simp: as_str_def split: json.splits)
      have n: "as_str JNull = None" by (simp add: as_str_def)
      show ?thesis using assms True Some s n
        by (auto simp: platform_step_def Let_def simp del: jat.simps split: option.splits if_splits run.splits dest!: gone)
    qed
  qed
  then show "va_deny_list c = Some l \<Longrightarrow> jat ?p v' = JString s \<Longrightarrow> s \<notin> l" "va_allow_list c = Some l \<Longrightarrow> jat ?p v' = JString s \<Longrightarrow> s \<in> l"
    by (auto simp: as_str_def simp del: jat.simps)
qed

lemma locales_limited:
  assumes "lang_step c v = Ret v'"
  shows "\<not> (va_usage c \<and> va_user_lang c) \<Longrightarrow> jat [''origin'', ''app'', ''user_preferred_locales''] v' = JNull"
    "va_max_locales c = Some n \<Longrightarrow> jat [''origin'', ''app'', ''user_preferred_locales''] v' = JArray xs \<Longrightarrow> length xs \<le> n"
proof -
  let ?p = "[''origin'', ''app'', ''user_preferred_locales'']"
  show 1: "jat ?p v' = JNull" if "\<not> (va_usage c \<and> va_user_lang c)"
    using assms that jremove_gone [of "''user_preferred_locales''" "[''origin'', ''app'']" v v'] by (auto simp: lang_step_def simp del: jat.simps split: if_splits)
  assume n: "va_max_locales c = Some n" and x: "jat ?p v' = JArray xs"
  show "length xs \<le> n"
  proof (cases "va_usage c \<and> va_user_lang c")
    case True
    then have "jedit ?p (\<lambda>v. case v of JArray xs \<Rightarrow> JArray (take n xs) | _ \<Rightarrow> v) v = Ret v'" using assms n by (simp add: lang_step_def)
    from jedit_below [OF this, of "[]"] x show ?thesis by (auto simp del: jat.simps(2) split: json.splits)
  qed (use 1 x in auto)
qed

lemma counts_shown:
  assumes "count_step c n v = Ret v'" "va_usage c" "va_meta_user_count c" "user_count_range n = (lo, hi)"
  shows "jat [''origin'', ''pod'', ''user_count_min''] v' = JNumber (dec (unat lo))"
    "jat [''origin'', ''pod'', ''user_count_max''] v' = JNumber (dec (unat hi))"
proof -
  let ?p = "\<lambda>k. [''origin'', ''pod'', k]"
  obtain v1 v2 v3 where v: "jset (?p ''user_count_min'') (JNumber (dec (unat lo))) v = Ret v1" "jset (?p ''user_count_max'') (JNumber (dec (unat hi))) v1 = Ret v2"
    "jset (?p ''user_count_range'') (JString (dec (unat lo) @ [CHR 0xE2, CHR 0x80, CHR 0x93] @ dec (unat hi))) v2 = Ret v3"
    "jset (?p ''user_count_range_open'') (JString (dec (unat lo) @ ''+'')) v3 = Ret v'"
    using assms by (auto simp: count_step_def Let_def split: run.splits)
  have k: "jat (?p b) y = jat (?p b) x" if "jset (?p a) j x = Ret y" "a \<noteq> b" for a b j x y
    using keepsD [OF keeps_jset that(1), of "?p b"] that(2) by (simp del: jat.simps)
  show "jat (?p ''user_count_min'') v' = JNumber (dec (unat lo))"
    using k [OF v(2), of "''user_count_min''"] k [OF v(3), of "''user_count_min''"] k [OF v(4), of "''user_count_min''"] jset_at [OF v(1)] by (simp del: jat.simps)
  show "jat (?p ''user_count_max'') v' = JNumber (dec (unat hi))"
    using k [OF v(3), of "''user_count_max''"] k [OF v(4), of "''user_count_max''"] jset_at [OF v(2)] by (simp del: jat.simps)
qed

lemma process_event_steps:
  assumes "process_event sha256 event c d n salt = Ret (Some e)"
  obtains v1 v2 v3 v4 v5 v6 v7 where "va_enabled c" "\<forall>m. va_min_cohort_size c = Some m \<longrightarrow> ucast m \<le> n"
    "pod_version_step c event = Ret v1" "app_version_step c (origin_name event) v1 = Ret v2" "platform_step c v2 = Ret v3" "lang_step c v3 = Ret v4"
    "domain_step c d v4 = Ret v5" "count_step c n v5 = Ret v6" "hash_step sha256 salt v6 = Ret v7" "proxied_step v7 = Ret e"
  using assms by (auto simp: process_event_def not_less split: if_splits option.splits run.splits)

text \<open>The consent of the configuration, as what can be read in the event that is sent.\<close>

definition event_respects :: "(bytes \<Rightarrow> bytes) \<Rightarrow> vendor_analytics_config \<Rightarrow> u64 \<Rightarrow> bytes \<Rightarrow> json \<Rightarrow> json \<Rightarrow> bool" where
  "event_respects sha256 c n salt event e \<longleftrightarrow>
     (\<not> (va_usage c \<and> va_pod_version c) \<longrightarrow> jat [''origin'', ''pod'', ''version''] e = JNull) \<and>
     (\<not> (va_usage c \<and> va_user_app_version c) \<longrightarrow> (\<forall>s. origin_name event = Some s \<longrightarrow> starts_with s ''prose-app-'' \<longrightarrow>
        jat [''origin'', ''app'', ''version''] e = JNull \<and> jat [''origin'', ''version''] e = JNull)) \<and>
     (\<not> (va_usage c \<and> va_user_platform c) \<longrightarrow> jat [''origin'', ''app'', ''platform''] e = JNull) \<and>
     (\<forall>s. jat [''origin'', ''app'', ''platform''] e = JString s \<longrightarrow>
        (\<forall>l. va_deny_list c = Some l \<longrightarrow> s \<notin> l) \<and> (\<forall>l. va_allow_list c = Some l \<longrightarrow> s \<in> l)) \<and>
     (\<not> (va_usage c \<and> va_user_lang c) \<longrightarrow> jat [''origin'', ''app'', ''user_preferred_locales''] e = JNull) \<and>
     (\<forall>m xs. va_max_locales c = Some m \<longrightarrow> jat [''origin'', ''app'', ''user_preferred_locales''] e = JArray xs \<longrightarrow> length xs \<le> m) \<and>
     (\<not> (va_acquisition c \<and> va_pod_domain c) \<longrightarrow>
        jat [''origin'', ''pod'', ''identifiable'', ''domain''] e = jat [''origin'', ''pod'', ''identifiable'', ''domain''] event) \<and>
     (if va_usage c \<and> va_meta_user_count c
      then jat [''origin'', ''pod'', ''user_count_min''] e = JNumber (dec (unat (fst (user_count_range n)))) \<and>
           jat [''origin'', ''pod'', ''user_count_max''] e = JNumber (dec (unat (snd (user_count_range n))))
      else jat [''origin'', ''pod'', ''user_count_min''] e = jat [''origin'', ''pod'', ''user_count_min''] event \<and>
           jat [''origin'', ''pod'', ''user_count_max''] e = jat [''origin'', ''pod'', ''user_count_max''] event) \<and>
     (\<forall>s. jat [''origin'', ''pod'', ''user_hash''] event = JString s \<longrightarrow>
        jat [''origin'', ''pod'', ''user_hash''] e = JString (anonymize sha256 s salt)) \<and>
     jat [''proxied''] e = JBool True"

lemma process_event_respects:
  assumes "process_event sha256 event c d n salt = Ret (Some e)"
  shows "event_respects sha256 c n salt event e"
proof -
  from assms obtain v1 v2 v3 v4 v5 v6 v7 where h1: "pod_version_step c event = Ret v1" and h2: "app_version_step c (origin_name event) v1 = Ret v2"
    and h3: "platform_step c v2 = Ret v3" and h4: "lang_step c v3 = Ret v4" and h5: "domain_step c d v4 = Ret v5" and h6: "count_step c n v5 = Ret v6"
    and h7: "hash_step sha256 salt v6 = Ret v7" and h8: "proxied_step v7 = Ret e" by (rule process_event_steps)
  note later = keepsD [OF keeps_app_version h2] keepsD [OF keeps_platform h3] keepsD [OF keeps_lang h4] keepsD [OF keeps_domain h5]
    keepsD [OF keeps_count h6] keepsD [OF keeps_hash h7] keepsD [OF keeps_proxied h8] keepsD [OF keeps_pod_version h1]
  have a: "\<not> (va_usage c \<and> va_pod_version c) \<longrightarrow> jat [''origin'', ''pod'', ''version''] e = JNull"
    using jremove_gone [of "''version''" "[''origin'', ''pod'']" event v1] h1 by (auto simp: later pod_version_step_def simp del: jat.simps)
  have b: "jat [''origin'', ''app'', ''version''] e = JNull \<and> jat [''origin'', ''version''] e = JNull"
    if "\<not> (va_usage c \<and> va_user_app_version c)" "origin_name event = Some s" "starts_with s ''prose-app-''" for s
    using app_version_gone [OF h2 that] by (simp add: later del: jat.simps)
  have p: "jat [''origin'', ''app'', ''platform''] e = jat [''origin'', ''app'', ''platform''] v3" by (simp add: later(3-7) del: jat.simps)
  have l: "jat [''origin'', ''app'', ''user_preferred_locales''] e = jat [''origin'', ''app'', ''user_preferred_locales''] v4"
    by (simp add: later(4-7) del: jat.simps)
  have f: "jat [''origin'', ''pod'', ''identifiable'', ''domain''] e = jat [''origin'', ''pod'', ''identifiable'', ''domain''] event"
    if "\<not> (va_acquisition c \<and> va_pod_domain c)"
  proof -
    have "v5 = v4" using h5 that by (auto simp: domain_step_def)
    then show ?thesis by (simp add: later(1-3,5-8) del: jat.simps)
  qed
  have g: "jat [''origin'', ''pod'', k] e = jat [''origin'', ''pod'', k] v6" "jat [''origin'', ''pod'', k] v5 = jat [''origin'', ''pod'', k] event"
    if "k \<in> {''user_count_min'', ''user_count_max''}" for k
    using that by (auto simp: later simp del: jat.simps)
  have g': "v6 = v5" if "\<not> (va_usage c \<and> va_meta_user_count c)" using that h6 by (auto simp: count_step_def)
  have hh: "jat [''origin'', ''pod'', ''user_hash''] v6 = jat [''origin'', ''pod'', ''user_hash''] event" by (simp add: later(1-5,8) del: jat.simps)
  have i: "jat [''origin'', ''pod'', ''user_hash''] e = JString (anonymize sha256 s salt)" if "jat [''origin'', ''pod'', ''user_hash''] event = JString s" for s
  proof -
    have "jset [''origin'', ''pod'', ''user_hash''] (JString (anonymize sha256 s salt)) v6 = Ret v7"
      using h7 that hh by (simp add: hash_step_def as_str_def del: jat.simps)
    from jset_at [OF this] show ?thesis by (simp add: later(7) del: jat.simps)
  qed
  have j: "jat [''proxied''] e = JBool True" using h8 jset_at by (auto simp: proxied_step_def simp del: jat.simps)
  show ?thesis
    unfolding event_respects_def p l
    using a b f i j platform_allowed [OF h3] locales_limited [OF h4] g g' counts_shown [OF h6, of "fst (user_count_range n)" "snd (user_count_range n)"]
    by (intro conjI allI impI) (auto simp del: jat.simps)
qed

text \<open>An event that is not an object stops the handler.\<close>

lemma event_must_be_object:
  assumes "json_fields event = None" "va_enabled c" "va_min_cohort_size c = None"
  shows "process_event sha256 event c d n salt = Panic"
proof -
  have e: "jedit (k # ks) f event = Panic" for k ks f using assms(1) by simp
  have j: "jat (k # ks) event = JNull" for k ks
  proof -
    have "jget event k = JNull" for k using assms(1) by (auto simp: jget_def json_fields_def split: json.splits)
    moreover have "jat ks JNull = JNull" for ks by (induction ks) (auto simp: jget_def)
    ultimately show ?thesis by simp
  qed
  have "origin_name event = None" by (simp add: origin_name_def j as_str_def del: jat.simps)
  then have *: "pod_version_step c event \<in> {Panic, Ret event}" "app_version_step c (origin_name event) event \<in> {Panic, Ret event}"
    "platform_step c event \<in> {Panic, Ret event}" "lang_step c event \<in> {Panic, Ret event}" "domain_step c d event \<in> {Panic, Ret event}"
    "hash_step sha256 salt event \<in> {Panic, Ret event}" "proxied_step event = Panic"
    by (simp_all add: pod_version_step_def app_version_step_def platform_step_def lang_step_def domain_step_def hash_step_def proxied_step_def
        Let_def jremove_def jset_def e j as_str_def del: jat.simps jedit.simps split: option.splits)
  have "count_step c n event \<in> {Panic, Ret event}"
    by (simp add: count_step_def Let_def jset_def e del: jedit.simps split: prod.splits)
  with * show ?thesis using assms(2,3) by (auto simp: process_event_def split: run.splits)
qed

section \<open>Ranges of user counts\<close>

lemma hundreds:
  fixes n :: u64
  assumes "user_count_range n = (lo, hi)" "99 < n"
  shows "unat lo = 100 * (unat n div 100)" "unat hi = (100 * (unat n div 100) + 99) mod 2 ^ 64"
proof -
  have "n mod 100 \<le> n" by (simp add: word_le_nat_alt unat_mod)
  then have "unat (n - n mod 100) = unat n - unat n mod 100" by (simp add: unat_sub unat_mod)
  also have "\<dots> = 100 * (unat n div 100)" by (simp add: minus_mod_eq_mult_div)
  finally have l: "unat (n - n mod 100) = 100 * (unat n div 100)" .
  have r: "lo = n - n mod 100" "hi = n - n mod 100 + 99" using assms by (auto simp: user_count_range_def Let_def word_le_nat_alt word_less_nat_alt)
  show "unat lo = 100 * (unat n div 100)" using l r by simp
  show "unat hi = (100 * (unat n div 100) + 99) mod 2 ^ 64" unfolding r by (subst unat_word_ariths) (simp add: l)
qed

lemma small_ranges: "n \<le> 99 \<Longrightarrow> user_count_range n = (lo, hi) \<Longrightarrow> lo \<le> n \<and> n \<le> hi \<and> hi \<le> 99 \<and> (\<forall>m. lo \<le> m \<and> m \<le> hi \<longrightarrow> user_count_range m = (lo, hi))"
  by (auto simp: user_count_range_def word_le_nat_alt split: if_splits)

text \<open>
  C40. The range shown of a user count holds the count, and holds no count of another range: the ranges partition
  the counts.  The last 16 counts below 2^64 are the exception, their upper bound has wrapped around.
\<close>

theorem user_count_range_partition:
  assumes "user_count_range n = (lo, hi)"
  shows "if unat n < 18446744073709551600
    then lo \<le> n \<and> n \<le> hi \<and> (\<forall>m. lo \<le> m \<and> m \<le> hi \<longrightarrow> user_count_range m = (lo, hi))
    else hi < lo"
proof (cases "99 < n")
  case False
  then have "n \<le> 99" by simp
  from small_ranges [OF this assms] this show ?thesis by (auto simp: word_le_nat_alt)
next
  case True
  let ?q = "unat n div 100"
  note h = hundreds [OF assms True]
  have n: "unat n < 18446744073709551616" by simp
  show ?thesis
  proof (cases "unat n < 18446744073709551600")
    case small: True
    then have q: "?q < 184467440737095516" by (simp add: div_less_iff_less_mult)
    then have hi: "unat hi = 100 * ?q + 99" using h(2) by simp
    have in_range: "lo \<le> n \<and> n \<le> hi" using h(1) hi by (auto simp: word_le_nat_alt)
    have "user_count_range m = (lo, hi)" if m: "lo \<le> m" "m \<le> hi" for m
    proof -
      have l: "99 < unat n" using True by (simp add: word_less_nat_alt)
      then have "1 \<le> ?q" by linarith
      then have "99 < unat m" using m(1) h(1) by (simp add: word_le_nat_alt)
      then have m99: "99 < m" by (simp add: word_less_nat_alt)
      have "unat m div 100 = ?q" using m h(1) hi by (auto simp: word_le_nat_alt)
      with hundreds [OF prod.collapse [symmetric] m99] h hi q show ?thesis
        by (metis prod.collapse word_unat_eq_iff)
    qed
    with in_range small show ?thesis by simp
  next
    case False
    then have "?q = 184467440737095516" using n by linarith
    then show ?thesis using h False by (simp add: word_less_nat_alt)
  qed
qed

theorem user_count_range_partition_witness: "user_count_range 120 = (100, 199) \<and> user_count_range 150 = (100, 199)"
proof -
  have "user_count_range 120 = (100, 199)" by (simp add: user_count_range_def)
  from user_count_range_partition [OF this] this show ?thesis by (simp add: word_le_nat_alt)
qed

section \<open>Consent\<close>

text \<open>
  C10. Nothing reaches the cloud API without consent: when an event has changed anything there, analytics are
  enabled, the server has at least as many members as the smallest cohort, and the body that was sent is the event
  edited as the configuration says, with the hash of the user replaced by a salted one.
\<close>

theorem analytics_consent:
  assumes "proxy_analytics_event up sha256 to_vec P error_id domain va cloud_api_url salt uri method hs event w = Some (r, w')"
    "aw_http w' \<noteq> aw_http w"
  shows "\<exists>members sh e body q answer. user_get_jids_with_role P domain ''prosody:member'' (aw_shell w) = Some (Ret (Ok members), sh) \<and>
    va_enabled va \<and> (\<forall>m. va_min_cohort_size va = Some m \<longrightarrow> unat m \<le> length members) \<and>
    up q (aw_http w) = (answer, aw_http w') \<and> to_vec e = Ok body \<and> hq_body q = body \<and>
    event_respects sha256 va (of_nat (length members)) salt event e"
proof -
  let ?n = "\<lambda>members. of_nat (length members) :: u64"
  obtain members sh where m: "user_get_jids_with_role P domain ''prosody:member'' (aw_shell w) = Some (Ret (Ok members), sh)"
    and k: "aw_http (w\<lparr>aw_shell := sh\<rparr>) = aw_http w"
    using assms by (auto simp: proxy_analytics_event_def act_then_def act_on_def split: option.splits run.splits sum.splits)
  obtain e body where e: "process_event sha256 event va domain (?n members) salt = Ret (Some e)" and b: "to_vec e = Ok body"
    and p: "act_on aw_http aw_http_update (proxy_cloud_api up error_id cloud_api_url uri method (set_content_length body hs) body) (w\<lparr>aw_shell := sh\<rparr>) \<noteq> None"
    and x: "\<exists>y. proxy_cloud_api up error_id cloud_api_url uri method (set_content_length body hs) body (aw_http w) = Some (y, aw_http w')"
    using assms m
    by (auto simp: proxy_analytics_event_def act_then_def act_on_def act_run_def split: option.splits run.splits sum.splits)
  from x assms(2) obtain q answer where q: "up q (aw_http w) = (answer, aw_http w')" "hq_body q = body"
    by (auto simp: proxy_cloud_api_def proxy_def split: run.splits prod.splits sum.splits)
  have "unat c \<le> length members" if "ucast c \<le> ?n members" for c :: u8
  proof -
    have "unat c = unat (ucast c :: u64)" by (simp add: unsigned_ucast_eq take_bit_nat_eq_self order_less_le_trans [OF unsigned_less])
    also have "\<dots> \<le> unat (?n members)" using that by (simp add: word_le_nat_alt)
    also have "\<dots> \<le> length members" by (simp add: unat_of_nat)
    finally show ?thesis .
  qed
  with process_event_steps [OF e] have "va_enabled va" "\<forall>m. va_min_cohort_size va = Some m \<longrightarrow> unat m \<le> length members" by metis+
  with m q b process_event_respects [OF e] show ?thesis by blast
qed

text \<open>No analytics but what the client sends, of which the version of the Pod is removed; the cloud API keeps the bodies it gets.\<close>

definition no_analytics :: vendor_analytics_config where
  "no_analytics = \<lparr>va_enabled = True, va_min_cohort_size = None, va_usage = False, va_meta_user_count = True, va_pod_version = True,
     va_user_app_version = True, va_user_lang = True, va_max_locales = None, va_user_platform = True, va_allow_list = None, va_deny_list = None,
     va_acquisition = False, va_pod_domain = True\<rparr>"

definition version_event :: json where
  "version_event = JObject [(''origin'', JObject [(''pod'', JObject [(''version'', JString ''1.0'')])])]"

definition show_version :: "json \<Rightarrow> anyhow + bytes" where
  "show_version e = Ok (if jat [''origin'', ''pod'', ''version''] e = JNull then ''no version'' else ''version'')"

definition keep_bodies :: "bytes list upstream" where
  "keep_bodies q s = (Ok \<lparr>hr_status = 204, hr_body = [], pr_headers = []\<rparr>, hq_body q # s)"

theorem analytics_consent_witness:
  "\<exists>r w'. proxy_analytics_event keep_bodies (\<lambda>b. b) show_version reply_shell ''id'' ''d.org'' no_analytics ''https://cloud'' ''salt''
         \<lparr>ru_path_and_query = Some (''/cloud-api-proxy/v1/analytics/event'', None)\<rparr> ''POST'' [] version_event
         \<lparr>aw_http = [], aw_shell = \<lparr>ps_handle = True, ps_proc = []\<rparr>\<rparr> = Some (r, w') \<and> aw_http w' = [''no version'']"
proof -
  let ?u = "\<lparr>ru_path_and_query = Some (''/cloud-api-proxy/v1/analytics/event'', None)\<rparr>" and ?s = "\<lambda>s. \<lparr>ps_handle = True, ps_proc = s\<rparr>"
  let ?run = "proxy_analytics_event keep_bodies (\<lambda>b. b) show_version reply_shell ''id'' ''d.org'' no_analytics ''https://cloud'' ''salt'' ?u ''POST'' []
      version_event \<lparr>aw_http = [], aw_shell = ?s []\<rparr>"
  have m: "user_get_jids_with_role reply_shell ''d.org'' ''prosody:member'' (?s []) = Some (Ret (Ok []), ?s ''{}'')" by (rule reply_jids) simp
  obtain e where e: "process_event (\<lambda>b. b) version_event no_analytics ''d.org'' 0 ''salt'' = Ret (Some e)"
    by (simp add: process_event_def no_analytics_def version_event_def pod_version_step_def app_version_step_def platform_step_def lang_step_def
        domain_step_def count_step_def hash_step_def proxied_step_def origin_name_def as_str_def jremove_def jset_def jget_def json_fields_def)
  then obtain r w' b where run: "?run = Some (r, w')" and s: "aw_http w' = [b]"
    using m
    by (auto simp: proxy_analytics_event_def act_then_def act_on_def show_version_def proxy_cloud_api_def proxy_def upstream_url_def
        starts_with_def ends_with_def keep_bodies_def)
  have "b = ''no version''"
    using analytics_consent [OF run] s
    by (auto simp: keep_bodies_def show_version_def event_respects_def no_analytics_def simp del: jat.simps)
  with run s show ?thesis by blast
qed

end
