(* ===== verification/Access_Control.thy ===== *)
theory Access_Control
  imports Extractors Backups_Api
begin

text \<open>
  Requests that only admins may make: the extractor of the caller (\<^verbatim>\<open>api/src/extractors.rs\<close>) in front of the handlers
  of \<^verbatim>\<open>api/src/router/backups.rs\<close>.  A handler that checks the role first is an \<open>admin_handler\<close>; what holds of one is
  proved once and interpreted on every request on backups.
\<close>

section \<open>Requests with a caller\<close>

text \<open>The extractor runs before the handler; its rejection is the response.\<close>

definition with_caller ::
  "('p, 's) auth_libs \<Rightarrow> (api_error \<Rightarrow> 'o) \<Rightarrow> (caller_info \<Rightarrow> 'w \<Rightarrow> 'o run \<times> 'w) \<Rightarrow> headers \<Rightarrow> ('p, 's) request_world \<times> 'w \<Rightarrow>
     ('o run \<times> ('p, 's) request_world \<times> 'w) option" where
  "with_caller A refused handler headers = (\<lambda>(rq, w).
     case caller_of_request A headers rq of
       None \<Rightarrow> None
     | Some (Panic, rq') \<Rightarrow> Some (Panic, rq', w)
     | Some (Ret (Inl e), rq') \<Rightarrow> Some (Ret (refused e), rq', w)
     | Some (Ret (Inr c), rq') \<Rightarrow> (let (out, w') = handler c w in Some (out, rq', w')))"

definition create_request where
  "create_request A headers body work now =
     with_caller A (\<lambda>e. Single (Err e)) (\<lambda>c w. let (out, w') = post_backups_all (map_of headers) c body work now w in (Ret out, w')) headers"

definition restore_request where
  "restore_request A headers service backup_id work now =
     with_caller A (\<lambda>e. Single (Err e)) (\<lambda>c w. let (out, w') = put_backup_restore_all (map_of headers) c service backup_id work now w in (Ret out, w'))
       headers"

definition delete_request where
  "delete_request A headers sv bid error_id = with_caller A Err (\<lambda>c. delete_backup_request c sv bid error_id) headers"

definition details_request where
  "details_request A headers sv s bid error_id = with_caller A Err (\<lambda>c. get_backup c sv s bid error_id) headers"

definition list_request where
  "list_request A headers sv s error_id = with_caller A Err (\<lambda>c w. (Ret (get_backups c sv s error_id), w)) headers"

definition download_url_request where
  "download_url_request A headers sv s bid ttl error_id =
     with_caller A Err (\<lambda>c w. (get_backup_download_url c sv s bid ttl error_id, w)) headers"

section \<open>Handlers for admins\<close>

text \<open>
  The request was made by an admin: OAuth 2.0 has accepted the bearer token for an account, for which the shell has
  answered a role of an admin.
\<close>

definition admitted :: "('p, 's) auth_libs \<Rightarrow> headers \<Rightarrow> ('p, 's) request_world \<Rightarrow> bool" where
  "admitted A headers rq \<longleftrightarrow> (\<exists>token u http jid role sh.
     map_of headers ''authorization'' = Some (''Bearer '' @ token) \<and>
     oauth2_userinfo (al_http A) (al_codec A) (al_base A) token (rq_http rq) = Some (Ret (Ok u), http) \<and>
     Option.bind (strip_prefix ''xmpp:'' (ui_sub u)) (al_jid A) = Some jid \<and>
     user_role (al_shell A) jid None (rq_shell rq) = Some (Ret (Ok role), sh) \<and>
     role \<in> {''prosody:admin'', ''prosody:operator''})"

locale admin_handler =
  fixes handler :: "caller_info \<Rightarrow> 'w \<Rightarrow> 'o run \<times> 'w"
    and refused :: "api_error \<Rightarrow> 'o"
  assumes refuses: "check_is_admin c = Err e \<Longrightarrow> handler c w = (Ret (refused e), w)"
begin

text \<open>Either the caller is an admin, or nothing was done and the response is a refusal or a panic of the extractor.\<close>

lemma only_admins:
  assumes "with_caller A refused handler headers (rq, w) = Some (out, rq', w')" "rq_caller rq = None"
  shows "admitted A headers rq \<or> w' = w \<and> (out = Panic \<or> (\<exists>e. out = Ret (refused e)))"
proof (cases "\<exists>c rq1. caller_of_request A headers rq = Some (Ret (Ok c), rq1)")
  case False
  then show ?thesis using assms(1) by (auto simp: with_caller_def split: option.splits run.splits sum.splits)
next
  case True
  then obtain c rq1 where c: "caller_of_request A headers rq = Some (Ret (Ok c), rq1)" by blast
  from c assms(2) obtain token u http jid role sh where k: "auth_token_of headers = Ok token"
    "oauth2_userinfo (al_http A) (al_codec A) (al_base A) token (rq_http rq) = Some (Ret (Ok u), http)"
    "Option.bind (strip_prefix ''xmpp:'' (ui_sub u)) (al_jid A) = Some jid"
    "user_role (al_shell A) jid None (rq_shell rq) = Some (Ret (Ok role), sh)" "c = \<lparr>ci_jid = jid, ci_primary_role = role\<rparr>"
    by (rule caller_of_request_Ok)
  have t: "map_of headers ''authorization'' = Some (''Bearer '' @ token)"
    using k(1) by (auto simp: auth_token_of_def header_text_def BEARER_PREFIX_def strip_prefix_eq_Some split: option.splits if_splits)
  show ?thesis
  proof (cases "role \<in> {''prosody:admin'', ''prosody:operator''}")
    case True
    with t k(2-4) show ?thesis unfolding admitted_def by blast
  next
    case False
    then have "handler c w = (Ret (refused (forbidden ''Only admins can do that.'')), w)"
      by (intro refuses) (simp add: check_is_admin_def k(5))
    then show ?thesis using assms(1) c by (auto simp: with_caller_def)
  qed
qed

lemma refused_unless_admitted:
  assumes "with_caller A refused handler headers (rq, w) = Some (out, rq', w')" "rq_caller rq = None" "\<not> admitted A headers rq"
  shows "w' = w \<and> (out = Panic \<or> (\<exists>e. out = Ret (refused e)))"
  using only_admins [OF assms(1,2)] assms(3) by blast

end

interpretation create: admin_handler
  "\<lambda>c w. let (out, w') = post_backups_all hm c body work now w in (Ret out, w')" "\<lambda>e. Single (Err e)" for hm body work now
  by unfold_locales (simp add: post_backups_all_def check_post_backups_def)

interpretation restoring: admin_handler
  "\<lambda>c w. let (out, w') = put_backup_restore_all hm c service backup_id work now w in (Ret out, w')" "\<lambda>e. Single (Err e)" for hm service backup_id work now
  by unfold_locales (simp add: put_backup_restore_all_def check_restore_def)

interpretation deleting: admin_handler "\<lambda>c. delete_backup_request c sv bid error_id" Err for sv bid error_id
  by unfold_locales (simp add: delete_backup_request_def with_service_def)

interpretation details: admin_handler "\<lambda>c. get_backup c sv s bid error_id" Err for sv s bid error_id
  by unfold_locales (simp add: get_backup_def with_service_def)

interpretation listing: admin_handler "\<lambda>c w. (Ret (get_backups c sv s error_id), w)" Err for sv s error_id
  by unfold_locales (simp add: get_backups_def with_service_def)

interpretation download: admin_handler "\<lambda>c w. (get_backup_download_url c sv s bid ttl error_id, w)" Err for sv s bid ttl error_id
  by unfold_locales (simp add: get_backup_download_url_def with_service_def)

section \<open>Backups are for admins\<close>

lemma request_refused:
  assumes "rq_caller rq = None" "\<not> admitted A headers rq"
  shows "create_request A headers body work now (rq, w) = Some (out1, rq1, w1) \<Longrightarrow> w1 = w \<and> (out1 = Panic \<or> (\<exists>e. out1 = Ret (Single (Err e))))"
    "restore_request A headers service backup_id work' now (rq, w) = Some (out2, rq1, w1) \<Longrightarrow> w1 = w \<and> (out2 = Panic \<or> (\<exists>e. out2 = Ret (Single (Err e))))"
    "delete_request A headers sv bid error_id (rq, stores) = Some (out3, rq1, stores1) \<Longrightarrow> stores1 = stores \<and> (out3 = Panic \<or> (\<exists>e. out3 = Ret (Err e)))"
    "list_request A headers sv s error_id (rq, w) = Some (out4, rq1, w1) \<Longrightarrow> w1 = w \<and> (out4 = Panic \<or> (\<exists>e. out4 = Ret (Err e)))"
    "details_request A headers sv s bid error_id (rq, cs) = Some (out5, rq1, cs1) \<Longrightarrow> cs1 = cs \<and> (out5 = Panic \<or> (\<exists>e. out5 = Ret (Err e)))"
    "download_url_request A headers sv s bid ttl error_id (rq, w) = Some (out6, rq1, w1) \<Longrightarrow> w1 = w \<and> (out6 = Panic \<or> (\<exists>e. out6 = Ret (Err e)))"
  unfolding create_request_def restore_request_def delete_request_def list_request_def details_request_def download_url_request_def
  by (erule create.refused_unless_admitted [OF _ assms] restoring.refused_unless_admitted [OF _ assms] deleting.refused_unless_admitted [OF _ assms]
      listing.refused_unless_admitted [OF _ assms] details.refused_unless_admitted [OF _ assms] download.refused_unless_admitted [OF _ assms])+

text \<open>
  C11. Only admins create, restore, delete, list or read backups: whatever the headers of a request say, unless OAuth
  2.0 accepts its bearer token for an account with the role of an admin or operator, the request changes nothing and
  its response is an error.
\<close>

theorem backups_only_for_admins:
  assumes "rq_caller rq = None" "\<not> admitted A headers rq"
  shows "(create_request A headers body work now (rq, w) = Some (out1, rq1, w1) \<longrightarrow> w1 = w \<and> (out1 = Panic \<or> (\<exists>e. out1 = Ret (Single (Err e))))) \<and>
    (restore_request A headers service backup_id work' now (rq, w) = Some (out2, rq1, w1) \<longrightarrow> w1 = w \<and> (out2 = Panic \<or> (\<exists>e. out2 = Ret (Single (Err e))))) \<and>
    (delete_request A headers sv bid error_id (rq, stores) = Some (out3, rq1, stores1) \<longrightarrow> stores1 = stores \<and> (out3 = Panic \<or> (\<exists>e. out3 = Ret (Err e)))) \<and>
    (list_request A headers sv s error_id (rq, w) = Some (out4, rq1, w1) \<longrightarrow> out4 = Panic \<or> (\<exists>e. out4 = Ret (Err e))) \<and>
    (details_request A headers sv s bid error_id (rq, cs) = Some (out5, rq1, cs1) \<longrightarrow> cs1 = cs \<and> (out5 = Panic \<or> (\<exists>e. out5 = Ret (Err e)))) \<and>
    (download_url_request A headers sv s bid ttl error_id (rq, w) = Some (out6, rq1, w1) \<longrightarrow> out6 = Panic \<or> (\<exists>e. out6 = Ret (Err e)))"
  by (intro conjI impI; drule request_refused [OF assms]; elim conjE; assumption)

text \<open>A member of the server who asks for a backup.\<close>

definition member_request :: "(unit, bool list \<times> string list) request_world" where
  "member_request = \<lparr>rq_http = (), rq_shell = \<lparr>ps_handle = True, ps_proc = ([False], [''| OK: prosody:member''])\<rparr>, rq_caller = None\<rparr>"

lemma member_role: "user_role role_shell ''bob@d.org'' None \<lparr>ps_handle = True, ps_proc = ([False], [''| OK: prosody:member''])\<rparr> =
    Some (Ret (Ok ''prosody:member''), \<lparr>ps_handle = True, ps_proc = ([], role_answer (written (role_command ''bob@d.org'')))\<rparr>)"
  using role_user(2) [OF _ role_lines(2), of "''bob@d.org''" "[]" "[]"] by (simp add: strip_primary_def ends_with_def starts_with_def)

lemma member_not_admitted: "\<not> admitted demo_auth demo_bearer member_request"
proof
  assume "admitted demo_auth demo_bearer member_request"
  then obtain token u http jid role sh where a:
    "oauth2_userinfo (al_http demo_auth) (al_codec demo_auth) (al_base demo_auth) token (rq_http member_request) = Some (Ret (Ok u), http)"
    "Option.bind (strip_prefix ''xmpp:'' (ui_sub u)) (al_jid demo_auth) = Some jid"
    "user_role (al_shell demo_auth) jid None (rq_shell member_request) = Some (Ret (Ok role), sh)" "role \<in> {''prosody:admin'', ''prosody:operator''}"
    unfolding admitted_def by blast
  have "ui_sub u = ''xmpp:bob@d.org''"
    using a(1) by (auto simp: oauth2_userinfo_def oauth2_send_def oauth2_url_def oauth2_receive_def demo_auth_def demo_errors_def is_success_def
        map_err_def starts_with_def)
  then have "jid = ''bob@d.org''" using a(2) by (simp add: demo_auth_def)
  then show False using a(3,4) member_role by (auto simp: demo_auth_def member_request_def)
qed

theorem backups_only_for_admins_witness:
  "\<exists>out rq1 w1. create_request demo_auth demo_bearer ''tar'' (\<lambda>h n. (Ok (), h, Suc n)) 0 (member_request, 0) = Some (out, rq1, w1) \<and>
     w1 = 0 \<and> (\<exists>e. out = Ret (Single (Err e)))"
proof -
  let ?run = "create_request demo_auth demo_bearer ''tar'' (\<lambda>h n. (Ok (), h, Suc n)) 0 (member_request, 0) :: (unit backup_response run \<times> _) option"
  have "\<exists>out rq1 w1. ?run = Some (Ret out, rq1, w1)"
    using demo_caller [OF member_role] by (simp add: create_request_def with_caller_def member_request_def split: prod.splits)
  then obtain out rq1 w1 where r: "?run = Some (Ret out, rq1, w1)" by blast
  have "rq_caller member_request = None" by (simp add: member_request_def)
  from backups_only_for_admins [OF this member_not_admitted, THEN conjunct1, THEN mp, OF r] r show ?thesis by blast
qed

end
