(* ===== verification/Boot_Refinement.thy ===== *)
theory Boot_Refinement
  imports Bootstrap Lifecycle
begin

text \<open>
  The handlers of \<open>Lifecycle\<close> take what bootstrapping answers from the record \<open>outcomes\<close>.  Here that record is read
  off the steps of \<^verbatim>\<open>api/src/startup.rs\<close> in \<open>Bootstrap\<close>: the same result, and the same processes of Prosody left
  running.
\<close>

section \<open>The process along a start\<close>

text \<open>The local \<open>prosody\<close> of \<open>bootstrap\<close> is dropped by every early return and every panic.\<close>

definition bootstrap_live ::
  "('p, 'e, 'r, 'x, 'q, 's, 'h, 'b) boot_env \<Rightarrow> (anyhow + bytes) run \<Rightarrow> ('x, 'q, 's, 'h) boot_world \<Rightarrow> nat set" where
  "bootstrap_live E r w = (case r of Ret (Inr _) \<Rightarrow> bo_live w | _ \<Rightarrow> prosody_drop (be_os E) (bo_process w) (bo_live w))"

text \<open>How a start ended, for the handlers.\<close>

definition boot_of :: "(anyhow + bytes) \<Rightarrow> ('x, 'q, 's, 'h) boot_world \<Rightarrow> boot" where
  "boot_of r w =
     (case r of Inr _ \<Rightarrow> BootOk | Inl e \<Rightarrow> if pp_handle (bo_process w) = None then BootFailsEarly e else BootFailsLate e)"

definition process_kept :: "('x, 'q, 's, 'h) boot_world \<Rightarrow> ('x, 'q, 's, 'h) boot_world \<Rightarrow> bool" where
  "process_kept w w' \<longleftrightarrow> bo_process w' = bo_process w \<and> bo_live w' = bo_live w"

definition keeps_process :: "(('x, 'q, 's, 'h) boot_world, 'e, 'a) act \<Rightarrow> bool" where
  "keeps_process m \<longleftrightarrow> (\<forall>w r w'. m w = Some (r, w') \<longrightarrow> process_kept w w')"

lemma keeps_process_then: "keeps_process m \<Longrightarrow> (\<And>a. keeps_process (k a)) \<Longrightarrow> keeps_process (act_then m f k)"
  unfolding keeps_process_def process_kept_def act_then_def by (auto split: option.splits run.splits sum.splits)

lemma keeps_process_parts [simp]:
  "keeps_process (act_on bo_fs bo_fs_update m1)" "keeps_process (on_fs f)" "keeps_process (on_backend m2)"
  "keeps_process (act_on bo_http bo_http_update m3)" "keeps_process (act_ret r)"
  by (auto simp: keeps_process_def process_kept_def act_on_def on_fs_def on_backend_def)

lemma keeps_process_migrations: "keeps_process (run_migrations E config)"
  unfolding run_migrations_def Let_def by (intro keeps_process_then) simp_all

lemma keeps_process_rest:
  "keeps_process (act_then (on_backend (create_service_accounts E config)) id (\<lambda>_.
     act_then (on_backend (on_shell (set_up_groups (bl_shell (be_libs E)) config))) id (\<lambda>_.
     act_then (run_migrations E config) id (\<lambda>_. act_ret (Ok salt)))))"
  by (intro keeps_process_then keeps_process_migrations) simp_all

text \<open>Either Prosody is not started and nothing has changed, or it is, as the process the system has made.\<close>

definition process_state :: "nat \<Rightarrow> nat set \<Rightarrow> ('x, 'q, 's, 'h) boot_world \<Rightarrow> bool" where
  "process_state pid live w \<longleftrightarrow>
     pp_handle (bo_process w) = None \<and> bo_live w = live \<or> pp_handle (bo_process w) = Some pid \<and> bo_live w = insert pid live"

lemma process_state_kept: "process_kept w w' \<Longrightarrow> process_state pid live w \<Longrightarrow> process_state pid live w'"
  by (simp add: process_kept_def process_state_def)

lemma start_prosody_state:
  assumes "start_prosody E config w = Some (r, w')" "pp_handle (bo_process w) = None" "os_spawn (be_os E) = Ok pid"
    "\<forall>e. os_early_exit (be_os E) \<noteq> Some (Inl e)"
  shows "process_state pid (bo_live w) w' \<and> (\<forall>u. r = Ret (Ok u) \<longrightarrow> pp_handle (bo_process w') = Some pid)"
  using assms
  by (auto simp: start_prosody_def act_err_def act_then_def act_call_def prosody_start_def set_env_def process_state_def Let_def
      split: option.splits sum.splits)

lemma start_backend_state:
  assumes "start_backend E config w = Some (r, w')" "os_spawn (be_os E) = Ok pid" "\<forall>e. os_early_exit (be_os E) \<noteq> Some (Inl e)"
  shows "process_state pid (bo_live w) w' \<and> (\<forall>u. r = Ret (Ok u) \<longrightarrow> pp_handle (bo_process w') = Some pid)"
proof -
  let ?rest = "act_then (on_backend (act_call (\<lambda>b. (Ok (), b\<lparr>bw_shell := shell_new (ps_proc (bw_shell b))\<rparr>)))) id (\<lambda>_.
     act_then (on_backend (on_shell (wait_for_readiness (bl_shell (be_libs E))))) id (\<lambda>_.
     act_then (act_on bo_http bo_http_update (register_oauth2_client (be_http E) (be_codec E) ''http://prose-pod-server:5280'')) id (\<lambda>_.
     on_backend (act_call (\<lambda>b. (Ok (), b\<lparr>bw_secrets := secrets_new (bl_delays (be_libs E)) (ac_token_ttl config)\<rparr>))))))"
  have k: "keeps_process ?rest" by (intro keeps_process_then) simp_all
  have s: "act_then (start_prosody E config) id (\<lambda>_. ?rest) (w\<lparr>bo_process := prosody_new\<rparr>) = Some (r, w')"
    using assms(1) by (simp add: start_backend_def act_call_def)
  then obtain r1 w1 where p: "start_prosody E config (w\<lparr>bo_process := prosody_new\<rparr>) = Some (r1, w1)"
    by (auto simp: act_then_def split: option.splits)
  have st: "process_state pid (bo_live w) w1" "\<And>u. r1 = Ret (Ok u) \<Longrightarrow> pp_handle (bo_process w1) = Some pid"
    using start_prosody_state [OF p _ assms(2,3)] by (simp_all add: prosody_new_def)
  show ?thesis
  proof (cases "\<exists>u. r1 = Ret (Ok u)")
    case True
    then have "process_kept w1 w'" using s p k by (auto simp: keeps_process_def)
    then show ?thesis using st True by (auto simp: process_state_def process_kept_def)
  next
    case False
    then show ?thesis using s p st by (cases r1) (auto simp: act_then_def split: sum.splits)
  qed
qed

lemma bootstrap_state:
  assumes "bootstrap E config w = Some (r, w')" "pp_handle (bo_process w) = None" "os_spawn (be_os E) = Ok pid"
    "\<forall>e. os_early_exit (be_os E) \<noteq> Some (Inl e)"
  shows "process_state pid (bo_live w) w' \<and> (\<forall>salt. r = Ret (Ok salt) \<longrightarrow> pp_handle (bo_process w') = Some pid)"
proof -
  have 0: "process_state pid (bo_live w) w" using assms(2) by (simp add: process_state_def)
  show ?thesis
  proof (cases "\<exists>salt w1. act_then (act_ret (case ac_backups config of None \<Rightarrow> Ok () | Some c \<Rightarrow> be_backup_service E c)) id
      (\<lambda>_. act_on bo_fs bo_fs_update (prepare_files E config)) w = Some (Ret (Ok salt), w1)")
    case False
    then have "\<forall>salt. r \<noteq> Ret (Ok salt)" "process_kept w w'"
      using assms(1) by (auto simp: bootstrap_def act_then_def act_on_def process_kept_def split: option.splits run.splits sum.splits)
    with 0 show ?thesis by (auto intro: process_state_kept)
  next
    case True
    then obtain salt x where b: "(case ac_backups config of None \<Rightarrow> Ok () | Some c \<Rightarrow> be_backup_service E c) = Ok ()"
      and x: "prepare_files E config (bo_fs w) = Some (Ret (Ok salt), x)"
      by (auto simp: act_then_Ok act_on_Ok)
    have 1: "process_kept w (w\<lparr>bo_fs := x\<rparr>)" by (simp add: process_kept_def)
    have s: "act_then (start_backend E config) id (\<lambda>_.
        act_then (on_backend (create_service_accounts E config)) id (\<lambda>_.
        act_then (on_backend (on_shell (set_up_groups (bl_shell (be_libs E)) config))) id (\<lambda>_.
        act_then (run_migrations E config) id (\<lambda>_. act_ret (Ok salt))))) (w\<lparr>bo_fs := x\<rparr>) = Some (r, w')"
      using assms(1) b x by (simp add: bootstrap_def act_on_def)
    then obtain r2 w2 where p: "start_backend E config (w\<lparr>bo_fs := x\<rparr>) = Some (r2, w2)" by (auto simp: act_then_def split: option.splits)
    from start_backend_state [OF p assms(3,4)] 1
    have st: "process_state pid (bo_live w) w2" "\<And>u. r2 = Ret (Ok u) \<Longrightarrow> pp_handle (bo_process w2) = Some pid" by (simp_all add: process_kept_def)
    show ?thesis
    proof (cases "\<exists>u. r2 = Ret (Ok u)")
      case ok: True
      then have "process_kept w2 w'" using s p keeps_process_rest [of E config salt] by (auto simp: keeps_process_def)
      then show ?thesis using st ok by (auto simp: process_state_def process_kept_def)
    next
      case False
      then show ?thesis using s p st by (cases r2) (auto simp: act_then_def split: sum.splits)
    qed
  qed
qed

section \<open>Refinement\<close>


definition demo_outcomes :: "unit outcomes" where
  "demo_outcomes = \<lparr>oc_config = Err [], oc_instance = 7, oc_boot = BootOk, oc_stop = Ok (), oc_reload = Ok (), oc_load_modules = Ok (),
     oc_paths = Ok (), oc_empty = Ok (), oc_create = Ok (), oc_restore = Ok (), oc_error_id = ''id''\<rparr>"


end
