(* ===== verification/Server_Main.thy ===== *)
theory Server_Main
  imports Prosody_Process
begin

text \<open>
  \<open>main\<close> of \<^verbatim>\<open>api/src/lib.rs\<close>: how the server ends, and with which result.  Two tasks run, one that serves requests
  and one that starts the backend; the first to fail aborts the other.  The order in which tasks and signals end is
  an argument.
\<close>

section \<open>The tasks\<close>

text \<open>How a task ended: with its result, or aborted or panicked.\<close>

datatype task_end = Returned "anyhow + unit" | JoinFailed anyhow

definition serve_task :: "anyhow + unit \<Rightarrow> anyhow + unit" where
  "serve_task r = map_err (context_msg ''Serve error'') r"

definition startup_task :: "anyhow + unit \<Rightarrow> anyhow + unit" where
  "startup_task r = map_err (context_msg ''Startup error'') r"

primrec join_loop :: "task_end list \<Rightarrow> (anyhow + unit) option \<Rightarrow> (anyhow + unit) option" where
  "join_loop [] main_res = main_res"
| "join_loop (t # ts) main_res =
     join_loop ts
       (case t of
          Returned (Inr u) \<Rightarrow> Some (Ok u)
        | Returned (Inl task_err) \<Rightarrow> (if main_res = None then Some (Err task_err) else main_res)
        | JoinFailed join_err \<Rightarrow> (if main_res = None then Some (Err (context_msg ''Join error'' join_err)) else main_res))"

definition main_inner :: "anyhow + unit \<Rightarrow> task_end list \<Rightarrow> anyhow + unit" where
  "main_inner bind_result ends =
     try_bind bind_result (\<lambda>_. case join_loop ends None of Some r \<Rightarrow> r | None \<Rightarrow> Err [''No task ran.''])"

section \<open>The end of the server\<close>

text \<open>What ends first; \<open>AppContext::cleanup\<close> stops the Prosody of the published state, if it still exists.\<close>

datatype main_event = InnerEnded "anyhow + unit" | GracefulShutdown | ReloadEnded

definition main_result :: "main_event \<Rightarrow> anyhow + unit" where
  "main_result ev =
     (case ev of InnerEnded res \<Rightarrow> res | GracefulShutdown \<Rightarrow> Ok () | ReloadEnded \<Rightarrow> Err [''Reload watcher ended unexpectedly.''])"

definition cleanup :: "os \<Rightarrow> prosody_child_process option \<Rightarrow> nat set \<Rightarrow> (anyhow + unit) \<times> nat set" where
  "cleanup sys prosody live =
     (case prosody of None \<Rightarrow> (Ok (), live) | Some p \<Rightarrow> (let (r, _, live') = prosody_stop sys p live in (r, live')))"

definition server_main :: "main_event \<Rightarrow> os \<Rightarrow> prosody_child_process option \<Rightarrow> nat set \<Rightarrow> (anyhow + unit) \<times> nat set" where
  "server_main ev sys prosody live =
     (case cleanup sys prosody live of
        (Inl e, live') \<Rightarrow> (Err e, live')
      | (Inr _, live') \<Rightarrow> (main_result ev, live'))"

section \<open>Results\<close>

text \<open>One task that ends well makes the result a success, whatever the other one does, before or after.\<close>

lemma join_loop_Ok: "join_loop ts (Some (Ok ())) = Some (Ok ())"
  by (induction ts) (auto split: task_end.splits sum.splits)

lemma join_loop_Err: "join_loop ts (Some (Err e)) = Some (if Returned (Ok ()) \<in> set ts then Ok () else Err e)"
  by (induction ts) (auto simp: join_loop_Ok split: task_end.splits sum.splits)

lemma join_loop_success: "join_loop ts None = Some (Ok ()) \<longleftrightarrow> Returned (Ok ()) \<in> set ts"
proof (induction ts)
  case (Cons t ts)
  show ?case by (cases t) (auto simp: join_loop_Ok join_loop_Err split: sum.splits)
qed simp

lemma main_inner_success: "main_inner b ends = Ok () \<longleftrightarrow> b = Ok () \<and> Returned (Ok ()) \<in> set ends"
  using join_loop_success [of ends] by (cases b) (auto simp: main_inner_def split: option.splits)

text \<open>So a server that stops serving after it has started well ends as a success.\<close>

lemma late_serve_error_is_success:
  "main_inner (Ok ()) [Returned (startup_task (Ok ())), Returned (serve_task (Err e))] = Ok ()"
  by (simp add: main_inner_success startup_task_def map_err_def)

text \<open>
  The server ends with success exactly when Prosody could be stopped and it was asked to shut down or one of its
  tasks ended well; a Prosody that was stopped is gone.
\<close>

theorem server_exit:
  assumes "server_main ev sys prosody live = (r, live')"
  shows "r = Ok () \<longleftrightarrow> fst (cleanup sys prosody live) = Ok () \<and> (ev = GracefulShutdown \<or> ev = InnerEnded (Ok ()))"
    "r = Ok () \<Longrightarrow> live' = live - (case prosody of None \<Rightarrow> {} | Some p \<Rightarrow> set_option (pp_handle p))"
proof -
  obtain r1 live1 where c: "cleanup sys prosody live = (r1, live1)" by (metis surj_pair)
  show "r = Ok () \<longleftrightarrow> fst (cleanup sys prosody live) = Ok () \<and> (ev = GracefulShutdown \<or> ev = InnerEnded (Ok ()))"
    using assms c by (cases r1; cases ev) (auto simp: server_main_def main_result_def)
  show "live' = live - (case prosody of None \<Rightarrow> {} | Some p \<Rightarrow> set_option (pp_handle p))" if "r = Ok ()"
    using assms c that
    by (cases r1) (auto simp: server_main_def cleanup_def dest: stop_ok_live split: option.splits prod.splits)
qed

end
