(* ===== verification/Spec2Isabelle.thy ===== *)
theory Spec2Isabelle
  imports Measurements Tar_Size Backup_Id Object_Store Fs_Store Store_Cache Cache_Guards Composable_Stream Stats
    Verification Path_Mapping Layers Archiving Backup_Create Backup_Integrity Local_Fs Revert Restoration Backup_Service S3_Store Figment
    Backup_Defaults Backup_Config Api_Errors App_Config
    Prosody_Process App_State Lifecycle Api_Runs
    Prosody_Shell Shell_Protocol Token_Cache
    Backup_Progress Http_Client Backups_Api Effects Media Xmpp_Client Color Workspace
    Oauth2_Client Extractors Bootstrap Accounts Http_Proxy Analytics Access_Control Boot_Refinement Server_Main
begin

text \<open>
  A verification library for the Prose Pod Server (\<^verbatim>\<open>api/\<close> under the source tree): the HTTP API that starts,
  configures and supervises the XMPP server Prosody, with its backup library and its small crates.  Paths below are
  relative to the source tree; \<^verbatim>\<open>backup/\<close> is short for \<^verbatim>\<open>api/crates/backup/src/\<close>.  The code is modelled as it is
  compiled for release: debug assertions are left out unless a text says otherwise, and \<open>u64\<close> arithmetic wraps.

  \<^bold>\<open>How the program is put together.\<close>  The API keeps one published state (a front end, that is a configuration, and a
  back end, that is Prosody with its clients), which requests replace.  Bootstrapping starts Prosody as a child process,
  talks to it by its shell, by OAuth 2.0 and by XMPP, and makes the accounts of the server.  The backup library streams
  an archive of the local directories through compression, encryption, hashing and signing to an object store (files
  or S3), and restores one after it has downloaded and verified it, under a guard that puts the old files back.

  \<^bold>\<open>How code is modelled.\<close>  \<open>Result\<close> is a sum (\<open>Inl\<close> is \<open>Err\<close>); a panic is the value \<open>Panic\<close> of the type \<open>run\<close>; errors
  of \<open>anyhow\<close> are the list of their messages.  State is passed explicitly.  Loops that may not end are
  \<open>partial_function (option)\<close>, where \<open>None\<close> is not returning.  Every library the code calls (OpenPGP, zstd, tar,
  hashes, JSON, the AWS SDK, figment, the XMPP library, the operating system, the network) is a record of functions or
  a function that the definitions take as an argument; what is assumed of one is a hypothesis by name (\<open>xmpp_laws\<close>,
  \<open>vcard_laws\<close>, the laws of a delay queue, what an S3 server serves), with an instance in a witness.

  \<^bold>\<open>Theories, from the bottom.\<close>
  \<^item> \<open>Prelude\<close>: types, strings, decimal numbers, sums and panics; \<open>Effects\<close>: operations that may not return, panic,
    fail or succeed, their composition and its inversion rules.
  \<^item> \<open>Measurements\<close>, \<open>Tar_Size\<close>, \<open>Backup_Id\<close>: \<^verbatim>\<open>backup/util/measurements.rs\<close>, \<^verbatim>\<open>octal.rs\<close>, \<^verbatim>\<open>tar.rs\<close>, and the
    identifiers of \<^verbatim>\<open>backup/lib.rs\<close>: round trips, bounds, the walk against a recursive sum.
  \<^item> \<open>Object_Store\<close> (the trait, as a record and as the locale \<open>object_store_contract\<close>), \<open>Fs_Store\<close> (its interpretation
    on files), \<open>S3_Store\<close>, \<open>Store_Cache\<close> and \<open>Cache_Guards\<close>: \<^verbatim>\<open>backup/stores/\<close>.  The cache is also a step relation of
    its clients, with the invariant that each cached file has an owner and the total stays within its bound.
  \<^item> \<open>Composable_Stream\<close>, \<open>Stats\<close>, \<open>Layers\<close>, \<open>Archiving\<close>: streams, counters, layers and the archive.  The locales
    \<open>byte_sink\<close>, \<open>local_sink\<close>, \<open>teed_sinks\<close>, \<open>optional_sink\<close>, \<open>either_sinks\<close> and \<open>metered_sink\<close> state what a writer
    delivers; they are interpreted on vectors, digests, signers and, in \<open>Backup_Integrity\<close>, on the sink of a backup.
  \<^item> \<open>Verification\<close>, \<open>Backup_Create\<close>, \<open>Backup_Integrity\<close>: downloading with checks, creating and deleting, and that what
    is stored beside a backup is the digest and the signature of its bytes.
  \<^item> \<open>Path_Mapping\<close>, \<open>Local_Fs\<close>, \<open>Revert\<close>, \<open>Restoration\<close>: \<^verbatim>\<open>backup/restoration.rs\<close> over a tree of files with faults.
  \<^item> \<open>Backup_Service\<close>: listing (locale \<open>backup_listing\<close>), details, restoring, as \<^verbatim>\<open>backup/lib.rs\<close> composes the above.
  \<^item> \<open>Figment\<close>, \<open>Backup_Defaults\<close>, \<open>Backup_Config\<close>, \<open>App_Config\<close>: configuration, its defaults and its validation.
  \<^item> \<open>Api_Errors\<close>, \<open>Prosody_Process\<close>, \<open>App_State\<close>, \<open>Lifecycle\<close>, \<open>Api_Runs\<close>: errors, the child process, the states with
    their routes and health, the handlers of \<^verbatim>\<open>api/src/router/lifecycle/\<close> as results and effects, and runs of requests,
    one after the other (\<open>api_reach\<close>) and interleaved (\<open>conc_reach\<close>).
  \<^item> \<open>Prosody_Shell\<close>, \<open>Shell_Protocol\<close>: the commands to the shell of Prosody and which answer each of them gets.
  \<^item> \<open>Token_Cache\<close>: the secrets of service accounts as a step relation with the purge of expired tokens.
  \<^item> \<open>Http_Client\<close>, \<open>Oauth2_Client\<close>, \<open>Xmpp_Client\<close>, \<open>Http_Proxy\<close>: the clients and the reverse proxies.
  \<^item> \<open>Backup_Progress\<close>, \<open>Backups_Api\<close>: \<^verbatim>\<open>api/src/router/backups.rs\<close>; \<open>Media\<close>, \<open>Color\<close>, \<open>Workspace\<close>: images, colors and
    \<^verbatim>\<open>api/src/router/workspace.rs\<close>; \<open>Extractors\<close>: who makes a request, and \<open>Access_Control\<close>:
    requests for admins (locale \<open>admin_handler\<close>, interpreted on each request on backups); \<open>Accounts\<close>: the first account and statistics;
    \<open>Analytics\<close>: events of client applications over a type of JSON values.
  \<^item> \<open>Bootstrap\<close>: every step of \<^verbatim>\<open>api/src/startup.rs\<close>; \<open>Boot_Refinement\<close>: the start that \<open>Lifecycle\<close> takes as an outcome
    is the one those steps give; \<open>Server_Main\<close>: \<open>main\<close> of \<^verbatim>\<open>api/src/lib.rs\<close>, how the server ends.

  \<^bold>\<open>What the theorems show.\<close>  Only verified bytes are restored, and a failed restoration leaves the files as they were
  (for destinations that do not contain one another); what is uploaded is what is checked later; mandatory signatures
  are enforced; keys are used only while usable; each archive entry goes to the most specific destination; caches stay
  within their bounds; stores list, read and delete what their contract says, with the exceptions found; a request has
  a caller only by an accepted token; the published state always has a router and, but for a failed factory
  reset, can be made operational again; backups are for admins;
  analytics leave the server only with the consent of the configuration; and what panics, loops or loses data in the
  code is stated as such.  The deviations are recorded with the theorem that shows each.

  \<^bold>\<open>Bounds.\<close>  No fuel is used.  Loops over lists are structural; \<open>walk_queue\<close>, \<open>write_all\<close>, \<open>io_copy\<close>, \<open>jpeg_loop\<close>,
  \<open>get_preset\<close>, \<open>split_str\<close> and \<open>s3_read_to_end\<close> end by a measure; \<open>read_response\<close>, \<open>s3_list_loop\<close> and \<open>poll_purge\<close> are
  partial, and the theorems about them say when they return.

  \<^bold>\<open>Not modelled.\<close>  Logging and tracing (\<^verbatim>\<open>api/src/util/tracing_subscriber_ext.rs\<close>); code derived by serde and the helpers
  of \<^verbatim>\<open>util/serde.rs\<close>; routing by axum; the connector of \<^verbatim>\<open>prosody_rest.rs\<close>, which is callbacks of the XMPP library;
  \<^verbatim>\<open>prosody-http/src/mod_http_admin_api.rs\<close>, a feature the server does not build; \<^verbatim>\<open>prosodyctl.rs\<close>, which wraps three
  commands; the lock guards of \<^verbatim>\<open>util/rw_lock_guards.rs\<close>; the sockets and the signal handlers of
  \<^verbatim>\<open>lib.rs\<close>; the static defaults of \<^verbatim>\<open>app_config.rs\<close>, a literal; the Lua modules of Prosody; and the examples,
  playgrounds, benchmarks and tests.  Threads inside one operation are taken as running one after the other.
\<close>

end
